(* ===== verification/Prelude.thy ===== *)
theory Prelude
  imports Main "HOL-Library.Sublist" "HOL-Library.AList"
begin

text \<open>
  Shared vocabulary of the development: Go integers, the pieces of the Go packages
  \<^verbatim>\<open>strings\<close> and \<^verbatim>\<open>strconv\<close> the program uses, and generic list lemmas.

  Conventions. A Go string is a \<^typ>\<open>string\<close>, one \<^typ>\<open>char\<close> per byte. Case mapping and
  white space are those of ASCII, which is what every flag, architecture name, cache key and
  number handled by the modelled code consists of. A Go \<^verbatim>\<open>int\<close> or \<^verbatim>\<open>int64\<close> is an
  \<^typ>\<open>int\<close>; the places where the code itself guards against a 64-bit overflow keep
  that guard with the constant \<open>max_int\<close>.
\<close>

named_theorems strlib \<open>facts about the modelled string package\<close>

type_synonym argv = "string list"

section \<open>Integers\<close>

definition max_int :: int where
  "max_int = 9223372036854775807"

definition min_int :: int where
  "min_int = - 9223372036854775808"

text \<open>Go division truncates towards zero.\<close>

definition go_div :: "int \<Rightarrow> int \<Rightarrow> int" where
  "go_div a b = sgn a * sgn b * (\<bar>a\<bar> div \<bar>b\<bar>)"

definition go_mod :: "int \<Rightarrow> int \<Rightarrow> int" where
  "go_mod a b = a - b * go_div a b"

lemma go_div_nonneg [simp]: "0 \<le> a \<Longrightarrow> 0 < b \<Longrightarrow> go_div a b = a div b"
  by (cases "a = 0") (auto simp: go_div_def sgn_if)

lemma go_mod_nonneg [simp]: "0 \<le> a \<Longrightarrow> 0 < b \<Longrightarrow> go_mod a b = a mod b"
  by (simp add: go_mod_def minus_mult_div_eq_mod)

text \<open>The value of an \<^verbatim>\<open>int64\<close> computation.\<close>

definition wrap64 :: "int \<Rightarrow> int" where
  "wrap64 i = (i + 9223372036854775808) mod 18446744073709551616 - 9223372036854775808"

lemma wrap64_id: "min_int \<le> i \<Longrightarrow> i \<le> max_int \<Longrightarrow> wrap64 i = i"
  by (simp add: wrap64_def min_int_def max_int_def)

lemma wrap64_add: "wrap64 (wrap64 a + b) = wrap64 (a + b)"
  by (simp add: wrap64_def mod_simps algebra_simps)

definition sum64 :: "int list \<Rightarrow> int" where
  "sum64 xs = foldl (\<lambda>acc x. wrap64 (acc + x)) 0 xs"

lemma foldl_wrap64: "foldl (\<lambda>acc x. wrap64 (acc + x)) (wrap64 a) xs = wrap64 (a + sum_list xs)"
  by (induction xs arbitrary: a) (simp_all add: wrap64_add add.assoc)

lemma sum64_eq: "sum64 xs = wrap64 (sum_list xs)"
  using foldl_wrap64 [of 0 xs] by (simp add: sum64_def wrap64_def)

section \<open>Characters\<close>

definition is_space :: "char \<Rightarrow> bool" where
  "is_space c \<longleftrightarrow> c \<in> {CHR '' '', CHR 0x09, CHR 0x0A, CHR 0x0B, CHR 0x0C, CHR 0x0D}"

definition to_lower_char :: "char \<Rightarrow> char" where
  "to_lower_char c =
     (let n = (of_char c :: nat) in if 65 \<le> n \<and> n \<le> 90 then char_of (n + 32) else c)"

definition to_upper_char :: "char \<Rightarrow> char" where
  "to_upper_char c =
     (let n = (of_char c :: nat) in if 97 \<le> n \<and> n \<le> 122 then char_of (n - 32) else c)"

definition is_digit :: "char \<Rightarrow> bool" where
  "is_digit c \<longleftrightarrow> 48 \<le> (of_char c :: nat) \<and> (of_char c :: nat) \<le> 57"

definition digit_val :: "char \<Rightarrow> nat" where
  "digit_val c = of_char c - 48"

definition digit_char :: "nat \<Rightarrow> char" where
  "digit_char d = char_of (d + 48)"

lemma of_char_digit_char: "d < 10 \<Longrightarrow> of_char (digit_char d) = d + (48 :: nat)"
  by (simp add: digit_char_def of_char_of)

lemma is_digit_digit_char [simp]: "d < 10 \<Longrightarrow> is_digit (digit_char d)"
  by (simp add: is_digit_def of_char_digit_char)

lemma digit_val_digit_char [simp]: "d < 10 \<Longrightarrow> digit_val (digit_char d) = d"
  by (simp add: digit_val_def of_char_digit_char)

section \<open>The package strings\<close>

definition to_lower :: "string \<Rightarrow> string" where
  "to_lower s = map to_lower_char s"

definition to_upper :: "string \<Rightarrow> string" where
  "to_upper s = map to_upper_char s"

definition equal_fold :: "string \<Rightarrow> string \<Rightarrow> bool" where
  "equal_fold s t \<longleftrightarrow> to_lower s = to_lower t"

definition trim_left :: "string \<Rightarrow> string" where
  "trim_left s = dropWhile is_space s"

definition trim_right :: "string \<Rightarrow> string" where
  "trim_right s = rev (dropWhile is_space (rev s))"

definition trim_space :: "string \<Rightarrow> string" where
  "trim_space s = trim_right (trim_left s)"

text \<open>\<^verbatim>\<open>strings.Trim(s, cutset)\<close>: drop the given characters at both ends.\<close>

definition trim_chars :: "char list \<Rightarrow> string \<Rightarrow> string" where
  "trim_chars cs s = rev (dropWhile (\<lambda>c. c \<in> set cs) (rev (dropWhile (\<lambda>c. c \<in> set cs) s)))"

fun has_prefix :: "string \<Rightarrow> string \<Rightarrow> bool" where
  "has_prefix _ [] = True"
| "has_prefix [] (_ # _) = False"
| "has_prefix (c # s) (d # p) = (c = d \<and> has_prefix s p)"

definition has_suffix :: "string \<Rightarrow> string \<Rightarrow> bool" where
  "has_suffix s p = has_prefix (rev s) (rev p)"

definition trim_prefix :: "string \<Rightarrow> string \<Rightarrow> string" where
  "trim_prefix s p = (if has_prefix s p then drop (length p) s else s)"

definition trim_suffix :: "string \<Rightarrow> string \<Rightarrow> string" where
  "trim_suffix s p = (if has_suffix s p then take (length s - length p) s else s)"

fun contains_sub :: "string \<Rightarrow> string \<Rightarrow> bool" where
  "contains_sub [] t = has_prefix [] t"
| "contains_sub (c # s) t = (has_prefix (c # s) t \<or> contains_sub s t)"

text \<open>\<^verbatim>\<open>strings.Split(s, sep)\<close> for a one-character separator: never empty.\<close>

fun split_char :: "char \<Rightarrow> string \<Rightarrow> string list" where
  "split_char sep [] = [[]]"
| "split_char sep (c # s) =
     (if c = sep then [] # split_char sep s
      else case split_char sep s of [] \<Rightarrow> [[c]] | p # ps \<Rightarrow> (c # p) # ps)"

fun join_with :: "string \<Rightarrow> string list \<Rightarrow> string" where
  "join_with sep [] = []"
| "join_with sep [p] = p"
| "join_with sep (p # q # ps) = p @ sep @ join_with sep (q # ps)"

text \<open>\<^verbatim>\<open>strings.Cut(s, sep)\<close> for a one-character separator.\<close>

definition cut_char :: "char \<Rightarrow> string \<Rightarrow> (string \<times> string) option" where
  "cut_char sep s =
     (if sep \<in> set s
      then Some (takeWhile (\<lambda>c. c \<noteq> sep) s, tl (dropWhile (\<lambda>c. c \<noteq> sep) s))
      else None)"

text \<open>\<^verbatim>\<open>strings.Fields\<close>: the maximal runs of non-space characters.\<close>

fun fields_acc :: "string \<Rightarrow> string \<Rightarrow> string list" where
  "fields_acc w [] = (if w = [] then [] else [rev w])"
| "fields_acc w (c # s) =
     (if is_space c then (if w = [] then fields_acc [] s else rev w # fields_acc [] s)
      else fields_acc (c # w) s)"

definition fields :: "string \<Rightarrow> string list" where
  "fields s = fields_acc [] s"

section \<open>The package strconv\<close>

fun digits_of_nat :: "nat \<Rightarrow> string" where
  "digits_of_nat n =
     (if n < 10 then [digit_char n] else digits_of_nat (n div 10) @ [digit_char (n mod 10)])"

declare digits_of_nat.simps [simp del]

definition itoa :: "int \<Rightarrow> string" where
  "itoa i = (if i < 0 then CHR ''-'' # digits_of_nat (nat (- i)) else digits_of_nat (nat i))"

definition nat_of_digits :: "string \<Rightarrow> nat" where
  "nat_of_digits s = foldl (\<lambda>acc c. 10 * acc + digit_val c) 0 s"

definition all_digits :: "string \<Rightarrow> bool" where
  "all_digits s \<longleftrightarrow> s \<noteq> [] \<and> list_all is_digit s"

text \<open>
  \<^verbatim>\<open>strconv.Atoi\<close>: an optional sign and at least one digit; a value outside the 64-bit
  range is an error whose returned value is the nearest bound, a syntax error returns 0.
  \<open>atoi\<close> is the value when there is no error, \<open>atoi_value\<close> what
  \<^verbatim>\<open>v, _ := strconv.Atoi(s)\<close> leaves in \<^verbatim>\<open>v\<close>.
\<close>

definition atoi_parse :: "string \<Rightarrow> int option" where
  "atoi_parse s =
     (case s of
        [] \<Rightarrow> None
      | c # r \<Rightarrow>
          if c = CHR ''-'' then (if all_digits r then Some (- int (nat_of_digits r)) else None)
          else if c = CHR ''+'' then (if all_digits r then Some (int (nat_of_digits r)) else None)
          else if all_digits s then Some (int (nat_of_digits s)) else None)"

definition atoi :: "string \<Rightarrow> int option" where
  "atoi s =
     (case atoi_parse s of
        None \<Rightarrow> None
      | Some v \<Rightarrow> if min_int \<le> v \<and> v \<le> max_int then Some v else None)"

definition atoi_value :: "string \<Rightarrow> int" where
  "atoi_value s =
     (case atoi_parse s of None \<Rightarrow> 0 | Some v \<Rightarrow> max min_int (min max_int v))"

lemma digits_of_nat_digits: "list_all is_digit (digits_of_nat n)"
proof (induction n rule: digits_of_nat.induct)
  case (1 n)
  then show ?case by (subst digits_of_nat.simps) simp
qed

lemma digits_of_nat_nonempty [simp]: "digits_of_nat n \<noteq> []"
  by (subst digits_of_nat.simps) simp

lemma all_digits_digits_of_nat [simp]: "all_digits (digits_of_nat n)"
  by (simp add: all_digits_def digits_of_nat_digits)

lemma nat_of_digits_snoc: "nat_of_digits (s @ [c]) = 10 * nat_of_digits s + digit_val c"
  by (simp add: nat_of_digits_def)

lemma nat_of_digits_of_nat [simp]: "nat_of_digits (digits_of_nat n) = n"
proof (induction n rule: digits_of_nat.induct)
  case (1 n)
  show ?case
  proof (cases "n < 10")
    case True
    then show ?thesis by (subst digits_of_nat.simps) (simp add: nat_of_digits_def)
  next
    case False
    with 1 show ?thesis by (subst digits_of_nat.simps) (simp add: nat_of_digits_snoc)
  qed
qed

lemma digit_not_special:
  assumes "is_digit c"
  shows "c \<noteq> CHR ''-''" "c \<noteq> CHR ''+''" "c \<noteq> CHR '':''" "c \<noteq> CHR ''|''" "c \<noteq> CHR '',''"
    "c \<noteq> CHR '')''" "c \<noteq> CHR ''=''" "c \<noteq> CHR ''.''" "c \<noteq> CHR 0x0A" "\<not> is_space c"
  using assms by (auto simp: is_digit_def is_space_def)

lemma atoi_parse_digits: "all_digits s \<Longrightarrow> atoi_parse s = Some (int (nat_of_digits s))"
  by (cases s) (auto simp: atoi_parse_def all_digits_def digit_not_special)

lemma atoi_parse_itoa [simp]: "atoi_parse (itoa i) = Some i"
proof (cases "i < 0")
  case True
  then show ?thesis by (simp add: itoa_def atoi_parse_def)
next
  case False
  then show ?thesis by (simp add: itoa_def atoi_parse_digits)
qed

lemma atoi_itoa [strlib]: "min_int \<le> i \<Longrightarrow> i \<le> max_int \<Longrightarrow> atoi (itoa i) = Some i"
  by (simp add: atoi_def)

lemma atoi_value_itoa [strlib]: "min_int \<le> i \<Longrightarrow> i \<le> max_int \<Longrightarrow> atoi_value (itoa i) = i"
  by (simp add: atoi_value_def)

lemma set_itoa_chars: "c \<in> set (itoa i) \<Longrightarrow> is_digit c \<or> c = CHR ''-''"
  using digits_of_nat_digits [of "nat i"] digits_of_nat_digits [of "nat (- i)"]
  by (auto simp: itoa_def list_all_iff split: if_splits)

lemma itoa_nonempty [simp]: "itoa i \<noteq> []"
  by (simp add: itoa_def)

section \<open>String lemmas\<close>

lemma has_prefix_append [simp]: "has_prefix (p @ s) p"
  by (induction p) auto

lemma has_prefix_iff: "has_prefix s p \<longleftrightarrow> (\<exists>r. s = p @ r)"
  by (induction s p rule: has_prefix.induct) auto

lemma has_suffix_append [simp]: "has_suffix (s @ p) p"
  by (simp add: has_suffix_def)

lemma has_suffix_iff: "has_suffix s p \<longleftrightarrow> (\<exists>r. s = r @ p)"
  by (auto simp: has_suffix_def has_prefix_iff) (metis rev_append rev_rev_ident)

lemma contains_sub_iff: "contains_sub s t \<longleftrightarrow> (\<exists>a b. s = a @ t @ b)"
proof (induction s)
  case Nil
  then show ?case by (cases t) auto
next
  case (Cons c s)
  have "(\<exists>a b. c # s = a @ t @ b) \<longleftrightarrow> (\<exists>b. c # s = t @ b) \<or> (\<exists>a b. s = a @ t @ b)" (is "?l = ?r")
  proof
    assume ?l
    then obtain a b where "c # s = a @ t @ b" by blast
    then show ?r by (cases a) auto
  next
    assume ?r
    then show ?l
      by (metis append_Cons append_Nil)
  qed
  with Cons.IH show ?case by (simp add: has_prefix_iff)
qed

lemma split_char_nonempty [simp]: "split_char sep s \<noteq> []"
  by (induction s) (auto split: list.splits)

lemma split_char_no_sep: "sep \<notin> set s \<Longrightarrow> split_char sep s = [s]"
  by (induction s) auto

lemma split_char_append:
  "sep \<notin> set p \<Longrightarrow> split_char sep (p @ sep # s) = p # split_char sep s"
  by (induction p) auto

lemma split_char_join:
  "ps \<noteq> [] \<Longrightarrow> \<forall>p \<in> set ps. sep \<notin> set p \<Longrightarrow> split_char sep (join_with [sep] ps) = ps"
proof (induction ps rule: induct_list012)
  case (3 p q ps)
  then show ?case by (simp add: split_char_append)
qed (auto simp: split_char_no_sep)

lemma trim_space_ident:
  "s = [] \<or> \<not> is_space (hd s) \<and> \<not> is_space (last s) \<Longrightarrow> trim_space s = s"
proof (cases "s = []")
  case True
  then show ?thesis by (simp add: trim_space_def trim_left_def trim_right_def)
next
  case False
  moreover assume "s = [] \<or> \<not> is_space (hd s) \<and> \<not> is_space (last s)"
  ultimately have h: "\<not> is_space (hd s)" and l: "\<not> is_space (last s)" by auto
  from False h have "trim_left s = s"
    by (cases s) (auto simp: trim_left_def)
  moreover from False l have "trim_right s = s"
    by (cases s rule: rev_cases) (auto simp: trim_right_def)
  ultimately show ?thesis by (simp add: trim_space_def)
qed

lemma trim_space_idem [simp]: "trim_space (trim_space s) = trim_space s"
proof -
  let ?t = "trim_space s"
  have r: "x = [] \<or> \<not> is_space (last x)" if "x = trim_right y" for x y
    using that hd_dropWhile [of is_space "rev y"]
    by (cases "dropWhile is_space (rev y) = []") (auto simp: trim_right_def last_rev)
  have pre: "\<exists>z. y = trim_right y @ z" for y
  proof -
    have "rev y = takeWhile is_space (rev y) @ dropWhile is_space (rev y)" by simp
    then have "y = rev (dropWhile is_space (rev y)) @ rev (takeWhile is_space (rev y))"
      by (metis rev_append rev_rev_ident)
    then show ?thesis unfolding trim_right_def by blast
  qed
  have "?t = [] \<or> \<not> is_space (hd ?t)"
  proof (cases "?t = []")
    case False
    obtain z where z: "trim_left s = ?t @ z"
      using pre [of "trim_left s"] by (auto simp: trim_space_def)
    with False have ne: "trim_left s \<noteq> []" by auto
    with z False have "hd ?t = hd (trim_left s)" by (metis hd_append2)
    moreover from ne have "\<not> is_space (hd (trim_left s))"
      by (simp add: trim_left_def hd_dropWhile)
    ultimately show ?thesis by simp
  qed simp
  moreover have "?t = [] \<or> \<not> is_space (last ?t)"
    by (rule r [of _ "trim_left s"]) (simp add: trim_space_def)
  ultimately show ?thesis using trim_space_ident [of ?t] by blast
qed

lemma to_lower_char_idem [simp]: "to_lower_char (to_lower_char c) = to_lower_char c"
  by (auto simp: to_lower_char_def Let_def of_char_of)

lemma to_lower_idem [simp]: "to_lower (to_lower s) = to_lower s"
  by (simp add: to_lower_def)

lemma equal_fold_refl [simp]: "equal_fold s s"
  by (simp add: equal_fold_def)

lemma cut_char_append: "sep \<notin> set k \<Longrightarrow> cut_char sep (k @ sep # v) = Some (k, v)"
proof -
  assume a: "sep \<notin> set k"
  then have "takeWhile (\<lambda>c. c \<noteq> sep) (k @ sep # v) = k"
    by (subst takeWhile_append2) auto
  moreover from a have "dropWhile (\<lambda>c. c \<noteq> sep) (k @ sep # v) = sep # v"
    by (subst dropWhile_append2) auto
  ultimately show ?thesis by (simp add: cut_char_def)
qed

lemma fields_acc_word:
  "list_all (\<lambda>c. \<not> is_space c) p \<Longrightarrow> fields_acc w (p @ s) = fields_acc (rev p @ w) s"
  by (induction p arbitrary: w) auto

lemma fields_join:
  "\<forall>p \<in> set ps. p \<noteq> [] \<and> list_all (\<lambda>c. \<not> is_space c) p \<Longrightarrow> fields (join_with '' '' ps) = ps"
proof (induction ps rule: induct_list012)
  case 1
  then show ?case by (simp add: fields_def)
next
  case (2 p)
  then show ?case using fields_acc_word [of p "[]" "[]"] by (simp add: fields_def)
next
  case (3 p q ps)
  then show ?case
    by (simp add: fields_def fields_acc_word [of p "[]"] is_space_def)
qed

section \<open>Ceiling division\<close>

lemma ceil_div_bounds:
  fixes n d :: int
  assumes "0 < d"
  shows "n \<le> ((n + d - 1) div d) * d" and "((n + d - 1) div d) * d < n + d"
proof -
  have e: "(n + d - 1) = ((n + d - 1) div d) * d + (n + d - 1) mod d"
    by simp
  have "(n + d - 1) mod d < d" and "0 \<le> (n + d - 1) mod d"
    using assms by simp_all
  with e show "n \<le> ((n + d - 1) div d) * d" and "((n + d - 1) div d) * d < n + d"
    by linarith+
qed

lemma ceil_div_least:
  fixes n d k :: int
  assumes "0 < d" "n \<le> k * d"
  shows "(n + d - 1) div d \<le> k"
proof -
  have "(n + d - 1) div d \<le> (k * d + d - 1) div d"
    using assms by (intro zdiv_mono1) auto
  also have "\<dots> = k"
    using assms(1) by (simp add: add_diff_eq [symmetric] div_add1_eq)
  finally show ?thesis .
qed


section \<open>Counting over an updated list\<close>

lemma length_filter_update:
  "i < length xs \<Longrightarrow>
   int (length (filter P (xs[i := x]))) =
     int (length (filter P xs)) - (if P (xs ! i) then 1 else 0) + (if P x then 1 else 0)"
proof (induction xs arbitrary: i)
  case Nil
  then show ?case by simp
next
  case (Cons y ys)
  show ?case
  proof (cases i)
    case 0
    then show ?thesis by simp
  next
    case (Suc j)
    with Cons.prems have "j < length ys" by simp
    from Cons.IH [OF this] Suc show ?thesis by (auto split: if_splits)
  qed
qed

lemma length_filter_weaker:
  "(\<And>x. P x \<Longrightarrow> Q x) \<Longrightarrow> length (filter P xs) \<le> length (filter Q xs)"
  by (induction xs) auto

end
