(* ===== verification/BestScan.thy ===== *)
theory BestScan
  imports Prelude
begin

text \<open>
  Several parts of the program pick one element of a slice with the same loop: walk the slice
  once, skip what is not eligible, and replace the current choice only when the new element is
  strictly better (\<^verbatim>\<open>bestAdmissibleWaiterLocked\<close> of the request scheduler,
  \<^verbatim>\<open>packGateUpChunks\<close> of the placement engine). \<open>scan_best\<close> is that loop; the
  locale \<open>scan_order\<close> is the contract of its comparison (a strict weak order), under which
  the loop returns the first best eligible element.
\<close>

fun scan_best ::
  "('a \<Rightarrow> bool) \<Rightarrow> ('a \<Rightarrow> 'k) \<Rightarrow> ('k \<Rightarrow> 'k \<Rightarrow> bool) \<Rightarrow> nat \<Rightarrow> 'a list \<Rightarrow> (nat \<times> 'k) option
     \<Rightarrow> (nat \<times> 'k) option" where
  "scan_best ok key lt i [] best = best"
| "scan_best ok key lt i (x # xs) best =
     (if \<not> ok x then scan_best ok key lt (Suc i) xs best
      else case best of
             None \<Rightarrow> scan_best ok key lt (Suc i) xs (Some (i, key x))
           | Some (b, bk) \<Rightarrow>
               scan_best ok key lt (Suc i) xs (if lt (key x) bk then Some (i, key x) else best))"

text \<open>
  The loop invariant: \<open>best\<close> describes the part of the slice before index \<open>i\<close>.
\<close>

definition scan_inv ::
  "('a \<Rightarrow> bool) \<Rightarrow> ('a \<Rightarrow> 'k) \<Rightarrow> ('k \<Rightarrow> 'k \<Rightarrow> bool) \<Rightarrow> 'a list \<Rightarrow> (nat \<times> 'k) option \<Rightarrow> bool" where
  "scan_inv ok key lt xs best \<longleftrightarrow>
     (case best of
        None \<Rightarrow> \<forall>x \<in> set xs. \<not> ok x
      | Some (b, k) \<Rightarrow>
          b < length xs \<and> ok (xs ! b) \<and> k = key (xs ! b) \<and>
          (\<forall>j < length xs. ok (xs ! j) \<longrightarrow> \<not> lt (key (xs ! j)) k) \<and>
          (\<forall>j < b. ok (xs ! j) \<longrightarrow> lt k (key (xs ! j))))"

locale scan_order =
  fixes lt :: "'k \<Rightarrow> 'k \<Rightarrow> bool"
  assumes lt_irrefl: "\<not> lt k k"
    and lt_trans: "lt a b \<Longrightarrow> lt b c \<Longrightarrow> lt a c"
    and lt_neg_trans: "\<not> lt a b \<Longrightarrow> \<not> lt b c \<Longrightarrow> \<not> lt a c"
begin

lemma lt_asym: "lt a b \<Longrightarrow> \<not> lt b a"
  using lt_irrefl lt_trans by blast

lemma scan_inv_skip:
  "scan_inv ok key lt xs best \<Longrightarrow> \<not> ok x \<Longrightarrow> scan_inv ok key lt (xs @ [x]) best"
  by (auto simp: scan_inv_def nth_append less_Suc_eq split: option.splits)

lemma scan_inv_first:
  "scan_inv ok key lt xs None \<Longrightarrow> ok x \<Longrightarrow> scan_inv ok key lt (xs @ [x]) (Some (length xs, key x))"
  by (auto simp: scan_inv_def nth_append less_Suc_eq lt_irrefl)

lemma scan_inv_keep:
  "scan_inv ok key lt xs (Some (b, k)) \<Longrightarrow> \<not> lt (key x) k \<Longrightarrow>
   scan_inv ok key lt (xs @ [x]) (Some (b, k))"
  by (auto simp: scan_inv_def nth_append less_Suc_eq)

lemma scan_inv_replace:
  assumes "scan_inv ok key lt xs (Some (b, k))" "ok x" "lt (key x) k"
  shows "scan_inv ok key lt (xs @ [x]) (Some (length xs, key x))"
proof -
  have "lt (key x) (key (xs ! j))" if "j < length xs" "ok (xs ! j)" for j
  proof -
    have "\<not> lt (key (xs ! j)) k" using that assms(1) by (auto simp: scan_inv_def)
    with assms(3) show ?thesis using lt_neg_trans by blast
  qed
  then show ?thesis
    using assms(2) by (auto simp: scan_inv_def nth_append less_Suc_eq lt_irrefl dest: lt_asym)
qed

lemma scan_best_inv:
  "scan_inv ok key lt pre best \<Longrightarrow>
   scan_inv ok key lt (pre @ xs) (scan_best ok key lt (length pre) xs best)"
proof (induction xs arbitrary: pre best)
  case Nil
  then show ?case by simp
next
  case (Cons x xs)
  have step: "scan_inv ok key lt (pre @ [x]) b \<Longrightarrow>
    scan_inv ok key lt (pre @ x # xs) (scan_best ok key lt (Suc (length pre)) xs b)" for b
    using Cons.IH [of "pre @ [x]" b] by simp
  show ?case
  proof (cases "ok x")
    case False
    with Cons.prems show ?thesis by (auto intro!: step scan_inv_skip)
  next
    case True
    note ok = this
    show ?thesis
    proof (cases best)
      case None
      with ok Cons.prems show ?thesis by (simp add: step scan_inv_first)
    next
      case (Some bk)
      obtain b k where "best = Some (b, k)" using Some by (cases bk) auto
      with ok Cons.prems show ?thesis
        by (simp add: step scan_inv_keep scan_inv_replace)
    qed
  qed
qed

text \<open>What the loop returns on a whole slice.\<close>

lemma scan_best_none:
  "scan_best ok key lt 0 xs None = None \<longleftrightarrow> (\<forall>x \<in> set xs. \<not> ok x)"
proof
  assume "scan_best ok key lt 0 xs None = None"
  then show "\<forall>x \<in> set xs. \<not> ok x"
    using scan_best_inv [of ok key "[]" None xs] by (simp add: scan_inv_def)
next
  assume a: "\<forall>x \<in> set xs. \<not> ok x"
  have "scan_inv ok key lt xs (scan_best ok key lt 0 xs None)"
    using scan_best_inv [of ok key "[]" None xs] by (simp add: scan_inv_def)
  with a show "scan_best ok key lt 0 xs None = None"
    by (auto simp: scan_inv_def split: option.splits)
qed

lemma scan_best_some:
  assumes "scan_best ok key lt 0 xs None = Some (b, k)"
  shows "b < length xs" "ok (xs ! b)" "k = key (xs ! b)"
    and "j < length xs \<Longrightarrow> ok (xs ! j) \<Longrightarrow> \<not> lt (key (xs ! j)) k"
    and "j < b \<Longrightarrow> ok (xs ! j) \<Longrightarrow> lt k (key (xs ! j))"
  using scan_best_inv [of ok key "[]" None xs] assms
  by (auto simp: scan_inv_def)

end

end
