(* ===== verification/Scheduler.thy ===== *)
theory Scheduler
  imports BestScan "HOL-Library.Multiset"
begin

text \<open>
  The main-model request scheduler of \<^verbatim>\<open>go/pkg/claudeauto/scheduler.go\<close>: a bounded
  number of requests hold a slot, the others wait, and a released slot goes to the waiter that
  is first by lane, then by fair share, then by age. In phase-aware mode a long cold prompt
  runs alone and a second request may only join while nobody is prefilling.

  State. The mutex-protected fields of \<^verbatim>\<open>scheduler\<close> are the record \<open>sched\<close>; the
  \<^verbatim>\<open>*admission\<close> pointers handed to callers are indices into the list \<open>adms\<close>, a
  \<^verbatim>\<open>*waiter\<close> is its number \<open>w_id\<close>, and closing \<^verbatim>\<open>w.ready\<close> after setting
  \<^verbatim>\<open>w.admission\<close> is the entry of \<open>granted\<close>. Every operation is one critical section
  and reads the clock once (\<open>now\<close>, nanoseconds; the zero \<^verbatim>\<open>time.Time\<close> is 0). A map
  is an association list whose order stands for Go's iteration order.
\<close>

section \<open>Data\<close>

datatype lane = LaneSafety | LaneInteractive | LaneBulk

datatype request_class = RequestSmall | RequestCold

fun lane_rank :: "lane \<Rightarrow> nat" where
  "lane_rank LaneSafety = 0"
| "lane_rank LaneInteractive = 1"
| "lane_rank LaneBulk = 2"

instantiation lane :: linorder
begin

definition less_eq_lane :: "lane \<Rightarrow> lane \<Rightarrow> bool" where
  "less_eq_lane a b \<longleftrightarrow> lane_rank a \<le> lane_rank b"

definition less_lane :: "lane \<Rightarrow> lane \<Rightarrow> bool" where
  "less_lane a b \<longleftrightarrow> lane_rank a < lane_rank b"

instance
proof
  fix a b :: lane
  show "a \<le> b \<Longrightarrow> b \<le> a \<Longrightarrow> a = b"
    by (cases a; cases b) (auto simp: less_eq_lane_def)
qed (auto simp: less_eq_lane_def less_lane_def)

end

record waiter =
  w_id :: nat
  w_conversation :: string
  w_lane :: lane
  w_prompt_tokens :: int
  w_class :: request_class
  w_enqueued :: int

record admission =
  a_conversation :: string
  a_prompt_tokens :: int
  a_prefilling :: bool
  a_released :: bool

record sched =
  limit :: int
  active :: int
  prefill :: int
  waiting :: "waiter list"
  recent :: "(string \<times> int) list"
  prompt_tokens :: "(string \<times> int) list"
  phase_aware :: bool
  cold_tokens :: int
  adms :: "admission list"
  granted :: "(nat \<times> nat) list"
  next_waiter :: nat

definition fair_share_window :: int where
  "fair_share_window = 5 * 60 * 1000000000"

definition aging_after :: int where
  "aging_after = 90 * 1000000000"

definition new_scheduler :: "int \<Rightarrow> sched" where
  "new_scheduler l =
     \<lparr>limit = l, active = 0, prefill = 0, waiting = [], recent = [], prompt_tokens = [],
      phase_aware = False, cold_tokens = 8192, adms = [], granted = [], next_waiter = 0\<rparr>"

definition set_phase_aware :: "bool \<Rightarrow> int \<Rightarrow> sched \<Rightarrow> sched" where
  "set_phase_aware enabled cold s =
     (let s1 = s\<lparr>phase_aware := (enabled \<and> limit s > 1)\<rparr>
      in if cold > 0 then s1\<lparr>cold_tokens := cold\<rparr> else s1)"

text \<open>\<^verbatim>\<open>laneOf\<close>: the classifier test on the request body is a parameter (it parses JSON).\<close>

definition lane_of :: "('body \<Rightarrow> bool) \<Rightarrow> 'body \<Rightarrow> lane" where
  "lane_of is_classifier body = (if is_classifier body then LaneSafety else LaneBulk)"

section \<open>Classification and admission\<close>

definition classify :: "sched \<Rightarrow> string \<Rightarrow> int \<Rightarrow> request_class" where
  "classify s conv tokens =
     (if \<not> phase_aware s \<or> tokens < cold_tokens s then RequestSmall
      else case map_of (prompt_tokens s) conv of
             Some previous \<Rightarrow>
               if tokens \<ge> previous \<and> tokens - previous < cold_tokens s then RequestSmall
               else RequestCold
           | None \<Rightarrow> RequestCold)"

definition can_admit :: "sched \<Rightarrow> waiter \<Rightarrow> bool" where
  "can_admit s w =
     (if active s \<ge> limit s then False
      else if \<not> phase_aware s then True
      else if w_class w = RequestCold then active s = 0
      else prefill s = 0)"

definition admit :: "waiter \<Rightarrow> sched \<Rightarrow> sched \<times> nat" where
  "admit w s =
     (let a = \<lparr>a_conversation = w_conversation w, a_prompt_tokens = w_prompt_tokens w,
               a_prefilling = (phase_aware s \<and> w_prompt_tokens w > 0), a_released = False\<rparr>
      in (s\<lparr>active := active s + 1,
            prefill := (if a_prefilling a then prefill s + 1 else prefill s),
            adms := adms s @ [a]\<rparr>, length (adms s)))"

section \<open>Ordering of the waiters\<close>

datatype waiter_key = WaiterKey (key_lane: lane) (key_served: int) (key_enqueued: int)

definition waiter_less :: "waiter_key \<Rightarrow> waiter_key \<Rightarrow> bool" where
  "waiter_less k other =
     (if key_lane k \<noteq> key_lane other then key_lane k < key_lane other
      else if key_served k \<noteq> key_served other then key_served k < key_served other
      else key_enqueued k < key_enqueued other)"

definition sort_key_locked :: "sched \<Rightarrow> int \<Rightarrow> waiter \<Rightarrow> waiter_key" where
  "sort_key_locked s now w =
     (let lane = (if w_lane w > LaneInteractive \<and> now - w_enqueued w \<ge> aging_after
                  then LaneInteractive else w_lane w);
          served = (if w_conversation w \<noteq> [] then
                      (case map_of (recent s) (w_conversation w) of
                         Some seen \<Rightarrow> if now - seen \<le> fair_share_window then seen else 0
                       | None \<Rightarrow> 0)
                    else 0)
      in WaiterKey lane served (w_enqueued w))"

definition best_admissible :: "sched \<Rightarrow> int \<Rightarrow> nat option" where
  "best_admissible s now =
     map_option fst (scan_best (can_admit s) (sort_key_locked s now) waiter_less 0 (waiting s) None)"

text \<open>\<^verbatim>\<open>promoteLocked\<close>: one iteration of its loop removes one waiter.\<close>

definition remove_at :: "nat \<Rightarrow> 'a list \<Rightarrow> 'a list" where
  "remove_at i xs = take i xs @ drop (Suc i) xs"

definition promote_one :: "nat \<Rightarrow> sched \<Rightarrow> sched" where
  "promote_one idx s =
     (let w = waiting s ! idx;
          (s1, a) = admit w (s\<lparr>waiting := remove_at idx (waiting s)\<rparr>)
      in s1\<lparr>granted := (w_id w, a) # granted s1\<rparr>)"

fun promote_loop :: "nat \<Rightarrow> int \<Rightarrow> sched \<Rightarrow> sched" where
  "promote_loop 0 now s = s"
| "promote_loop (Suc n) now s =
     (if active s < limit s \<and> waiting s \<noteq> [] then
        (case best_admissible s now of
           None \<Rightarrow> s
         | Some idx \<Rightarrow> promote_loop n now (promote_one idx s))
      else s)"

definition promote :: "int \<Rightarrow> sched \<Rightarrow> sched" where
  "promote now s = promote_loop (length (waiting s)) now s"

section \<open>Requests\<close>

datatype acquire_result =
    Unbounded          \<comment> \<open>no limit configured: \<^verbatim>\<open>&admission{}\<close>\<close>
  | Admitted nat       \<comment> \<open>admitted at once\<close>
  | Queued nat         \<comment> \<open>parked; the caller blocks on the waiter's channel\<close>

definition acquire_request :: "string \<Rightarrow> lane \<Rightarrow> int \<Rightarrow> int \<Rightarrow> sched \<Rightarrow> sched \<times> acquire_result" where
  "acquire_request conv l tokens now s =
     (if limit s \<le> 0 then (s, Unbounded)
      else
        let w = \<lparr>w_id = next_waiter s, w_conversation = conv, w_lane = l, w_prompt_tokens = tokens,
                 w_class = classify s conv tokens, w_enqueued = now\<rparr>;
            s0 = s\<lparr>next_waiter := Suc (next_waiter s)\<rparr>
        in if waiting s = [] \<and> can_admit s0 w
           then (let (s1, a) = admit w s0 in (s1, Admitted a))
           else (promote now (s0\<lparr>waiting := waiting s0 @ [w]\<rparr>), Queued (w_id w)))"

text \<open>\<^verbatim>\<open>pruneRecentLocked\<close>.\<close>

definition drop_keys :: "string set \<Rightarrow> (string \<times> int) list \<Rightarrow> (string \<times> int) list" where
  "drop_keys ks m = filter (\<lambda>(k, _). k \<notin> ks) m"

definition prune_recent :: "int \<Rightarrow> sched \<Rightarrow> sched" where
  "prune_recent now s =
     (if length (recent s) \<le> 256 then s
      else
        let old = set (map fst (filter (\<lambda>(_, seen). now - seen > fair_share_window) (recent s)));
            s1 = s\<lparr>recent := drop_keys old (recent s),
                   prompt_tokens := drop_keys old (prompt_tokens s)\<rparr>
        in if length (recent s1) \<le> 256 then s1
           else
             let entries = sort_key (\<lambda>(_, seen). - seen) (recent s1);
                 extra = set (map fst (drop 256 entries))
             in s1\<lparr>recent := drop_keys extra (recent s1),
                   prompt_tokens := drop_keys extra (prompt_tokens s1)\<rparr>)"


definition release_locked :: "nat \<Rightarrow> bool \<Rightarrow> int \<Rightarrow> sched \<Rightarrow> sched" where
  "release_locked a remember now s =
     (let r = adms s ! a in
      if a_released r then s
      else
        let s1 = s\<lparr>adms := (adms s)[a := r\<lparr>a_released := True\<rparr>],
                   prefill := (if a_prefilling r then prefill s - 1 else prefill s),
                   active := active s - 1\<rparr>
        in if remember \<and> a_conversation r \<noteq> [] then
             prune_recent now
               (s1\<lparr>recent := AList.update (a_conversation r) now (recent s1),
                   prompt_tokens :=
                     (if a_prompt_tokens r > 0
                      then AList.update (a_conversation r) (a_prompt_tokens r) (prompt_tokens s1)
                      else prompt_tokens s1)\<rparr>)
           else s1)"

text \<open>
  The second half of \<^verbatim>\<open>acquireRequest\<close> when the request's context ends while it is
  parked: drop the waiter from the queue, or hand on the slot it was just given.
\<close>

fun find_waiter :: "nat \<Rightarrow> nat \<Rightarrow> waiter list \<Rightarrow> nat option" where
  "find_waiter wid i [] = None"
| "find_waiter wid i (w # ws) = (if w_id w = wid then Some i else find_waiter wid (Suc i) ws)"

definition cancel_request :: "nat \<Rightarrow> int \<Rightarrow> sched \<Rightarrow> sched" where
  "cancel_request wid now s =
     (case find_waiter wid 0 (waiting s) of
        Some i \<Rightarrow> s\<lparr>waiting := remove_at i (waiting s)\<rparr>
      | None \<Rightarrow>
          (case map_of (granted s) wid of
             Some a \<Rightarrow> promote now (release_locked a False now s)
           | None \<Rightarrow> promote now s))"

text \<open>
  \<^verbatim>\<open>markDecode\<close> and \<^verbatim>\<open>(*admission).release\<close>; \<^const>\<open>None\<close> is an admission
  without a scheduler, which both ignore.
\<close>

definition mark_decode :: "nat option \<Rightarrow> int \<Rightarrow> sched \<Rightarrow> sched" where
  "mark_decode oa now s =
     (case oa of
        None \<Rightarrow> s
      | Some a \<Rightarrow>
          let r = adms s ! a in
          if a_released r \<or> \<not> a_prefilling r then s
          else promote now (s\<lparr>adms := (adms s)[a := r\<lparr>a_prefilling := False\<rparr>],
                              prefill := prefill s - 1\<rparr>))"

definition release_admission :: "nat option \<Rightarrow> int \<Rightarrow> sched \<Rightarrow> sched" where
  "release_admission oa now s =
     (case oa of
        None \<Rightarrow> s
      | Some a \<Rightarrow> promote now (release_locked a True now s))"

text \<open>
  The legacy pair \<^verbatim>\<open>acquire\<close>/\<^verbatim>\<open>release(conversation)\<close>: a counting semaphore
  that keeps no admission handle.
\<close>

definition acquire_legacy :: "string \<Rightarrow> lane \<Rightarrow> int \<Rightarrow> sched \<Rightarrow> sched \<times> acquire_result" where
  "acquire_legacy conv l now s = acquire_request conv l 0 now s"

definition release_legacy :: "string \<Rightarrow> int \<Rightarrow> sched \<Rightarrow> sched" where
  "release_legacy conv now s =
     (if limit s \<le> 0 then s
      else
        let s1 = (if conv \<noteq> [] then prune_recent now (s\<lparr>recent := AList.update conv now (recent s)\<rparr>)
                  else s)
        in promote now (s1\<lparr>active := active s1 - 1\<rparr>))"

definition sched_stats :: "sched \<Rightarrow> int \<times> nat \<times> int" where
  "sched_stats s = (active s, length (waiting s), limit s)"

definition sched_status :: "sched \<Rightarrow> bool \<times> int \<times> int \<times> int" where
  "sched_status s = (phase_aware s, prefill s, max 0 (active s - prefill s), cold_tokens s)"

section \<open>Runs of the router\<close>

text \<open>
  The router holds one admission per in-flight request and uses four operations on it; they
  may come in any order, for any request, at any time.
\<close>

inductive sched_step :: "sched \<Rightarrow> sched \<Rightarrow> bool" where
  step_acquire: "sched_step s (fst (acquire_request conv l tokens now s))"
| step_cancel: "wid \<in> w_id ` set (waiting s) \<union> fst ` set (granted s) \<Longrightarrow>
     sched_step s (cancel_request wid now s)"
| step_decode: "a < length (adms s) \<Longrightarrow> sched_step s (mark_decode (Some a) now s)"
| step_release: "a < length (adms s) \<Longrightarrow> sched_step s (release_admission (Some a) now s)"

inductive sched_reach :: "int \<Rightarrow> bool \<Rightarrow> int \<Rightarrow> sched \<Rightarrow> bool" for l aware cold where
  reach_start: "sched_reach l aware cold (set_phase_aware aware cold (new_scheduler l))"
| reach_step: "sched_reach l aware cold s \<Longrightarrow> sched_step s t \<Longrightarrow> sched_reach l aware cold t"


section \<open>The order of the waiters\<close>

interpretation wk: scan_order waiter_less
proof
  fix k a b c :: waiter_key
  show "\<not> waiter_less k k" by (simp add: waiter_less_def)
  show "waiter_less a b \<Longrightarrow> waiter_less b c \<Longrightarrow> waiter_less a c"
    by (auto simp: waiter_less_def split: if_splits)
  show "\<not> waiter_less a b \<Longrightarrow> \<not> waiter_less b c \<Longrightarrow> \<not> waiter_less a c"
    by (auto simp: waiter_less_def not_less split: if_splits)
qed

lemma best_admissible_none:
  "best_admissible s now = None \<longleftrightarrow> (\<forall>w \<in> set (waiting s). \<not> can_admit s w)"
  by (simp add: best_admissible_def wk.scan_best_none)

lemma best_admissible_some:
  assumes "best_admissible s now = Some i"
  shows "i < length (waiting s)" "can_admit s (waiting s ! i)"
    and "j < length (waiting s) \<Longrightarrow> can_admit s (waiting s ! j) \<Longrightarrow>
      \<not> waiter_less (sort_key_locked s now (waiting s ! j)) (sort_key_locked s now (waiting s ! i))"
    and "j < i \<Longrightarrow> can_admit s (waiting s ! j) \<Longrightarrow>
      waiter_less (sort_key_locked s now (waiting s ! i)) (sort_key_locked s now (waiting s ! j))"
proof -
  from assms obtain k where
    k: "scan_best (can_admit s) (sort_key_locked s now) waiter_less 0 (waiting s) None = Some (i, k)"
    by (auto simp: best_admissible_def)
  note facts = wk.scan_best_some [OF k]
  from facts(3) have e: "k = sort_key_locked s now (waiting s ! i)" .
  from facts(1) show "i < length (waiting s)" .
  from facts(2) show "can_admit s (waiting s ! i)" .
  show "\<not> waiter_less (sort_key_locked s now (waiting s ! j)) (sort_key_locked s now (waiting s ! i))"
    if "j < length (waiting s)" "can_admit s (waiting s ! j)"
    using facts(4) [OF that] e by simp
  show "waiter_less (sort_key_locked s now (waiting s ! i)) (sort_key_locked s now (waiting s ! j))"
    if "j < i" "can_admit s (waiting s ! j)"
    using facts(5) [OF that] e by simp
qed

section \<open>The invariant\<close>

definition live_count :: "sched \<Rightarrow> int" where
  "live_count s = int (length (filter (\<lambda>r. \<not> a_released r) (adms s)))"

definition prefilling_count :: "sched \<Rightarrow> int" where
  "prefilling_count s = int (length (filter (\<lambda>r. \<not> a_released r \<and> a_prefilling r) (adms s)))"

definition sched_inv :: "sched \<Rightarrow> bool" where
  "sched_inv s \<longleftrightarrow>
     0 < limit s \<and> active s = live_count s \<and> prefill s = prefilling_count s \<and>
     active s \<le> limit s \<and> prefill s \<le> 1 \<and> (\<forall>(w, a) \<in> set (granted s). a < length (adms s))"

definition work_conserving :: "sched \<Rightarrow> bool" where
  "work_conserving s \<longleftrightarrow> (\<forall>w \<in> set (waiting s). \<not> can_admit s w)"

lemma prefilling_le_live: "prefilling_count s \<le> live_count s"
  unfolding prefilling_count_def live_count_def of_nat_le_iff
  by (rule length_filter_weaker) simp

lemma counts_nonneg [simp]: "0 \<le> live_count s" "0 \<le> prefilling_count s"
  by (simp_all add: live_count_def prefilling_count_def)

lemma can_admit_prefill:
  assumes "sched_inv s" "can_admit s w" "phase_aware s"
  shows "prefill s = 0"
  using assms prefilling_le_live [of s]
  by (auto simp: can_admit_def sched_inv_def split: if_splits)
     (metis counts_nonneg(2) order_antisym)

lemma admit_inv:
  assumes "sched_inv s" "can_admit s w"
  shows "sched_inv (fst (admit w s))"
proof -
  have "active s < limit s" using assms(2) by (auto simp: can_admit_def split: if_splits)
  moreover have "phase_aware s \<Longrightarrow> prefill s = 0" using can_admit_prefill assms by blast
  ultimately show ?thesis
    using assms(1)
    by (auto simp: sched_inv_def admit_def Let_def live_count_def prefilling_count_def)
qed

lemma can_admit_waiting [simp]: "can_admit (s\<lparr>waiting := ws\<rparr>) = can_admit s"
  by (auto simp: can_admit_def fun_eq_iff)

lemma sched_inv_waiting [simp]: "sched_inv (s\<lparr>waiting := ws\<rparr>) = sched_inv s"
  by (simp add: sched_inv_def live_count_def prefilling_count_def)

lemma length_remove_at: "i < length xs \<Longrightarrow> length (remove_at i xs) = length xs - 1"
  by (simp add: remove_at_def)

lemma waiting_promote_one: "waiting (promote_one i s) = remove_at i (waiting s)"
  by (simp add: promote_one_def admit_def Let_def)

lemma promote_one_inv:
  assumes "sched_inv s" "can_admit s (waiting s ! i)"
  shows "sched_inv (promote_one i s)"
proof -
  let ?w = "waiting s ! i"
  let ?s0 = "s\<lparr>waiting := remove_at i (waiting s)\<rparr>"
  have "sched_inv (fst (admit ?w ?s0))" using assms by (intro admit_inv) simp_all
  then show ?thesis
    by (auto simp: promote_one_def admit_def Let_def sched_inv_def live_count_def
        prefilling_count_def)
qed

lemma promote_loop_inv: "sched_inv s \<Longrightarrow> sched_inv (promote_loop n now s)"
proof (induction n arbitrary: s)
  case (Suc n)
  then show ?case
    by (auto simp: split: option.splits intro!: Suc.IH promote_one_inv dest: best_admissible_some(2))
qed simp

text \<open>The fuel of \<open>promote\<close> is enough: every iteration shortens the queue.\<close>

lemma promote_loop_conserving:
  "length (waiting s) \<le> n \<Longrightarrow> work_conserving (promote_loop n now s)"
proof (induction n arbitrary: s)
  case 0
  then show ?case by (simp add: work_conserving_def)
next
  case (Suc n)
  show ?case
  proof (cases "active s < limit s \<and> waiting s \<noteq> []")
    case False
    then show ?thesis by (auto simp: work_conserving_def can_admit_def)
  next
    case True
    show ?thesis
    proof (cases "best_admissible s now")
      case None
      then have "\<forall>w \<in> set (waiting s). \<not> can_admit s w"
        using best_admissible_none by blast
      with True None show ?thesis by (simp add: work_conserving_def)
    next
      case (Some i)
      then have "i < length (waiting s)" by (rule best_admissible_some)
      with Suc.prems have "length (waiting (promote_one i s)) \<le> n"
        by (simp add: waiting_promote_one length_remove_at)
      with True Some Suc.IH show ?thesis by simp
    qed
  qed
qed

lemma promote_inv: "sched_inv s \<Longrightarrow> sched_inv (promote now s)"
  by (simp add: promote_def promote_loop_inv)

lemma promote_conserving: "work_conserving (promote now s)"
  by (simp add: promote_def promote_loop_conserving)

lemma sched_inv_frame:
  assumes "limit t = limit s" "active t = active s" "prefill t = prefill s" "adms t = adms s"
    "granted t = granted s"
  shows "sched_inv t = sched_inv s"
  using assms by (simp add: sched_inv_def live_count_def prefilling_count_def)

lemma prune_recent_frame [simp]:
  "limit (prune_recent now s) = limit s" "active (prune_recent now s) = active s"
  "prefill (prune_recent now s) = prefill s" "adms (prune_recent now s) = adms s"
  "granted (prune_recent now s) = granted s" "waiting (prune_recent now s) = waiting s"
  "phase_aware (prune_recent now s) = phase_aware s"
  by (simp_all add: prune_recent_def Let_def)

lemma release_locked_inv:
  assumes "sched_inv s" "a < length (adms s)"
  shows "sched_inv (release_locked a rem now s)"
proof (cases "a_released (adms s ! a)")
  case True
  then show ?thesis using assms by (simp add: release_locked_def)
next
  case False
  let ?r = "adms s ! a"
  let ?t = "s\<lparr>adms := (adms s)[a := ?r\<lparr>a_released := True\<rparr>],
              prefill := (if a_prefilling ?r then prefill s - 1 else prefill s),
              active := active s - 1\<rparr>"
  have "sched_inv ?t"
    using assms False
    by (auto simp: sched_inv_def live_count_def prefilling_count_def length_filter_update)
  moreover have "sched_inv (release_locked a rem now s) = sched_inv ?t"
    using False by (intro sched_inv_frame) (simp_all add: release_locked_def Let_def)
  ultimately show ?thesis by simp
qed

lemma mark_decode_inv:
  assumes "sched_inv s" "a < length (adms s)"
  shows "sched_inv (mark_decode (Some a) now s)"
proof -
  have "\<not> a_released (adms s ! a) \<Longrightarrow> a_prefilling (adms s ! a) \<Longrightarrow>
    sched_inv (s\<lparr>adms := (adms s)[a := (adms s ! a)\<lparr>a_prefilling := False\<rparr>],
                 prefill := prefill s - 1\<rparr>)"
    using assms by (auto simp: sched_inv_def live_count_def prefilling_count_def length_filter_update)
  then show ?thesis
    using assms(1) by (simp add: mark_decode_def Let_def promote_inv)
qed

lemma acquire_request_inv:
  assumes "sched_inv s"
  shows "sched_inv (fst (acquire_request conv l tokens now s))"
proof -
  have f: "sched_inv (s\<lparr>next_waiter := n\<rparr>)" "can_admit (s\<lparr>next_waiter := n\<rparr>) = can_admit s" for n
    using assms by (auto simp: sched_inv_def live_count_def prefilling_count_def can_admit_def
        fun_eq_iff)
  show ?thesis
    using assms f(1) admit_inv [OF f(1)]
    by (auto simp: acquire_request_def Let_def split: prod.splits intro!: promote_inv)
       (metis fst_conv)
qed

lemma cancel_request_inv:
  assumes "sched_inv s"
  shows "sched_inv (cancel_request wid now s)"
proof -
  have "map_of (granted s) wid = Some a \<Longrightarrow> a < length (adms s)" for a
    using assms by (auto simp: sched_inv_def dest: map_of_SomeD)
  then show ?thesis
    using assms
    by (auto simp: cancel_request_def promote_inv release_locked_inv split: option.splits)
qed

lemma sched_step_inv:
  assumes "sched_step s t" "sched_inv s"
  shows "sched_inv t"
  using assms
  by (cases rule: sched_step.cases)
     (auto simp: acquire_request_inv cancel_request_inv mark_decode_inv release_admission_def
        promote_inv release_locked_inv)


section \<open>Work conservation\<close>

lemma set_remove_at: "set (remove_at i xs) \<subseteq> set xs"
  by (auto simp: remove_at_def dest: in_set_takeD in_set_dropD)

lemma work_conserving_empty: "waiting s = [] \<Longrightarrow> work_conserving s"
  by (simp add: work_conserving_def)

lemma release_admission_conserving: "work_conserving (release_admission (Some a) now s)"
  by (simp add: release_admission_def promote_conserving)

lemma mark_decode_conserving:
  "work_conserving s \<Longrightarrow> work_conserving (mark_decode (Some a) now s)"
  by (simp add: mark_decode_def Let_def promote_conserving)

lemma cancel_request_conserving:
  assumes "work_conserving s"
  shows "work_conserving (cancel_request wid now s)"
proof -
  have "work_conserving (s\<lparr>waiting := remove_at i (waiting s)\<rparr>)" for i
    using assms set_remove_at [of i "waiting s"] by (auto simp: work_conserving_def)
  then show ?thesis by (simp add: cancel_request_def promote_conserving split: option.splits)
qed

lemma acquire_request_conserving:
  "work_conserving s \<Longrightarrow> work_conserving (fst (acquire_request conv l tokens now s))"
  by (auto simp: acquire_request_def Let_def promote_conserving admit_def
      intro: work_conserving_empty)

lemma sched_step_conserving: "sched_step s t \<Longrightarrow> work_conserving s \<Longrightarrow> work_conserving t"
  by (cases rule: sched_step.cases)
     (auto simp: acquire_request_conserving cancel_request_conserving mark_decode_conserving
        release_admission_conserving)

section \<open>The bound on remembered conversations\<close>

definition recent_bounded :: "sched \<Rightarrow> bool" where
  "recent_bounded s \<longleftrightarrow>
     distinct (map fst (recent s)) \<and> distinct (map fst (prompt_tokens s)) \<and>
     fst ` set (prompt_tokens s) \<subseteq> fst ` set (recent s) \<and> length (recent s) \<le> 256"

lemma drop_keys_fst: "fst ` set (drop_keys ks m) = fst ` set m - ks"
  by (force simp: drop_keys_def)

lemma distinct_drop_keys: "distinct (map fst m) \<Longrightarrow> distinct (map fst (drop_keys ks m))"
  by (simp add: drop_keys_def distinct_map_filter)

lemma drop_keys_tail_length:
  assumes "mset xs = mset m"
  shows "length (drop_keys (fst ` set (drop n xs)) m) \<le> n"
proof -
  let ?P = "\<lambda>(k, _ :: int). k \<notin> fst ` set (drop n xs)"
  have "length (filter ?P m) = length (filter ?P xs)"
    using assms by (metis mset_filter size_mset)
  also have "filter ?P xs = filter ?P (take n xs) @ filter ?P (drop n xs)"
    by (metis append_take_drop_id filter_append)
  also have "filter ?P (drop n xs) = []"
    by (force simp: filter_empty_conv)
  also have "length (filter ?P (take n xs) @ []) \<le> n"
    by (simp, rule order_trans [OF length_filter_le], simp)
  finally show ?thesis by (simp add: drop_keys_def)
qed

lemma prune_recent_length: "length (recent (prune_recent now s)) \<le> 256"
  by (simp add: prune_recent_def Let_def drop_keys_tail_length)

lemma prune_recent_bounded:
  assumes "distinct (map fst (recent s))" "distinct (map fst (prompt_tokens s))"
    "fst ` set (prompt_tokens s) \<subseteq> fst ` set (recent s)"
  shows "recent_bounded (prune_recent now s)"
proof -
  have "distinct (map fst (recent (prune_recent now s)))"
    "distinct (map fst (prompt_tokens (prune_recent now s)))"
    "fst ` set (prompt_tokens (prune_recent now s)) \<subseteq> fst ` set (recent (prune_recent now s))"
    using assms by (auto simp: prune_recent_def Let_def distinct_drop_keys drop_keys_fst)
  then show ?thesis by (simp add: recent_bounded_def prune_recent_length)
qed

lemma recent_bounded_upd [simp]:
  "recent_bounded (s\<lparr>adms := x1\<rparr>) = recent_bounded s"
  "recent_bounded (s\<lparr>active := x2\<rparr>) = recent_bounded s"
  "recent_bounded (s\<lparr>prefill := x2\<rparr>) = recent_bounded s"
  "recent_bounded (s\<lparr>waiting := x3\<rparr>) = recent_bounded s"
  "recent_bounded (s\<lparr>granted := x4\<rparr>) = recent_bounded s"
  "recent_bounded (s\<lparr>next_waiter := x5\<rparr>) = recent_bounded s"
  by (simp_all add: recent_bounded_def)

lemma recent_bounded_frame:
  "recent t = recent s \<Longrightarrow> prompt_tokens t = prompt_tokens s \<Longrightarrow>
   recent_bounded t = recent_bounded s"
  by (simp add: recent_bounded_def)

lemma promote_memory: "recent (promote now s) = recent s \<and> prompt_tokens (promote now s) = prompt_tokens s"
proof -
  have "recent (promote_loop n now s) = recent s \<and>
    prompt_tokens (promote_loop n now s) = prompt_tokens s" for n
    by (induction n arbitrary: s)
       (auto simp: promote_one_def admit_def Let_def split: option.splits)
  then show ?thesis by (simp add: promote_def)
qed

lemma promote_bounded [simp]: "recent_bounded (promote now s) = recent_bounded s"
  using promote_memory by (intro recent_bounded_frame) auto

lemma release_locked_bounded:
  assumes "recent_bounded s"
  shows "recent_bounded (release_locked a rem now s)"
proof -
  let ?r = "adms s ! a"
  have d: "distinct (map fst (recent s))" "distinct (map fst (prompt_tokens s))"
    "fst ` set (prompt_tokens s) \<subseteq> fst ` set (recent s)"
    using assms by (simp_all add: recent_bounded_def)
  show ?thesis
  proof (cases "a_released ?r \<or> \<not> (rem \<and> a_conversation ?r \<noteq> [])")
    case True
    then show ?thesis using assms by (auto simp: release_locked_def Let_def recent_bounded_def)
  next
    case False
    then show ?thesis
      using d by (simp add: release_locked_def Let_def prune_recent_bounded distinct_update
          dom_update subset_insertI2)
  qed
qed

lemma sched_step_bounded: "sched_step s t \<Longrightarrow> recent_bounded s \<Longrightarrow> recent_bounded t"
  by (cases rule: sched_step.cases)
     (auto simp: acquire_request_def cancel_request_def mark_decode_def release_admission_def
        Let_def release_locked_bounded admit_def split: option.splits)

section \<open>Reachable states\<close>

lemma promote_limit [simp]: "limit (promote now s) = limit s"
proof -
  have "limit (promote_loop n now s) = limit s" for n
    by (induction n arbitrary: s) (auto simp: promote_one_def admit_def Let_def split: option.splits)
  then show ?thesis by (simp add: promote_def)
qed

lemma release_locked_limit [simp]: "limit (release_locked a rem now s) = limit s"
  by (simp add: release_locked_def Let_def)

lemma sched_step_limit: "sched_step s t \<Longrightarrow> limit t = limit s"
  by (cases rule: sched_step.cases)
     (auto simp: acquire_request_def cancel_request_def mark_decode_def release_admission_def
        Let_def admit_def split: option.splits prod.splits)

lemma sched_reach_inv:
  assumes "sched_reach l aware cold s" "0 < l"
  shows "sched_inv s \<and> work_conserving s \<and> recent_bounded s \<and> limit s = l"
  using assms
proof (induction rule: sched_reach.induct)
  case reach_start
  then show ?case
    by (simp add: sched_inv_def work_conserving_def recent_bounded_def set_phase_aware_def
        new_scheduler_def live_count_def prefilling_count_def Let_def)
next
  case (reach_step s t)
  then show ?case
    using sched_step_inv sched_step_conserving sched_step_bounded sched_step_limit by metis
qed


section \<open>Properties\<close>

text \<open>
  A concrete run for the witnesses: phase-aware admission with two slots, a cold request that
  is admitted, and a second cold request that is parked behind it.
\<close>

definition demo_start :: sched where
  "demo_start = set_phase_aware True 100 (new_scheduler 2)"

definition demo_busy :: sched where
  "demo_busy =
     fst (acquire_request ''b'' LaneBulk 500 20 (fst (acquire_request ''a'' LaneBulk 400 10 demo_start)))"

lemma demo_busy_reach: "sched_reach 2 True 100 demo_busy"
  unfolding demo_busy_def demo_start_def
  by (rule sched_reach.reach_step [OF sched_reach.reach_step [OF sched_reach.reach_start step_acquire]
        step_acquire])

lemma demo_busy_stats: "sched_stats demo_busy = (1, 1, 2)"
  by code_simp

text \<open>
  C1: In every reachable state of the request scheduler the number of running main-model
  requests is exactly the number of admissions handed out and not yet released, it never
  exceeds the configured limit and never goes negative, whatever the order of arrivals,
  cancellations, first tokens and (repeated) releases.
\<close>

theorem scheduler_slots_safe:
  assumes "sched_reach l aware cold s" "0 < l"
  shows "active s = live_count s \<and> 0 \<le> active s \<and> active s \<le> l"
proof -
  have "sched_inv s" "limit s = l" using sched_reach_inv [OF assms] by simp_all
  then show ?thesis using counts_nonneg(1) [of s] by (simp add: sched_inv_def)
qed

theorem scheduler_slots_safe_witness:
  "active demo_busy = 1 \<and> live_count demo_busy = 1 \<and> active demo_busy \<le> 2"
proof -
  have "active demo_busy = live_count demo_busy \<and> 0 \<le> active demo_busy \<and> active demo_busy \<le> 2"
    by (rule scheduler_slots_safe [OF demo_busy_reach]) simp
  moreover have "active demo_busy = 1" using demo_busy_stats by (simp add: sched_stats_def)
  ultimately show ?thesis by simp
qed

text \<open>
  Two requests never prefill at the same time in phase-aware mode: the scheduler's prefill
  counter equals the number of unreleased admissions still before their first token, and it is
  0 or 1 in every reachable state.
\<close>

theorem scheduler_single_prefill:
  assumes "sched_reach l aware cold s" "0 < l"
  shows "prefill s = prefilling_count s \<and> prefilling_count s \<le> 1"
  using sched_reach_inv [OF assms] by (simp add: sched_inv_def)

theorem scheduler_single_prefill_witness:
  "prefill demo_busy = 1 \<and> prefilling_count demo_busy \<le> 1"
proof -
  have "prefill demo_busy = prefilling_count demo_busy \<and> prefilling_count demo_busy \<le> 1"
    by (rule scheduler_single_prefill [OF demo_busy_reach]) simp
  moreover have "prefill demo_busy = 1" by code_simp
  ultimately show ?thesis by simp
qed

text \<open>
  C2: No wake-up is lost: between operations no waiter that could be admitted is left in the
  queue, so in particular a server with no running request has an empty queue.
\<close>

theorem scheduler_work_conserving:
  assumes "sched_reach l aware cold s" "0 < l"
  shows "(w \<in> set (waiting s) \<longrightarrow> \<not> can_admit s w) \<and> (active s = 0 \<longrightarrow> waiting s = [])"
proof -
  have inv: "sched_inv s" and wc: "work_conserving s" and lim: "limit s = l"
    using sched_reach_inv [OF assms] by simp_all
  have "waiting s = []" if "active s = 0"
  proof (rule ccontr)
    assume "waiting s \<noteq> []"
    then obtain v where v: "v \<in> set (waiting s)" by (cases "waiting s") auto
    have "prefill s = 0"
      using inv that prefilling_le_live [of s] counts_nonneg(2) [of s] by (simp add: sched_inv_def)
    then have "can_admit s v" using that lim assms(2) by (simp add: can_admit_def)
    with wc v show False by (simp add: work_conserving_def)
  qed
  with wc show ?thesis by (simp add: work_conserving_def)
qed

theorem scheduler_work_conserving_witness:
  "length (waiting demo_busy) = 1 \<and> \<not> can_admit demo_busy (hd (waiting demo_busy))"
proof -
  have "length (waiting demo_busy) = 1" using demo_busy_stats by (simp add: sched_stats_def)
  then have "hd (waiting demo_busy) \<in> set (waiting demo_busy)" by (cases "waiting demo_busy") auto
  then show ?thesis
    using scheduler_work_conserving [OF demo_busy_reach, of "hd (waiting demo_busy)"]
      \<open>length (waiting demo_busy) = 1\<close> by simp
qed

text \<open>
  C3: The waiter chosen for a free slot is admissible and, among all admissible waiters, has the
  lowest effective lane; within that lane its conversation has gone longest without a slot, and
  within equal service times it has waited longest (ties go to the earlier queue position).
\<close>

theorem scheduler_fair_choice:
  assumes "best_admissible s now = Some i" "j < length (waiting s)" "can_admit s (waiting s ! j)"
  defines "ki \<equiv> sort_key_locked s now (waiting s ! i)" and "kj \<equiv> sort_key_locked s now (waiting s ! j)"
  shows "can_admit s (waiting s ! i) \<and> key_lane ki \<le> key_lane kj \<and>
    (key_lane ki = key_lane kj \<longrightarrow> key_served ki \<le> key_served kj) \<and>
    (key_lane ki = key_lane kj \<longrightarrow> key_served ki = key_served kj \<longrightarrow>
       key_enqueued ki \<le> key_enqueued kj) \<and>
    (ki = kj \<longrightarrow> i \<le> j)"
proof -
  have "\<not> waiter_less kj ki"
    unfolding ki_def kj_def by (rule best_admissible_some(3) [OF assms(1-3)])
  moreover have "i \<le> j" if "ki = kj"
  proof (rule leI, rule notI)
    assume "j < i"
    then have "waiter_less ki kj"
      unfolding ki_def kj_def by (rule best_admissible_some(4) [OF assms(1) _ assms(3)])
    with that wk.lt_irrefl show False by simp
  qed
  moreover have "can_admit s (waiting s ! i)" by (rule best_admissible_some(2) [OF assms(1)])
  ultimately show ?thesis
    by (auto simp: waiter_less_def not_less split: if_splits)
qed

definition demo_idle :: sched where
  "demo_idle = demo_start\<lparr>recent := [(''a'', 900)],
     waiting := [\<lparr>w_id = 0, w_conversation = ''a'', w_lane = LaneBulk, w_prompt_tokens = 5,
                   w_class = RequestSmall, w_enqueued = 950\<rparr>,
                 \<lparr>w_id = 1, w_conversation = ''fg'', w_lane = LaneBulk, w_prompt_tokens = 5,
                   w_class = RequestSmall, w_enqueued = 990\<rparr>]\<rparr>"

theorem scheduler_fair_choice_witness:
  "key_served (sort_key_locked demo_idle 1000 (waiting demo_idle ! 1)) \<le>
     key_served (sort_key_locked demo_idle 1000 (waiting demo_idle ! 0))"
proof -
  have b: "best_admissible demo_idle 1000 = Some 1" by code_simp
  have l: "0 < length (waiting demo_idle)" by code_simp
  have c: "can_admit demo_idle (waiting demo_idle ! 0)" by code_simp
  have k: "key_lane (sort_key_locked demo_idle 1000 (waiting demo_idle ! 1)) =
    key_lane (sort_key_locked demo_idle 1000 (waiting demo_idle ! 0))" by code_simp
  from scheduler_fair_choice [OF b l c] k show ?thesis by simp
qed

text \<open>
  The scheduler's memory of past conversations stays bounded over any run: at most 256
  conversations are remembered, each once, and a remembered prompt size always belongs to a
  remembered conversation.
\<close>

theorem scheduler_memory_bounded:
  assumes "sched_reach l aware cold s" "0 < l"
  shows "length (recent s) \<le> 256 \<and> length (prompt_tokens s) \<le> 256 \<and>
    fst ` set (prompt_tokens s) \<subseteq> fst ` set (recent s)"
proof -
  have b: "recent_bounded s" using sched_reach_inv [OF assms] by simp
  have "length (prompt_tokens s) = card (fst ` set (prompt_tokens s))"
    using b by (metis distinct_card length_map list.set_map recent_bounded_def)
  also have "\<dots> \<le> card (fst ` set (recent s))"
    using b by (intro card_mono) (auto simp: recent_bounded_def)
  also have "\<dots> \<le> length (recent s)"
    by (metis card_length length_map list.set_map)
  finally show ?thesis using b by (simp add: recent_bounded_def)
qed

theorem scheduler_memory_bounded_witness:
  "length (recent demo_busy) \<le> 256 \<and> length (prompt_tokens demo_busy) \<le> 256"
  using scheduler_memory_bounded [OF demo_busy_reach] by simp

end
