(* ===== verification/Profiles.thy ===== *)
theory Profiles
  imports Prelude
begin

text \<open>
  The lifecycle of measured launch profiles, \<^verbatim>\<open>go/pkg/controller/profile.go\<close>. A scope
  has at most one active profile (the last known good one) and one candidate; a candidate
  becomes active only by passing every verification stage, and each stage leaves an event.

  State. The profile directory is a function from scope keys to what the scope's file holds.
  \<^verbatim>\<open>State\<close> is a Go string type and stays a string here, because \<^verbatim>\<open>validTransition\<close>
  reads a map whose missing entries are the empty string. Metrics are opaque (\<open>'m\<close>), the
  SHA-256 based \<^verbatim>\<open>ScopeKey\<close> and the clock are parameters, and the outcome of the lock
  and of the file system calls is an argument of every update (\<open>io_env\<close>).
\<close>

section \<open>Data\<close>

type_synonym state = string

definition state_proposed :: state where "state_proposed = ''proposed''"
definition state_allocation_verified :: state where "state_allocation_verified = ''allocation_verified''"
definition state_load_healthy :: state where "state_load_healthy = ''load_healthy''"
definition state_functional_verified :: state where "state_functional_verified = ''functional_verified''"
definition state_cache_verified :: state where "state_cache_verified = ''cache_verified''"
definition state_performance_verified :: state where "state_performance_verified = ''performance_verified''"
definition state_active :: state where "state_active = ''active''"
definition state_degraded :: state where "state_degraded = ''degraded''"
definition state_rejected :: state where "state_rejected = ''rejected''"

lemmas state_defs = state_proposed_def state_allocation_verified_def state_load_healthy_def
  state_functional_verified_def state_cache_verified_def state_performance_verified_def
  state_active_def state_degraded_def state_rejected_def

record event =
  ev_state :: state
  ev_at :: int
  ev_reason :: string
  ev_evidence :: string

record 'm profile =
  p_id :: string
  p_scope :: string
  p_state :: state
  p_model :: string
  p_backend :: string
  p_hardware :: string
  p_args_hash :: string
  p_created :: int
  p_updated :: int
  p_properties :: "(string \<times> string) list"
  p_metrics :: "'m list"
  p_events :: "event list"

record 'm prec =
  r_schema :: int
  r_scope :: string
  r_active :: "'m profile option"
  r_candidate :: "'m profile option"
  r_history :: "'m profile list"

datatype 'm stored = Missing | Garbled | Stored "'m prec"

type_synonym 'm disk = "string \<Rightarrow> 'm stored"

datatype store_error =
    NoScope | NoCandidateScope | LockTimeout | BadJson | SchemaMismatch
  | CandidateNotFound | InvalidTransition state state | IoError | NotExist

record io_env =
  cache_dir :: string
  lock_ok :: bool
  read_ok :: bool
  mkdir_ok :: bool
  write_ok :: bool

definition schema_version :: int where "schema_version = 1"

section \<open>Operations\<close>

definition load_record :: "io_env \<Rightarrow> string \<Rightarrow> 'm disk \<Rightarrow> store_error + 'm prec" where
  "load_record env scope d =
     (if trim_space (cache_dir env) = [] \<or> trim_space scope = [] then Inl NoScope
      else if \<not> read_ok env then Inl IoError
      else case d scope of
        Missing \<Rightarrow> Inl NotExist
      | Garbled \<Rightarrow> Inl BadJson
      | Stored r \<Rightarrow>
          if r_schema r \<noteq> schema_version \<or> r_scope r \<noteq> scope then Inl SchemaMismatch else Inr r)"

definition fresh_record :: "string \<Rightarrow> 'm prec" where
  "fresh_record scope =
     \<lparr>r_schema = schema_version, r_scope = scope, r_active = None, r_candidate = None,
      r_history = []\<rparr>"

text \<open>
  \<^verbatim>\<open>update\<close>: read, check, mutate, write atomically; an error leaves the file alone. A
  file that cannot be read is taken for an absent one. The mutation also yields the value its
  closure stores in a variable of the caller.
\<close>

definition update_store ::
  "io_env \<Rightarrow> string \<Rightarrow> ('m prec \<Rightarrow> store_error + 'r \<times> 'm prec) \<Rightarrow> 'm disk
     \<Rightarrow> (store_error option \<times> 'r option) \<times> 'm disk"
  where
  "update_store env scope mutate d =
     (if trim_space (cache_dir env) = [] \<or> trim_space scope = [] then ((Some NoScope, None), d)
      else if \<not> mkdir_ok env then ((Some IoError, None), d)
      else if \<not> lock_ok env then ((Some LockTimeout, None), d)
      else
        let start =
          (case (if read_ok env then d scope else Missing) of
             Missing \<Rightarrow> Inr (fresh_record scope)
           | Garbled \<Rightarrow> Inl BadJson
           | Stored r \<Rightarrow>
               if r_schema r \<noteq> schema_version \<or> r_scope r \<noteq> scope then Inl SchemaMismatch
               else Inr r)
        in case start of
             Inl e \<Rightarrow> ((Some e, None), d)
           | Inr r \<Rightarrow>
               (case mutate r of
                  Inl e \<Rightarrow> ((Some e, None), d)
                | Inr (x, r') \<Rightarrow>
                    if write_ok env
                    then ((None, Some x),
                          d(scope := Stored (r'\<lparr>r_schema := schema_version, r_scope := scope\<rparr>)))
                    else ((Some IoError, Some x), d)))"

definition append_bounded :: "'m profile list \<Rightarrow> 'm profile option \<Rightarrow> 'm profile list" where
  "append_bounded history op =
     (case op of
        None \<Rightarrow> history
      | Some p \<Rightarrow>
          let h = history @ [p] in if length h > 12 then drop (length h - 12) h else h)"

definition begin_mutate :: "'m profile \<Rightarrow> 'm prec \<Rightarrow> store_error + unit \<times> 'm prec" where
  "begin_mutate p r =
     (let r1 = (case r_candidate r of
                  Some c \<Rightarrow> if p_id c \<noteq> p_id p
                            then r\<lparr>r_history := append_bounded (r_history r) (Some c)\<rparr> else r
                | None \<Rightarrow> r)
      in Inr ((), r1\<lparr>r_candidate := Some p\<rparr>))"

text \<open>The profile is \<^verbatim>\<open>None\<close> where the code returns the zero \<^verbatim>\<open>Profile{}\<close>.\<close>

definition begin_profile ::
  "(string list \<Rightarrow> string) \<Rightarrow> (int \<Rightarrow> string) \<Rightarrow> io_env \<Rightarrow> int \<Rightarrow> 'm profile \<Rightarrow> 'm disk
     \<Rightarrow> (store_error option \<times> 'm profile option) \<times> 'm disk" where
  "begin_profile scope_key fmt_time env now p d =
     (if p_scope p = [] then ((Some NoCandidateScope, None), d)
      else
        let p1 = (if p_id p = []
                  then p\<lparr>p_id := scope_key [p_scope p, p_model p, p_backend p, p_hardware p,
                                             p_args_hash p, fmt_time now]\<rparr>
                  else p);
            p2 = p1\<lparr>p_state := state_proposed, p_created := now, p_updated := now,
                    p_events := p_events p1 @
                      [\<lparr>ev_state = state_proposed, ev_at = now, ev_reason = [], ev_evidence = []\<rparr>]\<rparr>;
            (res, d') = update_store env (p_scope p2) (begin_mutate p2) d
        in ((fst res, Some p2), d'))"

text \<open>\<^verbatim>\<open>validTransition\<close>: the map \<^verbatim>\<open>next\<close> yields the empty string for a missing key.\<close>

definition next_state :: "state \<Rightarrow> state" where
  "next_state from =
     (if from = state_proposed then state_allocation_verified
      else if from = state_allocation_verified then state_load_healthy
      else if from = state_load_healthy then state_functional_verified
      else if from = state_functional_verified then state_cache_verified
      else if from = state_cache_verified then state_performance_verified
      else if from = state_performance_verified then state_active
      else [])"

definition valid_transition :: "state \<Rightarrow> state \<Rightarrow> bool" where
  "valid_transition from to =
     (if to = state_rejected \<or> to = state_degraded
      then from \<noteq> state_active \<and> from \<noteq> state_rejected
      else next_state from = to)"

definition advance :: "int \<Rightarrow> state \<Rightarrow> string \<Rightarrow> string \<Rightarrow> 'm list \<Rightarrow> 'm profile \<Rightarrow> 'm profile" where
  "advance now to reason evidence metrics c =
     c\<lparr>p_state := to, p_updated := now,
       p_events := p_events c @
         [\<lparr>ev_state = to, ev_at = now, ev_reason = reason, ev_evidence = evidence\<rparr>],
       p_metrics := p_metrics c @ metrics\<rparr>"

definition transition_mutate ::
  "int \<Rightarrow> string \<Rightarrow> state \<Rightarrow> string \<Rightarrow> string \<Rightarrow> 'm list \<Rightarrow> 'm prec
     \<Rightarrow> store_error + 'm profile \<times> 'm prec" where
  "transition_mutate now pid to reason evidence metrics r =
     (case r_candidate r of
        None \<Rightarrow> Inl CandidateNotFound
      | Some c \<Rightarrow>
          if p_id c \<noteq> pid then Inl CandidateNotFound
          else if \<not> valid_transition (p_state c) to then Inl (InvalidTransition (p_state c) to)
          else
            let c' = advance now to reason evidence metrics c in
            if to = state_active then
              (let h = (case r_active r of
                          Some a \<Rightarrow> if p_id a \<noteq> p_id c' then append_bounded (r_history r) (Some a)
                                    else r_history r
                        | None \<Rightarrow> r_history r)
               in Inr (c', r\<lparr>r_history := h, r_active := Some c', r_candidate := None\<rparr>))
            else if to = state_rejected then
              Inr (c', r\<lparr>r_history := append_bounded (r_history r) (Some c'), r_candidate := None\<rparr>)
            else Inr (c', r\<lparr>r_candidate := Some c'\<rparr>))"

definition transition ::
  "io_env \<Rightarrow> int \<Rightarrow> string \<Rightarrow> string \<Rightarrow> state \<Rightarrow> string \<Rightarrow> string \<Rightarrow> 'm list \<Rightarrow> 'm disk
     \<Rightarrow> (store_error option \<times> 'm profile option) \<times> 'm disk" where
  "transition env now scope pid to reason evidence metrics d =
     update_store env scope (transition_mutate now pid to reason evidence metrics) d"

definition is_active :: "io_env \<Rightarrow> string \<Rightarrow> string \<Rightarrow> 'm disk \<Rightarrow> bool" where
  "is_active env scope args_hash d =
     (case load_record env scope d of
        Inl _ \<Rightarrow> False
      | Inr r \<Rightarrow>
          (case r_active r of
             None \<Rightarrow> False
           | Some a \<Rightarrow> p_state a = state_active \<and> p_args_hash a = args_hash))"

definition reject_mutate ::
  "int \<Rightarrow> string \<Rightarrow> string \<Rightarrow> string \<Rightarrow> 'm prec \<Rightarrow> store_error + bool \<times> 'm prec" where
  "reject_mutate now args_hash reason evidence r =
     (case r_active r of
        None \<Rightarrow> Inr (False, r)
      | Some a \<Rightarrow>
          if p_state a \<noteq> state_active \<or> p_args_hash a \<noteq> args_hash then Inr (False, r)
          else Inr (True, r\<lparr>r_history := append_bounded (r_history r)
                        (Some (advance now state_rejected reason evidence [] a)),
                      r_active := None\<rparr>))"

definition reject_active_if_match ::
  "io_env \<Rightarrow> int \<Rightarrow> string \<Rightarrow> string \<Rightarrow> string \<Rightarrow> string \<Rightarrow> 'm disk
     \<Rightarrow> (store_error option \<times> bool) \<times> 'm disk" where
  "reject_active_if_match env now scope args_hash reason evidence d =
     (let ((e, x), d') = update_store env scope (reject_mutate now args_hash reason evidence) d
      in ((e, x = Some True), d'))"

definition reached_functional :: "io_env \<Rightarrow> string \<Rightarrow> string \<Rightarrow> 'm disk \<Rightarrow> bool" where
  "reached_functional env scope args_hash d =
     (case load_record env scope d of
        Inl _ \<Rightarrow> False
      | Inr r \<Rightarrow>
          list_ex (\<lambda>op. case op of
              None \<Rightarrow> False
            | Some p \<Rightarrow> p_args_hash p = args_hash \<and> p_state p \<noteq> state_rejected \<and>
                list_ex (\<lambda>e. ev_state e = state_functional_verified) (p_events p))
            [r_active r, r_candidate r])"

section \<open>Runs of the store\<close>

inductive store_step :: "io_env \<Rightarrow> 'm disk \<Rightarrow> 'm disk \<Rightarrow> bool" where
  store_begin: "store_step env d (snd (begin_profile sk ft env now p d))"
| store_transition: "store_step env d (snd (transition env now scope pid to reason evidence ms d))"
| store_reject: "store_step env d (snd (reject_active_if_match env now scope h reason evidence d))"

inductive store_reach :: "'m disk \<Rightarrow> bool" where
  store_start: "store_reach (\<lambda>_. Missing)"
| store_next: "store_reach d \<Longrightarrow> store_step env d d' \<Longrightarrow> store_reach d'"

section \<open>The verification chain\<close>

text \<open>
  The contract of a promotion pipeline: stages in a fixed order, and a stage is entered only
  from the one before it.
\<close>

locale promotion_chain =
  fixes valid :: "'s \<Rightarrow> 's \<Rightarrow> bool" and chain :: "'s list"
  assumes chain_distinct: "distinct chain"
    and chain_only_next: "valid from to \<Longrightarrow> Suc i < length chain \<Longrightarrow> to = chain ! Suc i \<Longrightarrow> from = chain ! i"
    and chain_entry: "0 < length chain \<Longrightarrow> valid from to \<Longrightarrow> to \<noteq> chain ! 0"
begin

text \<open>
  A log records the stages entered; it is complete when it ends with all stages up to the
  current one.
\<close>

definition complete :: "'s \<Rightarrow> 's list \<Rightarrow> bool" where
  "complete cur log \<longleftrightarrow>
     (\<forall>i < length chain. chain ! i = cur \<longrightarrow> suffix (take (Suc i) chain) log)"

lemma complete_start: "0 < length chain \<Longrightarrow> complete (chain ! 0) (log @ [chain ! 0])"
  using chain_distinct
  by (auto simp: complete_def nth_eq_iff_index_eq take_Suc_conv_app_nth)

lemma complete_step:
  assumes "complete from log" "valid from to"
  shows "complete to (log @ [to])"
  unfolding complete_def
proof (intro allI impI)
  fix i assume i: "i < length chain" "chain ! i = to"
  then obtain j where j: "i = Suc j" using assms(2) chain_entry by (cases i) auto
  then have "from = chain ! j" using assms(2) i chain_only_next by blast
  then have "suffix (take (Suc j) chain) log"
    using assms(1) i j by (simp add: complete_def)
  then show "suffix (take (Suc i) chain) (log @ [to])"
    using i j by (auto simp: take_Suc_conv_app_nth suffix_def)
qed

lemma complete_last:
  assumes "complete (last chain) log" "chain \<noteq> []"
  shows "suffix chain log"
  using assms by (auto simp: complete_def last_conv_nth elim!: allE [of _ "length chain - 1"])

end

definition verification_chain :: "state list" where
  "verification_chain =
     [state_proposed, state_allocation_verified, state_load_healthy, state_functional_verified,
      state_cache_verified, state_performance_verified, state_active]"

interpretation vc: promotion_chain valid_transition verification_chain
proof
  show "distinct verification_chain"
    by (simp add: verification_chain_def state_defs)
  show "from = verification_chain ! i"
    if "valid_transition from to" "Suc i < length verification_chain" "to = verification_chain ! Suc i"
    for "from" to i
  proof -
    from that(2) have "i \<in> {0, 1, 2, 3, 4, 5}" by (auto simp: verification_chain_def)
    with that(1,3) show ?thesis
      by (auto simp: verification_chain_def valid_transition_def next_state_def state_defs
          numeral_eq_Suc split: if_splits)
  qed
  show "to \<noteq> verification_chain ! 0" if "valid_transition from to" for "from" to
    using that
    by (auto simp: verification_chain_def valid_transition_def next_state_def state_defs
        split: if_splits)
qed


section \<open>The invariant of the store\<close>

definition event_log :: "'m profile \<Rightarrow> state list" where
  "event_log p = map ev_state (p_events p)"

definition candidate_ok :: "'m profile \<Rightarrow> bool" where
  "candidate_ok c \<longleftrightarrow> vc.complete (p_state c) (event_log c)"

definition active_ok :: "'m profile \<Rightarrow> bool" where
  "active_ok a \<longleftrightarrow> p_state a = state_active \<and> suffix verification_chain (event_log a)"

definition prec_ok :: "'m prec \<Rightarrow> bool" where
  "prec_ok r \<longleftrightarrow> pred_option active_ok (r_active r) \<and> pred_option candidate_ok (r_candidate r) \<and>
     length (r_history r) \<le> 12"

definition disk_ok :: "'m disk \<Rightarrow> bool" where
  "disk_ok d \<longleftrightarrow> (\<forall>scope r. d scope = Stored r \<longrightarrow> prec_ok r)"

lemma length_append_bounded: "length h \<le> 12 \<Longrightarrow> length (append_bounded h p) \<le> 12"
  by (auto simp: append_bounded_def Let_def split: option.splits)

lemma append_bounded_last: "last (append_bounded h (Some p)) = p" "append_bounded h (Some p) \<noteq> []"
  by (auto simp: append_bounded_def Let_def last_drop)

lemma event_log_advance: "event_log (advance now to reason evidence ms c) = event_log c @ [to]"
  by (simp add: event_log_def advance_def)

lemma p_state_advance [simp]:
  "p_state (advance now to reason evidence ms c) = to"
  "p_id (advance now to reason evidence ms c) = p_id c"
  "p_args_hash (advance now to reason evidence ms c) = p_args_hash c"
  by (simp_all add: advance_def)

lemma candidate_ok_advance:
  "candidate_ok c \<Longrightarrow> valid_transition (p_state c) to \<Longrightarrow>
   candidate_ok (advance now to reason evidence ms c)"
  by (simp add: candidate_ok_def event_log_advance vc.complete_step)

lemma active_ok_promoted:
  "candidate_ok c \<Longrightarrow> p_state c = state_active \<Longrightarrow> active_ok c"
  using vc.complete_last [of "event_log c"]
  by (simp add: candidate_ok_def active_ok_def verification_chain_def)

lemma prec_ok_fresh: "prec_ok (fresh_record scope)"
  by (simp add: prec_ok_def fresh_record_def)

lemma update_store_cases:
  "snd (update_store env scope mutate d) = d \<or>
   (\<exists>r x r'. (d scope = Stored r \<or> (d scope = Missing \<or> \<not> read_ok env) \<and> r = fresh_record scope) \<and>
      mutate r = Inr (x, r') \<and>
      snd (update_store env scope mutate d) =
        d(scope := Stored (r'\<lparr>r_schema := schema_version, r_scope := scope\<rparr>)))"
  by (auto simp: update_store_def Let_def split: stored.splits sum.splits prod.splits if_splits)

lemma update_store_error:
  "fst (fst (update_store env scope mutate d)) = None \<or> snd (update_store env scope mutate d) = d"
  by (auto simp: update_store_def Let_def split: stored.splits sum.splits prod.splits if_splits)

lemma update_store_other:
  "other = scope \<or> snd (update_store env scope mutate d) other = d other"
  using update_store_cases [of env scope mutate d] by (auto split: if_splits)

lemma snd_reject_active:
  "snd (reject_active_if_match env now scope h reason evidence d) =
   snd (update_store env scope (reject_mutate now h reason evidence) d)"
  by (simp add: reject_active_if_match_def split: prod.split)

lemma disk_ok_update:
  assumes "disk_ok d" "\<And>r x r'. prec_ok r \<Longrightarrow> mutate r = Inr (x, r') \<Longrightarrow> prec_ok r'"
  shows "disk_ok (snd (update_store env scope mutate d))"
proof (rule disjE [OF update_store_cases [of env scope mutate d]])
  assume "\<exists>r x r'. (d scope = Stored r \<or> (d scope = Missing \<or> \<not> read_ok env) \<and> r = fresh_record scope) \<and>
      mutate r = Inr (x, r') \<and>
      snd (update_store env scope mutate d) =
        d(scope := Stored (r'\<lparr>r_schema := schema_version, r_scope := scope\<rparr>))"
  then obtain r x r' where r: "d scope = Stored r \<or> r = fresh_record scope"
    "mutate r = Inr (x, r')"
    and e: "snd (update_store env scope mutate d) =
        d(scope := Stored (r'\<lparr>r_schema := schema_version, r_scope := scope\<rparr>))"
    by blast
  have "prec_ok r" using r(1) assms(1) prec_ok_fresh by (auto simp: disk_ok_def)
  then have "prec_ok r'" using assms(2) r(2) by blast
  then show ?thesis using assms(1) by (auto simp: e disk_ok_def prec_ok_def)
qed (use assms(1) in simp)

lemma prec_ok_begin:
  assumes "prec_ok r" "begin_mutate p r = Inr (x, r')" "candidate_ok p"
  shows "prec_ok r'"
  using assms length_append_bounded
  by (auto simp: begin_mutate_def prec_ok_def Let_def split: option.splits if_splits)

lemma prec_ok_transition:
  assumes "prec_ok r" "transition_mutate now pid to reason evidence ms r = Inr (x, r')"
  shows "prec_ok r'"
proof -
  from assms(2) obtain c where c: "r_candidate r = Some c" "p_id c = pid"
    "valid_transition (p_state c) to"
    by (auto simp: transition_mutate_def split: option.splits if_splits)
  define c' where "c' = advance now to reason evidence ms c"
  have ok: "candidate_ok c'"
    using assms(1) c by (simp add: prec_ok_def c'_def candidate_ok_advance)
  have st: "p_state c' = to" by (simp add: c'_def)
  show ?thesis
    using assms c ok st active_ok_promoted [OF ok] length_append_bounded
    by (auto simp: transition_mutate_def prec_ok_def Let_def c'_def [symmetric]
        split: option.splits if_splits)
qed

lemma prec_ok_reject:
  assumes "prec_ok r" "reject_mutate now h reason evidence r = Inr (x, r')"
  shows "prec_ok r'"
  using assms length_append_bounded
  by (auto simp: reject_mutate_def prec_ok_def split: option.splits if_splits)

lemma candidate_ok_begun:
  "p_events p = es @ [\<lparr>ev_state = state_proposed, ev_at = now, ev_reason = [], ev_evidence = []\<rparr>] \<Longrightarrow>
   p_state p = state_proposed \<Longrightarrow> candidate_ok p"
  using vc.complete_start [of "map ev_state es"]
  by (simp add: candidate_ok_def event_log_def verification_chain_def)

lemma begin_profile_cases:
  "snd (begin_profile sk ft env now p d) = d \<or>
   (\<exists>p2. candidate_ok p2 \<and>
      fst (fst (begin_profile sk ft env now p d)) =
        fst (fst (update_store env (p_scope p) (begin_mutate p2) d)) \<and>
      snd (begin_profile sk ft env now p d) =
        snd (update_store env (p_scope p) (begin_mutate p2) d))"
proof (cases "p_scope p = []")
  case False
  define p1 where "p1 = (if p_id p = []
                  then p\<lparr>p_id := sk [p_scope p, p_model p, p_backend p, p_hardware p,
                                      p_args_hash p, ft now]\<rparr> else p)"
  define p2 where "p2 = p1\<lparr>p_state := state_proposed, p_created := now, p_updated := now,
                    p_events := p_events p1 @
                      [\<lparr>ev_state = state_proposed, ev_at = now, ev_reason = [], ev_evidence = []\<rparr>]\<rparr>"
  have "candidate_ok p2" by (rule candidate_ok_begun) (simp_all add: p2_def)
  moreover have "p_scope p2 = p_scope p" by (simp add: p2_def p1_def)
  moreover have "p_scope p1 = p_scope p" by (simp add: p1_def)
  ultimately show ?thesis
    using False
    by (intro disjI2 exI [of _ p2])
       (simp add: begin_profile_def Let_def p1_def [symmetric] p2_def [symmetric] split: prod.split)
qed (simp add: begin_profile_def)

lemma disk_ok_step: "store_step env d d' \<Longrightarrow> disk_ok d \<Longrightarrow> disk_ok d'"
proof (induction rule: store_step.induct)
  case (store_begin env d sk ft now p)
  then show ?case
    using begin_profile_cases [of sk ft env now p d] prec_ok_begin disk_ok_update by metis
next
  case (store_transition env d now scope pid to reason evidence ms)
  then show ?case by (auto simp: transition_def intro: disk_ok_update prec_ok_transition)
next
  case (store_reject env d now scope h reason evidence)
  then show ?case by (auto simp: snd_reject_active intro: disk_ok_update prec_ok_reject)
qed

lemma disk_ok_reach: "store_reach d \<Longrightarrow> disk_ok d"
  by (induction rule: store_reach.induct) (auto simp: disk_ok_def [of "\<lambda>_. Missing"] disk_ok_step)


lemma valid_transition_active: "valid_transition s state_active \<longleftrightarrow> s = state_performance_verified"
  by (auto simp: valid_transition_def next_state_def state_defs)

lemma update_store_keeps:
  assumes "d scope = Stored r" "read_ok env" "Q (r_active r) (r_history r)"
    and "\<And>x r'. mutate r = Inr (x, r') \<Longrightarrow> Q (r_active r') (r_history r')"
  shows "\<exists>r'. snd (update_store env scope' mutate d) scope = Stored r' \<and> Q (r_active r') (r_history r')"
  using update_store_cases [of env scope' mutate d] assms
  by (cases "scope' = scope") auto

section \<open>A run that promotes a profile\<close>

definition demo_env :: io_env where
  "demo_env = \<lparr>cache_dir = ''/c'', lock_ok = True, read_ok = True, mkdir_ok = True, write_ok = True\<rparr>"

definition demo_profile :: "unit profile" where
  "demo_profile = \<lparr>p_id = ''p'', p_scope = ''s'', p_state = [], p_model = ''m'', p_backend = ''b'',
     p_hardware = ''h'', p_args_hash = ''a'', p_created = 0, p_updated = 0, p_properties = [],
     p_metrics = [], p_events = []\<rparr>"

definition demo_disk :: "state list \<Rightarrow> unit disk" where
  "demo_disk stages =
     fold (\<lambda>to d. snd (transition demo_env 7 ''s'' ''p'' to [] [] [] d)) stages
       (snd (begin_profile concat itoa demo_env 5 demo_profile (\<lambda>_. Missing)))"

lemma store_reach_fold:
  "store_reach d \<Longrightarrow>
   store_reach (fold (\<lambda>to d. snd (transition env now scope pid to reason evidence ms d)) stages d)"
proof (induction stages arbitrary: d)
  case (Cons to stages)
  then show ?case using store_next [OF Cons.prems store_transition] by simp
qed simp

lemma demo_disk_reach: "store_reach (demo_disk stages)"
  unfolding demo_disk_def
  by (rule store_reach_fold [OF store_next [OF store_start store_begin]])

definition stored_prec :: "'m stored \<Rightarrow> 'm prec" where
  "stored_prec x = (case x of Stored r \<Rightarrow> r | _ \<Rightarrow> fresh_record [])"

definition has_active :: "'m stored \<Rightarrow> bool" where
  "has_active x = (case x of Stored r \<Rightarrow> (case r_active r of Some _ \<Rightarrow> True | None \<Rightarrow> False) | _ \<Rightarrow> False)"

section \<open>Properties\<close>

text \<open>
  C4: In every state the profile store can reach, the active profile of a scope has the state
  \<^verbatim>\<open>active\<close> and its event log ends with the complete verification chain in order
  (proposed, allocation, load, functional, cache, performance, active), and the history of the
  scope holds at most twelve profiles.
\<close>

theorem profile_active_verified:
  assumes "store_reach d" "d scope = Stored r"
  shows "(\<forall>a. r_active r = Some a \<longrightarrow>
            p_state a = state_active \<and> suffix verification_chain (map ev_state (p_events a))) \<and>
         length (r_history r) \<le> 12"
proof -
  have "prec_ok r" using disk_ok_reach [OF assms(1)] assms(2) by (simp add: disk_ok_def)
  then show ?thesis by (auto simp: prec_ok_def active_ok_def event_log_def)
qed

theorem profile_active_verified_witness:
  "\<exists>a. r_active (stored_prec (demo_disk (tl verification_chain) ''s'')) = Some a \<and>
       suffix verification_chain (map ev_state (p_events a))"
proof -
  have "has_active (demo_disk (tl verification_chain) ''s'')" by code_simp
  then obtain r a where "demo_disk (tl verification_chain) ''s'' = Stored r" "r_active r = Some a"
    by (auto simp: has_active_def split: stored.splits option.splits)
  with profile_active_verified [OF demo_disk_reach, of "tl verification_chain" "''s''" r]
  show ?thesis by (simp add: stored_prec_def)
qed


lemma update_store_unread:
  assumes "\<not> read_ok env"
  shows "snd (update_store env scope mutate d) = d \<or>
    (\<exists>x r. mutate (fresh_record scope) = Inr (x, r) \<and>
       snd (update_store env scope mutate d) = d(scope := Stored (r\<lparr>r_schema := schema_version, r_scope := scope\<rparr>)))"
  using assms by (auto simp: update_store_def Let_def split: sum.splits prod.splits if_splits)

text \<open>A step that cannot read a record leaves it alone or replaces it by one without an active profile and history.\<close>

lemma unread_step:
  assumes "store_step env d d'" "\<not> read_ok env"
  shows "d' scope = d scope \<or> (\<exists>r'. d' scope = Stored r' \<and> r_active r' = None \<and> r_history r' = [])"
  using assms(1)
proof cases
  case (store_begin sk ft now p)
  from begin_profile_cases [of sk ft env now p d] consider "d' = d"
    | p2 where "d' = snd (update_store env (p_scope p) (begin_mutate p2) d)"
    using store_begin by auto
  then show ?thesis
  proof cases
    case (2 p2)
    then show ?thesis
      using update_store_unread [OF assms(2), of "p_scope p" "begin_mutate p2" d]
      by (auto simp: begin_mutate_def fresh_record_def)
  qed simp
next
  case (store_transition now sc pid to reason evidence ms)
  then show ?thesis
    using update_store_unread [OF assms(2), of sc "transition_mutate now pid to reason evidence ms" d]
    by (auto simp: transition_def transition_mutate_def fresh_record_def)
next
  case (store_reject now sc h reason evidence)
  then show ?thesis
    using update_store_unread [OF assms(2), of sc "reject_mutate now h reason evidence" d]
    by (auto simp: snd_reject_active reject_mutate_def fresh_record_def)
qed

text \<open>
  C5: What one step of the store does to the last known good profile. While the record of the scope can be read,
  the active profile stays active, or it is replaced by a candidate that had reached
  \<^verbatim>\<open>performance_verified\<close> (a different profile going to the end of the history), or, for
  \<^verbatim>\<open>RejectActiveIfMatch\<close>, it moves with the state \<^verbatim>\<open>rejected\<close> to the end of the history. When the
  record cannot be read, the step either leaves it as it is or replaces it by one with no active profile and no
  history: the read error is the only way to lose the last known good profile.
\<close>

theorem profile_lkg_kept:
  assumes "store_step env d d'" "d scope = Stored r" "r_active r = Some a"
  shows "(read_ok env \<longrightarrow> (\<exists>r'. d' scope = Stored r' \<and>
       (r_active r' = Some a
        \<or> (\<exists>c b. r_candidate r = Some c \<and> p_state c = state_performance_verified \<and>
              r_active r' = Some b \<and> p_id b = p_id c \<and> p_state b = state_active \<and>
              (p_id b = p_id a \<or> last (r_history r') = a))
        \<or> (r_active r' = None \<and> p_state a = state_active \<and>
              p_id (last (r_history r')) = p_id a \<and> p_state (last (r_history r')) = state_rejected)))) \<and>
    (\<not> read_ok env \<longrightarrow>
       d' scope = Stored r \<or> (\<exists>r'. d' scope = Stored r' \<and> r_active r' = None \<and> r_history r' = []))"
proof -
  define Q where "Q act h \<longleftrightarrow>
      (act = Some a
      \<or> (\<exists>c b. r_candidate r = Some c \<and> p_state c = state_performance_verified \<and>
            act = Some b \<and> p_id b = p_id c \<and> p_state b = state_active \<and>
            (p_id b = p_id a \<or> last h = a))
      \<or> (act = None \<and> p_state a = state_active \<and>
            p_id (last h) = p_id a \<and> p_state (last h) = state_rejected))" for act h
  have start: "Q (r_active r) (r_history r)" using assms(3) by (simp add: Q_def)
  have begun: "Q (r_active r') (r_history r')" if "begin_mutate p2 r = Inr (x, r')" for p2 x r'
    using that assms(3) by (auto simp: begin_mutate_def Q_def Let_def split: option.splits if_splits)
  have moved: "Q (r_active r') (r_history r')"
    if "transition_mutate now pid to reason evidence ms r = Inr (x, r')" for now pid to reason evidence ms x r'
    using that assms(3)
    by (auto simp: append_bounded_last transition_mutate_def Q_def Let_def valid_transition_active
        split: option.splits if_splits)
  have rejected: "Q (r_active r') (r_history r')"
    if "reject_mutate now h reason evidence r = Inr (x, r')" for now h reason evidence x r'
    using that assms(3)
    by (auto simp: append_bounded_last reject_mutate_def Q_def split: if_splits)
  note keep = update_store_keeps [where Q = Q and d = d and scope = scope and r = r and env = env,
      OF assms(2) _ start]
  have "\<exists>r'. d' scope = Stored r' \<and> Q (r_active r') (r_history r')" if readable: "read_ok env"
    using assms(1)
  proof cases
    case (store_begin sk ft now p)
    have "\<exists>r'. snd (update_store env (p_scope p) (begin_mutate p2) d) scope = Stored r' \<and>
        Q (r_active r') (r_history r')" for p2
      by (rule keep [OF readable]) (rule begun)
    then show ?thesis
      using begin_profile_cases [of sk ft env now p d] assms(2) start store_begin by metis
  next
    case store_transition
    then show ?thesis unfolding transition_def using keep [OF readable moved] by simp
  next
    case store_reject
    then show ?thesis unfolding snd_reject_active using keep [OF readable rejected] by simp
  qed
  moreover have "d' scope = Stored r \<or> (\<exists>r'. d' scope = Stored r' \<and> r_active r' = None \<and> r_history r' = [])" if "\<not> read_ok env"
    using unread_step [OF assms(1) that, of scope] assms(2) by auto
  ultimately show ?thesis by (simp add: Q_def)
qed

theorem profile_lkg_kept_witness:
  "\<exists>r'. demo_disk (tl verification_chain @ [state_active]) ''s'' = Stored r' \<and> r_active r' \<noteq> None"
proof -
  let ?d = "demo_disk (tl verification_chain)"
  have "has_active (?d ''s'')" by code_simp
  then obtain r a where r: "?d ''s'' = Stored r" "r_active r = Some a"
    by (auto simp: has_active_def split: stored.splits option.splits)
  have st: "store_step demo_env ?d (demo_disk (tl verification_chain @ [state_active]))"
    using store_transition [of demo_env "?d" 7 "''s''" "''p''" state_active "[]" "[]" "[]"]
    by (simp add: demo_disk_def)
  have "has_active (demo_disk (tl verification_chain @ [state_active]) ''s'')" by code_simp
  with profile_lkg_kept [OF st r] show ?thesis by (auto simp: demo_env_def has_active_def split: option.splits)
qed

text \<open>
  A profile reported active by \<^verbatim>\<open>IsActive\<close> is also reported by
  \<^verbatim>\<open>ReachedFunctional\<close>: a launch whose arguments are the active profile's never has
  to be verified functionally again.
\<close>

theorem active_reached_functional:
  assumes "store_reach d" "is_active env scope h d"
  shows "reached_functional env scope h d"
proof -
  from assms(2) obtain r a where r: "load_record env scope d = Inr r" "r_active r = Some a"
    "p_args_hash a = h" "p_state a = state_active"
    by (auto simp: is_active_def split: sum.splits option.splits)
  then have "d scope = Stored r"
    by (auto simp: load_record_def split: if_splits stored.splits)
  then have "prec_ok r"
    using disk_ok_reach [OF assms(1)] by (simp add: disk_ok_def)
  then have "active_ok a" using r(2) by (simp add: prec_ok_def)
  then have "state_functional_verified \<in> set (event_log a)"
    by (auto simp: active_ok_def suffix_def verification_chain_def)
  then obtain e where "e \<in> set (p_events a)" "ev_state e = state_functional_verified"
    by (auto simp: event_log_def)
  then show ?thesis
    using r by (auto simp: reached_functional_def list_ex_iff state_defs)
qed

theorem active_reached_functional_witness:
  "reached_functional demo_env ''s'' ''a'' (demo_disk (tl verification_chain))"
proof -
  have "is_active demo_env ''s'' ''a'' (demo_disk (tl verification_chain))" by code_simp
  from active_reached_functional [OF demo_disk_reach this] show ?thesis .
qed

text \<open>
  An operation of the store that reports an error leaves the whole directory as it was, and
  no operation touches a scope other than its own.
\<close>

theorem profile_errors_leave_disk:
  "(fst (fst (transition env now scope pid to reason evidence ms d)) = None \<or>
      snd (transition env now scope pid to reason evidence ms d) = d) \<and>
   (fst (fst (begin_profile sk ft env now p d)) = None \<or> snd (begin_profile sk ft env now p d) = d) \<and>
   (fst (fst (reject_active_if_match env now scope h reason evidence d)) = None \<or>
      snd (reject_active_if_match env now scope h reason evidence d) = d) \<and>
   (other = scope \<or>
      snd (transition env now scope pid to reason evidence ms d) other = d other \<and>
      snd (reject_active_if_match env now scope h reason evidence d) other = d other) \<and>
   (other = p_scope p \<or> snd (begin_profile sk ft env now p d) other = d other)"
proof -
  have "fst (fst (begin_profile sk ft env now p d)) = None \<or> snd (begin_profile sk ft env now p d) = d"
    using begin_profile_cases [of sk ft env now p d] update_store_error
    by (metis (no_types))
  moreover have "other = p_scope p \<or> snd (begin_profile sk ft env now p d) other = d other"
    using begin_profile_cases [of sk ft env now p d]
  proof
    assume "\<exists>p2. candidate_ok p2 \<and>
      fst (fst (begin_profile sk ft env now p d)) =
        fst (fst (update_store env (p_scope p) (begin_mutate p2) d)) \<and>
      snd (begin_profile sk ft env now p d) =
        snd (update_store env (p_scope p) (begin_mutate p2) d)"
    then obtain p2 where "snd (begin_profile sk ft env now p d) =
        snd (update_store env (p_scope p) (begin_mutate p2) d)" by blast
    then show ?thesis using update_store_other [of other "p_scope p" env "begin_mutate p2" d] by simp
  qed simp
  moreover have "fst (fst (reject_active_if_match env now scope h reason evidence d)) = None \<or>
      snd (reject_active_if_match env now scope h reason evidence d) = d"
    using update_store_error [of env scope "reject_mutate now h reason evidence" d]
    by (auto simp: reject_active_if_match_def split: prod.splits)
  moreover note update_store_error [of env scope "transition_mutate now pid to reason evidence ms" d]
    update_store_other [of other scope env "transition_mutate now pid to reason evidence ms" d]
    update_store_other [of other scope env "reject_mutate now h reason evidence" d]
  ultimately show ?thesis unfolding transition_def snd_reject_active by blast
qed

text \<open>
  A record file that exists but cannot be read is taken for an absent one: the next
  \<^verbatim>\<open>Begin\<close> on the scope succeeds and overwrites the record, and with it the last known
  good profile and the history.
\<close>

theorem profile_read_error_resets:
  assumes "\<not> read_ok env" "mkdir_ok env" "lock_ok env" "write_ok env"
    "trim_space (cache_dir env) \<noteq> []" "trim_space (p_scope p) \<noteq> []"
  shows "fst (fst (begin_profile sk ft env now p d)) = None \<and>
    (\<exists>r. snd (begin_profile sk ft env now p d) (p_scope p) = Stored r \<and>
      r_active r = None \<and> r_history r = [] \<and> r_candidate r \<noteq> None)"
proof -
  have "p_scope p \<noteq> []" using assms(6) by (auto simp: trim_space_def trim_left_def trim_right_def)
  then show ?thesis
    using assms
    by (simp add: begin_profile_def update_store_def begin_mutate_def fresh_record_def Let_def)
qed

theorem profile_read_error_resets_witness:
  "has_active (demo_disk (tl verification_chain) ''s'') \<and>
   \<not> has_active (snd (begin_profile concat itoa (demo_env\<lparr>read_ok := False\<rparr>) 9 demo_profile
       (demo_disk (tl verification_chain))) ''s'')"
proof -
  have "\<exists>r. snd (begin_profile concat itoa (demo_env\<lparr>read_ok := False\<rparr>) 9 demo_profile
       (demo_disk (tl verification_chain))) (p_scope demo_profile) = Stored r \<and> r_active r = None"
    using profile_read_error_resets [of "demo_env\<lparr>read_ok := False\<rparr>" demo_profile concat itoa 9
        "demo_disk (tl verification_chain)"]
    by (auto simp: demo_env_def demo_profile_def trim_space_def trim_left_def trim_right_def is_space_def)
  moreover have "has_active (demo_disk (tl verification_chain) ''s'')" by code_simp
  ultimately show ?thesis by (auto simp: has_active_def demo_profile_def)
qed

end
