(* ===== verification/GgufHeader.thy ===== *)
theory GgufHeader
  imports Prelude "HOL-Library.Word"
begin

text \<open>
  Reading the chat template from a GGUF header, \<^verbatim>\<open>readChatTemplate\<close> and
  \<^verbatim>\<open>skipGGUFValue\<close> of \<^verbatim>\<open>go/pkg/gguf/gguf.go\<close>. The reader is the list
  of bytes still to be read; every read either takes the bytes it asked for or fails. All
  lengths come from the file, so the theorems are about arbitrary byte lists: the scan always
  ends, never returns more than the cap, and reads back exactly what a writer of the format
  (\<open>enc_value\<close>, \<open>enc_header\<close>) wrote.
\<close>

type_synonym bytes = "8 word list"

datatype gguf_error =
    Truncated | NotGguf | KeyTooLong nat nat | TemplateTooLong nat | StringOutOfRange nat
  | NestedTooDeep | UnknownType nat

section \<open>Primitive reads\<close>

definition read_full :: "nat \<Rightarrow> bytes \<Rightarrow> gguf_error + bytes \<times> bytes" where
  "read_full n r = (if n \<le> length r then Inr (take n r, drop n r) else Inl Truncated)"

definition le_nat :: "bytes \<Rightarrow> nat" where
  "le_nat bs = foldr (\<lambda>b acc. unat b + 256 * acc) bs 0"

definition read_u32 :: "bytes \<Rightarrow> gguf_error + nat \<times> bytes" where
  "read_u32 r = (case read_full 4 r of Inl e \<Rightarrow> Inl e | Inr (b, r') \<Rightarrow> Inr (le_nat b, r'))"

definition read_u64 :: "bytes \<Rightarrow> gguf_error + nat \<times> bytes" where
  "read_u64 r = (case read_full 8 r of Inl e \<Rightarrow> Inl e | Inr (b, r') \<Rightarrow> Inr (le_nat b, r'))"

text \<open>\<^verbatim>\<open>io.CopyN(io.Discard, r, n)\<close>.\<close>

definition discard :: "nat \<Rightarrow> bytes \<Rightarrow> gguf_error + bytes" where
  "discard n r = (if n \<le> length r then Inr (drop n r) else Inl Truncated)"

definition bytes_of :: "string \<Rightarrow> bytes" where
  "bytes_of s = map of_char s"

definition max_gguf_key_len :: nat where
  "max_gguf_key_len = 65535"

definition max_chat_template_len :: nat where
  "max_chat_template_len = 16777216"

definition max_gguf_array_nesting :: nat where
  "max_gguf_array_nesting = 8"

definition chat_template_key :: bytes where
  "chat_template_key = bytes_of ''tokenizer.chat_template''"

definition fixed_size :: "nat \<Rightarrow> nat option" where
  "fixed_size ty =
     map_of [(0, 1), (1, 1), (2, 2), (3, 2), (4, 4), (5, 4), (6, 4), (7, 1), (10, 8), (11, 8), (12, 8)] ty"

section \<open>Skipping a value\<close>

text \<open>
  The loop over the elements of an array is \<open>skip_elems\<close>; nesting is cut at eight levels,
  which is what makes the mutual recursion end.
\<close>

function skip_value :: "nat \<Rightarrow> nat \<Rightarrow> bytes \<Rightarrow> gguf_error + bytes"
  and skip_elems :: "nat \<Rightarrow> nat \<Rightarrow> nat \<Rightarrow> bytes \<Rightarrow> gguf_error + bytes" where
  "skip_value ty depth r =
     (case fixed_size ty of
        Some n \<Rightarrow> discard n r
      | None \<Rightarrow>
          if ty = 8 then
            (case read_u64 r of
               Inl e \<Rightarrow> Inl e
             | Inr (n, r1) \<Rightarrow>
                 if max_int < int n then Inl (StringOutOfRange n) else discard n r1)
          else if ty = 9 then
            (if max_gguf_array_nesting \<le> depth then Inl NestedTooDeep
             else case read_full 12 r of
               Inl e \<Rightarrow> Inl e
             | Inr (b, r1) \<Rightarrow> skip_elems (le_nat (drop 4 b)) (le_nat (take 4 b)) (Suc depth) r1)
          else Inl (UnknownType ty))"
| "skip_elems count ty depth r =
     (if count = 0 then Inr r
      else case skip_value ty depth r of
        Inl e \<Rightarrow> Inl e
      | Inr r1 \<Rightarrow> skip_elems (count - 1) ty depth r1)"
  by pat_completeness auto

termination
  by (relation "measures [\<lambda>x. case x of
        Inl (ty, depth, r) \<Rightarrow> 2 * (9 - depth)
      | Inr (count, ty, depth, r) \<Rightarrow> Suc (2 * (9 - depth)),
      \<lambda>x. case x of Inl _ \<Rightarrow> 0 | Inr (count, _) \<Rightarrow> count]")
     (auto simp: max_gguf_array_nesting_def)

declare skip_value.simps [simp del] skip_elems.simps [simp del]

section \<open>The metadata scan\<close>

fun scan_template :: "nat \<Rightarrow> nat \<Rightarrow> bytes \<Rightarrow> gguf_error + bytes" where
  "scan_template i 0 r = Inr []"
| "scan_template i (Suc left) r =
     (case read_u64 r of
        Inl e \<Rightarrow> Inl e
      | Inr (key_len, r1) \<Rightarrow>
          if max_gguf_key_len < key_len then Inl (KeyTooLong i key_len)
          else case read_full key_len r1 of
            Inl e \<Rightarrow> Inl e
          | Inr (key, r2) \<Rightarrow>
              (case read_u32 r2 of
                 Inl e \<Rightarrow> Inl e
               | Inr (ty, r3) \<Rightarrow>
                   if ty = 8 \<and> key = chat_template_key then
                     (case read_u64 r3 of
                        Inl e \<Rightarrow> Inl e
                      | Inr (val_len, r4) \<Rightarrow>
                          if max_chat_template_len < val_len then Inl (TemplateTooLong val_len)
                          else case read_full val_len r4 of
                            Inl e \<Rightarrow> Inl e
                          | Inr (val, _) \<Rightarrow> Inr val)
                   else case skip_value ty 0 r3 of
                     Inl e \<Rightarrow> Inl e
                   | Inr r4 \<Rightarrow> scan_template (Suc i) left r4))"

definition read_chat_template :: "bytes \<Rightarrow> gguf_error + bytes" where
  "read_chat_template r =
     (case read_full 4 r of
        Inl _ \<Rightarrow> Inl NotGguf
      | Inr (magic, r1) \<Rightarrow>
          if magic \<noteq> bytes_of ''GGUF'' then Inl NotGguf
          else case read_u32 r1 of
            Inl e \<Rightarrow> Inl e
          | Inr (_, r2) \<Rightarrow>
              (case read_u64 r2 of
                 Inl e \<Rightarrow> Inl e
               | Inr (_, r3) \<Rightarrow>
                   (case read_u64 r3 of
                      Inl e \<Rightarrow> Inl e
                    | Inr (kv_count, r4) \<Rightarrow> scan_template 0 kv_count r4)))"

text \<open>\<^verbatim>\<open>ChatTemplate\<close>: an unreadable file (\<open>None\<close>) and every error give the empty string.\<close>

definition chat_template :: "string \<Rightarrow> bytes option \<Rightarrow> bytes" where
  "chat_template path file =
     (if trim_space path = [] then []
      else case file of
        None \<Rightarrow> []
      | Some r \<Rightarrow> (case read_chat_template r of Inl _ \<Rightarrow> [] | Inr t \<Rightarrow> t))"

section \<open>The format as a writer produces it\<close>

datatype gval = Fixed nat bytes | Str bytes | Arr nat "gval list"

fun val_type :: "gval \<Rightarrow> nat" where
  "val_type (Fixed ty _) = ty"
| "val_type (Str _) = 8"
| "val_type (Arr _ _) = 9"

fun le_bytes :: "nat \<Rightarrow> nat \<Rightarrow> bytes" where
  "le_bytes 0 n = []"
| "le_bytes (Suc k) n = of_nat n # le_bytes k (n div 256)"

fun enc_value :: "gval \<Rightarrow> bytes" where
  "enc_value (Fixed _ b) = b"
| "enc_value (Str b) = le_bytes 8 (length b) @ b"
| "enc_value (Arr ty vs) = le_bytes 4 ty @ le_bytes 8 (length vs) @ concat (map enc_value vs)"

fun wf_value :: "nat \<Rightarrow> gval \<Rightarrow> bool" where
  "wf_value d (Fixed ty b) \<longleftrightarrow> fixed_size ty = Some (length b)"
| "wf_value d (Str b) \<longleftrightarrow> int (length b) \<le> max_int"
| "wf_value d (Arr ty vs) \<longleftrightarrow>
     d < max_gguf_array_nesting \<and> ty < 256 ^ 4 \<and> length vs < 256 ^ 8 \<and>
     list_all (\<lambda>v. val_type v = ty \<and> wf_value (Suc d) v) vs"

type_synonym kv = "bytes \<times> gval"

definition enc_entry :: "kv \<Rightarrow> bytes" where
  "enc_entry e =
     le_bytes 8 (length (fst e)) @ fst e @ le_bytes 4 (val_type (snd e)) @ enc_value (snd e)"

definition enc_header :: "nat \<Rightarrow> nat \<Rightarrow> kv list \<Rightarrow> bytes" where
  "enc_header version tensors kvs =
     bytes_of ''GGUF'' @ le_bytes 4 version @ le_bytes 8 tensors @ le_bytes 8 (length kvs) @
     concat (map enc_entry kvs)"

fun find_template :: "kv list \<Rightarrow> bytes" where
  "find_template [] = []"
| "find_template ((k, v) # kvs) =
     (case v of Str t \<Rightarrow> if k = chat_template_key then t else find_template kvs
      | _ \<Rightarrow> find_template kvs)"

definition wf_entry :: "kv \<Rightarrow> bool" where
  "wf_entry e \<longleftrightarrow>
     length (fst e) \<le> max_gguf_key_len \<and> wf_value 0 (snd e) \<and>
     (case snd e of Str t \<Rightarrow> fst e \<noteq> chat_template_key \<or> length t \<le> max_chat_template_len | _ \<Rightarrow> True)"

section \<open>Lemmas on reads\<close>

lemma length_le_bytes [simp]: "length (le_bytes k n) = k"
  by (induction k n rule: le_bytes.induct) auto

lemma le_nat_le_bytes: "n < 256 ^ k \<Longrightarrow> le_nat (le_bytes k n) = n"
proof (induction k n rule: le_bytes.induct)
  case (2 k n)
  then have "n div 256 < 256 ^ k" by (simp add: less_mult_imp_div_less mult.commute)
  with 2 have "le_nat (le_bytes k (n div 256)) = n div 256" by blast
  moreover have "le_nat (le_bytes (Suc k) n) =
      unat (of_nat n :: 8 word) + 256 * le_nat (le_bytes k (n div 256))"
    by (simp add: le_nat_def)
  ultimately show ?case by (simp add: unat_of_nat)
qed (simp add: le_nat_def)

lemma read_full_append [simp]: "length p = n \<Longrightarrow> read_full n (p @ r) = Inr (p, r)"
  by (auto simp: read_full_def)

lemma read_full_append' [simp]: "read_full (length p) (p @ r) = Inr (p, r)"
  by (simp add: read_full_def)

lemma read_full_ok: "read_full n r = Inr (b, r') \<Longrightarrow> r = b @ r' \<and> length b = n"
  by (auto simp: read_full_def split: if_splits)

lemma read_u64_le [simp]: "n < 256 ^ 8 \<Longrightarrow> read_u64 (le_bytes 8 n @ r) = Inr (n, r)"
  by (simp add: read_u64_def le_nat_le_bytes)

lemma read_u32_le [simp]: "n < 256 ^ 4 \<Longrightarrow> read_u32 (le_bytes 4 n @ r) = Inr (n, r)"
  by (simp add: read_u32_def le_nat_le_bytes)

lemma read_u64_ok: "read_u64 r = Inr (n, r') \<Longrightarrow> \<exists>b. r = b @ r' \<and> length b = 8"
  by (auto simp: read_u64_def dest: read_full_ok split: sum.splits)

lemma read_u32_ok: "read_u32 r = Inr (n, r') \<Longrightarrow> \<exists>b. r = b @ r' \<and> length b = 4"
  by (auto simp: read_u32_def dest: read_full_ok split: sum.splits)

lemma discard_append [simp]: "length p = n \<Longrightarrow> discard n (p @ r) = Inr r"
  by (auto simp: discard_def)

lemma discard_ok: "discard n r = Inr r' \<Longrightarrow> \<exists>p. r = p @ r' \<and> length p = n"
  by (auto simp: discard_def split: if_splits intro!: exI [of _ "take n r"])

lemma fixed_size_types:
  "fixed_size 8 = None" "fixed_size 9 = None"
  "fixed_size ty = Some n \<Longrightarrow> 0 < n \<and> ty < 256 ^ 4"
  by (auto simp: fixed_size_def split: if_splits)

section \<open>Skipping reads exactly one value\<close>

lemma skip_elems_exact:
  assumes "\<And>v r. v \<in> set vs \<Longrightarrow> skip_value ty d (enc_value v @ r) = Inr r"
  shows "skip_elems (length vs) ty d (concat (map enc_value vs) @ r) = Inr r"
  using assms by (induction vs) (simp_all add: skip_elems.simps)

lemma skip_value_exact: "wf_value d v \<Longrightarrow> skip_value (val_type v) d (enc_value v @ r) = Inr r"
proof (induction v arbitrary: d r)
  case (Fixed ty b)
  then show ?case by (simp add: skip_value.simps)
next
  case (Str b)
  then have l: "int (length b) \<le> 9223372036854775807" by (simp add: max_int_def)
  then have "length b < 256 ^ 8" by simp
  with Str show ?case by (simp add: skip_value.simps fixed_size_types)
next
  case (Arr ty vs)
  from Arr.prems have wf: "d < max_gguf_array_nesting" "ty < 256 ^ 4" "length vs < 256 ^ 8"
    "\<And>v. v \<in> set vs \<Longrightarrow> val_type v = ty \<and> wf_value (Suc d) v"
    by (auto simp: list_all_iff)
  have el: "skip_elems (length vs) ty (Suc d) (concat (map enc_value vs) @ r) = Inr r"
    using Arr.IH wf(4) by (intro skip_elems_exact) metis
  have rf: "read_full 12 (enc_value (Arr ty vs) @ r) =
      Inr (le_bytes 4 ty @ le_bytes 8 (length vs), concat (map enc_value vs) @ r)"
    using read_full_append [of "le_bytes 4 ty @ le_bytes 8 (length vs)" 12] by simp
  have "\<not> max_gguf_array_nesting \<le> d" using wf(1) by simp
  with rf el wf(2,3) show ?case
    by (simp add: skip_value.simps [of 9] fixed_size_types le_nat_le_bytes del: enc_value.simps)
qed

lemma skip_progress:
  "skip_value ty d r = Inr r' \<Longrightarrow> \<exists>p. r = p @ r' \<and> p \<noteq> []"
  "skip_elems n ty d r = Inr r' \<Longrightarrow> \<exists>p. r = p @ r' \<and> n \<le> length p"
proof (induction ty d r and n ty d r arbitrary: r' and r' rule: skip_value_skip_elems.induct)
  case (1 ty depth r)
  from "1.prems" show ?case
  proof (subst (asm) skip_value.simps, goal_cases)
    case 1
    note h = this
    show ?case
    proof (cases "fixed_size ty")
      case (Some n)
      then show ?thesis using h fixed_size_types(3) [OF Some] discard_ok by fastforce
    next
      case None
      consider "ty = 8" | "ty = 9" using h None by (auto split: if_splits)
      then show ?thesis
      proof cases
        case 1
        then obtain n r1 where "read_u64 r = Inr (n, r1)" "discard n r1 = Inr r'"
          using h None by (auto split: sum.splits if_splits)
        then show ?thesis using read_u64_ok discard_ok by fastforce
      next
        case 2
        then obtain b r1 where rb: "read_full 12 r = Inr (b, r1)" "depth < max_gguf_array_nesting"
          "skip_elems (le_nat (drop 4 b)) (le_nat (take 4 b)) (Suc depth) r1 = Inr r'"
          using h None by (auto split: sum.splits if_splits)
        from "1.IH" [OF None _ _ _ rb(1)] 2 rb
        obtain p where "r1 = p @ r'" by auto
        with read_full_ok [OF rb(1)] show ?thesis by auto
      qed
    qed
  qed
next
  case (2 count ty depth r)
  show ?case
  proof (cases "count = 0")
    case True
    then show ?thesis using "2.prems" by (simp add: skip_elems.simps)
  next
    case False
    then obtain r1 where r1: "skip_value ty depth r = Inr r1" "skip_elems (count - 1) ty depth r1 = Inr r'"
      using "2.prems" by (subst (asm) skip_elems.simps) (auto split: sum.splits)
    obtain p where p: "r = p @ r1" "p \<noteq> []" using "2.IH"(1) [OF False r1(1)] by blast
    obtain q where "r1 = q @ r'" "count - 1 \<le> length q" using "2.IH"(2) [OF False r1(1) r1(2)] by blast
    with p False show ?thesis
      by (intro exI [of _ "p @ q"]) (cases p, auto)
  qed
qed

section \<open>The scan of the metadata\<close>

lemma val_type_bound: "wf_value d v \<Longrightarrow> val_type v < 256 ^ 4"
  using fixed_size_types(3) by (cases v) auto

lemma scan_template_exact:
  "list_all wf_entry kvs \<Longrightarrow>
   scan_template i (length kvs) (concat (map enc_entry kvs) @ r) = Inr (find_template kvs)"
proof (induction kvs arbitrary: i)
  case (Cons e kvs)
  obtain k v where e: "e = (k, v)" by (cases e)
  from Cons.prems e have wf: "length k \<le> max_gguf_key_len" "wf_value 0 v" "wf_entry e" by (auto simp: wf_entry_def)
  have lk: "length k < 256 ^ 8" using wf(1) by (simp add: max_gguf_key_len_def)
  let ?rest = "concat (map enc_entry kvs) @ r"
  have start: "read_u64 (concat (map enc_entry (e # kvs)) @ r) =
      Inr (length k, k @ le_bytes 4 (val_type v) @ enc_value v @ ?rest)"
    using lk by (simp add: e enc_entry_def)
  have IH: "scan_template j (length kvs) ?rest = Inr (find_template kvs)" for j
    using Cons by simp
  show ?case
  proof (cases "val_type v = 8 \<and> k = chat_template_key")
    case True
    then obtain t where t: "v = Str t"
      using wf(2) fixed_size_types by (cases v) auto
    have lt: "length t \<le> max_chat_template_len" using wf(3) True by (simp add: e t wf_entry_def)
    then have "length t < 256 ^ 8" by (simp add: max_chat_template_len_def)
    with True t lt show ?thesis
      by (simp only: list.size scan_template.simps nat_arith.rule0 add_0_right add_Suc_right start)
         (use wf(1) in \<open>simp add: e\<close>)
  next
    case False
    have ft: "find_template (e # kvs) = find_template kvs"
      using False by (auto simp: e split: gval.split)
    have "read_u32 (le_bytes 4 (val_type v) @ enc_value v @ ?rest) = Inr (val_type v, enc_value v @ ?rest)"
      by (rule read_u32_le [OF val_type_bound [OF wf(2)]])
    with False show ?thesis
      by (simp only: list.size scan_template.simps add_0_right add_Suc_right start ft)
         (use wf(1) skip_value_exact [OF wf(2)] IH in auto)
  qed
qed simp

lemma scan_template_ok:
  "scan_template i n r = Inr t \<Longrightarrow>
   length t \<le> max_chat_template_len \<and> (\<exists>a b. r = a @ t @ b)"
proof (induction n arbitrary: i r)
  case (Suc n)
  from Suc.prems obtain kl r1 where a: "read_u64 r = Inr (kl, r1)" by (auto split: sum.splits)
  from Suc.prems a obtain key r2 where b: "read_full kl r1 = Inr (key, r2)"
    by (auto split: sum.splits if_splits)
  from Suc.prems a b obtain ty r3 where c: "read_u32 r2 = Inr (ty, r3)"
    by (auto split: sum.splits if_splits)
  obtain p where p: "r = p @ r3"
    using read_u64_ok [OF a] read_full_ok [OF b] read_u32_ok [OF c] by (metis append.assoc)
  show ?case
  proof (cases "ty = 8 \<and> key = chat_template_key")
    case True
    with Suc.prems a b c obtain vl r4 r5 where d: "read_u64 r3 = Inr (vl, r4)"
      "vl \<le> max_chat_template_len" "read_full vl r4 = Inr (t, r5)"
      by (auto split: sum.splits if_splits)
    with read_u64_ok [OF d(1)] read_full_ok [OF d(3)] p show ?thesis
      by (metis append.assoc)
  next
    case False
    with Suc.prems a b c obtain r4 where d: "skip_value ty 0 r3 = Inr r4"
      "scan_template (Suc i) n r4 = Inr t"
      by (auto split: sum.splits if_splits)
    from skip_progress(1) [OF d(1)] Suc.IH [OF d(2)] p show ?thesis
      by (metis append.assoc)
  qed
qed auto

section \<open>Properties\<close>

text \<open>
  C12: Reading a well-formed header gives exactly the string stored under
  \<^verbatim>\<open>tokenizer.chat_template\<close> (the first one, or the empty string when there is none),
  whatever other metadata, arrays and nested arrays precede it and whatever follows the header.
\<close>

theorem gguf_template_roundtrip:
  assumes "list_all wf_entry kvs" "version < 256 ^ 4" "tensors < 256 ^ 8" "length kvs < 256 ^ 8"
  shows "read_chat_template (enc_header version tensors kvs @ rest) = Inr (find_template kvs)"
proof -
  have "read_full 4 (enc_header version tensors kvs @ rest) =
      Inr (bytes_of ''GGUF'', le_bytes 4 version @ le_bytes 8 tensors @ le_bytes 8 (length kvs) @
        concat (map enc_entry kvs) @ rest)"
    using read_full_append [of "bytes_of ''GGUF''" 4] by (simp add: enc_header_def bytes_of_def)
  with assms show ?thesis
    by (simp add: read_chat_template_def scan_template_exact)
qed

theorem gguf_template_roundtrip_witness:
  "read_chat_template
     (enc_header 3 7 [(bytes_of ''a'', Arr 9 [Arr 8 [Str [1, 2]]]), (bytes_of ''b'', Fixed 4 [0, 0, 0, 1]),
        (chat_template_key, Str (bytes_of ''hi''))] @ [9, 9]) = Inr (bytes_of ''hi'')"
  by (subst gguf_template_roundtrip)
     (simp_all add: wf_entry_def fixed_size_def max_gguf_key_len_def max_gguf_array_nesting_def
        max_chat_template_len_def max_int_def bytes_of_def chat_template_key_def)

text \<open>
  For an arbitrary byte sequence, corrupt or not, the scan ends, and a template it returns
  has at most 16 MiB and is a contiguous part of the file.
\<close>

theorem gguf_template_bounded:
  "case read_chat_template r of
     Inl _ \<Rightarrow> True
   | Inr t \<Rightarrow> length t \<le> max_chat_template_len \<and> (\<exists>a b. r = a @ t @ b)"
proof (cases "read_chat_template r")
  case (Inr t)
  then obtain m r1 v r2 w r3 n r4 where h: "read_full 4 r = Inr (m, r1)" "read_u32 r1 = Inr (v, r2)"
    "read_u64 r2 = Inr (w, r3)" "read_u64 r3 = Inr (n, r4)" "scan_template 0 n r4 = Inr t"
    by (auto simp: read_chat_template_def split: sum.splits if_splits)
  obtain a b c d where "r = (a @ b @ c @ d) @ r4"
    using read_full_ok [OF h(1)] read_u32_ok [OF h(2)] read_u64_ok [OF h(3)] read_u64_ok [OF h(4)]
    by auto
  moreover obtain x y where "r4 = x @ t @ y" "length t \<le> max_chat_template_len"
    using scan_template_ok [OF h(5)] by blast
  ultimately have "r = (a @ b @ c @ d @ x) @ t @ y" by simp
  then have "\<exists>a b. r = a @ t @ b" by blast
  with \<open>length t \<le> max_chat_template_len\<close> Inr show ?thesis by simp
qed simp

text \<open>
  A value is skipped only by consuming bytes of the file, and skipping an array of
  \<^verbatim>\<open>count\<close> elements consumes at least \<^verbatim>\<open>count\<close> bytes: a corrupt count
  cannot make the loop run longer than the file.
\<close>

theorem gguf_skip_bounded:
  assumes "skip_elems count ty depth r = Inr r'"
  shows "\<exists>p. r = p @ r' \<and> count \<le> length p"
  using skip_progress(2) [OF assms] .

theorem gguf_skip_bounded_witness:
  "\<exists>p. [1, 2, 3, 4, 5 :: 8 word] = p @ [5] \<and> (2 :: nat) \<le> length p"
proof -
  have "skip_elems 2 2 1 [1, 2, 3, 4, 5] = Inr [5]"
    by (simp add: skip_elems.simps skip_value.simps fixed_size_def discard_def)
  from gguf_skip_bounded [OF this] show ?thesis .
qed

end
