(* ===== verification/LoadMode.thy ===== *)
theory LoadMode
  imports Prelude
begin

text \<open>
  The two spellings of llama.cpp's loading options, \<^verbatim>\<open>go/pkg/server/load_mode.go\<close>:
  the classic flags \<^verbatim>\<open>--mmap\<close>, \<^verbatim>\<open>--no-mmap\<close>, \<^verbatim>\<open>--mlock\<close>
  and the native \<^verbatim>\<open>--load-mode VALUE\<close>. The theorems show that the translation handed
  to a backend that knows only the native option leaves no classic flag, selects the same state, and
  is idempotent. The registry of backend directories (a \<^verbatim>\<open>sync.Map\<close>) is the list of
  directories registered so far, and \<^verbatim>\<open>filepath.Dir\<close> a parameter.
\<close>

section \<open>The registry\<close>

definition register_load_mode_backend :: "(string \<Rightarrow> string) \<Rightarrow> string \<Rightarrow> string list \<Rightarrow> string list" where
  "register_load_mode_backend dir path dirs =
     (if path \<noteq> [] then List.insert (dir path) dirs else dirs)"

definition uses_load_mode :: "(string \<Rightarrow> string) \<Rightarrow> string list \<Rightarrow> string \<Rightarrow> bool" where
  "uses_load_mode dir dirs binary \<longleftrightarrow> dir binary \<in> set dirs"

section \<open>The folded state\<close>

definition load_mode_values :: "string list" where
  "load_mode_values = [''auto'', ''none'', ''mmap'', ''mlock'', ''mmap+mlock'', ''dio'']"

record load_mode =
  lm_base :: string
  lm_mlock :: bool
  lm_native :: int
  lm_legacy :: int

definition empty_mode :: load_mode where
  "empty_mode = \<lparr>lm_base = [], lm_mlock = False, lm_native = 0, lm_legacy = 0\<rparr>"

text \<open>
  \<^verbatim>\<open>nativeLoadModeValue(args, i)\<close>, given the token at \<^verbatim>\<open>i\<close> and the
  tokens after it.
\<close>

definition native_load_mode_value :: "string \<Rightarrow> argv \<Rightarrow> string option" where
  "native_load_mode_value tok rest =
     (let (flag, inline) = (case cut_char CHR ''='' tok of
            None \<Rightarrow> (tok, None)
          | Some (f, v) \<Rightarrow> (f, Some v)) in
      if flag \<noteq> ''--load-mode'' \<and> flag \<noteq> ''-lm'' then None
      else case inline of
        Some v \<Rightarrow> Some v
      | None \<Rightarrow> (case rest of [] \<Rightarrow> Some [] | v # _ \<Rightarrow> Some v))"

definition is_inline :: "string \<Rightarrow> bool" where
  "is_inline tok \<longleftrightarrow> CHR ''='' \<in> set tok"

definition apply_native :: "string \<Rightarrow> load_mode \<Rightarrow> load_mode" where
  "apply_native v m =
     (if v = ''mlock'' then m\<lparr>lm_base := ''none'', lm_mlock := True\<rparr>
      else if v = ''mmap+mlock'' then m\<lparr>lm_base := ''mmap'', lm_mlock := True\<rparr>
      else m\<lparr>lm_base := v, lm_mlock := False\<rparr>)"

text \<open>
  \<^verbatim>\<open>ParseLoadMode\<close>: the state reached and whether an unknown native value ended the
  scan. A native value given as the next token is skipped (\<^verbatim>\<open>i++\<close>).
\<close>

fun parse_load_mode :: "argv \<Rightarrow> load_mode \<Rightarrow> load_mode \<times> string option" where
  "parse_load_mode [] m = (m, None)"
| "parse_load_mode (tok # rest) m =
     (if tok = ''--mmap'' then parse_load_mode rest (m\<lparr>lm_base := ''mmap'', lm_legacy := lm_legacy m + 1\<rparr>)
      else if tok = ''--no-mmap'' then
        parse_load_mode rest (m\<lparr>lm_base := ''none'', lm_legacy := lm_legacy m + 1\<rparr>)
      else if tok = ''--mlock'' then
        parse_load_mode rest (m\<lparr>lm_mlock := True, lm_legacy := lm_legacy m + 1\<rparr>)
      else case native_load_mode_value tok rest of
        None \<Rightarrow> parse_load_mode rest m
      | Some v \<Rightarrow>
          let m1 = m\<lparr>lm_native := lm_native m + 1\<rparr> in
          if v \<notin> set load_mode_values then (m1, Some v)
          else if is_inline tok then parse_load_mode rest (apply_native v m1)
          else parse_load_mode (drop 1 rest) (apply_native v m1))"

definition stated :: "load_mode \<Rightarrow> bool" where
  "stated m \<longleftrightarrow> lm_base m \<noteq> [] \<or> lm_mlock m"

definition spelling :: "load_mode \<Rightarrow> string" where
  "spelling m =
     (let base = (if lm_base m = [] then ''mmap'' else lm_base m) in
      if \<not> lm_mlock m then base
      else if base = ''none'' then ''mlock''
      else if base = ''mmap'' \<or> base = ''auto'' then ''mmap+mlock''
      else base)"

text \<open>\<^verbatim>\<open>Mapped\<close>: (mapped, known).\<close>

definition mapped :: "load_mode \<Rightarrow> bool \<times> bool" where
  "mapped m =
     (if lm_base m = [] \<or> lm_base m = ''mmap'' then (True, True)
      else if lm_base m = ''none'' \<or> lm_base m = ''dio'' then (False, True)
      else (False, False))"

section \<open>The translation\<close>

definition classic_flags :: "string list" where
  "classic_flags = [''--mmap'', ''--no-mmap'', ''--mlock'']"

fun strip_load_flags :: "argv \<Rightarrow> argv" where
  "strip_load_flags [] = []"
| "strip_load_flags (tok # rest) =
     (if tok \<in> set classic_flags then strip_load_flags rest
      else case native_load_mode_value tok rest of
        Some _ \<Rightarrow> if is_inline tok then strip_load_flags rest else strip_load_flags (drop 1 rest)
      | None \<Rightarrow> tok # strip_load_flags rest)"

definition translate_load_mode :: "argv \<Rightarrow> argv" where
  "translate_load_mode args =
     (let (m, err) = parse_load_mode args empty_mode in
      if err \<noteq> None \<or> (lm_legacy m = 0 \<and> lm_native m > 0) then args
      else strip_load_flags args @ [''--load-mode'', spelling m])"

definition load_mode_args :: "(string \<Rightarrow> string) \<Rightarrow> string list \<Rightarrow> argv \<Rightarrow> argv" where
  "load_mode_args dir dirs args =
     (case args of
        [] \<Rightarrow> args
      | binary # _ \<Rightarrow> if uses_load_mode dir dirs binary then translate_load_mode args else args)"

section \<open>Lemmas\<close>

definition mode_ok :: "load_mode \<Rightarrow> bool" where
  "mode_ok m \<longleftrightarrow>
     lm_base m \<in> {[], ''auto'', ''none'', ''mmap'', ''dio''} \<and> 0 \<le> lm_native m \<and> 0 \<le> lm_legacy m \<and>
     (lm_legacy m = 0 \<longrightarrow> lm_mlock m \<longrightarrow> lm_base m \<in> {''none'', ''mmap''}) \<and>
     (0 < lm_native m \<longrightarrow> lm_base m \<noteq> [])"

lemma mode_ok_empty: "mode_ok empty_mode"
  by (simp add: mode_ok_def empty_mode_def)

lemma mode_ok_native:
  "mode_ok m \<Longrightarrow> v \<in> set load_mode_values \<Longrightarrow> mode_ok (apply_native v (m\<lparr>lm_native := lm_native m + 1\<rparr>))"
  by (auto simp: mode_ok_def apply_native_def load_mode_values_def)

lemma mode_ok_classic:
  "mode_ok m \<Longrightarrow> mode_ok (m\<lparr>lm_base := ''mmap'', lm_legacy := lm_legacy m + 1\<rparr>)"
  "mode_ok m \<Longrightarrow> mode_ok (m\<lparr>lm_base := ''none'', lm_legacy := lm_legacy m + 1\<rparr>)"
  "mode_ok m \<Longrightarrow> mode_ok (m\<lparr>lm_mlock := True, lm_legacy := lm_legacy m + 1\<rparr>)"
  by (auto simp: mode_ok_def)

lemma parse_step_cases:
  assumes "P (parse_load_mode rest (m\<lparr>lm_base := ''mmap'', lm_legacy := lm_legacy m + 1\<rparr>))"
    "P (parse_load_mode rest (m\<lparr>lm_base := ''none'', lm_legacy := lm_legacy m + 1\<rparr>))"
    "P (parse_load_mode rest (m\<lparr>lm_mlock := True, lm_legacy := lm_legacy m + 1\<rparr>))"
    "tok \<notin> set classic_flags \<Longrightarrow> P (case native_load_mode_value tok rest of
        None \<Rightarrow> parse_load_mode rest m
      | Some v \<Rightarrow>
          let m1 = m\<lparr>lm_native := lm_native m + 1\<rparr> in
          if v \<notin> set load_mode_values then (m1, Some v)
          else if is_inline tok then parse_load_mode rest (apply_native v m1)
          else parse_load_mode (drop 1 rest) (apply_native v m1))"
  shows "P (parse_load_mode (tok # rest) m)"
  unfolding parse_load_mode.simps(2) using assms by (simp only: classic_flags_def set_simps insert_iff empty_iff split: if_split) blast

lemma parse_mode_ok:
  "mode_ok m \<Longrightarrow> snd (parse_load_mode args m) = None \<Longrightarrow> mode_ok (fst (parse_load_mode args m))"
proof (induction "length args" arbitrary: args m rule: less_induct)
  case less
  show ?case
  proof (cases args)
    case (Cons tok rest)
    have IH: "mode_ok m' \<Longrightarrow> snd (parse_load_mode r m') = None \<longrightarrow> mode_ok (fst (parse_load_mode r m'))"
      if "length r \<le> length rest" for r m'
      using less.hyps [of r m'] that Cons by simp
    have "snd (parse_load_mode (tok # rest) m) = None \<longrightarrow> mode_ok (fst (parse_load_mode (tok # rest) m))"
    proof (rule parse_step_cases [where P = "\<lambda>x. snd x = None \<longrightarrow> mode_ok (fst x)"])
      show "snd (case native_load_mode_value tok rest of
        None \<Rightarrow> parse_load_mode rest m
      | Some v \<Rightarrow>
          let m1 = m\<lparr>lm_native := lm_native m + 1\<rparr> in
          if v \<notin> set load_mode_values then (m1, Some v)
          else if is_inline tok then parse_load_mode rest (apply_native v m1)
          else parse_load_mode (drop 1 rest) (apply_native v m1)) = None \<longrightarrow>
        mode_ok (fst (case native_load_mode_value tok rest of
        None \<Rightarrow> parse_load_mode rest m
      | Some v \<Rightarrow>
          let m1 = m\<lparr>lm_native := lm_native m + 1\<rparr> in
          if v \<notin> set load_mode_values then (m1, Some v)
          else if is_inline tok then parse_load_mode rest (apply_native v m1)
          else parse_load_mode (drop 1 rest) (apply_native v m1)))"
        using IH less.prems(1) mode_ok_native by (simp add: Let_def split: option.split)
    qed (intro IH mode_ok_classic less.prems order.refl)+
    with Cons less.prems show ?thesis by simp
  qed (use less.prems in simp)
qed

lemma apply_native_legacy [simp]: "lm_legacy (apply_native v m) = lm_legacy m"
  by (simp add: apply_native_def)

lemma parse_legacy_mono:
  "lm_legacy m \<le> lm_legacy (fst (parse_load_mode args m))"
proof (induction "length args" arbitrary: args m rule: less_induct)
  case less
  show ?case
  proof (cases args)
    case (Cons tok rest)
    have up: "lm_legacy m \<le> lm_legacy (fst (parse_load_mode r m'))"
      if "length r \<le> length rest" "lm_legacy m \<le> lm_legacy m'" for r m'
      using less.hyps [of r m'] that Cons by simp
    have "lm_legacy m \<le> lm_legacy (fst (parse_load_mode (tok # rest) m))"
      by (rule parse_step_cases [where P = "\<lambda>x. lm_legacy m \<le> lm_legacy (fst x)"])
         (auto intro!: up simp: Let_def split: option.split)
    with Cons show ?thesis by simp
  qed simp
qed

lemma native_value_classic: "tok \<in> set classic_flags \<Longrightarrow> native_load_mode_value tok rest = None"
  by (auto simp: classic_flags_def native_load_mode_value_def cut_char_def)

lemma parse_no_legacy:
  "parse_load_mode args m = (m', None) \<Longrightarrow> lm_legacy m' = lm_legacy m \<Longrightarrow>
   set args \<inter> set classic_flags = {}"
proof (induction args m rule: parse_load_mode.induct)
  case (2 tok rest m)
  have nc: "tok \<notin> set classic_flags"
    using "2.prems" parse_legacy_mono [of "m\<lparr>lm_base := ''mmap'', lm_legacy := lm_legacy m + 1\<rparr>" rest]
      parse_legacy_mono [of "m\<lparr>lm_base := ''none'', lm_legacy := lm_legacy m + 1\<rparr>" rest]
      parse_legacy_mono [of "m\<lparr>lm_mlock := True, lm_legacy := lm_legacy m + 1\<rparr>" rest]
    by (auto simp: classic_flags_def split: if_splits)
  then have n: "tok \<noteq> ''--mmap''" "tok \<noteq> ''--no-mmap''" "tok \<noteq> ''--mlock''"
    by (auto simp: classic_flags_def)
  show ?case
  proof (cases "native_load_mode_value tok rest")
    case None
    with "2.IH"(4) "2.prems" n nc show ?thesis by simp
  next
    case (Some v)
    with "2.prems"(1) n have v: "v \<in> set load_mode_values" by (auto simp: Let_def split: if_splits)
    show ?thesis
    proof (cases "is_inline tok")
      case True
      then show ?thesis using "2.IH"(5)[OF n Some] "2.prems" n nc Some v
        by (auto simp: Let_def)
    next
      case False
      then have hd: "rest = [] \<or> hd rest = v"
        using Some by (auto simp: native_load_mode_value_def is_inline_def cut_char_def
            split: if_splits list.splits)
      have "set (drop 1 rest) \<inter> set classic_flags = {}"
        using "2.IH"(6)[OF n Some] "2.prems" n Some v False by (auto simp: Let_def)
      with hd v nc show ?thesis
        by (cases rest) (auto simp: load_mode_values_def classic_flags_def)
    qed
  qed
qed simp

text \<open>What stripping leaves is read as nothing at all.\<close>

lemma native_value_none_rest:
  "native_load_mode_value tok rest = None \<Longrightarrow> native_load_mode_value tok rest' = None"
  by (auto simp: native_load_mode_value_def split: if_splits option.splits prod.splits list.splits)

definition inert :: "string \<Rightarrow> bool" where
  "inert tok \<longleftrightarrow> tok \<notin> set classic_flags \<and> native_load_mode_value tok [] = None"

lemma strip_inert: "list_all inert (strip_load_flags args)"
proof (induction args rule: strip_load_flags.induct)
  case (2 tok rest)
  then show ?case
    by (auto simp: inert_def dest: native_value_none_rest split: option.splits)
qed simp

lemma parse_inert:
  assumes "list_all inert xs"
  shows "parse_load_mode (xs @ ys) m = parse_load_mode ys m"
  using assms
proof (induction xs)
  case (Cons x xs)
  then have "x \<noteq> ''--mmap''" "x \<noteq> ''--no-mmap''" "x \<noteq> ''--mlock''"
    "native_load_mode_value x (xs @ ys) = None"
    using native_value_none_rest [of x "[]"] by (auto simp: inert_def classic_flags_def)
  with Cons show ?case by simp
qed simp

lemma parse_native_pair:
  assumes "v \<in> set load_mode_values"
  shows "parse_load_mode [''--load-mode'', v] m = (apply_native v (m\<lparr>lm_native := lm_native m + 1\<rparr>), None)"
proof -
  have "native_load_mode_value ''--load-mode'' [v] = Some v" "\<not> is_inline ''--load-mode''"
    by (simp_all add: native_load_mode_value_def cut_char_def is_inline_def)
  with assms show ?thesis by simp
qed

lemma spelling_valid: "mode_ok m \<Longrightarrow> spelling m \<in> set load_mode_values"
  by (cases "lm_mlock m") (auto simp: mode_ok_def spelling_def load_mode_values_def Let_def)

lemma translate_cases:
  assumes "parse_load_mode args empty_mode = (m, None)"
  obtains (same) "translate_load_mode args = args" "lm_legacy m = 0" "0 < lm_native m"
  | (new) "translate_load_mode args = strip_load_flags args @ [''--load-mode'', spelling m]"
      "parse_load_mode (translate_load_mode args) empty_mode =
         (apply_native (spelling m) (empty_mode\<lparr>lm_native := 1\<rparr>), None)"
proof (cases "lm_legacy m = 0 \<and> 0 < lm_native m")
  case True
  with assms show ?thesis by (intro same) (simp_all add: translate_load_mode_def)
next
  case False
  have "mode_ok m" using parse_mode_ok [OF mode_ok_empty, of args] assms by simp
  then have v: "spelling m \<in> set load_mode_values" by (rule spelling_valid)
  have e: "translate_load_mode args = strip_load_flags args @ [''--load-mode'', spelling m]"
    using assms False by (auto simp: translate_load_mode_def)
  show ?thesis
    by (rule new [OF e]) (simp only: e parse_inert [OF strip_inert] parse_native_pair [OF v],
      simp add: empty_mode_def)
qed

section \<open>Properties\<close>

text \<open>
  C13: What the translation for a \<^verbatim>\<open>--load-mode\<close> backend does to the loading state. An argv with an
  unknown native value is passed on unchanged. Otherwise the result parses, contains no classic flag, states a
  mode and selects the same mapping and the same locking, with exactly two exceptions: the automatic mode with
  locking becomes \<^verbatim>\<open>mmap+mlock\<close>, which is known to map, and \<^verbatim>\<open>dio\<close> with locking, which has
  no native spelling, loses the lock.
\<close>

theorem load_mode_translation_preserves:
  "case parse_load_mode args empty_mode of
     (_, Some _) \<Rightarrow> translate_load_mode args = args
   | (m, None) \<Rightarrow>
       \<exists>m'. parse_load_mode (translate_load_mode args) empty_mode = (m', None) \<and>
         set (translate_load_mode args) \<inter> set classic_flags = {} \<and> stated m' \<and>
         mapped m' = (if lm_base m = ''auto'' \<and> lm_mlock m then (True, True) else mapped m) \<and>
         (lm_mlock m' \<longleftrightarrow> lm_mlock m \<and> lm_base m \<noteq> ''dio'')"
proof (cases "parse_load_mode args empty_mode")
  case (Pair m err)
  show ?thesis
  proof (cases err)
    case None
    note parsed = Pair [unfolded None]
    have ok: "mode_ok m" using parse_mode_ok [OF mode_ok_empty, of args] parsed by simp
    have "\<exists>m'. parse_load_mode (translate_load_mode args) empty_mode = (m', None) \<and>
        set (translate_load_mode args) \<inter> set classic_flags = {} \<and> stated m' \<and>
        mapped m' = (if lm_base m = ''auto'' \<and> lm_mlock m then (True, True) else mapped m) \<and>
        (lm_mlock m' \<longleftrightarrow> lm_mlock m \<and> lm_base m \<noteq> ''dio'')"
      using parsed
    proof (cases rule: translate_cases)
      case same
      then have "stated m" "lm_mlock m \<longrightarrow> lm_base m \<in> {''none'', ''mmap''}" using ok by (auto simp: stated_def mode_ok_def)
      moreover have "set args \<inter> set classic_flags = {}"
        using parse_no_legacy [OF parsed] same by (simp add: empty_mode_def)
      ultimately show ?thesis using same parsed by auto
    next
      case new
      have "set (strip_load_flags args) \<inter> set classic_flags = {}"
        using strip_inert [of args] by (auto simp: list_all_iff inert_def)
      moreover have "spelling m \<notin> set classic_flags"
        using spelling_valid [OF ok] by (auto simp: load_mode_values_def classic_flags_def)
      ultimately have "set (translate_load_mode args) \<inter> set classic_flags = {}"
        by (auto simp: new(1)) (simp add: classic_flags_def)
      moreover let ?m' = "apply_native (spelling m) (empty_mode\<lparr>lm_native := 1\<rparr>)"
      have "stated ?m'" "mapped ?m' = (if lm_base m = ''auto'' \<and> lm_mlock m then (True, True) else mapped m)"
          "lm_mlock ?m' \<longleftrightarrow> lm_mlock m \<and> lm_base m \<noteq> ''dio''"
        using ok by (cases "lm_mlock m";
          auto simp: mode_ok_def stated_def mapped_def spelling_def apply_native_def empty_mode_def Let_def)+
      ultimately show ?thesis using new(2) by auto
    qed
    then show ?thesis by (simp add: parsed)
  qed (simp add: Pair translate_load_mode_def)
qed

text \<open>
  Translating twice is translating once, and a backend that is not registered receives its
  argv unchanged.
\<close>

theorem load_mode_translation_idempotent:
  "translate_load_mode (translate_load_mode args) = translate_load_mode args \<and>
   (case args of [] \<Rightarrow> load_mode_args dir dirs args = []
    | binary # _ \<Rightarrow> load_mode_args dir dirs args =
        (if dir binary \<in> set dirs then translate_load_mode args else args))"
proof -
  have "translate_load_mode (translate_load_mode args) = translate_load_mode args"
  proof (cases "snd (parse_load_mode args empty_mode)")
    case (Some e)
    then have "translate_load_mode args = args"
      by (auto simp: translate_load_mode_def split: prod.split)
    then show ?thesis by simp
  next
    case None
    then have "parse_load_mode args empty_mode = (fst (parse_load_mode args empty_mode), None)"
      by (simp add: prod_eq_iff)
    then show ?thesis
    proof (cases rule: translate_cases)
      case new
      then show ?thesis
        by (subst translate_load_mode_def) (simp add: apply_native_def empty_mode_def)
    qed simp
  qed
  then show ?thesis by (simp add: load_mode_args_def uses_load_mode_def split: list.split)
qed

end
