(* ===== verification/ModelInfo.thy ===== *)
theory ModelInfo
  imports BestScan
begin

text \<open>
  The metadata of a model file as the program uses it, \<^verbatim>\<open>Info\<close> of
  \<^verbatim>\<open>go/pkg/gguf/gguf.go\<close>, the check of the helper's output
  (\<^verbatim>\<open>validateParserOutput\<close>) and the choice of the helper script
  (\<^verbatim>\<open>findParseScript\<close>). Byte counts and table sizes are Go integers.
\<close>

record sparse_lookup_range =
  slr_shard :: string
  slr_offset :: int
  slr_bytes :: int

record gguf_info =
  gi_tensor_accounting_schema :: int
  gi_architecture :: string
  gi_name :: string
  gi_basename :: string
  gi_quantized_by :: string
  gi_block_count :: int
  gi_context_length :: int
  gi_embedding_length :: int
  gi_feed_forward_length :: int
  gi_head_count_kv :: int
  gi_head_count :: int
  gi_key_length :: int
  gi_value_length :: int
  gi_vocab_size :: int
  gi_tokenizer_model :: string
  gi_tokenizer_pre :: string
  gi_tokenizer_hash :: string
  gi_expert_bytes :: int
  gi_non_expert_bytes :: int
  gi_token_embd_bytes :: int
  gi_per_layer_token_embd_bytes :: int
  gi_has_per_layer_token_embd :: int
  gi_output_bytes :: int
  gi_shexp_bytes :: int
  gi_expert_aux_bytes :: int
  gi_expert_layer_bytes :: "int list"
  gi_routed_expert_layer_bytes :: "int list"
  gi_shexp_layer_bytes :: "int list"
  gi_expert_aux_layer_bytes :: "int list"
  gi_non_expert_layer_bytes :: "int list"
  gi_fused :: int
  gi_experts :: int
  gi_expert_used :: int
  gi_exp_ff :: int
  gi_exp_shared_ff :: int
  gi_n_rot :: int
  gi_ssm :: int
  gi_full_attn_interval :: int
  gi_ssm_conv_kernel :: int
  gi_ssm_state_size :: int
  gi_ssm_group_count :: int
  gi_ssm_inner_size :: int
  gi_ssm_time_step_rank :: int
  gi_sliding_window :: int
  gi_leading_dense :: int
  gi_kv_loops :: int
  gi_leading_dense_inferred :: int
  gi_expert_shared_count :: int
  gi_expert_shared_count_inferred :: int
  gi_kv_lora_rank :: int
  gi_q_lora_rank :: int
  gi_key_length_mla :: int
  gi_value_length_mla :: int
  gi_has_shexp :: int
  gi_next_n_predict_layers :: int
  gi_is_moe :: bool
  gi_sparse_lookup_bytes :: int
  gi_sparse_lookup_layer_bytes :: "int list"
  gi_sparse_lookup_kind :: string
  gi_sparse_lookup_layer_i_ds :: "int list"
  gi_sparse_lookup_ranges :: "sparse_lookup_range list"
  gi_head_count_kv_by_layer :: "int list"
  gi_sliding_window_pattern :: "int list"
  gi_key_length_swa :: int
  gi_value_length_swa :: int

text \<open>The zero value \<^verbatim>\<open>Info{}\<close>.\<close>

definition empty_info :: gguf_info where
  "empty_info =
    \<lparr>gi_tensor_accounting_schema = 0,
     gi_architecture = [],
     gi_name = [],
     gi_basename = [],
     gi_quantized_by = [],
     gi_block_count = 0,
     gi_context_length = 0,
     gi_embedding_length = 0,
     gi_feed_forward_length = 0,
     gi_head_count_kv = 0,
     gi_head_count = 0,
     gi_key_length = 0,
     gi_value_length = 0,
     gi_vocab_size = 0,
     gi_tokenizer_model = [],
     gi_tokenizer_pre = [],
     gi_tokenizer_hash = [],
     gi_expert_bytes = 0,
     gi_non_expert_bytes = 0,
     gi_token_embd_bytes = 0,
     gi_per_layer_token_embd_bytes = 0,
     gi_has_per_layer_token_embd = 0,
     gi_output_bytes = 0,
     gi_shexp_bytes = 0,
     gi_expert_aux_bytes = 0,
     gi_expert_layer_bytes = [],
     gi_routed_expert_layer_bytes = [],
     gi_shexp_layer_bytes = [],
     gi_expert_aux_layer_bytes = [],
     gi_non_expert_layer_bytes = [],
     gi_fused = 0,
     gi_experts = 0,
     gi_expert_used = 0,
     gi_exp_ff = 0,
     gi_exp_shared_ff = 0,
     gi_n_rot = 0,
     gi_ssm = 0,
     gi_full_attn_interval = 0,
     gi_ssm_conv_kernel = 0,
     gi_ssm_state_size = 0,
     gi_ssm_group_count = 0,
     gi_ssm_inner_size = 0,
     gi_ssm_time_step_rank = 0,
     gi_sliding_window = 0,
     gi_leading_dense = 0,
     gi_kv_loops = 0,
     gi_leading_dense_inferred = 0,
     gi_expert_shared_count = 0,
     gi_expert_shared_count_inferred = 0,
     gi_kv_lora_rank = 0,
     gi_q_lora_rank = 0,
     gi_key_length_mla = 0,
     gi_value_length_mla = 0,
     gi_has_shexp = 0,
     gi_next_n_predict_layers = 0,
     gi_is_moe = False,
     gi_sparse_lookup_bytes = 0,
     gi_sparse_lookup_layer_bytes = [],
     gi_sparse_lookup_kind = [],
     gi_sparse_lookup_layer_i_ds = [],
     gi_sparse_lookup_ranges = [],
     gi_head_count_kv_by_layer = [],
     gi_sliding_window_pattern = [],
     gi_key_length_swa = 0,
     gi_value_length_swa = 0\<rparr>"

section \<open>The contract with the metadata helper\<close>

datatype parser_error =
    MissingByteSplits | LacksSchema3 | InconsistentLookupTier | LacksSchema2 | UnaccountedPerLayerEmbd

definition sparse_lookup_architectures :: "(string \<times> string) list" where
  "sparse_lookup_architectures = [(''deepseek41'', ''engram'')]"

text \<open>The loop over the ranges: a malformed range makes the sum \<open>-1\<close> and ends it.\<close>

fun range_sum :: "int \<Rightarrow> sparse_lookup_range list \<Rightarrow> int" where
  "range_sum acc [] = acc"
| "range_sum acc (r # rs) =
     (if slr_offset r < 0 \<or> slr_bytes r \<le> 0 \<or> slr_shard r = [] then - 1
      else range_sum (wrap64 (acc + slr_bytes r)) rs)"

definition validate_parser_output :: "gguf_info option \<Rightarrow> parser_error option" where
  "validate_parser_output infop =
     (case infop of
        None \<Rightarrow> None
      | Some info \<Rightarrow>
          if equal_fold (gi_architecture info) ''deepseek4'' \<and> gi_has_shexp info = 1 \<and>
             (gi_token_embd_bytes info \<le> 0 \<or> gi_output_bytes info \<le> 0 \<or> gi_shexp_bytes info \<le> 0)
          then Some MissingByteSplits
          else
            let kind = map_of sparse_lookup_architectures (to_lower (gi_architecture info));
                adapted = (kind \<noteq> None);
                adapter_kind = (case kind of None \<Rightarrow> [] | Some k \<Rightarrow> k);
                layer_sum = sum64 (gi_sparse_lookup_layer_bytes info);
                rsum = range_sum 0 (gi_sparse_lookup_ranges info)
            in
            if adapted \<and> gi_tensor_accounting_schema info < 3 then Some LacksSchema3
            else if gi_sparse_lookup_bytes info < 0 \<or>
                 gi_sparse_lookup_bytes info > gi_non_expert_bytes info \<or>
                 (gi_sparse_lookup_bytes info > 0 \<and>
                    (\<not> adapted \<or> gi_sparse_lookup_kind info \<noteq> adapter_kind)) \<or>
                 (gi_sparse_lookup_layer_bytes info \<noteq> [] \<and> layer_sum \<noteq> gi_sparse_lookup_bytes info) \<or>
                 (gi_sparse_lookup_ranges info \<noteq> [] \<and> rsum \<noteq> gi_sparse_lookup_bytes info)
            then Some InconsistentLookupTier
            else if equal_fold (gi_architecture info) ''qwen4exp'' then
              (if gi_tensor_accounting_schema info < 2 then Some LacksSchema2
               else if gi_has_per_layer_token_embd info \<noteq> 0 \<and> gi_per_layer_token_embd_bytes info \<le> 0
               then Some UnaccountedPerLayerEmbd else None)
            else None)"

definition valid_range :: "sparse_lookup_range \<Rightarrow> bool" where
  "valid_range r \<longleftrightarrow> 0 \<le> slr_offset r \<and> 0 < slr_bytes r \<and> slr_shard r \<noteq> []"

lemma range_sum_valid:
  "range_sum (wrap64 acc) rs \<noteq> - 1 \<Longrightarrow>
   list_all valid_range rs \<and>
   range_sum (wrap64 acc) rs = wrap64 (acc + sum_list (map slr_bytes rs))"
proof (induction rs arbitrary: acc)
  case (Cons r rs)
  then have v: "valid_range r" by (auto simp: valid_range_def split: if_splits)
  then have e: "range_sum (wrap64 acc) (r # rs) = range_sum (wrap64 (acc + slr_bytes r)) rs"
    by (auto simp: valid_range_def wrap64_add)
  with Cons.IH [of "acc + slr_bytes r"] Cons.prems v show ?case by (simp only: e) (simp add: add.assoc)
qed simp

section \<open>Choosing the helper script\<close>

record script_env =
  llm_script_dir :: string
  llm_server_home :: string
  llm_app_home :: string
  executable :: "string option"
  working_dir :: string
  path_lookup :: "string option"
  user_home :: string

text \<open>The three pieces of \<^verbatim>\<open>path/filepath\<close> used, as parameters.\<close>

record path_pkg =
  join_path :: "string list \<Rightarrow> string"
  dir_of :: "string \<Rightarrow> string"
  base_of :: "string \<Rightarrow> string"

definition explicit_candidates :: "path_pkg \<Rightarrow> script_env \<Rightarrow> string list" where
  "explicit_candidates fp env =
     (let j = join_path fp; p = llm_script_dir env; h = llm_server_home env; a = llm_app_home env in
      (if p \<noteq> [] then [j [p, ''parse_gguf.py''], j [p, ''tools'', ''gguf'', ''parse_gguf.py'']] else []) @
      (if h \<noteq> [] then [j [h, ''tools'', ''gguf'', ''parse_gguf.py''], j [h, ''parse_gguf.py'']] else []) @
      (if a \<noteq> [] then
         [j [a, ''.src'', ''llm-server'', ''tools'', ''gguf'', ''parse_gguf.py''],
          j [a, ''.src'', ''ggrun'', ''tools'', ''gguf'', ''parse_gguf.py''],
          j [a, ''.bin'', ''parse_gguf.py''], j [a, ''bin'', ''parse_gguf.py''],
          j [a, ''parse_gguf.py'']]
       else []))"

definition discovered_candidates :: "path_pkg \<Rightarrow> script_env \<Rightarrow> string list" where
  "discovered_candidates fp env =
     (let j = join_path fp; wd = working_dir env; home = user_home env in
      (case executable env of
         None \<Rightarrow> []
       | Some exe \<Rightarrow>
           let exe_dir = dir_of fp exe; base = base_of fp exe_dir; a = dir_of fp exe_dir in
           (if base = ''.bin'' \<or> base = ''bin'' then
              [j [a, ''.src'', ''llm-server'', ''tools'', ''gguf'', ''parse_gguf.py''],
               j [a, ''.src'', ''ggrun'', ''tools'', ''gguf'', ''parse_gguf.py'']]
            else []) @
           [j [exe_dir, ''parse_gguf.py''],
            j [exe_dir, ''..'', ''tools'', ''gguf'', ''parse_gguf.py''],
            j [exe_dir, ''..'', ''..'', ''tools'', ''gguf'', ''parse_gguf.py''],
            j [exe_dir, ''..'', ''..'', ''..'', ''tools'', ''gguf'', ''parse_gguf.py'']]) @
      [j [wd, ''tools'', ''gguf'', ''parse_gguf.py''],
       j [wd, ''..'', ''tools'', ''gguf'', ''parse_gguf.py''],
       j [wd, ''..'', ''..'', ''tools'', ''gguf'', ''parse_gguf.py''],
       j [wd, ''..'', ''..'', ''..'', ''tools'', ''gguf'', ''parse_gguf.py''],
       j [wd, ''parse_gguf.py''], j [wd, ''..'', ''parse_gguf.py'']] @
      (case path_lookup env of None \<Rightarrow> [] | Some p \<Rightarrow> [p]) @
      [j [home, ''ggrun'', ''bin'', ''parse_gguf.py''],
       j [home, ''ggrun'', ''tools'', ''gguf'', ''parse_gguf.py''],
       j [home, ''parse_gguf.py'']])"

text \<open>
  The loop: \<open>present\<close> is \<^verbatim>\<open>os.Stat\<close>, \<open>ab\<close> is \<^verbatim>\<open>filepath.Abs\<close>,
  \<open>schema\<close> the contract version the script declares.
\<close>

fun select_parser ::
  "(string \<Rightarrow> bool) \<Rightarrow> (string \<Rightarrow> string) \<Rightarrow> (string \<Rightarrow> int) \<Rightarrow> nat \<Rightarrow> nat \<Rightarrow> string list
     \<Rightarrow> string \<Rightarrow> int \<Rightarrow> string \<Rightarrow> string" where
  "select_parser present ab schema explicit i [] best best_schema fallback =
     (if best \<noteq> [] then best else fallback)"
| "select_parser present ab schema explicit i (p # ps) best best_schema fallback =
     (if \<not> present p then select_parser present ab schema explicit (Suc i) ps best best_schema fallback
      else
        let a = ab p; s = schema a in
        if 0 < s \<and> i < explicit then a
        else select_parser present ab schema explicit (Suc i) ps
               (if best_schema < s then a else best)
               (if best_schema < s then s else best_schema)
               (if fallback = [] then a else fallback))"

definition find_parse_script ::
  "path_pkg \<Rightarrow> (string \<Rightarrow> bool) \<Rightarrow> (string \<Rightarrow> string) \<Rightarrow> (string \<Rightarrow> int) \<Rightarrow> script_env \<Rightarrow> string" where
  "find_parse_script fp present ab schema env =
     select_parser present ab schema (length (explicit_candidates fp env)) 0
       (explicit_candidates fp env @ discovered_candidates fp env) [] 0 []"

interpretation newest: scan_order "\<lambda>a b :: int. b < a"
  by unfold_locales auto

lemma find_first_explicit:
  assumes "\<And>p. ab p \<noteq> []"
  shows "find (\<lambda>p. present p \<and> 0 < schema (ab p)) (take (explicit - i) ps) = Some q \<Longrightarrow>
    select_parser present ab schema explicit i ps best bs fb = ab q"
  by (induction ps arbitrary: i best bs fb)
     (auto simp: Let_def take_Cons' split: if_splits)

lemma select_parser_scan:
  assumes ab: "\<And>p. ab p \<noteq> []"
    and none: "find (\<lambda>p. present p \<and> 0 < schema (ab p)) (take (explicit - length pre) ps) = None"
    and best: "case cur of None \<Rightarrow> best = [] \<and> bs = 0
      | Some (b, k) \<Rightarrow> b < length pre \<and> best = ab (pre ! b) \<and> bs = k \<and> 0 < k"
  shows "select_parser present ab schema explicit (length pre) ps best bs fb =
    (case scan_best (\<lambda>p. present p \<and> 0 < schema (ab p)) (\<lambda>p. schema (ab p)) (\<lambda>a b. b < a)
            (length pre) ps cur of
       Some (b, k) \<Rightarrow> ab ((pre @ ps) ! b)
     | None \<Rightarrow> if fb \<noteq> [] then fb else (case find present ps of None \<Rightarrow> [] | Some p \<Rightarrow> ab p))"
  using none best
proof (induction ps arbitrary: pre best bs fb cur)
  case Nil
  then show ?case using ab by (auto split: option.splits simp: nth_append)
next
  case (Cons p ps)
  have n: "find (\<lambda>p. present p \<and> 0 < schema (ab p)) (take (explicit - length (pre @ [p])) ps) = None"
    using Cons.prems(1) by (auto simp: take_Cons' split: if_splits)
  have s: "\<not> (0 < schema (ab p) \<and> length pre < explicit)" if "present p"
    using Cons.prems(1) that by (auto simp: take_Cons' split: if_splits)
  note IH = Cons.IH [OF n]
  show ?case
  proof (cases "present p \<and> 0 < schema (ab p)")
    case False
    have nb: "\<not> bs < schema (ab p)" if "present p"
      using False that Cons.prems(2) by (auto split: option.splits)
    have c: "case cur of None \<Rightarrow> best = [] \<and> bs = 0
      | Some (b, k) \<Rightarrow> b < length (pre @ [p]) \<and> best = ab ((pre @ [p]) ! b) \<and> bs = k \<and> 0 < k"
      using Cons.prems(2) by (auto split: option.splits simp: nth_append)
    show ?thesis
      using IH [OF c] False nb s ab by (auto simp: Let_def split: option.splits)
  next
    case True
    define cur' where "cur' = (case cur of None \<Rightarrow> Some (length pre, schema (ab p))
      | Some (b, k) \<Rightarrow> if k < schema (ab p) then Some (length pre, schema (ab p)) else cur)"
    have c: "case cur' of None \<Rightarrow> (if bs < schema (ab p) then ab p else best) = [] \<and>
          (if bs < schema (ab p) then schema (ab p) else bs) = 0
      | Some (b, k) \<Rightarrow> b < length (pre @ [p]) \<and>
          (if bs < schema (ab p) then ab p else best) = ab ((pre @ [p]) ! b) \<and>
          (if bs < schema (ab p) then schema (ab p) else bs) = k \<and> 0 < k"
      using Cons.prems(2) True by (auto simp: cur'_def split: option.splits if_splits simp: nth_append)
    have ne: "cur' \<noteq> None" by (auto simp: cur'_def split: option.splits)
    have ne': "scan_best ok key lt i xs c \<noteq> None" if "c \<noteq> None" for ok key lt i and xs :: "string list"
        and c :: "(nat \<times> int) option"
      using that by (induction ok key lt i xs c rule: scan_best.induct) (auto split: option.splits)
    have e: "scan_best (\<lambda>p. present p \<and> 0 < schema (ab p)) (\<lambda>p. schema (ab p)) (\<lambda>a b. b < a)
            (length pre) (p # ps) cur =
          scan_best (\<lambda>p. present p \<and> 0 < schema (ab p)) (\<lambda>p. schema (ab p)) (\<lambda>a b. b < a)
            (length (pre @ [p])) ps cur'"
      using True by (auto simp: cur'_def split: option.splits)
    show ?thesis
      using IH [OF c, of "if fb = [] then ab p else fb"] True s ne' [OF ne] ab
      by (simp only: e) (auto simp: Let_def split: option.splits)
  qed
qed

section \<open>Properties\<close>

text \<open>
  The helper script chosen: the first script with an accounting contract at a location the
  user named wins; otherwise the newest contract among all candidates wins, the earliest one of
  that version; otherwise the first script present; and the empty string only when there is none.
\<close>

theorem parser_choice:
  fixes ab :: "string \<Rightarrow> string" and schema :: "string \<Rightarrow> int" and fp :: path_pkg and env :: script_env
    and present :: "string \<Rightarrow> bool"
  assumes "\<And>p. ab p \<noteq> []"
  defines "cands \<equiv> explicit_candidates fp env @ discovered_candidates fp env"
    and "good \<equiv> \<lambda>p. present p \<and> 0 < schema (ab p)"
    and "script \<equiv> find_parse_script fp present ab schema env"
  shows "case find good (explicit_candidates fp env) of
      Some p \<Rightarrow> script = ab p
    | None \<Rightarrow>
        (if \<exists>p \<in> set cands. good p
         then \<exists>b < length cands. good (cands ! b) \<and> script = ab (cands ! b) \<and>
                (\<forall>j < length cands. good (cands ! j) \<longrightarrow> schema (ab (cands ! j)) \<le> schema (ab (cands ! b))) \<and>
                (\<forall>j < b. good (cands ! j) \<longrightarrow> schema (ab (cands ! j)) < schema (ab (cands ! b)))
         else script = (case find present cands of None \<Rightarrow> [] | Some p \<Rightarrow> ab p))"
proof (cases "find good (explicit_candidates fp env)")
  case (Some p)
  then have "find (\<lambda>p. present p \<and> 0 < schema (ab p))
      (take (length (explicit_candidates fp env) - 0) cands) = Some p"
    by (simp add: cands_def good_def)
  from find_first_explicit [OF assms(1) this] Some show ?thesis
    by (simp add: script_def find_parse_script_def cands_def)
next
  case None
  then have n: "find (\<lambda>p. present p \<and> 0 < schema (ab p))
      (take (length (explicit_candidates fp env) - length []) cands) = None"
    by (simp add: cands_def good_def)
  define best where "best = scan_best good (\<lambda>p. schema (ab p)) (\<lambda>a b. b < a) 0 cands None"
  have sel: "script = (case best of Some (b, k) \<Rightarrow> ab (cands ! b)
      | None \<Rightarrow> (case find present cands of None \<Rightarrow> [] | Some p \<Rightarrow> ab p))"
    using select_parser_scan [where cur = None and pre = "[]" and best = "[]" and bs = 0 and fb = "[]",
        OF assms(1) n]
    by (simp add: script_def find_parse_script_def cands_def best_def good_def split: option.split)
  show ?thesis
  proof (cases best)
    case bn: None
    then have "\<forall>p \<in> set cands. \<not> good p"
      unfolding best_def by (simp add: newest.scan_best_none)
    with None bn sel show ?thesis by simp
  next
    case (Some bk)
    obtain b k where bk: "bk = (b, k)" by (cases bk)
    note h = newest.scan_best_some [OF Some [unfolded best_def bk]]
    from h(1,2) have "\<exists>p \<in> set cands. good p" by auto
    moreover have "\<forall>j < length cands. good (cands ! j) \<longrightarrow> schema (ab (cands ! j)) \<le> schema (ab (cands ! b))"
      using h(3) h(4) by force
    moreover have "\<forall>j < b. good (cands ! j) \<longrightarrow> schema (ab (cands ! j)) < schema (ab (cands ! b))"
      using h(3) h(5) by force
    ultimately show ?thesis using None sel Some bk h(1,2) by auto
  qed
qed

theorem parser_choice_witness:
  "find_parse_script \<lparr>join_path = concat, dir_of = id, base_of = id\<rparr> (\<lambda>p. True) (\<lambda>p. CHR ''/'' # p)
      (\<lambda>p. if length p < 30 then 2 else 0)
      \<lparr>llm_script_dir = ''d'', llm_server_home = [], llm_app_home = [], executable = None,
       working_dir = ''w'', path_lookup = None, user_home = ''h''\<rparr> = ''/dparse_gguf.py''"
proof -
  have "\<And>p :: string. CHR ''/'' # p \<noteq> []" by simp
  note h = parser_choice [where ab = "\<lambda>p. CHR ''/'' # p", OF this,
      where present = "\<lambda>p. True" and schema = "\<lambda>p. if length p < 30 then 2 else 0"
        and fp = "\<lparr>join_path = concat, dir_of = id, base_of = id\<rparr>"
        and env = "\<lparr>llm_script_dir = ''d'', llm_server_home = [], llm_app_home = [], executable = None,
           working_dir = ''w'', path_lookup = None, user_home = ''h''\<rparr>"]
  then show ?thesis by (simp add: explicit_candidates_def Let_def)
qed

definition demo_info :: gguf_info where
  "demo_info = empty_info\<lparr>gi_architecture := ''DeepSeek41'', gi_tensor_accounting_schema := 3,
     gi_non_expert_bytes := 100, gi_sparse_lookup_bytes := 30, gi_sparse_lookup_kind := ''engram'',
     gi_sparse_lookup_ranges := [\<lparr>slr_shard = ''a'', slr_offset = 0, slr_bytes = 10\<rparr>,
       \<lparr>slr_shard = ''b'', slr_offset = 5, slr_bytes = 20\<rparr>]\<rparr>"

text \<open>
  Output of a helper that is accepted is safe to place by: an architecture with sparse lookup
  tables has accounting schema 3, the lookup tier lies within the non-expert bytes, is declared
  only for an adapter architecture with its kind, every stated file range is well-formed and the
  ranges and the per-layer amounts add up to the tier.
\<close>

theorem parser_output_accepted:
  assumes "validate_parser_output (Some info) = None"
  shows "0 \<le> gi_sparse_lookup_bytes info \<and> gi_sparse_lookup_bytes info \<le> gi_non_expert_bytes info \<and>
    (case map_of sparse_lookup_architectures (to_lower (gi_architecture info)) of
       None \<Rightarrow> gi_sparse_lookup_bytes info = 0
     | Some kind \<Rightarrow> 3 \<le> gi_tensor_accounting_schema info \<and>
         (gi_sparse_lookup_bytes info = 0 \<or> gi_sparse_lookup_kind info = kind)) \<and>
    (gi_sparse_lookup_ranges info = [] \<or>
       list_all valid_range (gi_sparse_lookup_ranges info) \<and>
       wrap64 (sum_list (map slr_bytes (gi_sparse_lookup_ranges info))) = gi_sparse_lookup_bytes info) \<and>
    (gi_sparse_lookup_layer_bytes info = [] \<or>
       wrap64 (sum_list (gi_sparse_lookup_layer_bytes info)) = gi_sparse_lookup_bytes info)"
proof -
  have r: "gi_sparse_lookup_ranges info = [] \<or>
      range_sum 0 (gi_sparse_lookup_ranges info) = gi_sparse_lookup_bytes info"
    and b: "0 \<le> gi_sparse_lookup_bytes info" "gi_sparse_lookup_bytes info \<le> gi_non_expert_bytes info"
    and l: "gi_sparse_lookup_layer_bytes info = [] \<or>
      sum64 (gi_sparse_lookup_layer_bytes info) = gi_sparse_lookup_bytes info"
    and k: "case map_of sparse_lookup_architectures (to_lower (gi_architecture info)) of
       None \<Rightarrow> gi_sparse_lookup_bytes info = 0
     | Some kind \<Rightarrow> 3 \<le> gi_tensor_accounting_schema info \<and>
         (gi_sparse_lookup_bytes info = 0 \<or> gi_sparse_lookup_kind info = kind)"
    using assms by (auto simp: validate_parser_output_def Let_def split: if_splits option.splits)
  have "list_all valid_range (gi_sparse_lookup_ranges info) \<and>
      wrap64 (sum_list (map slr_bytes (gi_sparse_lookup_ranges info))) = gi_sparse_lookup_bytes info"
    if "gi_sparse_lookup_ranges info \<noteq> []"
    using range_sum_valid [of 0 "gi_sparse_lookup_ranges info"] r b(1) that
    by (simp add: wrap64_id min_int_def max_int_def)
  with b l k show ?thesis by (auto simp: sum64_eq)
qed

theorem parser_output_accepted_witness:
  "list_all valid_range (gi_sparse_lookup_ranges demo_info) \<and>
   wrap64 (sum_list (map slr_bytes (gi_sparse_lookup_ranges demo_info))) = 30"
proof -
  have "validate_parser_output (Some demo_info) = None" by code_simp
  from parser_output_accepted [OF this] show ?thesis by (simp add: demo_info_def)
qed

end
