(* ===== verification/Machine.thy ===== *)
theory Machine
  imports Prelude "HOL-Library.Product_Lexorder"
begin

text \<open>
  The hardware inventory placement plans against (\<^verbatim>\<open>go/pkg/detect/detect.go\<close>) and
  the views of it that launch policy derives (\<^verbatim>\<open>go/pkg/placement/placement.go\<close>): the
  VRAM and RAM headroom, the RAM limit, the selection of devices, the orders in which devices are
  filled, and the seats of companion helpers. Capacities are Go integers in MiB. A
  \<^verbatim>\<open>*Capabilities\<close> that may be \<^verbatim>\<open>nil\<close> is an option.
\<close>

section \<open>The inventory\<close>

record gpu =
  g_index :: int
  g_name :: string
  vram_total_mb :: int
  vram_used_mb :: int
  vram_reserved_mb :: int
  g_driver :: string
  pci_gen :: int
  pci_lanes :: int
  bandwidth_mbps :: int
  bandwidth_source :: string
  mem_clock_mhz :: int
  mem_bandwidth_mbps :: int
  pci_bus_id :: string
  compute_cap :: string

record ram_info =
  ram_total_mb :: int
  ram_free_mb :: int

record cpu_info =
  cpu_model :: string
  cpu_cores :: int
  cpu_threads :: int
  cpu_flags :: string
  physical_ids :: "int list"

record backend_binary =
  bb_name :: string
  bb_path :: string
  bb_version :: string

record capabilities =
  c_os :: string
  c_arch :: string
  c_gpus :: "gpu list"
  c_ram :: ram_info
  c_cpu :: cpu_info
  c_backends :: "backend_binary list"
  host_memory_bandwidth_mbps :: int
  host_memory_bandwidth_source :: string

definition vram_free_mb :: "gpu \<Rightarrow> int" where
  "vram_free_mb g =
     (let free = vram_total_mb g - vram_used_mb g - vram_reserved_mb g in
      if free < 0 then 0 else free)"

definition total_vram :: "capabilities \<Rightarrow> int" where
  "total_vram c = foldl (\<lambda>total g. total + vram_total_mb g) 0 (c_gpus c)"

definition total_vram_free :: "capabilities \<Rightarrow> int" where
  "total_vram_free c = foldl (\<lambda>total g. total + vram_free_mb g) 0 (c_gpus c)"

section \<open>Rounding\<close>

definition bytes_to_mib_ceil :: "int \<Rightarrow> int" where
  "bytes_to_mib_ceil n = (if n \<le> 0 then 0 else go_div (n + 1048576 - 1) 1048576)"

definition bytes_to_mib_floor :: "int \<Rightarrow> int" where
  "bytes_to_mib_floor n = (if n \<le> 0 then 0 else go_div n 1048576)"

definition ceil_div_int :: "int \<Rightarrow> int \<Rightarrow> int" where
  "ceil_div_int n d = (if n \<le> 0 \<or> d \<le> 0 then 0 else go_div (n + d - 1) d)"

section \<open>Headroom and limits\<close>

definition apply_vram_headroom :: "capabilities option \<Rightarrow> int \<Rightarrow> capabilities option" where
  "apply_vram_headroom caps headroom =
     (case caps of
        None \<Rightarrow> None
      | Some c \<Rightarrow>
          if headroom \<le> 0 \<or> c_gpus c = [] then caps
          else
            let total = total_vram c in
            if total \<le> 0 then caps
            else Some (c\<lparr>c_gpus := map (\<lambda>g.
                let share = go_div (headroom * vram_total_mb g) total;
                    share = (if share > vram_total_mb g then vram_total_mb g else share)
                in g\<lparr>vram_total_mb := vram_total_mb g - share\<rparr>) (c_gpus c)\<rparr>))"

definition apply_ram_headroom :: "capabilities option \<Rightarrow> int \<Rightarrow> capabilities option" where
  "apply_ram_headroom caps headroom =
     (case caps of
        None \<Rightarrow> None
      | Some c \<Rightarrow>
          if headroom \<le> 0 then caps
          else
            let t = ram_total_mb (c_ram c) - headroom; f = ram_free_mb (c_ram c) - headroom in
            Some (c\<lparr>c_ram := \<lparr>ram_total_mb = (if t < 0 then 0 else t),
                             ram_free_mb = (if f < 0 then 0 else f)\<rparr>\<rparr>))"

definition ram_limit_mb :: "ram_info \<Rightarrow> int \<Rightarrow> int" where
  "ram_limit_mb ram percent =
     (if percent < 1 \<or> percent > 100 \<or> ram_total_mb ram \<le> 0 \<or> ram_free_mb ram \<le> 0 then 0
      else
        let used = (let u = ram_total_mb ram - ram_free_mb ram in if u < 0 then 0 else u);
            target = go_div (ram_total_mb ram * percent) 100;
            limit = target - used
        in if limit < 0 then 0 else if limit > ram_free_mb ram then ram_free_mb ram else limit)"

definition apply_ram_limit_percent :: "capabilities option \<Rightarrow> int \<Rightarrow> capabilities option" where
  "apply_ram_limit_percent caps percent =
     (case caps of
        None \<Rightarrow> None
      | Some c \<Rightarrow>
          let limit = ram_limit_mb (c_ram c) percent in
          if limit \<le> 0 then caps
          else Some (c\<lparr>c_ram := \<lparr>ram_total_mb = limit, ram_free_mb = limit\<rparr>\<rparr>))"

definition apply_ram_budget :: "capabilities option \<Rightarrow> int \<Rightarrow> capabilities option" where
  "apply_ram_budget caps budget =
     (case caps of
        None \<Rightarrow> None
      | Some c \<Rightarrow>
          if budget \<le> 0 then caps
          else Some (c\<lparr>c_ram := \<lparr>ram_total_mb = budget, ram_free_mb = budget\<rparr>\<rparr>))"

text \<open>\<^verbatim>\<open>applyRAMPolicy\<close>: the two options are arguments.\<close>

definition apply_ram_policy :: "capabilities option \<Rightarrow> int \<Rightarrow> int \<Rightarrow> capabilities option" where
  "apply_ram_policy caps ram_budget ram_limit_percent =
     (if ram_budget > 0 then apply_ram_budget caps ram_budget
      else apply_ram_limit_percent caps ram_limit_percent)"

section \<open>Selecting and ordering devices\<close>

text \<open>The loop of \<^verbatim>\<open>restrictGPUs\<close>; \<open>acc\<close> is \<^verbatim>\<open>filtered.GPUs\<close>.\<close>

fun filter_wanted :: "int list \<Rightarrow> gpu list \<Rightarrow> gpu list \<Rightarrow> gpu list" where
  "filter_wanted want [] acc = acc"
| "filter_wanted want (g # gs) acc =
     (if g_index g \<in> set want
      then filter_wanted want gs (acc @ [g\<lparr>g_index := int (length acc)\<rparr>])
      else filter_wanted want gs acc)"

datatype machine_error = NoMatchingGpu | CompanionDoesNotFit string int

definition restrict_gpus ::
  "capabilities option \<Rightarrow> int list \<Rightarrow> machine_error + capabilities option" where
  "restrict_gpus caps want =
     (case caps of
        None \<Rightarrow> Inr None
      | Some c \<Rightarrow>
          if want = [] \<or> c_gpus c = [] then Inr caps
          else
            let filtered = filter_wanted want (c_gpus c) [] in
            if filtered = [] then Inl NoMatchingGpu
            else Inr (Some (c\<lparr>c_gpus := filtered\<rparr>)))"

text \<open>
  The sorts break ties by the device index, so with distinct indices their result does not depend
  on the stability of \<^verbatim>\<open>sort.Slice\<close>.
\<close>

definition order_gpus_by_bandwidth :: "gpu list \<Rightarrow> nat list" where
  "order_gpus_by_bandwidth gpus =
     sort_key (\<lambda>i. let g = gpus ! i in (- bandwidth_mbps g, - vram_total_mb g, g_index g))
       [0..<length gpus]"

definition order_gpus_by_free_vram :: "gpu list \<Rightarrow> nat list" where
  "order_gpus_by_free_vram gpus =
     sort_key (\<lambda>i. let g = gpus ! i in (- vram_free_mb g, g_index g)) [0..<length gpus]"

definition seq_range :: "nat \<Rightarrow> nat list" where
  "seq_range n = [0..<n]"

section \<open>Companions\<close>

record companion_reservation =
  cr_name :: string
  cr_vram_mb :: int
  gpu_preference :: "int list"
  allow_cpu :: bool

record companion_placement =
  cp_name :: string
  cp_gpu :: int

text \<open>The closure \<^verbatim>\<open>fits\<close>: the first device with that index decides.\<close>

definition companion_fits :: "gpu list \<Rightarrow> companion_reservation \<Rightarrow> int \<Rightarrow> bool" where
  "companion_fits gpus cm idx =
     (case find (\<lambda>g. g_index g = idx) gpus of
        None \<Rightarrow> False
      | Some g \<Rightarrow> vram_free_mb g \<ge> cr_vram_mb cm)"

definition choose_companion_gpu :: "gpu list \<Rightarrow> companion_reservation \<Rightarrow> int" where
  "choose_companion_gpu gpus cm =
     (if gpus = [] then - 1
      else case find (companion_fits gpus cm) (gpu_preference cm) of
        Some idx \<Rightarrow> idx
      | None \<Rightarrow>
          if gpu_preference cm \<noteq> [] then - 1
          else
            let candidates = sort_key (\<lambda>g. (bandwidth_mbps g, vram_total_mb g, g_index g)) gpus in
            (case find (\<lambda>g. vram_free_mb g \<ge> cr_vram_mb cm) candidates of
               None \<Rightarrow> - 1
             | Some g \<Rightarrow> g_index g))"

text \<open>Charge the first device with the index.\<close>

fun charge_gpu :: "int \<Rightarrow> int \<Rightarrow> gpu list \<Rightarrow> gpu list" where
  "charge_gpu idx mb [] = []"
| "charge_gpu idx mb (g # gs) =
     (if g_index g = idx then g\<lparr>vram_used_mb := vram_used_mb g + mb\<rparr> # gs
      else g # charge_gpu idx mb gs)"

fun seat_companions ::
  "gpu list \<Rightarrow> companion_reservation list \<Rightarrow> machine_error + gpu list \<times> companion_placement list" where
  "seat_companions gpus [] = Inr (gpus, [])"
| "seat_companions gpus (cm # comps) =
     (if cr_vram_mb cm \<le> 0 then seat_companions gpus comps
      else
        let name = (if cr_name cm = [] then ''companion'' else cr_name cm);
            gpu = choose_companion_gpu gpus cm
        in
        if gpu < 0 \<and> \<not> allow_cpu cm then Inl (CompanionDoesNotFit name (cr_vram_mb cm))
        else
          let gpus' = (if gpu \<ge> 0 then charge_gpu gpu (cr_vram_mb cm) gpus else gpus) in
          (case seat_companions gpus' comps of
             Inl e \<Rightarrow> Inl e
           | Inr (gpus'', ps) \<Rightarrow> Inr (gpus'', \<lparr>cp_name = name, cp_gpu = gpu\<rparr> # ps)))"

definition apply_companion_reservations ::
  "capabilities option \<Rightarrow> companion_reservation list
     \<Rightarrow> machine_error + capabilities option \<times> companion_placement list" where
  "apply_companion_reservations caps comps =
     (case caps of
        None \<Rightarrow> Inr (None, [])
      | Some c \<Rightarrow>
          (case seat_companions (c_gpus c) comps of
             Inl e \<Rightarrow> Inl e
           | Inr (gpus, ps) \<Rightarrow> Inr (Some (c\<lparr>c_gpus := gpus\<rparr>), ps)))"

section \<open>Lemmas\<close>

lemma vram_free_nonneg [simp]: "0 \<le> vram_free_mb g"
  by (simp add: vram_free_mb_def Let_def)

lemma bytes_to_mib_ceil_covers: "n \<le> bytes_to_mib_ceil n * 1048576"
  using ceil_div_bounds(1) [of 1048576 n] by (simp add: bytes_to_mib_ceil_def)

lemma ceil_div_int_covers: "0 < d \<Longrightarrow> n \<le> ceil_div_int n d * d"
  using ceil_div_bounds(1) [of d n] by (simp add: ceil_div_int_def)

lemma ceil_div_int_nonneg [simp]: "0 \<le> ceil_div_int n d"
  by (auto simp: ceil_div_int_def pos_imp_zdiv_nonneg_iff)

lemma ceil_div_int_pos: "0 < n \<Longrightarrow> 0 < d \<Longrightarrow> 0 < ceil_div_int n d"
  using ceil_div_int_covers [of d n] ceil_div_int_nonneg [of n d]
  by (cases "ceil_div_int n d = 0") (simp_all add: less_le)

lemma foldl_add_sum: "foldl (\<lambda>t g. t + f g) a gs = a + (\<Sum>g\<leftarrow>gs. f g)" for a :: int
  by (induction gs arbitrary: a) auto

text \<open>The two sorts list every device position once, best first.\<close>

lemma order_perm [simp]:
  "set (order_gpus_by_bandwidth gpus) = {..<length gpus}" "distinct (order_gpus_by_bandwidth gpus)"
  "set (order_gpus_by_free_vram gpus) = {..<length gpus}" "distinct (order_gpus_by_free_vram gpus)"
  by (auto simp: order_gpus_by_bandwidth_def order_gpus_by_free_vram_def)

lemma order_by_free_sorted:
  "sorted (map (\<lambda>i. - vram_free_mb (gpus ! i)) (order_gpus_by_free_vram gpus))"
proof -
  have "sorted (map (\<lambda>i. (- vram_free_mb (gpus ! i), g_index (gpus ! i))) (order_gpus_by_free_vram gpus))"
    by (simp add: order_gpus_by_free_vram_def Let_def)
  then show ?thesis
    by (auto simp: sorted_iff_nth_mono less_eq_prod_def less_le_not_le)
qed

section \<open>Companion seats\<close>

definition seated_mb :: "int \<Rightarrow> companion_reservation list \<Rightarrow> companion_placement list \<Rightarrow> int" where
  "seated_mb idx cms ps =
     (\<Sum>(c, p) \<leftarrow> zip (filter (\<lambda>c. cr_vram_mb c > 0) cms) ps. if cp_gpu p = idx then cr_vram_mb c else 0)"

lemma charge_gpu_index [simp]: "map g_index (charge_gpu i mb gs) = map g_index gs"
  by (induction gs) auto

lemma length_charge_gpu [simp]: "length (charge_gpu i mb gs) = length gs"
  by (induction gs) auto

lemma charge_gpu_nth:
  "distinct (map g_index gs) \<Longrightarrow> k < length gs \<Longrightarrow>
   charge_gpu i mb gs ! k =
     (if g_index (gs ! k) = i then (gs ! k)\<lparr>vram_used_mb := vram_used_mb (gs ! k) + mb\<rparr> else gs ! k)"
proof (induction gs arbitrary: k)
  case (Cons g gs)
  show ?case
  proof (cases k)
    case (Suc j)
    with Cons.prems have "j < length gs" by simp
    then have "g_index (gs ! j) \<in> set (map g_index gs)" by auto
    with Cons.prems(1) have "g_index g \<noteq> g_index (gs ! j)" by auto
    with Cons Suc show ?thesis by auto
  qed simp
qed simp

lemma companion_fits_nth:
  assumes "distinct (map g_index gpus)" "companion_fits gpus cm (g_index (gpus ! k))" "k < length gpus"
  shows "cr_vram_mb cm \<le> vram_free_mb (gpus ! k)"
proof -
  obtain g where g: "find (\<lambda>g. g_index g = g_index (gpus ! k)) gpus = Some g"
    "cr_vram_mb cm \<le> vram_free_mb g"
    using assms(2) by (auto simp: companion_fits_def split: option.splits)
  from g(1) obtain j where j: "j < length gpus" "g = gpus ! j" "g_index (gpus ! j) = g_index (gpus ! k)"
    by (auto simp: find_Some_iff)
  then have "j = k" using assms(1,3) by (simp add: distinct_conv_nth) metis
  with g j show ?thesis by simp
qed

lemma choose_companion_fits:
  assumes "distinct (map g_index gpus)" "choose_companion_gpu gpus cm = g_index (gpus ! k)"
    "0 \<le> g_index (gpus ! k)" "k < length gpus"
  shows "cr_vram_mb cm \<le> vram_free_mb (gpus ! k)"
proof (cases "find (companion_fits gpus cm) (gpu_preference cm)")
  case (Some idx)
  then have "companion_fits gpus cm idx" by (auto simp: find_Some_iff)
  moreover have "idx = g_index (gpus ! k)"
    using assms Some by (auto simp: choose_companion_gpu_def split: if_splits)
  ultimately show ?thesis using companion_fits_nth assms by blast
next
  case None
  then obtain g where g: "find (\<lambda>g. vram_free_mb g \<ge> cr_vram_mb cm)
      (sort_key (\<lambda>g. (bandwidth_mbps g, vram_total_mb g, g_index g)) gpus) = Some g"
    "g_index g = g_index (gpus ! k)"
    using assms by (auto simp: choose_companion_gpu_def Let_def split: if_splits option.splits)
  from g(1) obtain j where j: "j < length (sort_key (\<lambda>g. (bandwidth_mbps g, vram_total_mb g, g_index g)) gpus)"
    "g = sort_key (\<lambda>g. (bandwidth_mbps g, vram_total_mb g, g_index g)) gpus ! j"
    "cr_vram_mb cm \<le> vram_free_mb g"
    unfolding find_Some_iff by blast
  have "g \<in> set gpus"
    using nth_mem [OF j(1)] j(2) by simp
  moreover have "g = gpus ! k"
    using assms(1,4) g(2) \<open>g \<in> set gpus\<close>
    by (simp add: in_set_conv_nth distinct_conv_nth) metis
  ultimately show ?thesis using j(3) by simp
qed

lemma vram_free_charge:
  "0 < mb \<Longrightarrow> mb \<le> vram_free_mb g \<Longrightarrow>
   vram_free_mb (g\<lparr>vram_used_mb := vram_used_mb g + mb\<rparr>) = vram_free_mb g - mb"
  by (auto simp: vram_free_mb_def Let_def split: if_splits)

lemma seat_companions_ok:
  assumes "seat_companions gpus cms = Inr (gpus', ps)" "distinct (map g_index gpus)"
    "\<forall>g \<in> set gpus. 0 \<le> g_index g"
  shows "length gpus' = length gpus \<and> length ps = length (filter (\<lambda>c. cr_vram_mb c > 0) cms) \<and>
    (\<forall>k < length gpus.
       gpus' ! k = (gpus ! k)\<lparr>vram_used_mb := vram_used_mb (gpus ! k) + seated_mb (g_index (gpus ! k)) cms ps\<rparr> \<and>
       vram_free_mb (gpus' ! k) = vram_free_mb (gpus ! k) - seated_mb (g_index (gpus ! k)) cms ps)"
  using assms
proof (induction cms arbitrary: gpus gpus' ps)
  case Nil
  then show ?case by (simp add: seated_mb_def)
next
  case (Cons c cms)
  show ?case
  proof (cases "cr_vram_mb c \<le> 0")
    case True
    then have sm: "seated_mb i (c # cms) ps = seated_mb i cms ps" for i by (simp add: seated_mb_def)
    have fl: "filter (\<lambda>c. cr_vram_mb c > 0) (c # cms) = filter (\<lambda>c. cr_vram_mb c > 0) cms"
      using True by simp
    have "seat_companions gpus cms = Inr (gpus', ps)" using Cons.prems(1) True by simp
    from Cons.IH [OF this Cons.prems(2,3)] show ?thesis unfolding sm fl .
  next
    case False
    define i where "i = choose_companion_gpu gpus c"
    define mid where "mid = (if i \<ge> 0 then charge_gpu i (cr_vram_mb c) gpus else gpus)"
    obtain qs nm where qs: "seat_companions mid cms = Inr (gpus', qs)" "ps = \<lparr>cp_name = nm, cp_gpu = i\<rparr> # qs"
      using Cons.prems(1) False
      by (auto simp: Let_def i_def mid_def split: if_splits sum.splits)
    have d: "distinct (map g_index mid)" and nn: "\<forall>g \<in> set mid. 0 \<le> g_index g"
    proof -
      have m: "map g_index mid = map g_index gpus" by (simp add: mid_def)
      then show "distinct (map g_index mid)" using Cons.prems(2) by simp
      have "\<forall>x \<in> set (map g_index mid). 0 \<le> x" unfolding m using Cons.prems(3) by simp
      then show "\<forall>g \<in> set mid. 0 \<le> g_index g" by simp
    qed
    have s: "seated_mb j (c # cms) ps = (if i = j then cr_vram_mb c else 0) + seated_mb j cms qs" for j
      using False by (simp add: seated_mb_def qs(2))
    have mk: "mid ! k = (if g_index (gpus ! k) = i
        then (gpus ! k)\<lparr>vram_used_mb := vram_used_mb (gpus ! k) + cr_vram_mb c\<rparr> else gpus ! k)"
      "vram_free_mb (mid ! k) = vram_free_mb (gpus ! k) - (if i = g_index (gpus ! k) then cr_vram_mb c else 0)"
      if k: "k < length gpus" for k
    proof -
      have "0 \<le> g_index (gpus ! k)" using Cons.prems(3) k by simp
      then show e: "mid ! k = (if g_index (gpus ! k) = i
        then (gpus ! k)\<lparr>vram_used_mb := vram_used_mb (gpus ! k) + cr_vram_mb c\<rparr> else gpus ! k)"
        using charge_gpu_nth [OF Cons.prems(2) k] by (auto simp: mid_def)
      show "vram_free_mb (mid ! k) = vram_free_mb (gpus ! k) - (if i = g_index (gpus ! k) then cr_vram_mb c else 0)"
        using choose_companion_fits [OF Cons.prems(2), of c k] k Cons.prems(3) vram_free_charge False
        by (auto simp: e i_def)
    qed
    have "length mid = length gpus" by (simp add: mid_def)
    with Cons.IH [OF qs(1) d nn] mk s qs(2) False show ?thesis by (auto simp: add.assoc)
  qed
qed

lemma seated_nonneg: "0 \<le> seated_mb idx cms ps"
proof -
  have "\<forall>x \<in> set (zip (filter (\<lambda>c. cr_vram_mb c > 0) cms) ps). 0 \<le> (case x of (c, p) \<Rightarrow> if cp_gpu p = idx then cr_vram_mb c else 0)"
    by (auto dest: set_zip_leftD)
  then show ?thesis unfolding seated_mb_def by (intro sum_list_nonneg) auto
qed

section \<open>Selection\<close>

lemma filter_wanted_eq:
  "filter_wanted want gs acc =
     acc @ map2 (\<lambda>i g. g\<lparr>g_index := int i\<rparr>) [length acc..<length acc + length (filter (\<lambda>g. g_index g \<in> set want) gs)]
             (filter (\<lambda>g. g_index g \<in> set want) gs)"
proof (induction gs arbitrary: acc)
  case (Cons g gs)
  then show ?case by (simp add: upt_conv_Cons del: upt_Suc)
qed simp

section \<open>Headroom\<close>

lemma sum_shares_bounds:
  fixes h t :: int
  assumes "0 < t"
  shows "(\<Sum>g\<leftarrow>gs. (h * f g) div t) * t \<le> h * (\<Sum>g\<leftarrow>gs. f g)"
    and "h * (\<Sum>g\<leftarrow>gs. f g) \<le> (\<Sum>g\<leftarrow>gs. (h * f g) div t) * t + int (length gs) * (t - 1)"
proof (induction gs)
  case Nil
  { case 1 show ?case by simp next case 2 show ?case by simp }
next
  case (Cons g gs)
  have b: "(h * f g) div t * t \<le> h * f g" "h * f g \<le> (h * f g) div t * t + (t - 1)"
    using assms pos_mod_bound [of t "h * f g"] div_mult_mod_eq [of "h * f g" t] pos_mod_sign [of t "h * f g"]
    by linarith+
  { case 1 from b(1) Cons.IH(1) show ?case by (simp add: algebra_simps) }
  { case 2 from b(2) Cons.IH(2) show ?case by (simp add: algebra_simps) }
qed

section \<open>Properties\<close>

text \<open>
  C14: Seating companions never overcommits a device: when the planner accepts the reservations,
  each device's free VRAM shrinks by exactly what is seated on it and stays non-negative, and
  nothing else of a device changes.
\<close>

theorem companions_never_overcommit:
  assumes "seat_companions gpus cms = Inr (gpus', ps)" "distinct (map g_index gpus)"
    "\<forall>g \<in> set gpus. 0 \<le> g_index g"
  shows "length gpus' = length gpus \<and>
    (\<forall>k < length gpus. let mb = seated_mb (g_index (gpus ! k)) cms ps in
       gpus' ! k = (gpus ! k)\<lparr>vram_used_mb := vram_used_mb (gpus ! k) + mb\<rparr> \<and>
       0 \<le> mb \<and> mb \<le> vram_free_mb (gpus ! k) \<and>
       vram_free_mb (gpus' ! k) = vram_free_mb (gpus ! k) - mb)"
proof -
  note h = seat_companions_ok [OF assms]
  have "seated_mb (g_index (gpus ! k)) cms ps \<le> vram_free_mb (gpus ! k)" if "k < length gpus" for k
  proof -
    have "vram_free_mb (gpus' ! k) = vram_free_mb (gpus ! k) - seated_mb (g_index (gpus ! k)) cms ps"
      using h that by blast
    with vram_free_nonneg [of "gpus' ! k"] show ?thesis by simp
  qed
  with h seated_nonneg show ?thesis by (simp only: Let_def) blast
qed

definition demo_gpu :: "int \<Rightarrow> int \<Rightarrow> int \<Rightarrow> gpu" where
  "demo_gpu i mb bw =
     \<lparr>g_index = i, g_name = ''gpu'', vram_total_mb = mb, vram_used_mb = 100, vram_reserved_mb = 50,
      g_driver = [], pci_gen = 4, pci_lanes = 16, bandwidth_mbps = bw, bandwidth_source = [],
      mem_clock_mhz = 0, mem_bandwidth_mbps = 0, pci_bus_id = [], compute_cap = []\<rparr>"

definition demo_companion :: companion_reservation where
  "demo_companion = \<lparr>cr_name = ''reviewer'', cr_vram_mb = 500, gpu_preference = [], allow_cpu = False\<rparr>"

theorem companions_never_overcommit_witness:
  "case seat_companions [demo_gpu 0 24000 32, demo_gpu 1 8000 16] [demo_companion, demo_companion] of
     Inl _ \<Rightarrow> False
   | Inr (gs, ps) \<Rightarrow> map vram_free_mb gs = [23850, 6850]"
proof -
  let ?gs = "[demo_gpu 0 24000 32, demo_gpu 1 8000 16]"
  have e: "seat_companions ?gs [demo_companion, demo_companion] =
      Inr ([demo_gpu 0 24000 32, (demo_gpu 1 8000 16)\<lparr>vram_used_mb := 1100\<rparr>],
           [\<lparr>cp_name = ''reviewer'', cp_gpu = 1\<rparr>, \<lparr>cp_name = ''reviewer'', cp_gpu = 1\<rparr>])"
    by code_simp
  have "distinct (map g_index ?gs)" "\<forall>g \<in> set ?gs. 0 \<le> g_index g" by (simp_all add: demo_gpu_def)
  from companions_never_overcommit [OF e this] have
    "vram_free_mb ((demo_gpu 1 8000 16)\<lparr>vram_used_mb := 1100\<rparr>) =
       vram_free_mb (demo_gpu 1 8000 16) - seated_mb 1 [demo_companion, demo_companion]
         [\<lparr>cp_name = ''reviewer'', cp_gpu = 1\<rparr>, \<lparr>cp_name = ''reviewer'', cp_gpu = 1\<rparr>]"
    by (auto simp: Let_def demo_gpu_def dest: spec [of _ 1])
  then show ?thesis
    by (simp only: e sum.case prod.case)
       (simp add: seated_mb_def demo_companion_def demo_gpu_def vram_free_mb_def)
qed

text \<open>
  \<^verbatim>\<open>restrictGPUs\<close> keeps exactly the wanted devices in their detected order and
  numbers them from zero, as the backend will see them; it fails exactly when none is wanted.
\<close>

theorem restrict_renumbers:
  assumes "want \<noteq> []" "c_gpus c \<noteq> []"
  defines "kept \<equiv> filter (\<lambda>g. g_index g \<in> set want) (c_gpus c)"
  shows "case restrict_gpus (Some c) want of
      Inl e \<Rightarrow> e = NoMatchingGpu \<and> kept = []
    | Inr None \<Rightarrow> False
    | Inr (Some c') \<Rightarrow>
        kept \<noteq> [] \<and> map g_index (c_gpus c') = map int [0..<length kept] \<and>
        c_gpus c' = map2 (\<lambda>i g. g\<lparr>g_index := int i\<rparr>) [0..<length kept] kept \<and>
        c' = c\<lparr>c_gpus := c_gpus c'\<rparr>"
proof -
  have e: "filter_wanted want (c_gpus c) [] = map2 (\<lambda>i g. g\<lparr>g_index := int i\<rparr>) [0..<length kept] kept"
    using filter_wanted_eq [of want "c_gpus c" "[]"] by (simp add: kept_def)
  have ix: "map g_index (map2 (\<lambda>i g. g\<lparr>g_index := int i\<rparr>) [0..<length kept] kept) = map int [0..<length kept]"
    by (rule nth_equalityI) auto
  show ?thesis
  proof (cases "kept = []")
    case True
    then show ?thesis using assms(1,2) e by (simp add: restrict_gpus_def)
  next
    case False
    then have "map2 (\<lambda>i g. g\<lparr>g_index := int i\<rparr>) [0..<length kept] kept \<noteq> []" by (cases kept) auto
    with assms(1,2) False ix show ?thesis
      by (simp only: restrict_gpus_def e option.case sum.case if_False Let_def) simp
  qed
qed

definition demo_caps :: "gpu list \<Rightarrow> capabilities" where
  "demo_caps gs =
     \<lparr>c_os = ''linux'', c_arch = ''amd64'', c_gpus = gs,
      c_ram = \<lparr>ram_total_mb = 64000, ram_free_mb = 60000\<rparr>,
      c_cpu = \<lparr>cpu_model = [], cpu_cores = 8, cpu_threads = 16, cpu_flags = [], physical_ids = []\<rparr>,
      c_backends = [], host_memory_bandwidth_mbps = 0, host_memory_bandwidth_source = []\<rparr>"

theorem restrict_renumbers_witness:
  "case restrict_gpus (Some (demo_caps [demo_gpu 0 1000 1, demo_gpu 3 2000 2, demo_gpu 5 3000 3])) [5, 3] of
     Inr (Some c') \<Rightarrow> c_gpus c' = [demo_gpu 0 2000 2, demo_gpu 1 3000 3] | _ \<Rightarrow> False"
  using restrict_renumbers [of "[5, 3]" "demo_caps [demo_gpu 0 1000 1, demo_gpu 3 2000 2, demo_gpu 5 3000 3]"]
  by (auto simp: demo_caps_def demo_gpu_def upt_rec split: sum.splits option.splits)

text \<open>
  \<^verbatim>\<open>ApplyVRAMHeadroom\<close> never withholds more than the headroom asked for, and less
  by at most one MiB short per device; no device ends with a negative capacity or a larger one.
\<close>

theorem vram_headroom_bounds:
  assumes "0 < h" "h \<le> total_vram c" "\<forall>g \<in> set (c_gpus c). 0 \<le> vram_total_mb g"
  shows "\<exists>c'. apply_vram_headroom (Some c) h = Some c' \<and>
    length (c_gpus c') = length (c_gpus c) \<and>
    (\<forall>k < length (c_gpus c). 0 \<le> vram_total_mb (c_gpus c' ! k) \<and>
       vram_total_mb (c_gpus c' ! k) \<le> vram_total_mb (c_gpus c ! k)) \<and>
    total_vram c - h \<le> total_vram c' \<and>
    total_vram c' \<le> total_vram c - h + int (length (c_gpus c))"
proof -
  let ?gs = "c_gpus c" and ?t = "total_vram c"
  have t: "0 < ?t" using assms by simp
  have ne: "?gs \<noteq> []" using t by (auto simp: total_vram_def)
  define sh where "sh g = (h * vram_total_mb g) div ?t" for g :: gpu
  have le: "sh g \<le> vram_total_mb g" "0 \<le> sh g" if "g \<in> set ?gs" for g
  proof -
    have v: "0 \<le> vram_total_mb g" using assms(3) that by simp
    have "(h * vram_total_mb g) div ?t \<le> (?t * vram_total_mb g) div ?t"
      using assms(2) v t by (intro zdiv_mono1 mult_right_mono) auto
    with t show "sh g \<le> vram_total_mb g" by (simp add: sh_def)
    show "0 \<le> sh g" using v t assms(1) by (simp add: sh_def pos_imp_zdiv_nonneg_iff)
  qed
  define c' where "c' = c\<lparr>c_gpus := map (\<lambda>g. g\<lparr>vram_total_mb := vram_total_mb g - sh g\<rparr>) ?gs\<rparr>"
  have go: "go_div (h * vram_total_mb g) ?t = sh g" if "g \<in> set ?gs" for g
    using that assms t by (simp add: sh_def)
  have a: "apply_vram_headroom (Some c) h = Some c'"
    using assms(1) ne t le go
    by (auto simp: apply_vram_headroom_def c'_def Let_def not_less
        intro!: arg_cong [where f = "\<lambda>gs. c\<lparr>c_gpus := gs\<rparr>"] map_cong)
  have tot: "total_vram x = (\<Sum>g\<leftarrow>c_gpus x. vram_total_mb g)" for x
    by (simp add: total_vram_def foldl_add_sum)
  have s: "total_vram c' = ?t - (\<Sum>g\<leftarrow>?gs. sh g)"
    by (simp add: tot c'_def sum_list_subtractf o_def)
  note b = sum_shares_bounds [OF t, of h vram_total_mb ?gs, folded sh_def, unfolded tot [of c, symmetric]]
  from b(1) t have "(\<Sum>g\<leftarrow>?gs. sh g) \<le> h" by simp
  moreover have "h - int (length ?gs) \<le> (\<Sum>g\<leftarrow>?gs. sh g)"
  proof -
    have "int (length ?gs) * (?t - 1) \<le> int (length ?gs) * ?t" by (simp add: mult_left_mono)
    with b(2) have "h * ?t \<le> ((\<Sum>g\<leftarrow>?gs. sh g) + int (length ?gs)) * ?t" by (simp add: algebra_simps)
    with t have "h \<le> (\<Sum>g\<leftarrow>?gs. sh g) + int (length ?gs)" by simp
    then show ?thesis by simp
  qed
  ultimately show ?thesis
    using a s le by (intro exI [of _ c']) (auto simp: c'_def)
qed

theorem vram_headroom_bounds_witness:
  "\<exists>c'. apply_vram_headroom (Some (demo_caps [demo_gpu 0 1000 1, demo_gpu 3 2001 2])) 100 = Some c' \<and>
     2901 \<le> total_vram c' \<and> total_vram c' \<le> 2903"
proof -
  let ?c = "demo_caps [demo_gpu 0 1000 1, demo_gpu 3 2001 2]"
  have "(0 :: int) < 100" "100 \<le> total_vram ?c" "\<forall>g \<in> set (c_gpus ?c). 0 \<le> vram_total_mb g"
    and t: "total_vram ?c = 3001" "length (c_gpus ?c) = 2"
    by (simp_all add: total_vram_def demo_caps_def demo_gpu_def)
  from vram_headroom_bounds [OF this(1-3)] show ?thesis by (auto simp: t)
qed

end
