(* ===== verification/ModelProfile.thy ===== *)
theory ModelProfile
  imports Complex_Main ModelInfo Machine
begin

text \<open>
  The model as placement sees it (\<^verbatim>\<open>ModelProfile\<close> of
  \<^verbatim>\<open>go/pkg/placement/placement.go\<close>) with the small derived facts several components
  share: the range of MoE layers, whether the model keeps recurrent state, and the spacing and host
  footprint of context checkpoints. A \<^verbatim>\<open>float64\<close> is its exact rational value.
\<close>

record kv_geometry =
  kg_full_layers :: int
  kg_swa_layers :: int
  kg_swa_cells :: int
  kg_bytes_per_cell_per_layer :: rat

record model_profile =
  m_path :: string
  m_name :: string
  m_basename :: string
  m_quantized_by :: string
  m_size_bytes :: int
  m_total_size_mb :: int
  m_num_layers :: int
  m_num_params :: int
  m_is_moe :: bool
  m_num_experts :: int
  m_context_size :: int
  m_hidden_size :: int
  m_head_count :: int
  m_head_count_kv :: int
  m_key_length :: int
  m_value_length :: int
  m_vocab_size :: int
  m_tokenizer_model :: string
  m_tokenizer_pre :: string
  m_tokenizer_hash :: string
  m_quant_type :: string
  m_expert_bytes :: int
  m_non_expert_bytes :: int
  m_token_embd_bytes :: int
  m_output_bytes :: int
  m_shexp_bytes :: int
  m_expert_aux_bytes :: int
  m_expert_layer_bytes :: "int list"
  m_routed_expert_layer_bytes :: "int list"
  m_shexp_layer_bytes :: "int list"
  m_expert_aux_layer_bytes :: "int list"
  m_non_expert_layer_bytes :: "int list"
  m_fused :: int
  m_embedding_length :: int
  m_feed_forward_length :: int
  m_kv_lora_rank :: int
  m_q_lora_rank :: int
  m_rope_dim :: int
  m_key_length_mla :: int
  m_value_length_mla :: int
  m_has_ssm :: int
  m_sliding_window :: int
  m_full_attn_interval :: int
  m_has_shexp :: int
  m_ctx_train :: int
  m_model_arch :: string
  m_expert_used_count :: int
  m_sparse_lookup_bytes :: int
  m_sparse_lookup_kind :: string
  m_sparse_lookup_layer_bytes :: "int list"
  m_sparse_lookup_ranges :: "sparse_lookup_range list"
  m_sparse_lookup_view_bytes :: int
  m_measured_compute_coefficient :: rat
  m_measured_kv_bytes_per_tok :: "(string \<times> rat) list"
  m_measured_kv_geometry :: "(string \<times> kv_geometry) list"
  m_expert_ff :: int
  m_expert_shared_ff :: int
  m_expert_shared_count :: int
  m_expert_shared_count_inferred :: bool
  m_leading_dense :: int
  m_kv_loops :: int
  m_leading_dense_inferred :: bool
  m_next_n_predict_layers :: int
  m_full_context_windowed_kv :: bool
  m_byte_weighted_layer_split :: bool
  m_ssm_conv_kernel :: int
  m_ssm_state_size :: int
  m_ssm_group_count :: int
  m_ssm_inner_size :: int
  m_ssm_time_step_rank :: int
  m_head_count_kv_by_layer :: "int list"
  m_swa_pattern :: "int list"
  m_key_length_swa :: int
  m_value_length_swa :: int
  m_recurrent_state :: int

text \<open>The zero value \<^verbatim>\<open>ModelProfile{}\<close>.\<close>

definition empty_profile :: model_profile where
  "empty_profile =
    \<lparr>m_path = [],
     m_name = [],
     m_basename = [],
     m_quantized_by = [],
     m_size_bytes = 0,
     m_total_size_mb = 0,
     m_num_layers = 0,
     m_num_params = 0,
     m_is_moe = False,
     m_num_experts = 0,
     m_context_size = 0,
     m_hidden_size = 0,
     m_head_count = 0,
     m_head_count_kv = 0,
     m_key_length = 0,
     m_value_length = 0,
     m_vocab_size = 0,
     m_tokenizer_model = [],
     m_tokenizer_pre = [],
     m_tokenizer_hash = [],
     m_quant_type = [],
     m_expert_bytes = 0,
     m_non_expert_bytes = 0,
     m_token_embd_bytes = 0,
     m_output_bytes = 0,
     m_shexp_bytes = 0,
     m_expert_aux_bytes = 0,
     m_expert_layer_bytes = [],
     m_routed_expert_layer_bytes = [],
     m_shexp_layer_bytes = [],
     m_expert_aux_layer_bytes = [],
     m_non_expert_layer_bytes = [],
     m_fused = 0,
     m_embedding_length = 0,
     m_feed_forward_length = 0,
     m_kv_lora_rank = 0,
     m_q_lora_rank = 0,
     m_rope_dim = 0,
     m_key_length_mla = 0,
     m_value_length_mla = 0,
     m_has_ssm = 0,
     m_sliding_window = 0,
     m_full_attn_interval = 0,
     m_has_shexp = 0,
     m_ctx_train = 0,
     m_model_arch = [],
     m_expert_used_count = 0,
     m_sparse_lookup_bytes = 0,
     m_sparse_lookup_kind = [],
     m_sparse_lookup_layer_bytes = [],
     m_sparse_lookup_ranges = [],
     m_sparse_lookup_view_bytes = 0,
     m_measured_compute_coefficient = 0,
     m_measured_kv_bytes_per_tok = [],
     m_measured_kv_geometry = [],
     m_expert_ff = 0,
     m_expert_shared_ff = 0,
     m_expert_shared_count = 0,
     m_expert_shared_count_inferred = False,
     m_leading_dense = 0,
     m_kv_loops = 0,
     m_leading_dense_inferred = False,
     m_next_n_predict_layers = 0,
     m_full_context_windowed_kv = False,
     m_byte_weighted_layer_split = False,
     m_ssm_conv_kernel = 0,
     m_ssm_state_size = 0,
     m_ssm_group_count = 0,
     m_ssm_inner_size = 0,
     m_ssm_time_step_rank = 0,
     m_head_count_kv_by_layer = [],
     m_swa_pattern = [],
     m_key_length_swa = 0,
     m_value_length_swa = 0,
     m_recurrent_state = 0\<rparr>"

section \<open>Derived facts\<close>

text \<open>\<^verbatim>\<open>moeLayerRange\<close>: first MoE layer and number of MoE layers.\<close>

definition moe_layer_range :: "model_profile option \<Rightarrow> int \<times> int" where
  "moe_layer_range mo =
     (case mo of
        None \<Rightarrow> (0, 0)
      | Some m \<Rightarrow>
          if m_num_layers m \<le> 0 then (0, 0)
          else
            let start = (if m_leading_dense m < 0 \<or> m_leading_dense m \<ge> m_num_layers m then 0
                         else m_leading_dense m);
                count = m_num_layers m - start
            in if count \<le> 0 then (0, m_num_layers m) else (start, count))"

definition has_ssm_layout :: "model_profile option \<Rightarrow> bool" where
  "has_ssm_layout mo =
     (case mo of None \<Rightarrow> False | Some m \<Rightarrow> m_has_ssm m \<noteq> 0 \<or> equal_fold (m_model_arch m) ''deepseek4'')"

definition is_recurrent_or_hybrid :: "model_profile option \<Rightarrow> bool" where
  "is_recurrent_or_hybrid mo \<longleftrightarrow>
     has_ssm_layout mo \<or> (case mo of None \<Rightarrow> False | Some m \<Rightarrow> m_recurrent_state m \<noteq> 0)"

lemma moe_layer_range_ok:
  assumes "moe_layer_range (Some m) = (start, count)" "0 < m_num_layers m"
  shows "0 \<le> start" "0 < count" "start + count = m_num_layers m"
  using assms by (auto simp: moe_layer_range_def Let_def split: if_splits)

end
