(* ===== verification/OverrideTensor.thy ===== *)
theory OverrideTensor
  imports ModelProfile
begin

text \<open>
  The expert placement string \<^verbatim>\<open>-ot\<close> and the recovery from a failed CUDA allocation
  (\<^verbatim>\<open>go/pkg/placement/placement.go\<close>): the builders of the string, its parser, the readers
  and writers of a launch argv, and \<^verbatim>\<open>DerateCUDAOOMArgsForDeficit\<close>.

  The parser's regular expression
  \<^verbatim>\<open>blk\\\.\(([^)]*)\).*=(?:CUDA|Vulkan)(\d+)\<close> is written out as the leftmost match
  with a greedy middle. Tensor-split shares are rationals (\<open>parse_tensor_split\<close> reads plain
  decimals).
\<close>

section \<open>Data\<close>

record gpu_assignment =
  ga_cuda_index :: int
  ga_start :: int
  ga_count :: int

record cache_entry =
  ce_gpu_assignments :: "gpu_assignment list"
  ce_ot_string :: string
  ce_tensor_split :: "rat list"
  ce_split_mode :: string
  ce_n_cpu_moe :: int
  ce_batch_size :: int
  ce_ubatch_size :: int
  ce_parallel :: int
  ce_kv_unified :: bool
  ce_no_pinned :: bool
  ce_mmap :: bool
  ce_model_basename :: string
  ce_plan_free_vram :: "(int \<times> int) list"

definition empty_entry :: cache_entry where
  "empty_entry =
     \<lparr>ce_gpu_assignments = [], ce_ot_string = [], ce_tensor_split = [], ce_split_mode = [],
      ce_n_cpu_moe = 0, ce_batch_size = 0, ce_ubatch_size = 0, ce_parallel = 0,
      ce_kv_unified = False, ce_no_pinned = False, ce_mmap = False, ce_model_basename = [],
      ce_plan_free_vram = []\<rparr>"

record sub_expert_pin =
  sp_layer :: int
  sp_gi :: nat

section \<open>Building the string\<close>

definition expert_tensor_pattern :: string where
  "expert_tensor_pattern =
     ''ffn_((gate_up|up_gate|gate|up|down)_(ch|)exps|(gate_inp|gate|up|down)_shexp|gate_inp|gate_tid2eid|exp_probs_b)''"

definition gate_up_pattern :: string where
  "gate_up_pattern = ''ffn_(gate_up|up_gate|gate|up)_(ch|)exps''"

definition device_name :: "string \<Rightarrow> int \<Rightarrow> string" where
  "device_name tag i = (if equal_fold tag ''vulkan'' then ''Vulkan'' @ itoa i else ''CUDA'' @ itoa i)"

text \<open>The two fixed pieces around the layer list, with an escaped dot each.\<close>

definition rule_open :: string where
  "rule_open = ''blk'' @ [CHR 0x5C] @ ''.(''"

definition rule_close :: string where
  "rule_close = '')'' @ [CHR 0x5C] @ ''.''"

text \<open>One rule: \<^verbatim>\<open>blk\.(l1|l2|...)\.PATTERN.*=DEVICE\<close>.\<close>

definition ot_rule :: "int list \<Rightarrow> string \<Rightarrow> string \<Rightarrow> string" where
  "ot_rule layers pattern dev =
     rule_open @ join_with ''|'' (map itoa layers) @ rule_close @ pattern @ ''.*='' @ dev"

definition catch_all :: string where
  "catch_all = ''exps=CPU''"

text \<open>The whole-layer rules; \<open>next\<close> is \<^verbatim>\<open>nextLayer\<close>.\<close>

fun layer_rules :: "int list \<Rightarrow> gpu list \<Rightarrow> nat list \<Rightarrow> int \<Rightarrow> string \<Rightarrow> string list" where
  "layer_rules per_gpu gpus [] next tag = []"
| "layer_rules per_gpu gpus (gi # order) next tag =
     (let count = per_gpu ! gi in
      if count > 0 then
        ot_rule [next..next + count - 1] expert_tensor_pattern (device_name tag (g_index (gpus ! gi)))
          # layer_rules per_gpu gpus order (next + count) tag
      else layer_rules per_gpu gpus order next tag)"

definition build_ot_string_from_start ::
  "int list \<Rightarrow> gpu list \<Rightarrow> nat list \<Rightarrow> int \<Rightarrow> string \<Rightarrow> string" where
  "build_ot_string_from_start per_gpu gpus order start tag =
     join_with '','' (layer_rules per_gpu gpus order start tag @ [catch_all])"

definition build_ot_string :: "int list \<Rightarrow> gpu list \<Rightarrow> nat list \<Rightarrow> string \<Rightarrow> string" where
  "build_ot_string per_gpu gpus order tag = build_ot_string_from_start per_gpu gpus order 0 tag"

text \<open>The pins grouped by device in first-seen order.\<close>

definition pin_order :: "sub_expert_pin list \<Rightarrow> nat list" where
  "pin_order pins = rev (remdups (rev (map sp_gi pins)))"

definition pin_rules :: "sub_expert_pin list \<Rightarrow> gpu list \<Rightarrow> string \<Rightarrow> string list" where
  "pin_rules pins gpus tag =
     map (\<lambda>gi. ot_rule (map sp_layer (filter (\<lambda>p. sp_gi p = gi) pins)) gate_up_pattern
                 (device_name tag (g_index (gpus ! gi)))) (pin_order pins)"

definition build_ot_string_with_sub_pins ::
  "int list \<Rightarrow> sub_expert_pin list \<Rightarrow> gpu list \<Rightarrow> nat list \<Rightarrow> int \<Rightarrow> string \<Rightarrow> string" where
  "build_ot_string_with_sub_pins per_gpu pins gpus order start tag =
     join_with '','' (layer_rules per_gpu gpus order start tag @ pin_rules pins gpus tag @ [catch_all])"

definition positive_assignments :: "gpu_assignment list \<Rightarrow> gpu_assignment list" where
  "positive_assignments as = filter (\<lambda>a. ga_count a > 0) as"

definition assignment_layers :: "gpu_assignment \<Rightarrow> int list" where
  "assignment_layers a = [ga_start a..ga_start a + ga_count a - 1]"

definition build_ot_string_from_assignments :: "gpu_assignment list \<Rightarrow> string \<Rightarrow> string" where
  "build_ot_string_from_assignments as tag =
     join_with '','' (map (\<lambda>a. ot_rule (assignment_layers a) expert_tensor_pattern
                            (device_name tag (ga_cuda_index a))) (positive_assignments as) @ [catch_all])"

section \<open>Parsing the string\<close>

definition newline :: char where
  "newline = CHR 0x0A"

text \<open>\<^verbatim>\<open>=(?:CUDA|Vulkan)(\d+)\<close> at the head of the text.\<close>

definition device_at :: "string \<Rightarrow> string option" where
  "device_at s =
     (let digits = (if has_prefix s ''=CUDA'' then takeWhile is_digit (drop 5 s)
                    else if has_prefix s ''=Vulkan'' then takeWhile is_digit (drop 7 s) else [])
      in if digits = [] then None else Some digits)"

text \<open>\<^verbatim>\<open>.*\<close> before it is greedy and stays on the line: the last occurrence counts.\<close>

fun last_device :: "string \<Rightarrow> string option" where
  "last_device [] = None"
| "last_device (c # s) =
     (case (if c = newline then None else last_device s) of
        Some d \<Rightarrow> Some d
      | None \<Rightarrow> device_at (c # s))"

text \<open>The match at the head of the text: the layer list and the device digits.\<close>

definition rule_at :: "string \<Rightarrow> (string \<times> string) option" where
  "rule_at s =
     (if has_prefix s rule_open then
        let r = drop 6 s; inner = takeWhile (\<lambda>c. c \<noteq> CHR '')'') r;
            rest = dropWhile (\<lambda>c. c \<noteq> CHR '')'') r
        in if rest = [] then None
           else (case last_device (tl rest) of None \<Rightarrow> None | Some d \<Rightarrow> Some (inner, d))
      else None)"

fun find_rule :: "string \<Rightarrow> (string \<times> string) option" where
  "find_rule [] = rule_at []"
| "find_rule (c # s) = (case rule_at (c # s) of Some m \<Rightarrow> Some m | None \<Rightarrow> find_rule s)"

definition parse_assignment :: "string \<Rightarrow> gpu_assignment option" where
  "parse_assignment part =
     (case find_rule part of
        None \<Rightarrow> None
      | Some (inner, digits) \<Rightarrow>
          (case atoi digits of
             None \<Rightarrow> None
           | Some device \<Rightarrow>
               let layers = split_char CHR ''|'' inner in
               (case atoi (hd layers) of
                  None \<Rightarrow> None
                | Some start \<Rightarrow>
                    Some \<lparr>ga_cuda_index = device, ga_start = start, ga_count = int (length layers)\<rparr>)))"

definition parse_ot_assignments :: "string \<Rightarrow> gpu_assignment list" where
  "parse_ot_assignments ot = List.map_filter parse_assignment (split_char CHR '','' ot)"

definition ot_string_uses_device :: "string \<Rightarrow> int \<Rightarrow> bool" where
  "ot_string_uses_device ot i =
     (contains_sub ot (''=CUDA'' @ itoa i) \<or> contains_sub ot (''=Vulkan'' @ itoa i))"

section \<open>The parser on the builders' output\<close>

lemma device_at_head: "device_at s = Some d \<Longrightarrow> s \<noteq> [] \<and> hd s = CHR ''=''"
  by (auto simp: device_at_def Let_def has_prefix_iff split: if_splits)

lemma last_device_none: "CHR ''='' \<notin> set s \<Longrightarrow> last_device s = None"
proof (induction s)
  case (Cons c s)
  then have "device_at (c # s) = None"
    using device_at_head [of "c # s"] by (cases "device_at (c # s)") auto
  with Cons show ?case by auto
qed simp

lemma last_device_device:
  assumes "list_all is_digit ds" "ds \<noteq> []" "d = ''CUDA'' \<or> d = ''Vulkan''"
  shows "last_device (''='' @ d @ ds) = Some ds"
proof -
  have "CHR ''='' \<notin> set ds" using assms(1) digit_not_special(7) by (auto simp: list_all_iff)
  then have "last_device (d @ ds) = None" using assms(3) by (intro last_device_none) auto
  moreover have tw: "takeWhile is_digit ds = ds"
    using assms(1) by (simp only: takeWhile_eq_all_conv list_all_iff)
  have "device_at (''='' @ d @ ds) = Some ds"
    using assms(2,3) by (auto simp: device_at_def Let_def tw)
  ultimately show ?thesis by (simp add: newline_def)
qed

lemma last_device_skip:
  "newline \<notin> set pre \<Longrightarrow> last_device s = Some d \<Longrightarrow> last_device (pre @ s) = Some d"
  by (induction pre) (auto simp: newline_def)

declare last_device.simps [simp del]

definition plain_pattern :: "string \<Rightarrow> bool" where
  "plain_pattern p \<longleftrightarrow> newline \<notin> set p \<and> CHR '','' \<notin> set p"

lemma patterns_plain: "plain_pattern expert_tensor_pattern" "plain_pattern gate_up_pattern"
  by (simp_all add: plain_pattern_def expert_tensor_pattern_def gate_up_pattern_def newline_def)

lemma itoa_free:
  "c \<in> {CHR '')'', CHR ''|'', CHR '','', CHR ''='', newline} \<Longrightarrow> c \<notin> set (itoa i)"
  using set_itoa_chars [of c i] digit_not_special [of c] by (auto simp: newline_def)

lemma set_join_with: "set (join_with sep ps) \<subseteq> set sep \<union> (\<Union>p \<in> set ps. set p)"
  by (induction sep ps rule: join_with.induct) auto

lemma join_free: "c \<in> {CHR '')'', CHR '','', CHR ''='', newline} \<Longrightarrow> c \<notin> set (join_with ''|'' (map itoa ls))"
  using set_join_with [of "''|''" "map itoa ls"] itoa_free [of c] by (auto simp: newline_def)

lemma device_name_digits:
  assumes "0 \<le> i"
  obtains d where "device_name tag i = d @ itoa i" "d = ''CUDA'' \<or> d = ''Vulkan''"
    "list_all is_digit (itoa i)"
proof (rule that [of "if equal_fold tag ''vulkan'' then ''Vulkan'' else ''CUDA''"])
  show "list_all is_digit (itoa i)"
    using digits_of_nat_digits [of "nat i"] assms by (simp add: itoa_def)
qed (simp_all add: device_name_def)

lemma rule_at_rule:
  assumes "plain_pattern pat" "0 \<le> i"
  shows "rule_at (ot_rule ls pat (device_name tag i)) = Some (join_with ''|'' (map itoa ls), itoa i)"
proof -
  let ?j = "join_with ''|'' (map itoa ls)"
  obtain d where d: "device_name tag i = d @ itoa i" "d = ''CUDA'' \<or> d = ''Vulkan''"
    "list_all is_digit (itoa i)"
    by (rule device_name_digits [OF assms(2)])
  let ?rest = "CHR 0x5C # CHR ''.'' # pat @ ''.*='' @ d @ itoa i"
  have r: "ot_rule ls pat (device_name tag i) = rule_open @ ?j @ CHR '')'' # ?rest"
    by (simp add: ot_rule_def rule_close_def d(1))
  have nj: "\<And>c. c \<in> set ?j \<Longrightarrow> c \<noteq> CHR '')''" using join_free [of "CHR '')''"] by auto
  have tw: "takeWhile (\<lambda>c. c \<noteq> CHR '')'') (?j @ CHR '')'' # ?rest) = ?j"
    using nj by (subst takeWhile_append2) auto
  have dw: "dropWhile (\<lambda>c. c \<noteq> CHR '')'') (?j @ CHR '')'' # ?rest) = CHR '')'' # ?rest"
    using nj by (subst dropWhile_append2) auto
  have "last_device ((CHR 0x5C # CHR ''.'' # pat @ ''.*'') @ ''='' @ d @ itoa i) = Some (itoa i)"
    using assms(1) last_device_device [OF d(3) itoa_nonempty d(2)]
    by (intro last_device_skip [of "CHR 0x5C # CHR ''.'' # pat @ ''.*''"])
       (simp_all only: plain_pattern_def, simp_all add: newline_def)
  then have ld: "last_device ?rest = Some (itoa i)" by simp
  have len: "length rule_open = 6" by (simp add: rule_open_def)
  show ?thesis
    unfolding r rule_at_def Let_def
    by (simp only: has_prefix_append if_True append_eq_conv_conj len [symmetric] drop_append
        diff_self_eq_0 drop0 drop_all order.refl append.left_neutral tw dw)
       (use ld in simp)
qed

lemma parse_rule:
  assumes "plain_pattern pat" "0 \<le> i" "i \<le> max_int" "ls \<noteq> []" "min_int \<le> hd ls" "hd ls \<le> max_int"
  shows "parse_assignment (ot_rule ls pat (device_name tag i)) =
    Some \<lparr>ga_cuda_index = i, ga_start = hd ls, ga_count = int (length ls)\<rparr>"
proof -
  have "ot_rule ls pat (device_name tag i) = CHR ''b'' # tl (ot_rule ls pat (device_name tag i))"
    by (simp add: ot_rule_def rule_open_def)
  then have f: "find_rule (ot_rule ls pat (device_name tag i)) = Some (join_with ''|'' (map itoa ls), itoa i)"
    using rule_at_rule [OF assms(1,2), of ls tag] by (metis find_rule.simps(2) option.simps(5))
  have s: "split_char CHR ''|'' (join_with ''|'' (map itoa ls)) = map itoa ls"
    using assms(4) itoa_free [of "CHR ''|''"] by (intro split_char_join) auto
  have "min_int \<le> i" using assms(2) by (simp add: min_int_def)
  then show ?thesis
    using assms by (simp add: parse_assignment_def f s Let_def hd_map strlib)
qed

lemma rule_no_comma:
  assumes "plain_pattern pat"
  shows "CHR '','' \<notin> set (ot_rule ls pat (device_name tag i))"
  using assms join_free [of "CHR '',''" ls] itoa_free [of "CHR '',''" i]
  by (auto simp: ot_rule_def rule_open_def rule_close_def plain_pattern_def device_name_def)

lemma parse_catch_all: "parse_assignment catch_all = None"
  by code_simp

lemma parse_rules:
  assumes "\<forall>p \<in> set rules. CHR '','' \<notin> set p"
  shows "parse_ot_assignments (join_with '','' (rules @ [catch_all])) = List.map_filter parse_assignment rules"
proof -
  have "split_char CHR '','' (join_with '','' (rules @ [catch_all])) = rules @ [catch_all]"
    using assms by (intro split_char_join) (auto simp: catch_all_def)
  then show ?thesis by (simp add: parse_ot_assignments_def map_filter_def parse_catch_all)
qed

text \<open>The assignments that the whole-layer rules state.\<close>

fun planned_assignments :: "int list \<Rightarrow> gpu list \<Rightarrow> nat list \<Rightarrow> int \<Rightarrow> gpu_assignment list" where
  "planned_assignments per_gpu gpus [] next = []"
| "planned_assignments per_gpu gpus (gi # order) next =
     (let count = per_gpu ! gi in
      if count > 0 then
        \<lparr>ga_cuda_index = g_index (gpus ! gi), ga_start = next, ga_count = count\<rparr>
          # planned_assignments per_gpu gpus order (next + count)
      else planned_assignments per_gpu gpus order next)"

lemma map_filter_append: "List.map_filter f (xs @ ys) = List.map_filter f xs @ List.map_filter f ys"
  by (simp add: map_filter_def)

lemma map_filter_Cons_Some: "f x = Some y \<Longrightarrow> List.map_filter f (x # xs) = y # List.map_filter f xs"
  by (simp add: map_filter_def)

lemma parse_layer_rules:
  assumes "\<forall>gi \<in> set order. 0 \<le> g_index (gpus ! gi) \<and> g_index (gpus ! gi) \<le> max_int"
    "min_int \<le> next" "next + (\<Sum>gi\<leftarrow>order. max 0 (per_gpu ! gi)) \<le> max_int"
  shows "List.map_filter parse_assignment (layer_rules per_gpu gpus order next tag) =
    planned_assignments per_gpu gpus order next"
  using assms
proof (induction order arbitrary: "next")
  case (Cons gi order)
  have nn: "0 \<le> (\<Sum>gi\<leftarrow>order. max 0 (per_gpu ! gi))" by (intro sum_list_nonneg) auto
  show ?case
  proof (cases "per_gpu ! gi > 0")
    case True
    let ?ls = "[next..next + per_gpu ! gi - 1]"
    have ls: "?ls \<noteq> []" "hd ?ls = next" "int (length ?ls) = per_gpu ! gi"
      using True by (simp_all add: upto_rec1)
    have "parse_assignment (ot_rule ?ls expert_tensor_pattern (device_name tag (g_index (gpus ! gi)))) =
        Some \<lparr>ga_cuda_index = g_index (gpus ! gi), ga_start = next, ga_count = per_gpu ! gi\<rparr>"
      using Cons.prems nn True ls by (subst parse_rule) (auto simp: patterns_plain)
    with Cons True show ?thesis by (simp add: Let_def map_filter_Cons_Some)
  next
    case False
    with Cons show ?thesis by (simp add: Let_def)
  qed
qed (simp add: map_filter_def)

lemma layer_rules_no_comma: "\<forall>p \<in> set (layer_rules per_gpu gpus order next tag). CHR '','' \<notin> set p"
  by (induction order arbitrary: "next") (auto simp: Let_def rule_no_comma patterns_plain)

lemma planned_layers:
  "concat (map assignment_layers (planned_assignments per_gpu gpus order next)) =
     [next..next + (\<Sum>gi\<leftarrow>order. max 0 (per_gpu ! gi)) - 1]"
proof (induction order arbitrary: "next")
  case (Cons gi order)
  have nn: "0 \<le> (\<Sum>gi\<leftarrow>order. max 0 (per_gpu ! gi))" by (intro sum_list_nonneg) auto
  show ?case
  proof (cases "per_gpu ! gi > 0")
    case True
    let ?c = "per_gpu ! gi" and ?r = "\<Sum>gi\<leftarrow>order. max 0 (per_gpu ! gi)"
    have "[next..next + ?c - 1] @ [next + ?c..next + ?c + ?r - 1] = [next..next + ?c + ?r - 1]"
      using True nn upto_split1 [of "next" "next + ?c" "next + ?c + ?r - 1"]
      by (cases "?r = 0") auto
    with True Cons show ?thesis by (simp add: Let_def assignment_layers_def add.assoc)
  next
    case False
    with Cons show ?thesis by (simp add: Let_def)
  qed
qed simp

section \<open>Reading and writing a launch argv\<close>

text \<open>\<^verbatim>\<open>currentUBatch\<close>: the last parseable value of either spelling.\<close>

fun current_ubatch_from :: "int \<Rightarrow> argv \<Rightarrow> int" where
  "current_ubatch_from v [] = v"
| "current_ubatch_from v [x] = v"
| "current_ubatch_from v (x # y # rest) =
     (if x \<noteq> ''-ub'' \<and> x \<noteq> ''--ubatch-size'' then current_ubatch_from v (y # rest)
      else current_ubatch_from (case atoi y of Some n \<Rightarrow> n | None \<Rightarrow> v) rest)"

definition current_ubatch :: "argv \<Rightarrow> int" where
  "current_ubatch args = current_ubatch_from 0 args"

fun arg_index_from :: "nat \<Rightarrow> argv \<Rightarrow> string list \<Rightarrow> nat option" where
  "arg_index_from i [] names = None"
| "arg_index_from i (a # args) names =
     (if a \<in> set names then Some i else arg_index_from (Suc i) args names)"

definition arg_index :: "argv \<Rightarrow> string list \<Rightarrow> nat option" where
  "arg_index args names = arg_index_from 0 args names"

definition set_or_append_arg :: "argv \<Rightarrow> string \<Rightarrow> string \<Rightarrow> argv" where
  "set_or_append_arg args name val =
     (case arg_index args [name] of
        Some i \<Rightarrow> if Suc i < length args then args[Suc i := val] else args @ [name, val]
      | None \<Rightarrow> args @ [name, val])"

text \<open>The value after the first occurrence of one of the names.\<close>

definition arg_value :: "argv \<Rightarrow> string list \<Rightarrow> string option" where
  "arg_value args names =
     (case arg_index args names of
        Some i \<Rightarrow> if Suc i < length args then Some (args ! Suc i) else None
      | None \<Rightarrow> None)"

definition current_ncpu_moe :: "argv \<Rightarrow> int" where
  "current_ncpu_moe args =
     (case arg_value args [''--n-cpu-moe''] of Some v \<Rightarrow> atoi_value v | None \<Rightarrow> 0)"

section \<open>Tensor splits\<close>

text \<open>\<^verbatim>\<open>strconv.ParseFloat\<close> on plain decimals.\<close>

definition parse_unsigned_decimal :: "string \<Rightarrow> rat option" where
  "parse_unsigned_decimal s =
     (let (a, b) = (case cut_char CHR ''.'' s of None \<Rightarrow> (s, []) | Some p \<Rightarrow> p) in
      if list_all is_digit a \<and> list_all is_digit b \<and> a @ b \<noteq> []
      then Some (of_nat (nat_of_digits a) + of_nat (nat_of_digits b) / 10 ^ length b)
      else None)"

definition parse_decimal :: "string \<Rightarrow> rat option" where
  "parse_decimal s =
     (case s of
        [] \<Rightarrow> None
      | c # r \<Rightarrow>
          if c = CHR ''-'' then map_option uminus (parse_unsigned_decimal r)
          else if c = CHR ''+'' then parse_unsigned_decimal r
          else parse_unsigned_decimal s)"

definition split_separator :: "char \<Rightarrow> bool" where
  "split_separator c \<longleftrightarrow> c = CHR '','' \<or> c = CHR '' '' \<or> c = CHR '':''"

fun fields_func :: "(char \<Rightarrow> bool) \<Rightarrow> string \<Rightarrow> string \<Rightarrow> string list" where
  "fields_func sep w [] = (if w = [] then [] else [rev w])"
| "fields_func sep w (c # s) =
     (if sep c then (if w = [] then fields_func sep [] s else rev w # fields_func sep [] s)
      else fields_func sep (c # w) s)"

definition parse_tensor_split :: "string \<Rightarrow> rat list" where
  "parse_tensor_split s =
     List.map_filter (\<lambda>f. case parse_decimal f of
         None \<Rightarrow> None | Some v \<Rightarrow> if v < 0 then None else Some v)
       (fields_func split_separator [] s)"

definition cache_entry_from_args :: "argv \<Rightarrow> gpu_assignment list \<Rightarrow> cache_entry" where
  "cache_entry_from_args args as =
     (let str = (\<lambda>names. case arg_value args names of Some v \<Rightarrow> v | None \<Rightarrow> []);
          num = (\<lambda>names. case arg_value args names of Some v \<Rightarrow> atoi_value v | None \<Rightarrow> 0)
      in empty_entry\<lparr>
        ce_gpu_assignments := positive_assignments as,
        ce_ot_string := str [''-ot'', ''--override-tensor''],
        ce_tensor_split := (case arg_value args [''--tensor-split''] of
            Some v \<Rightarrow> parse_tensor_split v | None \<Rightarrow> []),
        ce_split_mode := str [''--split-mode''],
        ce_n_cpu_moe := num [''--n-cpu-moe''],
        ce_batch_size := num [''-b'', ''--batch-size''],
        ce_ubatch_size := num [''-ub'', ''--ubatch-size''],
        ce_parallel := num [''--parallel'', ''-np''],
        ce_mmap := (arg_index args [''--no-mmap''] = None),
        ce_kv_unified := (arg_index args [''--no-kv-offload''] = None)\<rparr>)"

section \<open>Recovery from a failed allocation\<close>

definition ubatch_fit_ladder :: "int list" where
  "ubatch_fit_ladder = [256, 128, 64]"

definition recovery_margin_mb :: "int \<Rightarrow> int" where
  "recovery_margin_mb deficit =
     (let margin = ceil_div_int (max deficit 1) 10 in if margin < 64 then 64 else margin)"

definition next_ubatch_for_deficit :: "int \<Rightarrow> int \<Rightarrow> int \<Rightarrow> int option" where
  "next_ubatch_for_deficit current alloc deficit =
     (let lower = filter (\<lambda>rung. rung < current) ubatch_fit_ladder in
      if lower = [] then None
      else if alloc \<le> 0 \<or> deficit \<le> 0 then Some (hd lower)
      else
        let required = deficit + recovery_margin_mb deficit in
        (case find (\<lambda>rung. go_div (alloc * (current - rung)) current \<ge> required) lower of
           Some rung \<Rightarrow> Some rung
         | None \<Rightarrow> Some (last lower)))"

text \<open>The loop that takes layers from the failed device; the second result is \<^verbatim>\<open>actualDrop\<close>.\<close>

fun drop_layers_from :: "int \<Rightarrow> int \<Rightarrow> gpu_assignment list \<Rightarrow> gpu_assignment list \<times> int" where
  "drop_layers_from device remaining [] = ([], 0)"
| "drop_layers_from device remaining (a # as) =
     (if ga_cuda_index a \<noteq> device \<or> ga_count a \<le> 0 then
        (let (as', n) = drop_layers_from device remaining as in (a # as', n))
      else
        let drop = (if remaining > ga_count a then ga_count a else remaining);
            a' = a\<lparr>ga_count := ga_count a - drop\<rparr>
        in if remaining - drop = 0 then (a' # as, drop)
           else (let (as', n) = drop_layers_from device (remaining - drop) as in (a' # as', drop + n)))"

definition expert_per_layer_mb :: "model_profile \<Rightarrow> int" where
  "expert_per_layer_mb m =
     ceil_div_int (bytes_to_mib_ceil (m_expert_bytes m)) (snd (moe_layer_range (Some m)))"

definition layers_to_drop :: "model_profile \<Rightarrow> int \<Rightarrow> int" where
  "layers_to_drop m deficit =
     (let n = ceil_div_int (deficit + recovery_margin_mb deficit) (expert_per_layer_mb m) in
      if n \<le> 0 then 1 else n)"

definition derate_weights :: "argv \<Rightarrow> model_profile \<Rightarrow> int \<Rightarrow> int \<Rightarrow> (argv \<times> cache_entry) option" where
  "derate_weights args m device deficit =
     (if expert_per_layer_mb m \<le> 0 then None
      else case arg_index args [''-ot'', ''--override-tensor''] of
        None \<Rightarrow> None
      | Some i \<Rightarrow>
          if Suc i \<ge> length args then None
          else
            let as = parse_ot_assignments (args ! Suc i) in
            if as = [] then None
            else
              let (as', actual) = drop_layers_from device (layers_to_drop m deficit) as in
              if actual = 0 then None
              else
                let new_args = set_or_append_arg (args[Suc i := build_ot_string_from_assignments as' []])
                                 ''--n-cpu-moe'' (itoa (current_ncpu_moe args + actual))
                in Some (new_args, cache_entry_from_args new_args as'))"

definition derate_cuda_oom_args_for_deficit ::
  "argv \<Rightarrow> model_profile option \<Rightarrow> int \<Rightarrow> int \<Rightarrow> int \<Rightarrow> bool \<Rightarrow> (argv \<times> cache_entry) option" where
  "derate_cuda_oom_args_for_deficit args mo device alloc deficit0 is_compute =
     (case mo of
        None \<Rightarrow> None
      | Some m \<Rightarrow>
          if m_num_layers m \<le> 0 \<or> alloc \<le> 0 then None
          else
            let deficit = (if deficit0 \<le> 0 then 1 else deficit0) in
            case (if is_compute then next_ubatch_for_deficit (current_ubatch args) alloc deficit else None) of
              Some ub \<Rightarrow>
                let new_args = set_or_append_arg args ''-ub'' (itoa ub) in
                Some (new_args, empty_entry\<lparr>ce_ubatch_size := ub,
                                           ce_mmap := (arg_index new_args [''--no-mmap''] = None)\<rparr>)
            | None \<Rightarrow> derate_weights args m device deficit)"

definition derate_cuda_oom_args ::
  "argv \<Rightarrow> model_profile option \<Rightarrow> capabilities option \<Rightarrow> int \<Rightarrow> int \<Rightarrow> bool
     \<Rightarrow> (argv \<times> cache_entry) option" where
  "derate_cuda_oom_args args mo caps device alloc is_compute =
     (let deficit =
        (case caps of
           None \<Rightarrow> 1
         | Some c \<Rightarrow>
             (case find (\<lambda>g. g_index g = device \<and> alloc > vram_free_mb g) (c_gpus c) of
                Some g \<Rightarrow> alloc - vram_free_mb g
              | None \<Rightarrow> 1))
      in derate_cuda_oom_args_for_deficit args mo device alloc deficit is_compute)"

text \<open>\<^verbatim>\<open>CurrentGPUExpertLayers\<close> reads the last override that has a value.\<close>

fun last_override :: "argv \<Rightarrow> string option \<Rightarrow> string option" where
  "last_override [] v = v"
| "last_override [x] v = v"
| "last_override (x # y # rest) v =
     (if x = ''-ot'' \<or> x = ''--override-tensor'' then last_override rest (Some y)
      else last_override (y # rest) v)"

definition device_layers :: "int \<Rightarrow> gpu_assignment list \<Rightarrow> int" where
  "device_layers device as =
     foldl (\<lambda>total a. if ga_cuda_index a = device \<and> ga_count a > 0 then total + ga_count a else total) 0 as"

definition current_gpu_expert_layers :: "argv \<Rightarrow> int \<Rightarrow> int" where
  "current_gpu_expert_layers args device =
     (case last_override args None of
        None \<Rightarrow> 0
      | Some ot \<Rightarrow> device_layers device (parse_ot_assignments ot))"

section \<open>Lemmas on recovery\<close>

definition layer_weight :: "int \<Rightarrow> gpu_assignment \<Rightarrow> int" where
  "layer_weight d a = (if ga_cuda_index a = d \<and> ga_count a > 0 then ga_count a else 0)"

lemma device_layers_foldl:
  "foldl (\<lambda>total a. if ga_cuda_index a = d \<and> ga_count a > 0 then total + ga_count a else total) t as =
     t + (\<Sum>a\<leftarrow>as. layer_weight d a)"
  by (induction as arbitrary: t) (auto simp: layer_weight_def)

lemma device_layers_sum: "device_layers d as = (\<Sum>a\<leftarrow>as. layer_weight d a)"
  by (simp add: device_layers_def device_layers_foldl)

lemma device_layers_nonneg: "0 \<le> device_layers d as"
  unfolding device_layers_sum by (intro sum_list_nonneg) (auto simp: layer_weight_def)

lemma device_layers_positive: "device_layers d (positive_assignments as) = device_layers d as"
  unfolding device_layers_sum by (induction as) (auto simp: positive_assignments_def layer_weight_def)

lemma drop_layers_ok:
  assumes "drop_layers_from device n as = (as', k)" "0 < n"
  shows "k = min n (device_layers device as) \<and> device_layers device as' = device_layers device as - k \<and>
    (\<forall>d. d \<noteq> device \<longrightarrow> device_layers d as' = device_layers d as) \<and>
    map (\<lambda>a. (ga_cuda_index a, ga_start a)) as' = map (\<lambda>a. (ga_cuda_index a, ga_start a)) as"
  using assms
proof (induction device n as arbitrary: as' k rule: drop_layers_from.induct)
  case (1 device n)
  then show ?case by (simp add: device_layers_def)
next
  case (2 device n a as)
  have cons: "device_layers d (x # xs) = layer_weight d x + device_layers d xs" for d x xs
    by (simp add: device_layers_sum)
  show ?case
  proof (cases "ga_cuda_index a \<noteq> device \<or> ga_count a \<le> 0")
    case True
    then obtain bs where "drop_layers_from device n as = (bs, k)" "as' = a # bs"
      using "2.prems"(1) by (auto split: prod.splits)
    moreover have "layer_weight device a = 0" using True by (auto simp: layer_weight_def)
    ultimately show ?thesis using "2.IH"(1) [OF True, of bs k] "2.prems"(2) by (simp add: cons)
  next
    case False
    define drop where "drop = (if n > ga_count a then ga_count a else n)"
    define a' where "a' = a\<lparr>ga_count := ga_count a - drop\<rparr>"
    have w: "layer_weight device a = ga_count a" "layer_weight device a' = ga_count a - drop"
      "0 < ga_count a" "0 < drop" "drop \<le> ga_count a" "drop \<le> n"
      using False "2.prems"(2) by (auto simp: layer_weight_def a'_def drop_def)
    have o: "layer_weight d a' = layer_weight d a" if "d \<noteq> device" for d
      using that False by (auto simp: layer_weight_def a'_def)
    have same: "ga_cuda_index a' = ga_cuda_index a" "ga_start a' = ga_start a" by (simp_all add: a'_def)
    have eq: "drop_layers_from device n (a # as) =
        (if n - drop = 0 then (a' # as, drop)
         else (let (as', k) = drop_layers_from device (n - drop) as in (a' # as', drop + k)))"
      unfolding drop_layers_from.simps(2) Let_def drop_def [symmetric] a'_def [symmetric]
      by (simp only: False if_False)
    show ?thesis
    proof (cases "n - drop = 0")
      case True
      with eq "2.prems"(1) have e: "as' = a' # as" "k = drop"
        by (metis Pair_inject)+
      show ?thesis unfolding e
      proof (intro conjI allI impI)
        show "drop = min n (device_layers device (a # as))"
          using True w device_layers_nonneg [of device as] by (simp add: cons)
        show "device_layers device (a' # as) = device_layers device (a # as) - drop"
          using w by (simp add: cons)
        show "device_layers d (a' # as) = device_layers d (a # as)" if "d \<noteq> device" for d
          using o [OF that] by (simp add: cons)
      qed (simp add: same)
    next
      case nz: False
      then obtain bs j where r: "drop_layers_from device (n - drop) as = (bs, j)" "as' = a' # bs" "k = drop + j"
        using "2.prems"(1) by (cases "drop_layers_from device (n - drop) as") (simp add: eq del: drop_layers_from.simps)
      have d: "drop = ga_count a" "0 < n - drop" using nz w by (auto simp: drop_def)
      have IH: "j = min (n - drop) (device_layers device as) \<and> device_layers device bs = device_layers device as - j \<and>
         (\<forall>d. d \<noteq> device \<longrightarrow> device_layers d bs = device_layers d as) \<and>
         map (\<lambda>a. (ga_cuda_index a, ga_start a)) bs = map (\<lambda>a. (ga_cuda_index a, ga_start a)) as"
        using "2.IH"(2) [OF False drop_def a'_def nz r(1) d(2)] .
      show ?thesis unfolding r(2,3)
      proof (intro conjI allI impI)
        show "drop + j = min n (device_layers device (a # as))"
          using IH d w by (simp add: cons)
        show "device_layers device (a' # bs) = device_layers device (a # as) - (drop + j)"
          using IH w by (simp add: cons)
        show "device_layers e (a' # bs) = device_layers e (a # as)" if "e \<noteq> device" for e
          using IH o [OF that] that by (simp add: cons)
      qed (use IH same in simp)
    qed
  qed
qed

lemma nat_of_digits_nonneg_atoi: "all_digits s \<Longrightarrow> atoi s = Some v \<Longrightarrow> 0 \<le> v \<and> v \<le> max_int"
  by (auto simp: atoi_def atoi_parse_digits split: if_splits)

lemma device_at_all_digits: "device_at s = Some d \<Longrightarrow> all_digits d"
  by (auto simp: device_at_def Let_def all_digits_def list_all_iff split: if_splits dest: set_takeWhileD)

lemma last_device_all_digits: "last_device s = Some d \<Longrightarrow> all_digits d"
proof (induction s arbitrary: d)
  case (Cons c s)
  then show ?case
    by (auto simp: last_device.simps dest: device_at_all_digits split: option.splits if_splits)
qed (simp add: last_device.simps)

lemma find_rule_all_digits: "find_rule s = Some (i, d) \<Longrightarrow> all_digits d"
proof (induction s)
  case (Cons c s)
  then show ?case
    by (auto simp: rule_at_def Let_def dest: last_device_all_digits split: option.splits if_splits)
qed (simp add: rule_at_def has_prefix_iff rule_open_def)

definition assignment_ok :: "gpu_assignment \<Rightarrow> bool" where
  "assignment_ok a \<longleftrightarrow> 0 \<le> ga_cuda_index a \<and> ga_cuda_index a \<le> max_int \<and>
     min_int \<le> ga_start a \<and> ga_start a \<le> max_int"

lemma parse_assignment_ok: "parse_assignment s = Some a \<Longrightarrow> assignment_ok a \<and> 0 < ga_count a"
proof -
  assume "parse_assignment s = Some a"
  then obtain i d v st where p: "find_rule s = Some (i, d)" "atoi d = Some v"
    "atoi (hd (split_char CHR ''|'' i)) = Some st"
    "a = \<lparr>ga_cuda_index = v, ga_start = st, ga_count = int (length (split_char CHR ''|'' i))\<rparr>"
    by (auto simp: parse_assignment_def Let_def split: option.splits)
  have "min_int \<le> st \<and> st \<le> max_int" using p(3) by (auto simp: atoi_def split: option.splits if_splits)
  then show ?thesis
    using nat_of_digits_nonneg_atoi [OF find_rule_all_digits [OF p(1)] p(2)]
    by (simp add: p(4) assignment_ok_def)
qed

lemma parse_ot_ok: "a \<in> set (parse_ot_assignments ot) \<Longrightarrow> assignment_ok a \<and> 0 < ga_count a"
  by (auto simp: parse_ot_assignments_def map_filter_def parse_assignment_ok)

lemma parse_build_assignments:
  assumes "\<forall>a \<in> set as. assignment_ok a"
  shows "parse_ot_assignments (build_ot_string_from_assignments as tag) = positive_assignments as"
proof -
  let ?rule = "\<lambda>a. ot_rule (assignment_layers a) expert_tensor_pattern (device_name tag (ga_cuda_index a))"
  have "parse_assignment (?rule a) = Some a" if "a \<in> set (positive_assignments as)" for a
  proof -
    have a: "assignment_ok a" "ga_count a > 0" using that assms by (auto simp: positive_assignments_def)
    then have "assignment_layers a \<noteq> []" "hd (assignment_layers a) = ga_start a"
      "int (length (assignment_layers a)) = ga_count a"
      by (simp_all add: assignment_layers_def upto_rec1)
    with a show ?thesis
      using parse_rule [OF patterns_plain(1), of "ga_cuda_index a" "assignment_layers a" tag]
      by (simp add: assignment_ok_def)
  qed
  then have "List.map_filter parse_assignment (map ?rule (positive_assignments as)) = positive_assignments as"
    by (simp add: map_filter_def o_def map_idI)
  moreover have "\<forall>p \<in> set (map ?rule (positive_assignments as)). CHR '','' \<notin> set p"
    by (auto simp: rule_no_comma patterns_plain)
  ultimately show ?thesis
    by (simp add: build_ot_string_from_assignments_def parse_rules)
qed

lemma arg_index_nth:
  "arg_index_from j args names = Some i \<Longrightarrow> j \<le> i \<and> i < j + length args \<and> args ! (i - j) \<in> set names"
  by (induction j args names rule: arg_index_from.induct) (auto split: if_splits simp: nth_Cons')

lemma arg_index_some: "arg_index args names = Some i \<Longrightarrow> i < length args \<and> args ! i \<in> set names"
  using arg_index_nth [of 0] by (auto simp: arg_index_def)

lemma set_or_append_keeps:
  assumes "i < length args" "j < length args" "args ! j \<noteq> name" "i = Suc j"
  shows "set_or_append_arg args name v ! i = args ! i"
proof (cases "arg_index args [name]")
  case (Some k)
  then have "args ! k = name" using arg_index_some by fastforce
  then have "Suc k \<noteq> i" using assms by auto
  with Some assms show ?thesis by (simp add: set_or_append_arg_def nth_append)
qed (use assms in \<open>simp add: set_or_append_arg_def nth_append\<close>)

lemma recovery_margin_pos: "64 \<le> recovery_margin_mb deficit"
  by (simp add: recovery_margin_mb_def Let_def)

lemma layers_to_drop_covers:
  assumes "0 < expert_per_layer_mb m" "0 < deficit"
  shows "deficit + recovery_margin_mb deficit \<le> layers_to_drop m deficit * expert_per_layer_mb m"
    and "0 < layers_to_drop m deficit"
proof -
  have "0 < deficit + recovery_margin_mb deficit" using assms recovery_margin_pos [of deficit] by simp
  then have "0 < ceil_div_int (deficit + recovery_margin_mb deficit) (expert_per_layer_mb m)"
    using assms(1) ceil_div_int_pos by blast
  then show "deficit + recovery_margin_mb deficit \<le> layers_to_drop m deficit * expert_per_layer_mb m"
    "0 < layers_to_drop m deficit"
    using ceil_div_int_covers [OF assms(1)] by (simp_all add: layers_to_drop_def Let_def)
qed

section \<open>Properties\<close>

text \<open>
  C15: The override string states the placement exactly once: parsing what
  \<^verbatim>\<open>buildOTStringFromStart\<close> built gives one assignment per device with a positive
  count, in fill order, and together the assignments list every layer from the start on, without a
  gap or an overlap.
\<close>

theorem ot_string_places_each_layer_once:
  fixes tag :: string
  assumes "\<forall>gi \<in> set order. 0 \<le> g_index (gpus ! gi) \<and> g_index (gpus ! gi) \<le> max_int"
    "0 \<le> start" "start + (\<Sum>gi\<leftarrow>order. max 0 (per_gpu ! gi)) \<le> max_int"
  defines "as \<equiv> parse_ot_assignments (build_ot_string_from_start per_gpu gpus order start tag)"
  shows "concat (map assignment_layers as) = [start..start + (\<Sum>gi\<leftarrow>order. max 0 (per_gpu ! gi)) - 1] \<and>
    map (\<lambda>a. (ga_cuda_index a, ga_count a)) as =
      map (\<lambda>gi. (g_index (gpus ! gi), per_gpu ! gi)) (filter (\<lambda>gi. per_gpu ! gi > 0) order)"
proof -
  have "as = planned_assignments per_gpu gpus order start"
    using assms(2) parse_layer_rules [OF assms(1) _ assms(3), of tag]
    by (simp add: as_def build_ot_string_from_start_def parse_rules layer_rules_no_comma min_int_def)
  moreover have "map (\<lambda>a. (ga_cuda_index a, ga_count a)) (planned_assignments per_gpu gpus order n) =
      map (\<lambda>gi. (g_index (gpus ! gi), per_gpu ! gi)) (filter (\<lambda>gi. per_gpu ! gi > 0) order)" for n
    by (induction order arbitrary: n) (simp_all add: Let_def)
  ultimately show ?thesis by (simp add: planned_layers)
qed

theorem ot_string_places_each_layer_once_witness:
  "concat (map assignment_layers (parse_ot_assignments
     (build_ot_string_from_start [2, 0, 3] [demo_gpu 0 1 1, demo_gpu 1 1 1, demo_gpu 2 1 1] [2, 1, 0] 3 ''cuda'')))
   = [3, 4, 5, 6, 7]"
proof -
  have "\<forall>gi \<in> set [2, 1, 0]. 0 \<le> g_index ([demo_gpu 0 1 1, demo_gpu 1 1 1, demo_gpu 2 1 1] ! gi) \<and>
      g_index ([demo_gpu 0 1 1, demo_gpu 1 1 1, demo_gpu 2 1 1] ! gi) \<le> max_int"
    by (simp add: demo_gpu_def max_int_def numeral_eq_Suc)
  from ot_string_places_each_layer_once [OF this, of 3 "[2, 0, 3]" "''cuda''"]
  show ?thesis by (simp add: max_int_def upto_rec1 numeral_eq_Suc)
qed

text \<open>
  C16: Recovery from a failed weight allocation relieves the failed device: the rewritten override
  places on it exactly the layers dropped fewer, and no layer fewer or more on any other device;
  the drop covers the measured deficit and its margin unless the device ran out of layers, and
  \<^verbatim>\<open>--n-cpu-moe\<close> grows by the same number.
\<close>

theorem derate_relieves_failed_device:
  assumes "derate_weights args m device deficit = Some (args', entry)" "0 < deficit"
  shows "\<exists>i k. arg_index args [''-ot'', ''--override-tensor''] = Some i \<and>
    (let before = parse_ot_assignments (args ! Suc i); after = parse_ot_assignments (args' ! Suc i) in
      0 < k \<and> k = min (layers_to_drop m deficit) (device_layers device before) \<and>
      device_layers device after = device_layers device before - k \<and>
      (\<forall>d. d = device \<or> device_layers d after = device_layers d before) \<and>
      (k = device_layers device before \<or>
         deficit + recovery_margin_mb deficit \<le> k * expert_per_layer_mb m) \<and>
      args' = set_or_append_arg (args[Suc i := build_ot_string_from_assignments after []])
                ''--n-cpu-moe'' (itoa (current_ncpu_moe args + k)))"
proof -
  define r where "r i = drop_layers_from device (layers_to_drop m deficit) (parse_ot_assignments (args ! Suc i))" for i
  from assms(1) obtain i where i: "arg_index args [''-ot'', ''--override-tensor''] = Some i"
    "Suc i < length args" "0 < expert_per_layer_mb m" "snd (r i) \<noteq> 0"
    "args' = set_or_append_arg (args[Suc i := build_ot_string_from_assignments (fst (r i)) []])
                ''--n-cpu-moe'' (itoa (current_ncpu_moe args + snd (r i)))"
    by (auto simp: derate_weights_def Let_def r_def split: if_splits option.splits prod.splits)
  obtain as' k where rk: "r i = (as', k)" by (cases "r i")
  let ?before = "parse_ot_assignments (args ! Suc i)"
  note cov = layers_to_drop_covers [OF i(3) assms(2)]
  note d = drop_layers_ok [OF rk [unfolded r_def] cov(2)]
  have ok: "\<forall>a \<in> set as'. assignment_ok a"
  proof -
    have "\<forall>p \<in> set (map (\<lambda>a. (ga_cuda_index a, ga_start a)) as').
        0 \<le> fst p \<and> fst p \<le> max_int \<and> min_int \<le> snd p \<and> snd p \<le> max_int"
      unfolding d [THEN conjunct2, THEN conjunct2, THEN conjunct2]
      using parse_ot_ok by (auto simp: assignment_ok_def)
    then show ?thesis by (simp add: assignment_ok_def)
  qed
  have nth: "args' ! Suc i = build_ot_string_from_assignments as' []"
  proof -
    have "args ! i \<in> {''-ot'', ''--override-tensor''}" using arg_index_some [OF i(1)] by simp
    then have "(args[Suc i := build_ot_string_from_assignments as' []]) ! i \<noteq> ''--n-cpu-moe''" by auto
    then show ?thesis
      using i(2) set_or_append_keeps [of "Suc i" "args[Suc i := build_ot_string_from_assignments as' []]" i]
      by (simp add: i(5) rk)
  qed
  have after: "parse_ot_assignments (args' ! Suc i) = positive_assignments as'"
    by (simp add: nth parse_build_assignments [OF ok])
  have build: "build_ot_string_from_assignments (positive_assignments as') [] = build_ot_string_from_assignments as' []"
    by (simp add: build_ot_string_from_assignments_def positive_assignments_def)
  have "0 < k"
    using d i(4) cov(2) device_layers_nonneg [of device ?before] by (auto simp: rk)
  moreover have "k = device_layers device ?before \<or> deficit + recovery_margin_mb deficit \<le> k * expert_per_layer_mb m"
    using d cov(1) by (auto simp: min_def)
  moreover note i(1) i(5) [unfolded rk fst_conv snd_conv] d
  ultimately show ?thesis
    by (intro exI [of _ i] exI [of _ k], unfold Let_def after device_layers_positive build) blast
qed

definition demo_moe :: model_profile where
  "demo_moe = empty_profile\<lparr>m_num_layers := 10, m_expert_bytes := 10737418240, m_is_moe := True\<rparr>"

definition demo_ot_args :: argv where
  "demo_ot_args =
     [''-ot'', build_ot_string_from_assignments
        [\<lparr>ga_cuda_index = 0, ga_start = 0, ga_count = 4\<rparr>, \<lparr>ga_cuda_index = 1, ga_start = 4, ga_count = 2\<rparr>] [],
      ''--n-cpu-moe'', ''4'']"

theorem derate_relieves_failed_device_witness:
  "\<exists>args' entry. derate_weights demo_ot_args demo_moe 0 1500 = Some (args', entry) \<and>
     device_layers 0 (parse_ot_assignments (args' ! 1)) = 2"
proof -
  have "derate_weights demo_ot_args demo_moe 0 1500 \<noteq> None" by code_simp
  then obtain args' entry where e: "derate_weights demo_ot_args demo_moe 0 1500 = Some (args', entry)" by auto
  have "arg_index demo_ot_args [''-ot'', ''--override-tensor''] = Some 0"
    "layers_to_drop demo_moe 1500 = 2"
    "device_layers 0 (parse_ot_assignments (demo_ot_args ! 1)) = 4"
    by code_simp+
  with derate_relieves_failed_device [OF e] e show ?thesis by (auto simp: Let_def)
qed

text \<open>
  The micro-batch recovery tries next is a lower rung of the ladder; with a measured
  allocation and deficit it is the largest lower rung whose linear reclaim covers the deficit and
  the margin, and the smallest rung only when none does.
\<close>

theorem next_ubatch_largest_sufficient:
  assumes "next_ubatch_for_deficit current alloc deficit = Some ub" "0 < alloc" "0 < deficit"
  shows "ub \<in> set ubatch_fit_ladder \<and> ub < current \<and>
    (let covers = (\<lambda>r. deficit + recovery_margin_mb deficit \<le> (alloc * (current - r)) div current) in
      (\<forall>r \<in> set ubatch_fit_ladder. ub < r \<longrightarrow> r < current \<longrightarrow> \<not> covers r) \<and>
      (covers ub \<or> (\<forall>r \<in> set ubatch_fit_ladder. ub \<le> r)))"
proof -
  have "64 < current"
    using assms by (auto simp: next_ubatch_for_deficit_def ubatch_fit_ladder_def Let_def split: if_splits)
  then have g: "go_div (alloc * (current - r)) current = (alloc * (current - r)) div current" if "r < current" for r
    using that assms(2) by simp
  consider "64 < current" "current \<le> 128" | "128 < current" "current \<le> 256" | "256 < current"
    using \<open>64 < current\<close> by linarith
  then show ?thesis
    using assms
    by cases (auto simp: next_ubatch_for_deficit_def ubatch_fit_ladder_def Let_def g split: if_splits)
qed

theorem next_ubatch_largest_sufficient_witness:
  "next_ubatch_for_deficit 512 10000 6000 = Some 128 \<and> (128 :: int) \<in> set ubatch_fit_ladder"
proof -
  have e: "next_ubatch_for_deficit 512 10000 6000 = Some 128" by code_simp
  from next_ubatch_largest_sufficient [OF e] e show ?thesis by simp
qed

text \<open>
  A pin of the gate and up projections of some layers is read back by
  \<^verbatim>\<open>parseOTAssignments\<close> as an assignment of the whole layers: one further assignment per
  pinned device follows the planned ones, indistinguishable from them. Recovery from a failed
  allocation rebuilds the override from these assignments, so it rewrites the surviving sub-layer
  pins as whole-layer pins.
\<close>

theorem sub_pins_parse_as_whole_layers:
  assumes "\<forall>gi \<in> set order \<union> sp_gi ` set pins. 0 \<le> g_index (gpus ! gi) \<and> g_index (gpus ! gi) \<le> max_int"
    "0 \<le> start" "start + (\<Sum>gi\<leftarrow>order. max 0 (per_gpu ! gi)) \<le> max_int"
    "\<forall>p \<in> set pins. 0 \<le> sp_layer p \<and> sp_layer p \<le> max_int"
  shows "parse_ot_assignments (build_ot_string_with_sub_pins per_gpu pins gpus order start tag) =
    planned_assignments per_gpu gpus order start @
    map (\<lambda>gi. let ls = map sp_layer (filter (\<lambda>p. sp_gi p = gi) pins) in
           \<lparr>ga_cuda_index = g_index (gpus ! gi), ga_start = hd ls, ga_count = int (length ls)\<rparr>) (pin_order pins)"
proof -
  let ?ls = "\<lambda>gi. map sp_layer (filter (\<lambda>p. sp_gi p = gi) pins)"
  have po: "set (pin_order pins) = sp_gi ` set pins" by (simp add: pin_order_def)
  have a: "parse_assignment (ot_rule (?ls gi) gate_up_pattern (device_name tag (g_index (gpus ! gi)))) =
      Some \<lparr>ga_cuda_index = g_index (gpus ! gi), ga_start = hd (?ls gi), ga_count = int (length (?ls gi))\<rparr>"
    if gi: "gi \<in> set (pin_order pins)" for gi
  proof -
    from gi have ne: "?ls gi \<noteq> []" by (auto simp: po filter_empty_conv)
    then have "hd (?ls gi) \<in> sp_layer ` set pins"
      using hd_in_set [OF ne] by auto
    with gi assms(1,4) ne show ?thesis
      by (intro parse_rule patterns_plain) (auto simp: po min_int_def)
  qed
  have r: "List.map_filter parse_assignment (pin_rules pins gpus tag) =
      map (\<lambda>gi. \<lparr>ga_cuda_index = g_index (gpus ! gi), ga_start = hd (?ls gi),
        ga_count = int (length (?ls gi))\<rparr>) (pin_order pins)"
    using a by (simp add: pin_rules_def map_filter_def o_def)
  have nc: "\<forall>p \<in> set (layer_rules per_gpu gpus order start tag @ pin_rules pins gpus tag). CHR '','' \<notin> set p"
    using layer_rules_no_comma by (auto simp: pin_rules_def rule_no_comma patterns_plain)
  have "List.map_filter parse_assignment (layer_rules per_gpu gpus order start tag) =
      planned_assignments per_gpu gpus order start"
    using assms by (intro parse_layer_rules) (auto simp: min_int_def)
  then show ?thesis
    using parse_rules [OF nc] r
    by (simp add: build_ot_string_with_sub_pins_def map_filter_append Let_def)
qed

theorem sub_pins_parse_as_whole_layers_witness:
  "current_gpu_expert_layers
     [''-ot'', build_ot_string_with_sub_pins [1] [\<lparr>sp_layer = 5, sp_gi = 0\<rparr>] [demo_gpu 0 1 1] [0] 4 []] 0 = 2"
proof -
  have "parse_ot_assignments (build_ot_string_with_sub_pins [1] [\<lparr>sp_layer = 5, sp_gi = 0\<rparr>] [demo_gpu 0 1 1] [0] 4 []) =
    planned_assignments [1] [demo_gpu 0 1 1] [0] 4 @
    map (\<lambda>gi. let ls = map sp_layer (filter (\<lambda>p. sp_gi p = gi) [\<lparr>sp_layer = 5, sp_gi = 0\<rparr>]) in
           \<lparr>ga_cuda_index = g_index ([demo_gpu 0 1 1] ! gi), ga_start = hd ls, ga_count = int (length ls)\<rparr>)
        (pin_order [\<lparr>sp_layer = 5, sp_gi = 0\<rparr>])"
    by (rule sub_pins_parse_as_whole_layers) (simp_all add: demo_gpu_def max_int_def)
  then show ?thesis
    by (simp add: current_gpu_expert_layers_def demo_gpu_def pin_order_def device_layers_def)
qed

definition ubatch_flags :: "string list" where
  "ubatch_flags = [''-ub'', ''--ubatch-size'']"

lemma current_ubatch_last:
  assumes "f \<in> set ubatch_flags" "atoi v = Some n"
  shows "a = [] \<or> last a \<notin> set ubatch_flags \<Longrightarrow> current_ubatch_from w (a @ [f, v]) = n"
proof (induction w a rule: current_ubatch_from.induct)
  case (3 w x y rest)
  then show ?case by (cases rest) (auto simp: ubatch_flags_def split: if_splits)
qed (use assms in \<open>auto simp: ubatch_flags_def\<close>)

lemma itoa_not_flag: "itoa i \<notin> set ubatch_flags"
proof
  assume "itoa i \<in> set ubatch_flags"
  then have "CHR ''b'' \<in> set (itoa i)" by (auto simp: ubatch_flags_def)
  from set_itoa_chars [OF this] show False by (simp add: is_digit_def)
qed

text \<open>
  Recovery from a failed compute buffer lowers only the first \<^verbatim>\<open>-ub\<close>: when a
  later \<^verbatim>\<open>--ubatch-size\<close> states the effective value (the last one, as
  \<^verbatim>\<open>currentUBatch\<close> and the backend read it), the rewritten argv still has the micro-batch
  that failed.
\<close>

theorem derate_ubatch_first_flag_only:
  assumes "derate_cuda_oom_args_for_deficit (a @ [''--ubatch-size'', v]) (Some m) device alloc deficit True =
      Some (args', entry)"
    and "next_ubatch_for_deficit n alloc (if deficit \<le> 0 then 1 else deficit) = Some ub"
    and "atoi v = Some n" "arg_index a [''-ub''] = Some i" "Suc i < length a" "last a \<notin> set ubatch_flags"
  shows "ce_ubatch_size entry = ub \<and> current_ubatch args' = n \<and>
    current_ubatch (a @ [''--ubatch-size'', v]) = n"
proof -
  have cur: "current_ubatch (a @ [''--ubatch-size'', v]) = n"
    using assms by (simp add: current_ubatch_def current_ubatch_last ubatch_flags_def)
  have idx: "arg_index_from j (a @ b) [''-ub''] = Some k" if "arg_index_from j a [''-ub''] = Some k" for j k b
    using that by (induction j a "[''-ub'']" rule: arg_index_from.induct) (auto split: if_splits)
  have e: "args' = set_or_append_arg (a @ [''--ubatch-size'', v]) ''-ub'' (itoa ub)" "ce_ubatch_size entry = ub"
    using assms(1,2) cur
    by (auto simp: derate_cuda_oom_args_for_deficit_def Let_def split: if_splits)
  have "set_or_append_arg (a @ [''--ubatch-size'', v]) ''-ub'' (itoa ub) =
      a[Suc i := itoa ub] @ [''--ubatch-size'', v]"
    using assms(4,5) idx [of 0 i] by (simp add: set_or_append_arg_def arg_index_def list_update_append)
  moreover have "last (a[Suc i := itoa ub]) \<notin> set ubatch_flags"
  proof -
    have "a \<noteq> []" using assms(5) by auto
    with assms(6) itoa_not_flag show ?thesis by (simp add: last_list_update)
  qed
  ultimately show ?thesis
    using e cur assms(3) by (simp add: current_ubatch_def current_ubatch_last ubatch_flags_def)
qed

theorem derate_ubatch_first_flag_only_witness:
  "case derate_cuda_oom_args_for_deficit [''-ub'', ''512'', ''--ubatch-size'', ''256''] (Some demo_moe) 0 10000 3000 True of
     None \<Rightarrow> False | Some (args', entry) \<Rightarrow> ce_ubatch_size entry = 128 \<and> current_ubatch args' = 256"
proof -
  have "derate_cuda_oom_args_for_deficit [''-ub'', ''512'', ''--ubatch-size'', ''256''] (Some demo_moe) 0 10000 3000 True \<noteq> None"
    by code_simp
  then obtain args' entry where
    e: "derate_cuda_oom_args_for_deficit ([''-ub'', ''512''] @ [''--ubatch-size'', ''256'']) (Some demo_moe) 0 10000 3000 True =
      Some (args', entry)" by auto
  have "next_ubatch_for_deficit 256 10000 (if (3000 :: int) \<le> 0 then 1 else 3000) = Some 128"
    "atoi ''256'' = Some 256" "arg_index [''-ub'', ''512''] [''-ub''] = Some 0"
    by code_simp+
  from derate_ubatch_first_flag_only [OF e this] e show ?thesis by (simp add: ubatch_flags_def)
qed

end
