(* ===== verification/KvTypes.thy ===== *)
theory KvTypes
  imports ModelProfile
begin

text \<open>
  The cache types of the KV cache and the rules that choose one
  (\<^verbatim>\<open>go/pkg/placement/placement.go\<close>): the presets, the block sizes of ggml, the head
  widths of the model, and the architecture rules of \<^verbatim>\<open>resolveKVQuality\<close>. The theorem
  of this theory is that a quality the resolver accepts is one the backend can represent and the
  architecture tolerates.
\<close>

datatype kv_error =
    UnsupportedKvType string | MainlineNeedsF16 string | IkUnsupported string | HeadDimMismatch string
  | NoLegalKvType

section \<open>Types\<close>

definition kv_type_names :: "string list" where
  "kv_type_names = [''f32'', ''f16'', ''bf16'', ''q8_0'', ''q4_0'', ''q4_1'', ''iq4_nl'', ''q5_0'', ''q5_1'']"

definition normalize_kv_type :: "string \<Rightarrow> kv_error + string" where
  "normalize_kv_type val =
     (let t = trim_prefix (to_lower (trim_space val)) ''ggml_'' in
      if t = [] \<or> t = ''auto'' \<or> t = ''mid'' then Inr ''q8_0''
      else if t = ''high'' then Inr ''f16''
      else if t = ''low'' then Inr ''q4_0''
      else if t = ''fp16'' then Inr ''f16''
      else if t = ''fp32'' then Inr ''f32''
      else if t \<in> set kv_type_names then Inr t
      else Inl (UnsupportedKvType val))"

definition kv_cache_block_size :: "string \<Rightarrow> int" where
  "kv_cache_block_size val =
     (case normalize_kv_type val of
        Inl _ \<Rightarrow> 0
      | Inr t \<Rightarrow> if t = ''f32'' \<or> t = ''f16'' \<or> t = ''bf16'' then 1 else 32)"

definition kv_type_bytes_per_element :: "string \<Rightarrow> rat option" where
  "kv_type_bytes_per_element val =
     (case normalize_kv_type val of
        Inl _ \<Rightarrow> None
      | Inr t \<Rightarrow>
          if t = ''f32'' then Some 4
          else if t = ''f16'' \<or> t = ''bf16'' then Some 2
          else if t = ''q8_0'' then Some (34 / 32)
          else if t = ''q5_1'' then Some (24 / 32)
          else if t = ''q5_0'' then Some (22 / 32)
          else if t = ''q4_1'' then Some (20 / 32)
          else if t = ''q4_0'' \<or> t = ''iq4_nl'' then Some (18 / 32)
          else None)"

definition kv_type_from_quality :: "string \<Rightarrow> string" where
  "kv_type_from_quality q = (case normalize_kv_type q of Inl _ \<Rightarrow> ''q8_0'' | Inr t \<Rightarrow> t)"

section \<open>Head widths\<close>

text \<open>\<^verbatim>\<open>kvHeadDims\<close>: key width, value width, known.\<close>

definition kv_head_dims :: "model_profile option \<Rightarrow> (int \<times> int) \<times> bool" where
  "kv_head_dims mo =
     (case mo of
        None \<Rightarrow> ((0, 0), False)
      | Some m \<Rightarrow>
          let k = m_key_length m; v = m_value_length m in
          if k > 0 \<and> v > 0 then ((k, v), True)
          else
            let embed = (if m_embedding_length m \<le> 0 then m_hidden_size m else m_embedding_length m) in
            if embed \<le> 0 \<or> m_head_count m \<le> 0 then ((k, v), False)
            else
              let derived = go_div embed (m_head_count m) in
              if derived \<le> 0 then ((k, v), False)
              else ((if k \<le> 0 then derived else k, if v \<le> 0 then derived else v), True))"

definition kv_type_fits_head_dim :: "model_profile option \<Rightarrow> string \<Rightarrow> bool" where
  "kv_type_fits_head_dim mo kv_type =
     (let ((k, v), known) = kv_head_dims mo; b = kv_cache_block_size kv_type in
      if \<not> known then True
      else if b \<le> 0 then False
      else go_mod k b = 0 \<and> go_mod v b = 0)"

definition exact_kv_type_requested :: "string \<Rightarrow> bool" where
  "exact_kv_type_requested q \<longleftrightarrow>
     to_lower (trim_space q) \<notin> {[], ''auto'', ''high'', ''mid'', ''low''}"

section \<open>Measured geometry\<close>

definition kg_measured :: "kv_geometry \<Rightarrow> bool" where
  "kg_measured g \<longleftrightarrow>
     kg_bytes_per_cell_per_layer g > 0 \<and> (kg_full_layers g > 0 \<or> kg_swa_layers g > 0)"

definition kg_cells :: "kv_geometry \<Rightarrow> int \<Rightarrow> bool \<Rightarrow> int" where
  "kg_cells g ctx swa_full =
     (let cells = kg_full_layers g * ctx in
      if swa_full then cells + kg_swa_layers g * ctx
      else
        let swa_cells = (if kg_swa_cells g > ctx then ctx else kg_swa_cells g) in
        cells + kg_swa_layers g * swa_cells)"

text \<open>The conversion \<^verbatim>\<open>int(x + 0.5)\<close> of a non-negative value is the floor.\<close>

definition kg_total_mb :: "kv_geometry \<Rightarrow> int \<Rightarrow> bool \<Rightarrow> int" where
  "kg_total_mb g ctx swa_full =
     (if \<not> kg_measured g \<or> ctx \<le> 0 then 0
      else \<lfloor>of_int (kg_cells g ctx swa_full) * kg_bytes_per_cell_per_layer g / (1024 * 1024) + 1 / 2\<rfloor>)"

definition rescale_kv_geometry :: "kv_geometry \<Rightarrow> string \<Rightarrow> string \<Rightarrow> kv_geometry \<times> bool" where
  "rescale_kv_geometry g from_type to_type =
     (if \<not> kg_measured g then (g, False)
      else if equal_fold from_type to_type then (g, True)
      else case (kv_type_bytes_per_element from_type, kv_type_bytes_per_element to_type) of
        (Some f, Some t) \<Rightarrow>
          if f \<le> 0 then (g, False)
          else (g\<lparr>kg_bytes_per_cell_per_layer := kg_bytes_per_cell_per_layer g * (t / f)\<rparr>, True)
      | _ \<Rightarrow> (g, False))"

lemma kg_total_mb_mono:
  assumes "0 \<le> kg_full_layers g" "0 \<le> kg_swa_layers g" "c \<le> c'" "0 < c"
  shows "kg_total_mb g c swa \<le> kg_total_mb g c' swa"
proof (cases "kg_measured g \<and> 0 < c")
  case True
  have "kg_full_layers g * c \<le> kg_full_layers g * c'" "kg_swa_layers g * c \<le> kg_swa_layers g * c'"
    "kg_swa_layers g * (if kg_swa_cells g > c then c else kg_swa_cells g) \<le>
     kg_swa_layers g * (if kg_swa_cells g > c' then c' else kg_swa_cells g)"
    using assms by (auto intro: mult_left_mono)
  then have "kg_cells g c swa \<le> kg_cells g c' swa" by (simp add: kg_cells_def Let_def)
  then have "of_int (kg_cells g c swa) * kg_bytes_per_cell_per_layer g / (1024 * 1024)
      \<le> of_int (kg_cells g c' swa) * kg_bytes_per_cell_per_layer g / (1024 * 1024)"
    using True by (intro divide_right_mono mult_right_mono) (auto simp: kg_measured_def)
  then show ?thesis using True assms by (simp add: kg_total_mb_def floor_mono)
qed (use assms in \<open>auto simp: kg_total_mb_def\<close>)

section \<open>Choosing a quality\<close>

definition resolve_head_dim_compatible_kv_quality ::
  "model_profile option \<Rightarrow> string \<Rightarrow> kv_error + string" where
  "resolve_head_dim_compatible_kv_quality mo requested =
     (case normalize_kv_type requested of
        Inl e \<Rightarrow> Inl e
      | Inr t \<Rightarrow>
          if kv_type_fits_head_dim mo t then Inr requested
          else if exact_kv_type_requested requested then Inl (HeadDimMismatch t)
          else Inr ''high'')"

definition arch_is :: "model_profile option \<Rightarrow> string \<Rightarrow> bool" where
  "arch_is mo name = (case mo of None \<Rightarrow> False | Some m \<Rightarrow> equal_fold (m_model_arch m) name)"

definition resolve_kv_quality :: "model_profile option \<Rightarrow> string \<Rightarrow> string \<Rightarrow> kv_error + string" where
  "resolve_kv_quality mo requested0 tag =
     (let requested = trim_space requested0;
          generic = resolve_head_dim_compatible_kv_quality mo
            (if requested = [] \<or> equal_fold requested ''auto'' then ''mid'' else requested)
      in
      if arch_is mo ''deepseek4'' \<and> \<not> equal_fold tag ''ik_llama'' then
        (if requested \<noteq> [] \<and> \<not> equal_fold requested ''auto'' \<and> \<not> equal_fold requested ''mid'' then
           (case normalize_kv_type requested of
              Inl e \<Rightarrow> Inl e
            | Inr t \<Rightarrow>
                if t \<noteq> ''f16'' \<and> t \<noteq> ''bf16'' then Inl (MainlineNeedsF16 t)
                else if t = ''bf16'' then Inr ''bf16''
                else Inr ''high'')
         else Inr ''high'')
      else
        let ik = (if arch_is mo ''deepseek4'' \<and> equal_fold tag ''ik_llama'' \<and> requested \<noteq> [] \<and>
                     \<not> equal_fold requested ''auto'' then
                    (case normalize_kv_type requested of
                       Inl e \<Rightarrow> Some e
                     | Inr t \<Rightarrow> if t \<noteq> ''f16'' \<and> t \<noteq> ''bf16'' \<and> t \<noteq> ''q8_0'' then Some (IkUnsupported t)
                               else None)
                  else None)
        in case ik of
          Some e \<Rightarrow> Inl e
        | None \<Rightarrow>
            if arch_is mo ''inkling'' \<and> requested \<noteq> [] \<and> \<not> equal_fold requested ''auto'' \<and>
               \<not> equal_fold requested ''high'' then
              (case normalize_kv_type requested of Inl e \<Rightarrow> Inl e | Inr _ \<Rightarrow> generic)
            else generic)"

text \<open>The loop with \<^verbatim>\<open>seen\<close> is \<^const>\<open>remdups\<close> keeping first occurrences.\<close>

fun keep_first_fitting :: "model_profile option \<Rightarrow> string list \<Rightarrow> string list \<Rightarrow> string list" where
  "keep_first_fitting mo seen [] = []"
| "keep_first_fitting mo seen (v # vs) =
     (if v \<noteq> [] \<and> v \<notin> set seen \<and> kv_type_fits_head_dim mo v
      then v # keep_first_fitting mo (v # seen) vs
      else keep_first_fitting mo seen vs)"

definition kv_types_for_auto_context :: "model_profile option \<Rightarrow> string \<Rightarrow> string \<Rightarrow> string list" where
  "kv_types_for_auto_context mo preferred quality =
     (let q = to_lower (trim_space quality);
          vals = [preferred] @ (if q = [] \<or> q = ''auto'' then [''q8_0'', ''q4_0''] else []);
          out = keep_first_fitting mo [] vals
      in if out = [] \<and> kv_type_fits_head_dim mo ''f16'' then [''f16''] else out)"

definition fallback_kv_type :: "model_profile option \<Rightarrow> string \<Rightarrow> string \<Rightarrow> string" where
  "fallback_kv_type mo preferred quality =
     (let q = to_lower (trim_space quality) in
      if q \<noteq> [] \<and> q \<noteq> ''auto'' then preferred
      else if kv_type_fits_head_dim mo ''q4_0'' then ''q4_0''
      else if kv_type_fits_head_dim mo preferred then preferred
      else ''f16'')"

section \<open>Lemmas\<close>

lemma normalize_valid: "normalize_kv_type v = Inr t \<Longrightarrow> t \<in> set kv_type_names"
  by (auto simp: normalize_kv_type_def Let_def kv_type_names_def split: if_splits)

lemma normalize_fixed: "t \<in> set kv_type_names \<Longrightarrow> normalize_kv_type t = Inr t"
proof -
  have "list_all (\<lambda>t. normalize_kv_type t = Inr t) kv_type_names" by code_simp
  then show "t \<in> set kv_type_names \<Longrightarrow> normalize_kv_type t = Inr t" by (simp add: list_all_iff)
qed

lemma normalize_presets:
  "normalize_kv_type ''high'' = Inr ''f16''" "normalize_kv_type ''mid'' = Inr ''q8_0''"
  "normalize_kv_type ''bf16'' = Inr ''bf16''"
  by code_simp+

lemma block_size_one: "t \<in> {''f32'', ''f16'', ''bf16''} \<Longrightarrow> kv_cache_block_size t = 1"
  using normalize_fixed [of t] by (auto simp: kv_cache_block_size_def kv_type_names_def)

lemma plain_types_fit: "t \<in> {''f32'', ''f16'', ''bf16''} \<Longrightarrow> kv_type_fits_head_dim mo t"
  using block_size_one [of t]
  by (auto simp: kv_type_fits_head_dim_def go_mod_def go_div_def sgn_mult abs_sgn mult_sgn_abs
      split: prod.split)

lemma generic_quality:
  assumes "resolve_head_dim_compatible_kv_quality mo r = Inr q"
  shows "\<exists>t. normalize_kv_type q = Inr t \<and> kv_type_fits_head_dim mo t \<and>
    (normalize_kv_type r = Inr t \<or> t = ''f16'')"
  using assms plain_types_fit [of "''f16''" mo] normalize_presets(1)
  by (auto simp: resolve_head_dim_compatible_kv_quality_def split: sum.splits if_splits)

lemma keep_first_fitting_ok:
  "distinct (keep_first_fitting mo seen vs) \<and>
   set (keep_first_fitting mo seen vs) = {v \<in> set vs. v \<noteq> [] \<and> kv_type_fits_head_dim mo v} - set seen"
proof (induction vs arbitrary: seen)
  case (Cons v vs)
  then show ?case using Cons.IH [of "v # seen"] Cons.IH [of seen] by auto
qed simp

section \<open>Properties\<close>

text \<open>
  A KV quality the resolver accepts names a cache type that the backend can represent for the
  model's head widths, and for DeepSeek-V4 one that is correct there: uncompressed on mainline
  llama.cpp, at most q8_0 on ik_llama.
\<close>

theorem kv_quality_legal:
  assumes "resolve_kv_quality mo requested tag = Inr q"
  shows "\<exists>t. normalize_kv_type q = Inr t \<and> kv_type_fits_head_dim mo t \<and>
    (\<not> arch_is mo ''deepseek4'' \<or>
      (if equal_fold tag ''ik_llama'' then t \<in> {''f16'', ''bf16'', ''q8_0''} else t \<in> {''f16'', ''bf16''}))"
proof -
  let ?r = "trim_space requested"
  let ?g = "if ?r = [] \<or> equal_fold ?r ''auto'' then ''mid'' else ?r"
  consider (mainline) "arch_is mo ''deepseek4''" "\<not> equal_fold tag ''ik_llama''"
    | (other) "\<not> (arch_is mo ''deepseek4'' \<and> \<not> equal_fold tag ''ik_llama'')"
    by blast
  then show ?thesis
  proof cases
    case mainline
    then have "q = ''high'' \<or> q = ''bf16''"
      using assms by (auto simp: resolve_kv_quality_def Let_def split: if_splits sum.splits)
    with mainline plain_types_fit [of _ mo] normalize_presets show ?thesis by auto
  next
    case other
    have gen: "resolve_head_dim_compatible_kv_quality mo ?g = Inr q"
      using assms other
      by (auto simp: resolve_kv_quality_def Let_def split: if_splits sum.splits option.splits)
    then obtain t where t: "normalize_kv_type q = Inr t" "kv_type_fits_head_dim mo t"
      "normalize_kv_type ?g = Inr t \<or> t = ''f16''"
      using generic_quality by blast
    have "t \<in> {''f16'', ''bf16'', ''q8_0''}" if ds: "arch_is mo ''deepseek4''"
    proof (cases "?r = [] \<or> equal_fold ?r ''auto''")
      case True
      with t(3) normalize_presets(2) show ?thesis by auto
    next
      case False
      with other ds assms t(3) show ?thesis
        by (auto simp: resolve_kv_quality_def Let_def split: if_splits sum.splits option.splits)
    qed
    with t other show ?thesis by auto
  qed
qed

theorem kv_quality_legal_witness:
  "resolve_kv_quality (Some (empty_profile\<lparr>m_model_arch := ''DeepSeek4'', m_key_length := 64, m_value_length := 64\<rparr>))
     ''q8_0'' ''ik_llama'' = Inr ''q8_0'' \<and>
   kv_type_fits_head_dim (Some (empty_profile\<lparr>m_model_arch := ''DeepSeek4'', m_key_length := 64, m_value_length := 64\<rparr>)) ''q8_0''"
proof -
  let ?m = "Some (empty_profile\<lparr>m_model_arch := ''DeepSeek4'', m_key_length := 64, m_value_length := 64\<rparr>)"
  have e: "resolve_kv_quality ?m ''q8_0'' ''ik_llama'' = Inr ''q8_0''" by code_simp
  have "normalize_kv_type ''q8_0'' = Inr ''q8_0''" by code_simp
  with kv_quality_legal [OF e] e show ?thesis by auto
qed

text \<open>
  The automatic context search tries distinct cache types that all fit the head widths, at
  least one of them, and trades quality down only under the automatic policy: for an explicit
  quality it tries nothing but the preferred type, or f16 when that does not fit.
\<close>

theorem kv_auto_candidates:
  defines "out mo preferred quality \<equiv> kv_types_for_auto_context mo preferred quality"
  shows "out mo preferred quality \<noteq> [] \<and> distinct (out mo preferred quality) \<and>
    (\<forall>v \<in> set (out mo preferred quality). kv_type_fits_head_dim mo v) \<and>
    (if to_lower (trim_space quality) \<in> {[], ''auto''}
     then set (out mo preferred quality) \<subseteq> {preferred, ''q8_0'', ''q4_0'', ''f16''}
     else out mo preferred quality = [preferred] \<or>
          out mo preferred quality = [''f16''] \<and> (preferred = [] \<or> \<not> kv_type_fits_head_dim mo preferred))"
proof -
  let ?vals = "[preferred] @ (if to_lower (trim_space quality) \<in> {[], ''auto''} then [''q8_0'', ''q4_0''] else [])"
  let ?k = "keep_first_fitting mo [] ?vals"
  have f16: "kv_type_fits_head_dim mo ''f16''" by (rule plain_types_fit) simp
  have e: "out mo preferred quality = (if ?k = [] then [''f16''] else ?k)"
    using f16 by (simp add: out_def kv_types_for_auto_context_def Let_def del: keep_first_fitting.simps)
  have k: "distinct ?k" "set ?k = {v \<in> set ?vals. v \<noteq> [] \<and> kv_type_fits_head_dim mo v}"
    using keep_first_fitting_ok [of mo "[]" ?vals] by simp_all
  show ?thesis
  proof (cases "to_lower (trim_space quality) \<in> {[], ''auto''}")
    case True
    have "set ?k \<subseteq> {preferred, ''q8_0'', ''q4_0''}" using k(2) by (auto split: if_splits)
    with True e k f16 show ?thesis by auto
  next
    case False
    with e f16 show ?thesis by auto
  qed
qed

theorem kv_auto_candidates_witness:
  "\<exists>mo. kv_types_for_auto_context mo ''q8_0'' ''auto'' = [''f16''] \<and> \<not> kv_type_fits_head_dim mo ''q8_0'' \<and>
     kv_type_fits_head_dim mo ''f16''"
proof (intro exI conjI)
  let ?mo = "Some (empty_profile\<lparr>m_key_length := 80, m_value_length := 80\<rparr>)"
  show e: "kv_types_for_auto_context ?mo ''q8_0'' ''auto'' = [''f16'']" by code_simp
  show "\<not> kv_type_fits_head_dim ?mo ''q8_0''" by code_simp
  show "kv_type_fits_head_dim ?mo ''f16''" using kv_auto_candidates [of ?mo "''q8_0''" "''auto''"] e by simp
qed

end
