(* ===== verification/ContextSearch.thy ===== *)
theory ContextSearch
  imports KvTypes
begin

text \<open>
  The automatic choice of the context size, \<^verbatim>\<open>Compute\<close> and
  \<^verbatim>\<open>computeAutomaticContextStrategy\<close> of
  \<^verbatim>\<open>go/pkg/placement/placement.go\<close>: the legal range, the candidate shapes, types and
  tiers, the bisection for the largest admissible granule, and the order in which candidates are
  tried.

  The search treats the planner of one exact context, \<^verbatim>\<open>computeResolvedStrategy\<close>, as a
  function of the candidate options (\<open>res\<close>), and every theorem holds for all such functions
  unless it names a hypothesis on it. Options and strategies are records that carry the fields the
  search reads or writes; the remaining fields are their extension. A \<^verbatim>\<open>*Strategy\<close>
  that may be \<^verbatim>\<open>nil\<close> is an option; \<open>show_err\<close> renders an error in an
  evidence string.
\<close>

section \<open>Data\<close>

datatype strategy_type = CPUOnly | SingleGPU | MultiGPUDense | DenseCPUOffload | MoEOffload

record plan_options =
  o_context_size :: int
  o_auto_candidate :: bool
  o_auto_context_max :: int
  o_kv_quality :: string
  o_kv_placement :: string
  o_parallel :: int
  o_auto_parallel :: bool
  o_parallel_slot_target :: int
  o_verified_scope_key :: string
  o_skip_placement_cache :: bool
  o_skip_cached_config :: bool
  o_skip_verified_config :: bool
  o_cpu_mode :: bool
  o_require_measured_buffers :: bool
  o_batch_size :: int
  o_ubatch_size :: int
  o_batch_explicit :: bool
  o_ubatch_explicit :: bool
  o_runtime_policy :: bool
  o_offload_prompt :: "(int \<Rightarrow> int \<Rightarrow> bool) option"
  o_backend_tag :: string

record plan_strategy =
  s_type :: strategy_type
  s_context_size :: int
  s_kv_placement :: string
  s_kv_type :: string
  s_mmap_required :: bool
  s_parallel :: int
  s_plan_free_vram :: "(int \<times> int) list"
  s_verified_reused :: bool
  s_context_auto :: bool
  s_context_fit_tier :: string
  s_context_fit_rejected :: int
  s_context_fit_evidence :: string

record parallel_shape =
  ps_value :: int
  ps_slots :: int
  ps_min_context :: int

datatype tier = GpuResident | MemoryResident | MmapLastResort

record 's search_result =
  sr_strategy :: 's
  sr_rejected_context :: int
  sr_evidence :: string

datatype 'e plan_error =
    ResolverError 'e
  | NonMonotonic int int
  | NoLegalRange
  | QualityError kv_error
  | NoPlan "'e plan_error"
  | NoPlanBetween int int
  | OffloadRefused string
  | NeedsCapabilities
  | NeedsModel

section \<open>The legal range\<close>

definition context_minimum :: int where "context_minimum = 32768"

definition context_granularity :: int where "context_granularity = 1024"

definition unknown_auto_context_cap :: int where "unknown_auto_context_cap = 4 * 1024 * 1024"

definition max_uint32 :: int where "max_uint32 = 4294967295"

definition native_context :: "model_profile option \<Rightarrow> int" where
  "native_context mo =
     (case mo of None \<Rightarrow> 0
      | Some m \<Rightarrow> if m_ctx_train m \<le> 0 then m_context_size m else m_ctx_train m)"

definition auto_context_cap_for_slots :: "model_profile option \<Rightarrow> 'x plan_options_scheme \<Rightarrow> int \<Rightarrow> int" where
  "auto_context_cap_for_slots mo opts slots0 =
     (let native = native_context mo;
          slots = max 1 slots0;
          limit = min max_int max_uint32;
          native_total = (if native > 0
                          then (if native > go_div limit slots then limit else native * slots) else 0);
          cap0 = o_auto_context_max opts;
          cap1 = (if cap0 \<le> 0 then native_total else cap0);
          cap2 = (if cap1 \<le> 0 then unknown_auto_context_cap else cap1);
          cap3 = (if native_total > 0 \<and> native_total < cap2 then native_total else cap2)
      in if cap3 \<ge> context_granularity
         then go_div cap3 context_granularity * context_granularity else cap3)"

definition auto_context_cap :: "model_profile option \<Rightarrow> 'x plan_options_scheme \<Rightarrow> int" where
  "auto_context_cap mo opts = auto_context_cap_for_slots mo opts (max 1 (o_parallel opts))"

definition round_up_granule :: "int \<Rightarrow> int" where
  "round_up_granule c =
     (if c \<ge> context_granularity
      then go_div (c + context_granularity - 1) context_granularity * context_granularity else c)"

definition auto_context_floor :: "model_profile option \<Rightarrow> int \<Rightarrow> int" where
  "auto_context_floor mo cap =
     (let native = native_context mo;
          f0 = context_minimum;
          f1 = (if native > 0 \<and> native < f0 then native else f0);
          f2 = (if cap > 0 \<and> cap < f1 then cap else f1)
      in round_up_granule f2)"

section \<open>Candidates\<close>

text \<open>The loop from \<^verbatim>\<open>slots\<close> down to 1.\<close>

fun shapes_down :: "nat \<Rightarrow> int \<Rightarrow> int \<Rightarrow> int \<Rightarrow> parallel_shape list" where
  "shapes_down 0 target floor_ctx cap = []"
| "shapes_down (Suc n) target floor_ctx cap =
     (let k = int (Suc n);
          min_context = (if k * target < floor_ctx then floor_ctx else k * target)
      in if min_context \<le> cap
         then \<lparr>ps_value = k, ps_slots = k, ps_min_context = min_context\<rparr> # shapes_down n target floor_ctx cap
         else shapes_down n target floor_ctx cap)"

definition auto_context_parallel_shapes :: "'x plan_options_scheme \<Rightarrow> int \<Rightarrow> int \<Rightarrow> parallel_shape list" where
  "auto_context_parallel_shapes opts floor_ctx cap =
     (let val = o_parallel opts;
          slots = (if val \<le> 0 then 1 else val) in
      if \<not> o_auto_parallel opts \<or> slots \<le> 1
      then [\<lparr>ps_value = val, ps_slots = slots, ps_min_context = floor_ctx\<rparr>]
      else
        let target = (if o_parallel_slot_target opts \<le> 0 then context_minimum else o_parallel_slot_target opts);
            out = shapes_down (nat slots) target floor_ctx cap
        in if out = [] \<or> ps_min_context (last out) \<noteq> floor_ctx
           then out @ [\<lparr>ps_value = 1, ps_slots = 1, ps_min_context = floor_ctx\<rparr>]
           else out)"

definition auto_context_quality_candidates ::
  "model_profile option \<Rightarrow> 'x plan_options_scheme \<Rightarrow> kv_error + string list" where
  "auto_context_quality_candidates mo opts =
     (case resolve_kv_quality mo (o_kv_quality opts) (o_backend_tag opts) of
        Inl e \<Rightarrow> Inl e
      | Inr resolved \<Rightarrow>
          let requested = to_lower (trim_space (o_kv_quality opts)) in
          if requested \<noteq> [] \<and> requested \<noteq> ''auto'' then Inr [resolved]
          else case normalize_kv_type resolved of
            Inl e \<Rightarrow> Inl e
          | Inr preferred \<Rightarrow>
              let out = filter (\<lambda>v. case resolve_kv_quality mo v (o_backend_tag opts) of Inl _ \<Rightarrow> False | Inr _ \<Rightarrow> True)
                          (kv_types_for_auto_context mo preferred ''auto'')
              in if out = [] then Inl NoLegalKvType else Inr out)"

definition auto_context_placement_candidates ::
  "capabilities option \<Rightarrow> 'x plan_options_scheme \<Rightarrow> string list" where
  "auto_context_placement_candidates caps opts =
     (if o_cpu_mode opts \<or> caps = None \<or> (case caps of Some c \<Rightarrow> c_gpus c = [] | None \<Rightarrow> True) then [''cpu'']
      else
        let requested = to_lower (trim_space (o_kv_placement opts)) in
        if requested = [] \<or> requested = ''auto'' then [''gpu'', ''cpu''] else [requested])"

fun tier_name :: "tier \<Rightarrow> string" where
  "tier_name GpuResident = ''gpu-resident''"
| "tier_name MemoryResident = ''memory-resident''"
| "tier_name MmapLastResort = ''mmap-last-resort''"

definition tier_accepts :: "tier \<Rightarrow> 'y plan_strategy_scheme option \<Rightarrow> bool" where
  "tier_accepts t so =
     (case so of
        None \<Rightarrow> False
      | Some s \<Rightarrow>
          (case t of
             MemoryResident \<Rightarrow> \<not> s_mmap_required s
           | MmapLastResort \<Rightarrow> True
           | GpuResident \<Rightarrow>
               s_kv_placement s = ''gpu'' \<and> \<not> s_mmap_required s \<and>
               s_type s \<noteq> DenseCPUOffload \<and> s_type s \<noteq> CPUOnly))"

definition auto_context_tiers :: "capabilities option \<Rightarrow> 'x plan_options_scheme \<Rightarrow> tier list" where
  "auto_context_tiers caps opts =
     (if o_cpu_mode opts \<or> caps = None \<or> (case caps of Some c \<Rightarrow> c_gpus c = [] | None \<Rightarrow> True)
      then [MemoryResident, MmapLastResort]
      else [GpuResident, MemoryResident, MmapLastResort])"

definition stable_auto_context_options :: "'x plan_options_scheme \<Rightarrow> 'x plan_options_scheme" where
  "stable_auto_context_options opts =
     (let s = opts\<lparr>o_require_measured_buffers := False\<rparr> in
      if o_runtime_policy s then s
      else
        let s1 = (if \<not> o_batch_explicit s then s\<lparr>o_batch_size := 2048\<rparr> else s) in
        (if \<not> o_ubatch_explicit s1 then s1\<lparr>o_ubatch_size := 512\<rparr> else s1))"

definition automatic_context_candidate_options ::
  "'x plan_options_scheme \<Rightarrow> int \<Rightarrow> string \<Rightarrow> string \<Rightarrow> int \<Rightarrow> 'x plan_options_scheme" where
  "automatic_context_candidate_options opts context quality kv_placement slots =
     (stable_auto_context_options opts)\<lparr>
        o_context_size := context,
        o_auto_candidate := True,
        o_auto_context_max := 0,
        o_kv_quality := quality,
        o_kv_placement := kv_placement,
        o_parallel := slots,
        o_auto_parallel := False,
        o_verified_scope_key := [],
        o_skip_placement_cache := True,
        o_offload_prompt := None\<rparr>"

section \<open>The boundary search\<close>

text \<open>
  The bisection over granules: \<open>r\<close> plans a context, \<open>acc\<close> is the tier. The results are
  the best strategy and the first error.
\<close>

function bisect ::
  "(int \<Rightarrow> 'e + 's option) \<Rightarrow> ('s option \<Rightarrow> bool) \<Rightarrow> int \<Rightarrow> int \<Rightarrow> 's option \<Rightarrow> 'e option \<Rightarrow> 's option \<times> 'e option"
  where
  "bisect r acc low high best first_err =
     (if low \<le> high then
        let mid = low + go_div (high - low) 2 in
        (case r (mid * context_granularity) of
           Inr s \<Rightarrow>
             if acc s then bisect r acc (mid + 1) high s first_err
             else bisect r acc low (mid - 1) best first_err
         | Inl e \<Rightarrow> bisect r acc low (mid - 1) best (if first_err = None then Some e else first_err))
      else (best, first_err))"
  by pat_completeness auto

termination
  by (relation "measure (\<lambda>(r, acc, low, high, best, e). nat (high + 1 - low))") auto

declare bisect.simps [simp del]

definition search_automatic_context_boundary ::
  "('e \<Rightarrow> string) \<Rightarrow> ('x plan_options_scheme \<Rightarrow> 'e + 'y plan_strategy_scheme option)
     \<Rightarrow> 'x plan_options_scheme \<Rightarrow> string \<Rightarrow> string \<Rightarrow> parallel_shape \<Rightarrow> tier \<Rightarrow> int
     \<Rightarrow> 'e plan_error + 'y plan_strategy_scheme search_result option" where
  "search_automatic_context_boundary show_err res opts quality kv_placement shape tr cap =
     (let min_context = round_up_granule (ps_min_context shape);
          plan = (\<lambda>context. res (automatic_context_candidate_options opts context quality kv_placement
                                  (ps_value shape)))
      in
      if min_context > cap then Inr None
      else if cap < context_granularity then
        (case plan cap of
           Inl e \<Rightarrow> Inl (ResolverError e)
         | Inr None \<Rightarrow> Inr None
         | Inr (Some s) \<Rightarrow>
             if \<not> tier_accepts tr (Some s) then Inr None
             else Inr (Some \<lparr>sr_strategy = s, sr_rejected_context = 0,
                            sr_evidence = ''model/policy context cap reached''\<rparr>))
      else
        (case bisect plan (tier_accepts tr) (go_div min_context context_granularity)
                (go_div cap context_granularity) None None of
           (None, None) \<Rightarrow> Inr None
         | (None, Some e) \<Rightarrow> Inl (ResolverError e)
         | (Some best, _) \<Rightarrow>
             let next = s_context_size best + context_granularity in
             if next > cap then
               Inr (Some \<lparr>sr_strategy = best, sr_rejected_context = 0,
                          sr_evidence = ''model/policy context cap reached''\<rparr>)
             else
               (case plan next of
                  Inl e \<Rightarrow>
                    Inr (Some \<lparr>sr_strategy = best, sr_rejected_context = next,
                               sr_evidence = ''next granule '' @ itoa next @ '' rejected: '' @ show_err e\<rparr>)
                | Inr s \<Rightarrow>
                    if tier_accepts tr s then Inl (NonMonotonic (s_context_size best) next)
                    else
                      Inr (Some \<lparr>sr_strategy = best, sr_rejected_context = next,
                                 sr_evidence = ''next granule '' @ itoa next @ '' crosses the '' @
                                   tier_name tr @ '' residency boundary''\<rparr>))))"

section \<open>The order of the candidates\<close>

type_synonym candidate = "tier \<times> string \<times> parallel_shape \<times> string"

text \<open>The four nested loops, with the \<^verbatim>\<open>continue\<close> of the innermost one.\<close>

definition candidate_order ::
  "tier list \<Rightarrow> string list \<Rightarrow> parallel_shape list \<Rightarrow> string list \<Rightarrow> candidate list" where
  "candidate_order tiers qualities shapes placements =
     [(t, q, sh, p). t \<leftarrow> tiers, q \<leftarrow> qualities, sh \<leftarrow> shapes, p \<leftarrow> placements,
                     \<not> (t = GpuResident \<and> p \<noteq> ''gpu'')]"

text \<open>
  The winning point planned again with the normal placement cache; the fresh result counts only in
  the same tier.
\<close>

definition final_strategy ::
  "('x plan_options_scheme \<Rightarrow> 'e + 'y plan_strategy_scheme option) \<Rightarrow> 'x plan_options_scheme
     \<Rightarrow> candidate \<Rightarrow> 'y plan_strategy_scheme \<Rightarrow> 'y plan_strategy_scheme" where
  "final_strategy res opts cand s =
     (let (t, q, sh, p) = cand;
          final_opts = (automatic_context_candidate_options opts (s_context_size s) q p (ps_value sh))
                         \<lparr>o_skip_placement_cache := o_skip_placement_cache opts, o_offload_prompt := None\<rparr>
      in case res final_opts of
           Inr (Some f) \<Rightarrow> if tier_accepts t (Some f) then f else s
         | _ \<Rightarrow> s)"

definition model_display_name :: "(string \<Rightarrow> string) \<Rightarrow> model_profile \<Rightarrow> string" where
  "model_display_name base m = (if m_name m = [] then base (m_path m) else m_name m)"

definition offload_refused :: "model_profile \<Rightarrow> 'x plan_options_scheme \<Rightarrow> 'y plan_strategy_scheme \<Rightarrow> bool" where
  "offload_refused m opts s =
     (case o_offload_prompt opts of
        None \<Rightarrow> False
      | Some prompt \<Rightarrow>
          s_type s = DenseCPUOffload \<and>
          \<not> prompt (if m_total_size_mb m \<le> 0 then go_div (go_div (m_size_bytes m) 1024) 1024 else m_total_size_mb m)
               (foldl (\<lambda>t f. t + snd f) 0 (s_plan_free_vram s)))"

fun try_candidates ::
  "('e \<Rightarrow> string) \<Rightarrow> (string \<Rightarrow> string) \<Rightarrow> ('x plan_options_scheme \<Rightarrow> 'e + 'y plan_strategy_scheme option)
     \<Rightarrow> model_profile \<Rightarrow> 'x plan_options_scheme \<Rightarrow> candidate list \<Rightarrow> 'e plan_error option
     \<Rightarrow> ('e plan_error + 'y plan_strategy_scheme) + 'e plan_error option" where
  "try_candidates show_err base res m opts [] first_err = Inr first_err"
| "try_candidates show_err base res m opts ((t, q, sh, p) # cands) first_err =
     (case search_automatic_context_boundary show_err res opts q p sh t
             (auto_context_cap_for_slots (Some m) opts (ps_slots sh)) of
        Inl e \<Rightarrow> try_candidates show_err base res m opts cands (if first_err = None then Some e else first_err)
      | Inr None \<Rightarrow> try_candidates show_err base res m opts cands first_err
      | Inr (Some r) \<Rightarrow>
          let final = final_strategy res opts (t, q, sh, p) (sr_strategy r) in
          if offload_refused m opts final then Inl (Inl (OffloadRefused (model_display_name base m)))
          else Inl (Inr (final\<lparr>s_context_auto := True, s_context_fit_tier := tier_name t,
                             s_context_fit_rejected := sr_rejected_context r,
                             s_context_fit_evidence := sr_evidence r\<rparr>)))"

definition compute_automatic_context_strategy ::
  "('e \<Rightarrow> string) \<Rightarrow> (string \<Rightarrow> string) \<Rightarrow> ('x plan_options_scheme \<Rightarrow> 'e + 'y plan_strategy_scheme option)
     \<Rightarrow> capabilities option \<Rightarrow> model_profile \<Rightarrow> 'x plan_options_scheme
     \<Rightarrow> 'e plan_error + 'y plan_strategy_scheme" where
  "compute_automatic_context_strategy show_err base res caps m opts =
     (let cap = auto_context_cap (Some m) opts;
          floor_ctx = auto_context_floor (Some m) cap
      in
      if cap \<le> 0 \<or> floor_ctx \<le> 0 then Inl NoLegalRange
      else case auto_context_quality_candidates (Some m) opts of
        Inl e \<Rightarrow> Inl (QualityError e)
      | Inr qualities \<Rightarrow>
          (case try_candidates show_err base res m opts
                  (candidate_order (auto_context_tiers caps opts) qualities
                     (auto_context_parallel_shapes opts floor_ctx cap)
                     (auto_context_placement_candidates caps opts)) None of
             Inl r \<Rightarrow> r
           | Inr (Some e) \<Rightarrow> Inl (NoPlan e)
           | Inr None \<Rightarrow> Inl (NoPlanBetween floor_ctx cap)))"

text \<open>
  \<^verbatim>\<open>Compute\<close> for a model without a sparse lookup tier: an explicit context is planned
  directly, otherwise a verified plan is looked up once before the search.
\<close>

definition compute_plan ::
  "('e \<Rightarrow> string) \<Rightarrow> (string \<Rightarrow> string) \<Rightarrow> ('x plan_options_scheme \<Rightarrow> 'e + 'y plan_strategy_scheme option)
     \<Rightarrow> capabilities option \<Rightarrow> model_profile option \<Rightarrow> 'x plan_options_scheme
     \<Rightarrow> 'e plan_error + 'y plan_strategy_scheme option" where
  "compute_plan show_err base res caps mo opts =
     (if o_context_size opts > 0 then
        (case res opts of Inl e \<Rightarrow> Inl (ResolverError e) | Inr s \<Rightarrow> Inr s)
      else if caps = None then Inl NeedsCapabilities
      else case mo of
        None \<Rightarrow> Inl NeedsModel
      | Some m \<Rightarrow>
          let probe = opts\<lparr>o_context_size := auto_context_floor mo (auto_context_cap mo opts),
                           o_offload_prompt := None\<rparr>;
              verified =
                (if \<not> o_skip_cached_config opts \<and> \<not> o_skip_verified_config opts \<and>
                    o_verified_scope_key opts \<noteq> []
                 then (case res probe of
                         Inr (Some v) \<Rightarrow> if s_verified_reused v then Some v else None
                       | _ \<Rightarrow> None)
                 else None)
          in case verified of
               Some v \<Rightarrow>
                 Inr (Some (v\<lparr>s_context_auto := True,
                    s_context_fit_tier := (if s_context_fit_tier v = [] then ''verified'' else s_context_fit_tier v),
                    s_context_fit_evidence := (if s_context_fit_evidence v = []
                       then ''reused a launch-validated automatic-context plan'' else s_context_fit_evidence v)\<rparr>))
             | None \<Rightarrow>
                 (case compute_automatic_context_strategy show_err base res caps m opts of
                    Inl e \<Rightarrow> Inl e | Inr s \<Rightarrow> Inr (Some s)))"

section \<open>The bisection\<close>

definition admits :: "(int \<Rightarrow> 'e + 's option) \<Rightarrow> ('s option \<Rightarrow> bool) \<Rightarrow> int \<Rightarrow> bool" where
  "admits r acc c = (case r c of Inl _ \<Rightarrow> False | Inr s \<Rightarrow> acc s)"

lemma bisect_step:
  "low \<le> high \<Longrightarrow> bisect r acc low high best fe =
     (case r ((low + go_div (high - low) 2) * context_granularity) of
        Inr s \<Rightarrow> if acc s then bisect r acc (low + go_div (high - low) 2 + 1) high s fe
                 else bisect r acc low (low + go_div (high - low) 2 - 1) best fe
      | Inl e \<Rightarrow> bisect r acc low (low + go_div (high - low) 2 - 1) best (if fe = None then Some e else fe))"
  by (simp only: bisect.simps [of r acc low high best fe] if_True Let_def)

lemma bisect_sound:
  assumes "bisect r acc low high best fe = (Some s, fe')" "\<not> acc None"
  shows "best = Some s \<or>
    (\<exists>g. low \<le> g \<and> g \<le> high \<and> r (g * context_granularity) = Inr (Some s) \<and> acc (Some s))"
  using assms
proof (induction r acc low high best fe rule: bisect.induct)
  case (1 r acc low high best fe)
  show ?case
  proof (cases "low \<le> high")
    case True
    define mid where "mid = low + go_div (high - low) 2"
    have mid: "low \<le> mid" "mid \<le> high" using True by (auto simp: mid_def)
    note b = "1.prems"(1) [unfolded bisect_step [OF True, of r acc best fe, folded mid_def]]
    show ?thesis
    proof (cases "r (mid * context_granularity)")
      case (Inl e)
      with b "1.IH"(1) [OF True mid_def Inl] "1.prems"(2) mid show ?thesis by fastforce
    next
      case (Inr x)
      show ?thesis
      proof (cases "acc x")
        case acc: True
        with b Inr have "bisect r acc (mid + 1) high x fe = (Some s, fe')" by simp
        from "1.IH"(2) [OF True mid_def Inr acc this "1.prems"(2)] mid Inr acc show ?thesis by force
      next
        case False
        with b Inr have "bisect r acc low (mid - 1) best fe = (Some s, fe')" by simp
        from "1.IH"(3) [OF True mid_def Inr False this "1.prems"(2)] mid show ?thesis by force
      qed
    qed
  next
    case False
    with "1.prems" show ?thesis by (simp add: bisect.simps)
  qed
qed

text \<open>
  The contract under which the bisection is exact: within the range, a granule below an admissible
  one is admissible.
\<close>

locale monotone_admission =
  fixes fits :: "int \<Rightarrow> bool" and lo :: int
  assumes fits_down: "lo \<le> n \<Longrightarrow> fits (n + 1) \<Longrightarrow> fits n"
begin

lemma fits_below:
  assumes "fits m" "n \<le> m" "lo \<le> n"
  shows "fits n"
  using assms(2,1,3)
proof (induction m rule: int_ge_induct)
  case (step i)
  then have "lo \<le> i" by simp
  with step fits_down show ?case by blast
qed

text \<open>The bisection keeps: everything below \<open>low\<close> fits, nothing above \<open>high\<close> does.\<close>

lemma bisect_max:
  assumes "\<And>g. fits g = admits r acc (g * context_granularity)" "\<not> acc None"
    and "lo \<le> low" "low \<le> high + 1" "\<not> fits (high + 1) \<or> high = hi" "high \<le> hi"
    and "case best of None \<Rightarrow> low = lo
         | Some s \<Rightarrow> lo < low \<and> r ((low - 1) * context_granularity) = Inr (Some s) \<and> acc (Some s)"
  shows "case fst (bisect r acc low high best fe) of
      None \<Rightarrow> \<forall>g. lo \<le> g \<longrightarrow> g \<le> hi \<longrightarrow> \<not> fits g
    | Some s \<Rightarrow> \<exists>g. lo \<le> g \<and> g \<le> hi \<and> r (g * context_granularity) = Inr (Some s) \<and>
        acc (Some s) \<and> (\<forall>h. g < h \<longrightarrow> h \<le> hi \<longrightarrow> \<not> fits h)"
  using assms
proof (induction r acc low high best fe rule: bisect.induct)
  case (1 r acc low high best fe)
  note p = "1.prems"
  show ?case
  proof (cases "low \<le> high")
    case True
    define mid where "mid = low + go_div (high - low) 2"
    have mid: "low \<le> mid" "mid \<le> high" using True by (auto simp: mid_def)
    have b: "bisect r acc low high best fe =
        (case r (mid * context_granularity) of
           Inr s \<Rightarrow> if acc s then bisect r acc (mid + 1) high s fe else bisect r acc low (mid - 1) best fe
         | Inl e \<Rightarrow> bisect r acc low (mid - 1) best (if fe = None then Some e else fe))"
      using bisect_step [OF True, of r acc best fe] by (simp only: mid_def)
    show ?thesis
    proof (cases "r (mid * context_granularity)")
      case (Inl e)
      then have "\<not> fits mid" using p(1) by (simp add: admits_def)
      then show ?thesis
        using "1.IH"(1) [OF True mid_def Inl p(1,2,3)] p mid Inl by (simp add: b)
    next
      case (Inr x)
      show ?thesis
      proof (cases "acc x")
        case acc: True
        then obtain s where x: "x = Some s" using p(2) by (cases x) auto
        show ?thesis
          using "1.IH"(2) [OF True mid_def Inr acc p(1,2)] p mid Inr acc x by (simp add: b)
      next
        case False
        then have "\<not> fits mid" using p(1) Inr by (simp add: admits_def)
        then show ?thesis
          using "1.IH"(3) [OF True mid_def Inr False p(1,2,3)] p mid Inr False by (simp add: b)
      qed
    qed
  next
    case False
    with p have lh: "low = high + 1" by simp
    have above: "\<not> fits h" if "high < h" "h \<le> hi" for h
    proof -
      from that p(5) have "\<not> fits (high + 1)" by auto
      with fits_below [of h "high + 1"] that lh p(3) show ?thesis by auto
    qed
    have b: "bisect r acc low high best fe = (best, fe)" using False by (simp add: bisect.simps)
    show ?thesis
    proof (cases best)
      case None
      with p(7) lh above show ?thesis unfolding b fst_conv by simp
    next
      case (Some s)
      have q: "lo \<le> high" "r (high * context_granularity) = Inr (Some s)" "acc (Some s)"
        using p(7) by (simp_all add: Some lh)
      show ?thesis unfolding Some b [unfolded Some] fst_conv option.case
        by (intro exI [of _ high] conjI allI impI above q p(6))
    qed
  qed
qed

end

text \<open>A fixed KV budget is such an admission: a larger context never needs less KV memory.\<close>

definition kv_budget_fits :: "kv_geometry \<Rightarrow> bool \<Rightarrow> int \<Rightarrow> int \<Rightarrow> bool" where
  "kv_budget_fits g swa budget n \<longleftrightarrow>
     0 \<le> kg_full_layers g \<and> 0 \<le> kg_swa_layers g \<and>
     kg_total_mb g (n * context_granularity) swa \<le> budget"

interpretation kvfit: monotone_admission "kv_budget_fits g swa budget" 1 for g swa budget
proof
  fix n :: int
  assume n: "1 \<le> n" "kv_budget_fits g swa budget (n + 1)"
  then have "kg_total_mb g (n * context_granularity) swa \<le> kg_total_mb g ((n + 1) * context_granularity) swa"
    by (intro kg_total_mb_mono) (auto simp: kv_budget_fits_def context_granularity_def)
  with n(2) show "kv_budget_fits g swa budget n" by (simp add: kv_budget_fits_def)
qed

section \<open>Lemmas on the search\<close>

definition candidate_plan ::
  "('x plan_options_scheme \<Rightarrow> 'e + 'y plan_strategy_scheme option) \<Rightarrow> 'x plan_options_scheme \<Rightarrow> string
     \<Rightarrow> string \<Rightarrow> parallel_shape \<Rightarrow> int \<Rightarrow> 'e + 'y plan_strategy_scheme option" where
  "candidate_plan res opts q p sh c =
     res (automatic_context_candidate_options opts c q p (ps_value sh))"

lemma tier_rejects_none [simp]: "\<not> tier_accepts t None"
  by (simp add: tier_accepts_def)

lemma candidate_context [simp]:
  "o_context_size (automatic_context_candidate_options opts c q p n) = c"
  by (simp add: automatic_context_candidate_options_def)

lemma round_up_granule_ge: "c \<le> round_up_granule c"
  using ceil_div_bounds(1) [of 1024 c] by (simp add: round_up_granule_def context_granularity_def)

lemma round_up_granule_mult:
  "1024 \<le> c \<Longrightarrow> round_up_granule c = go_div (round_up_granule c) context_granularity * context_granularity"
proof -
  assume c: "1024 \<le> c"
  then have "round_up_granule c = (c + 1023) div 1024 * 1024"
    by (simp add: round_up_granule_def context_granularity_def)
  moreover have "0 \<le> (c + 1023) div 1024 * 1024" using c by simp
  ultimately show ?thesis by (simp add: context_granularity_def)
qed

text \<open>What a successful search has established, in terms of the planner.\<close>

lemma search_cases:
  assumes "search_automatic_context_boundary show_err res opts q p sh t cap = Inr (Some r)"
  defines "plan \<equiv> candidate_plan res opts q p sh"
  obtains (small) "cap < context_granularity" "plan cap = Inr (Some (sr_strategy r))"
      "tier_accepts t (Some (sr_strategy r))" "sr_rejected_context r = 0"
      "round_up_granule (ps_min_context sh) \<le> cap"
  | (grid) e where "context_granularity \<le> cap" "round_up_granule (ps_min_context sh) \<le> cap"
      "bisect plan (tier_accepts t) (go_div (round_up_granule (ps_min_context sh)) context_granularity)
         (go_div cap context_granularity) None None = (Some (sr_strategy r), e)"
      "(let next = s_context_size (sr_strategy r) + context_granularity in
         if next > cap then sr_rejected_context r = 0
         else sr_rejected_context r = next \<and> \<not> admits plan (tier_accepts t) next)"
proof (cases "cap < context_granularity")
  case True
  with assms(1) show ?thesis
    by (intro small) (auto simp: search_automatic_context_boundary_def plan_def candidate_plan_def Let_def
      split: if_splits sum.splits option.splits)
next
  case False
  have m: "round_up_granule (ps_min_context sh) \<le> cap"
    using assms(1) by (auto simp: search_automatic_context_boundary_def Let_def split: if_splits)
  obtain best e where b: "bisect plan (tier_accepts t)
      (go_div (round_up_granule (ps_min_context sh)) context_granularity)
      (go_div cap context_granularity) None None = (best, e)"
    by (cases "bisect plan (tier_accepts t)
      (go_div (round_up_granule (ps_min_context sh)) context_granularity)
      (go_div cap context_granularity) None None")
  note s = assms(1) [unfolded search_automatic_context_boundary_def Let_def
      candidate_plan_def [of res opts q p sh, abs_def, symmetric] plan_def [symmetric]]
  obtain st where st: "best = Some st"
    using s b False m by (cases best; cases e) auto
  have "sr_strategy r = st \<and> (if s_context_size st + context_granularity > cap then sr_rejected_context r = 0
      else sr_rejected_context r = s_context_size st + context_granularity \<and>
        \<not> admits plan (tier_accepts t) (s_context_size st + context_granularity))"
    using s b False m st by (auto simp: admits_def split: if_splits sum.splits)
  then show ?thesis using b st m False by (intro grid [of e]) (auto simp: Let_def)
qed

lemma search_none:
  assumes "search_automatic_context_boundary show_err res opts q p sh t cap = Inr None"
    "round_up_granule (ps_min_context sh) \<le> cap" "context_granularity \<le> cap"
  shows "fst (bisect (candidate_plan res opts q p sh) (tier_accepts t)
      (go_div (round_up_granule (ps_min_context sh)) context_granularity)
      (go_div cap context_granularity) None None) = None"
  using assms
  by (auto simp: search_automatic_context_boundary_def Let_def
      candidate_plan_def [of res opts q p sh, abs_def, symmetric]
      split: if_splits sum.splits option.splits prod.splits)

lemma search_error:
  assumes "search_automatic_context_boundary show_err res opts q p sh t cap = Inl e"
    "round_up_granule (ps_min_context sh) \<le> cap" "context_granularity \<le> cap"
  defines "plan \<equiv> candidate_plan res opts q p sh"
  shows "(case fst (bisect plan (tier_accepts t)
        (go_div (round_up_granule (ps_min_context sh)) context_granularity)
        (go_div cap context_granularity) None None) of
      None \<Rightarrow> \<exists>e'. e = ResolverError e'
    | Some s \<Rightarrow> s_context_size s + context_granularity \<le> cap \<and>
        admits plan (tier_accepts t) (s_context_size s + context_granularity))"
  using assms(1-3)
  by (auto simp: search_automatic_context_boundary_def Let_def admits_def plan_def
      candidate_plan_def [of res opts q p sh, abs_def, symmetric]
      split: if_splits sum.splits option.splits prod.splits)

lemma grid_bounds:
  assumes "0 \<le> low" "g \<le> go_div cap context_granularity" "0 \<le> cap"
  shows "g * context_granularity \<le> cap"
proof -
  have "g \<le> cap div 1024" using assms by (simp add: context_granularity_def)
  then have "g * 1024 \<le> cap div 1024 * 1024" by simp
  also have "\<dots> \<le> cap" by simp
  finally show ?thesis by (simp add: context_granularity_def)
qed

lemma min_context_grid:
  assumes "1024 \<le> c" "go_div (round_up_granule c) context_granularity \<le> g"
  shows "c \<le> g * context_granularity"
proof -
  have "round_up_granule c \<le> g * context_granularity"
    using round_up_granule_mult [OF assms(1)] assms(2)
    by (metis context_granularity_def mult_right_mono zero_le_numeral)
  with round_up_granule_ge [of c] show ?thesis by linarith
qed

lemma context_boundary_admitted:
  assumes "search_automatic_context_boundary show_err res opts q p sh t cap = Inr (Some r)"
    and "\<forall>opt s. res opt = Inr (Some s) \<longrightarrow> s_context_size s = o_context_size opt"
    and "0 \<le> ps_min_context sh"
  shows "0 \<le> s_context_size (sr_strategy r) \<and> s_context_size (sr_strategy r) \<le> cap \<and>
    candidate_plan res opts q p sh (s_context_size (sr_strategy r)) = Inr (Some (sr_strategy r)) \<and>
    tier_accepts t (Some (sr_strategy r)) \<and>
    (ps_min_context sh \<le> s_context_size (sr_strategy r) \<or> ps_min_context sh < context_granularity)"
  using assms(1)
proof (cases rule: search_cases)
  case small
  then have "s_context_size (sr_strategy r) = cap"
    using assms(2) by (simp add: candidate_plan_def)
  moreover have "ps_min_context sh \<le> cap" using small(5) round_up_granule_ge order_trans by blast
  ultimately show ?thesis using small assms(3) by simp
next
  case (grid e)
  let ?lo = "go_div (round_up_granule (ps_min_context sh)) context_granularity"
  let ?hi = "go_div cap context_granularity"
  have nn: "0 \<le> round_up_granule (ps_min_context sh)" using round_up_granule_ge assms(3) order_trans by blast
  then have lo: "0 \<le> ?lo" by (simp add: context_granularity_def pos_imp_zdiv_nonneg_iff)
  have cap: "0 \<le> cap" using grid(1) by (simp add: context_granularity_def)
  obtain g where g: "?lo \<le> g" "g \<le> ?hi"
    "candidate_plan res opts q p sh (g * context_granularity) = Inr (Some (sr_strategy r))"
    "tier_accepts t (Some (sr_strategy r))"
    using bisect_sound [OF grid(3)] by auto
  have c: "s_context_size (sr_strategy r) = g * context_granularity"
    using g(3) assms(2) by (simp add: candidate_plan_def)
  have "0 \<le> g * context_granularity" using g(1) lo by (simp add: context_granularity_def)
  moreover have "g * context_granularity \<le> cap" by (rule grid_bounds [OF lo g(2) cap])
  moreover have "ps_min_context sh \<le> g * context_granularity \<or> ps_min_context sh < context_granularity"
    using min_context_grid [of "ps_min_context sh" g] g(1) by (auto simp: context_granularity_def)
  ultimately show ?thesis using g c by simp
qed

section \<open>Properties\<close>

text \<open>
  C22: The context the search reports is proved, not estimated: the planner produced exactly the
  returned strategy at that context and the tier accepts it, it lies within the range asked for,
  and the adjacent granule either lies above the cap or was itself planned and not admitted. This
  needs no monotonicity; a planner for which both fit makes the search fail instead.
\<close>

theorem context_boundary_proved:
  assumes "search_automatic_context_boundary show_err res opts q p sh t cap = Inr (Some r)"
    and "\<forall>opt s. res opt = Inr (Some s) \<longrightarrow> s_context_size s = o_context_size opt"
    and "0 \<le> ps_min_context sh"
  defines "plan \<equiv> candidate_plan res opts q p sh" and "c \<equiv> s_context_size (sr_strategy r)"
  shows "plan c = Inr (Some (sr_strategy r)) \<and> tier_accepts t (Some (sr_strategy r)) \<and>
    c \<le> cap \<and> (ps_min_context sh \<le> c \<or> ps_min_context sh < context_granularity) \<and>
    (if sr_rejected_context r = 0 then cap < c + context_granularity
     else sr_rejected_context r = c + context_granularity \<and>
          \<not> admits plan (tier_accepts t) (c + context_granularity))"
proof -
  note ad = context_boundary_admitted [OF assms(1-3)]
  have "if sr_rejected_context r = 0 then cap < c + context_granularity
     else sr_rejected_context r = c + context_granularity \<and>
          \<not> admits plan (tier_accepts t) (c + context_granularity)"
    using assms(1)
  proof (cases rule: search_cases)
    case small
    then show ?thesis using ad assms(2) by (simp add: c_def candidate_plan_def)
  next
    case (grid e)
    then show ?thesis using ad
      by (simp add: Let_def c_def plan_def context_granularity_def split: if_splits)
  qed
  with ad show ?thesis by (simp add: plan_def c_def)
qed

text \<open>A planner that admits contexts up to a budget.\<close>

definition demo_strategy :: "int \<Rightarrow> plan_strategy" where
  "demo_strategy c =
     \<lparr>s_type = SingleGPU, s_context_size = c, s_kv_placement = ''gpu'', s_kv_type = ''q8_0'',
      s_mmap_required = False, s_parallel = 1, s_plan_free_vram = [], s_verified_reused = False,
      s_context_auto = False, s_context_fit_tier = [], s_context_fit_rejected = 0,
      s_context_fit_evidence = []\<rparr>"

definition demo_planner :: "plan_options \<Rightarrow> string + plan_strategy option" where
  "demo_planner opt =
     (if o_context_size opt > 0 \<and> o_context_size opt \<le> 42000
      then Inr (Some (demo_strategy (o_context_size opt))) else Inl ''too big'')"

definition demo_options :: plan_options where
  "demo_options =
     \<lparr>o_context_size = 0, o_auto_candidate = False, o_auto_context_max = 0, o_kv_quality = [],
      o_kv_placement = [], o_parallel = 1, o_auto_parallel = False, o_parallel_slot_target = 0,
      o_verified_scope_key = [], o_skip_placement_cache = False, o_skip_cached_config = False,
      o_skip_verified_config = False, o_cpu_mode = False, o_require_measured_buffers = False,
      o_batch_size = 0, o_ubatch_size = 0, o_batch_explicit = False, o_ubatch_explicit = False,
      o_runtime_policy = False, o_offload_prompt = None, o_backend_tag = []\<rparr>"

definition demo_shape :: parallel_shape where
  "demo_shape = \<lparr>ps_value = 1, ps_slots = 1, ps_min_context = 32768\<rparr>"

definition result_context :: "'e plan_error + 'y plan_strategy_scheme search_result option \<Rightarrow> (int \<times> int) option" where
  "result_context x =
     (case x of Inr (Some r) \<Rightarrow> Some (s_context_size (sr_strategy r), sr_rejected_context r) | _ \<Rightarrow> None)"

lemma demo_planner_context: "demo_planner opt = Inr (Some s) \<Longrightarrow> s_context_size s = o_context_size opt"
  by (auto simp: demo_planner_def demo_strategy_def split: if_splits)

lemma demo_search: "result_context (search_automatic_context_boundary id demo_planner demo_options
    ''q8_0'' ''gpu'' demo_shape GpuResident 131072) = Some (41984, 43008)"
  by (simp add: search_automatic_context_boundary_def result_context_def bisect.simps demo_planner_def
      demo_strategy_def demo_shape_def round_up_granule_def context_granularity_def tier_accepts_def)

theorem context_boundary_proved_witness:
  "candidate_plan demo_planner demo_options ''q8_0'' ''gpu'' demo_shape 41984 = Inr (Some (demo_strategy 41984)) \<and>
   \<not> admits (candidate_plan demo_planner demo_options ''q8_0'' ''gpu'' demo_shape) (tier_accepts GpuResident) 43008"
proof -
  obtain r where r: "search_automatic_context_boundary id demo_planner demo_options
    ''q8_0'' ''gpu'' demo_shape GpuResident 131072 = Inr (Some r)"
    "s_context_size (sr_strategy r) = 41984" "sr_rejected_context r = 43008"
    using demo_search by (auto simp: result_context_def split: sum.splits option.splits)
  have "\<forall>opt s. demo_planner opt = Inr (Some s) \<longrightarrow> s_context_size s = o_context_size opt"
    using demo_planner_context by blast
  from context_boundary_proved [OF r(1) this] r(2,3)
  show ?thesis
    by (auto simp: demo_shape_def context_granularity_def candidate_plan_def demo_planner_def split: if_splits)
qed

text \<open>
  C23: When admission is monotone over the granules of the range, the search is exact: it returns
  the plan of the largest admissible granule, reports nothing only when no granule of the range is
  admissible, and never fails with the non-monotonic error.
\<close>

theorem context_boundary_maximal:
  fixes res :: "'x plan_options_scheme \<Rightarrow> 'e + 'y plan_strategy_scheme option"
    and opts :: "'x plan_options_scheme" and q p :: string and sh :: parallel_shape and t :: tier and cap :: int
  assumes "\<forall>opt s. res opt = Inr (Some s) \<longrightarrow> s_context_size s = o_context_size opt"
    and "context_granularity \<le> ps_min_context sh" "round_up_granule (ps_min_context sh) \<le> cap"
  defines "fits \<equiv> \<lambda>n. admits (candidate_plan res opts q p sh) (tier_accepts t) (n * context_granularity)"
    and "lo \<equiv> round_up_granule (ps_min_context sh) div context_granularity"
    and "hi \<equiv> cap div context_granularity"
  assumes mono: "\<forall>n. lo \<le> n \<longrightarrow> fits (n + 1) \<longrightarrow> fits n"
  shows "case search_automatic_context_boundary show_err res opts q p sh t cap of
      Inr (Some r) \<Rightarrow>
        (\<exists>g. lo \<le> g \<and> g \<le> hi \<and> s_context_size (sr_strategy r) = g * context_granularity \<and> fits g \<and>
           (\<forall>h. g < h \<longrightarrow> h \<le> hi \<longrightarrow> \<not> fits h))
    | Inr None \<Rightarrow> \<forall>g. lo \<le> g \<longrightarrow> g \<le> hi \<longrightarrow> \<not> fits g
    | Inl e \<Rightarrow> (\<forall>n m. e \<noteq> NonMonotonic n m) \<and> (\<forall>g. lo \<le> g \<longrightarrow> g \<le> hi \<longrightarrow> \<not> fits g)"
proof -
  let ?plan = "candidate_plan res opts q p sh" and ?acc = "tier_accepts t"
  let ?b = "bisect ?plan ?acc lo hi None None"
  have ge: "1024 \<le> round_up_granule (ps_min_context sh)" "1024 \<le> cap"
    using assms(2,3) round_up_granule_ge [of "ps_min_context sh"] by (simp_all add: context_granularity_def)
  have lo: "go_div (round_up_granule (ps_min_context sh)) context_granularity = lo"
    and hi: "go_div cap context_granularity = hi"
    using ge by (simp_all add: lo_def hi_def context_granularity_def)
  have le: "lo \<le> hi" unfolding lo_def hi_def using assms(3)
    by (intro zdiv_mono1) (simp_all add: context_granularity_def)
  have cap: "context_granularity \<le> cap" using ge(2) by (simp add: context_granularity_def)
  have mon: "monotone_admission fits lo" using mono by (intro monotone_admission.intro) auto
  have max: "case fst ?b of
      None \<Rightarrow> \<forall>g. lo \<le> g \<longrightarrow> g \<le> hi \<longrightarrow> \<not> fits g
    | Some s \<Rightarrow> \<exists>g. lo \<le> g \<and> g \<le> hi \<and> ?plan (g * context_granularity) = Inr (Some s) \<and>
        ?acc (Some s) \<and> (\<forall>h. g < h \<longrightarrow> h \<le> hi \<longrightarrow> \<not> fits h)"
    by (rule monotone_admission.bisect_max [OF mon]) (use le in \<open>simp_all add: fits_def\<close>)
  have ctx: "s_context_size s = c" if "?plan c = Inr (Some s)" for c s
    using that assms(1) by (simp add: candidate_plan_def)
  have found: "\<exists>g. lo \<le> g \<and> g \<le> hi \<and> s_context_size s = g * context_granularity \<and> fits g \<and>
           (\<forall>h. g < h \<longrightarrow> h \<le> hi \<longrightarrow> \<not> fits h)" if "fst ?b = Some s" for s
    using max that ctx by (auto simp: fits_def admits_def)
  show ?thesis
  proof (cases "search_automatic_context_boundary show_err res opts q p sh t cap")
    case (Inl e)
    note err = search_error [OF Inl assms(3) cap, unfolded lo hi]
    have nb: "fst ?b = None"
    proof (rule ccontr)
      assume "fst ?b \<noteq> None"
      then obtain s where s: "fst ?b = Some s" by auto
      with err have n: "s_context_size s + context_granularity \<le> cap"
        "admits ?plan ?acc (s_context_size s + context_granularity)" by auto
      obtain g where g: "s_context_size s = g * context_granularity" "\<forall>h. g < h \<longrightarrow> h \<le> hi \<longrightarrow> \<not> fits h"
        using found [OF s] by blast
      have nx: "s_context_size s + context_granularity = (g + 1) * context_granularity"
        by (simp add: g(1) algebra_simps)
      from n(1) nx have "(g + 1) * context_granularity \<le> cap" by simp
      then have "g + 1 \<le> hi"
        using zdiv_mono1 [of "(g + 1) * context_granularity" cap context_granularity]
        by (simp add: hi_def context_granularity_def)
      moreover have "fits (g + 1)" using n(2) unfolding nx fits_def .
      ultimately show False using g(2) by auto
    qed
    then have "\<forall>n m. e \<noteq> NonMonotonic n m" using err by auto
    with nb max Inl show ?thesis by auto
  next
    case (Inr ro)
    show ?thesis
    proof (cases ro)
      case None
      with Inr search_none [of show_err res opts q p sh t cap] assms(3) cap max lo hi show ?thesis by auto
    next
      case (Some r)
      with Inr have "search_automatic_context_boundary show_err res opts q p sh t cap = Inr (Some r)" by simp
      then show ?thesis
      proof (cases rule: search_cases)
        case small
        with cap show ?thesis by simp
      next
        case (grid e)
        then have "fst ?b = Some (sr_strategy r)" by (simp add: lo hi)
        from found [OF this] Inr Some show ?thesis by simp
      qed
    qed
  qed
qed

theorem context_boundary_maximal_witness:
  "\<exists>g. s_context_size (demo_strategy 41984) = g * context_granularity \<and>
     (\<forall>h. g < h \<longrightarrow> h \<le> 128 \<longrightarrow>
        \<not> admits (candidate_plan demo_planner demo_options ''q8_0'' ''gpu'' demo_shape) (tier_accepts GpuResident)
            (h * context_granularity))"
proof -
  have a: "admits (candidate_plan demo_planner demo_options ''q8_0'' ''gpu'' demo_shape) (tier_accepts GpuResident) c
      \<longleftrightarrow> 0 < c \<and> c \<le> 42000" for c
    by (simp add: admits_def candidate_plan_def demo_planner_def tier_accepts_def demo_strategy_def)
  obtain r where r: "search_automatic_context_boundary id demo_planner demo_options
    ''q8_0'' ''gpu'' demo_shape GpuResident 131072 = Inr (Some r)" "s_context_size (sr_strategy r) = 41984"
    using demo_search by (auto simp: result_context_def split: sum.splits option.splits)
  have "\<forall>opt s. demo_planner opt = Inr (Some s) \<longrightarrow> s_context_size s = o_context_size opt"
    "context_granularity \<le> ps_min_context demo_shape" "round_up_granule (ps_min_context demo_shape) \<le> 131072"
    "\<forall>n. round_up_granule (ps_min_context demo_shape) div context_granularity \<le> n \<longrightarrow>
       admits (candidate_plan demo_planner demo_options ''q8_0'' ''gpu'' demo_shape) (tier_accepts GpuResident)
         ((n + 1) * context_granularity) \<longrightarrow>
       admits (candidate_plan demo_planner demo_options ''q8_0'' ''gpu'' demo_shape) (tier_accepts GpuResident)
         (n * context_granularity)"
    subgoal using demo_planner_context by blast
    subgoal by (simp add: demo_shape_def context_granularity_def)
    subgoal by (simp add: demo_shape_def round_up_granule_def context_granularity_def)
    subgoal unfolding a by (auto simp: demo_shape_def round_up_granule_def context_granularity_def)
    done
  from context_boundary_maximal [OF this, of id] r show ?thesis
    by (auto simp: demo_strategy_def context_granularity_def)
qed

text \<open>
  Residency comes first: a plan of the automatic search carries the tier of its candidate and
  satisfies it, and every candidate before it in the order -- every candidate of every stricter
  tier, for all qualities, slot counts and KV placements -- was searched and gave no plan.
\<close>

theorem context_tier_order:
  assumes "compute_automatic_context_strategy show_err base res caps m opts = Inr s"
    "\<forall>opt s. res opt = Inr (Some s) \<longrightarrow> s_context_size s = o_context_size opt"
    "\<forall>sh \<in> set (auto_context_parallel_shapes opts
        (auto_context_floor (Some m) (auto_context_cap (Some m) opts)) (auto_context_cap (Some m) opts)).
      0 \<le> ps_min_context sh"
  shows "\<exists>qualities pre t q sh p post.
    auto_context_quality_candidates (Some m) opts = Inr qualities \<and>
    candidate_order (auto_context_tiers caps opts) qualities
       (auto_context_parallel_shapes opts (auto_context_floor (Some m) (auto_context_cap (Some m) opts))
          (auto_context_cap (Some m) opts))
       (auto_context_placement_candidates caps opts) = pre @ (t, q, sh, p) # post \<and>
    s_context_fit_tier s = tier_name t \<and> tier_accepts t (Some s) \<and> s_context_auto s \<and>
    s_context_size s \<le> auto_context_cap_for_slots (Some m) opts (ps_slots sh) \<and>
    (\<forall>(t', q', sh', p') \<in> set pre. \<forall>r.
       search_automatic_context_boundary show_err res opts q' p' sh' t'
         (auto_context_cap_for_slots (Some m) opts (ps_slots sh')) \<noteq> Inr (Some r))"
proof -
  let ?search = "\<lambda>t q sh p. search_automatic_context_boundary show_err res opts q p sh t
      (auto_context_cap_for_slots (Some m) opts (ps_slots sh))"
  have main: "\<exists>pre t q sh p post r. cands = pre @ (t, q, sh, p) # post \<and> ?search t q sh p = Inr (Some r) \<and>
      s = (final_strategy res opts (t, q, sh, p) (sr_strategy r))\<lparr>s_context_auto := True,
             s_context_fit_tier := tier_name t, s_context_fit_rejected := sr_rejected_context r,
             s_context_fit_evidence := sr_evidence r\<rparr> \<and>
      (\<forall>(t', q', sh', p') \<in> set pre. \<forall>r. ?search t' q' sh' p' \<noteq> Inr (Some r))"
    if "try_candidates show_err base res m opts cands fe = Inl (Inr s)" for cands fe
    using that
  proof (induction cands arbitrary: fe)
    case (Cons c cands)
    obtain t q sh p where c: "c = (t, q, sh, p)" by (cases c) auto
    consider (hit) r where "?search t q sh p = Inr (Some r)"
      | (miss) "\<And>r. ?search t q sh p \<noteq> Inr (Some r)" by blast
    then show ?case
    proof cases
      case hit
      with Cons.prems show ?thesis
        by (intro exI [of _ "[]"]) (auto simp: c Let_def split: if_splits)
    next
      case miss
      then have "\<exists>fe'. try_candidates show_err base res m opts cands fe' = Inl (Inr s)"
        using Cons.prems by (auto simp: c split: sum.splits option.splits)
      then obtain pre t1 q1 sh1 p1 post r where h: "cands = pre @ (t1, q1, sh1, p1) # post"
        "?search t1 q1 sh1 p1 = Inr (Some r)"
        "s = (final_strategy res opts (t1, q1, sh1, p1) (sr_strategy r))\<lparr>s_context_auto := True,
             s_context_fit_tier := tier_name t1, s_context_fit_rejected := sr_rejected_context r,
             s_context_fit_evidence := sr_evidence r\<rparr>"
        "\<forall>(t', q', sh', p') \<in> set pre. \<forall>r. ?search t' q' sh' p' \<noteq> Inr (Some r)"
        using Cons.IH by blast
      from h(1) c have "c # cands = (c # pre) @ (t1, q1, sh1, p1) # post" by simp
      moreover from h(4) miss c have "\<forall>(t', q', sh', p') \<in> set (c # pre). \<forall>r. ?search t' q' sh' p' \<noteq> Inr (Some r)"
        by auto
      ultimately show ?thesis using h(2,3) by blast
    qed
  qed simp
  obtain qualities where q: "auto_context_quality_candidates (Some m) opts = Inr qualities"
    "\<exists>fe. try_candidates show_err base res m opts (candidate_order (auto_context_tiers caps opts) qualities
       (auto_context_parallel_shapes opts (auto_context_floor (Some m) (auto_context_cap (Some m) opts))
          (auto_context_cap (Some m) opts))
       (auto_context_placement_candidates caps opts)) fe = Inl (Inr s)"
    using assms(1) by (auto simp: compute_automatic_context_strategy_def Let_def split: if_splits sum.splits option.splits)
  then obtain pre t qq sh p post r where h: "candidate_order (auto_context_tiers caps opts) qualities
       (auto_context_parallel_shapes opts (auto_context_floor (Some m) (auto_context_cap (Some m) opts))
          (auto_context_cap (Some m) opts))
       (auto_context_placement_candidates caps opts) = pre @ (t, qq, sh, p) # post"
    "?search t qq sh p = Inr (Some r)"
    "s = (final_strategy res opts (t, qq, sh, p) (sr_strategy r))\<lparr>s_context_auto := True,
             s_context_fit_tier := tier_name t, s_context_fit_rejected := sr_rejected_context r,
             s_context_fit_evidence := sr_evidence r\<rparr>"
    "\<forall>(t', q', sh', p') \<in> set pre. \<forall>r. ?search t' q' sh' p' \<noteq> Inr (Some r)"
    using main by blast
  have "(t, qq, sh, p) \<in> set (candidate_order (auto_context_tiers caps opts) qualities
       (auto_context_parallel_shapes opts (auto_context_floor (Some m) (auto_context_cap (Some m) opts))
          (auto_context_cap (Some m) opts)) (auto_context_placement_candidates caps opts))"
    by (simp add: h(1))
  then have "0 \<le> ps_min_context sh" using assms(3) by (auto simp: candidate_order_def)
  note b = context_boundary_admitted [OF h(2) assms(2) this]
  have f: "tier_accepts t (Some (final_strategy res opts (t, qq, sh, p) (sr_strategy r)))"
    "s_context_size (final_strategy res opts (t, qq, sh, p) (sr_strategy r)) = s_context_size (sr_strategy r)"
    using b assms(2) by (auto simp: final_strategy_def Let_def split: sum.split option.split)
  have "tier_accepts t (Some s)" using f(1) by (cases t) (simp_all add: h(3) tier_accepts_def)
  then show ?thesis using q(1) h f(2) b by (intro exI conjI) auto
qed

definition demo_model :: model_profile where
  "demo_model = empty_profile\<lparr>m_ctx_train := 131072\<rparr>"

lemma demo_compute:
  "\<exists>s. compute_automatic_context_strategy id id demo_planner (Some (demo_caps [demo_gpu 0 24000 32]))
     demo_model demo_options = Inr s \<and> s_context_size s = 41984"
proof -
  let ?caps = "Some (demo_caps [demo_gpu 0 24000 32])"
  have c: "auto_context_cap (Some demo_model) demo_options = 131072"
    "auto_context_cap_for_slots (Some demo_model) demo_options 1 = 131072"
    "auto_context_floor (Some demo_model) 131072 = 32768"
    "auto_context_quality_candidates (Some demo_model) demo_options = Inr [''q8_0'', ''q4_0'']"
    "auto_context_parallel_shapes demo_options 32768 131072 = [demo_shape]"
    by code_simp+
  have t: "auto_context_tiers ?caps demo_options = [GpuResident, MemoryResident, MmapLastResort]"
    "auto_context_placement_candidates ?caps demo_options = [''gpu'', ''cpu'']"
    by code_simp+
  obtain r where r: "search_automatic_context_boundary id demo_planner demo_options
    ''q8_0'' ''gpu'' demo_shape GpuResident 131072 = Inr (Some r)" "s_context_size (sr_strategy r) = 41984"
    using demo_search by (auto simp: result_context_def split: sum.splits option.splits)
  have slots: "ps_slots demo_shape = 1" by (simp add: demo_shape_def)
  have nop: "offload_refused demo_model demo_options s = False" for s :: plan_strategy
    by (simp add: offload_refused_def demo_options_def)
  have f: "s_context_size (final_strategy demo_planner demo_options (GpuResident, ''q8_0'', demo_shape, ''gpu'') (sr_strategy r)) = 41984"
    using r(2) by (auto simp: final_strategy_def demo_planner_def demo_strategy_def Let_def split: sum.split option.split)
  show ?thesis
    using r f
    by (simp add: compute_automatic_context_strategy_def c t candidate_order_def slots nop Let_def)
qed

theorem context_tier_order_witness:
  "\<exists>s t. compute_automatic_context_strategy id id demo_planner (Some (demo_caps [demo_gpu 0 24000 32]))
     demo_model demo_options = Inr s \<and> s_context_fit_tier s = tier_name t \<and> tier_accepts t (Some s)"
proof -
  obtain s where s: "compute_automatic_context_strategy id id demo_planner
      (Some (demo_caps [demo_gpu 0 24000 32])) demo_model demo_options = Inr s"
    using demo_compute by blast
  have c: "auto_context_cap (Some demo_model) demo_options = 131072"
    "auto_context_floor (Some demo_model) 131072 = 32768"
    "auto_context_parallel_shapes demo_options 32768 131072 = [demo_shape]"
    by code_simp+
  have "\<forall>opt s. demo_planner opt = Inr (Some s) \<longrightarrow> s_context_size s = o_context_size opt"
    using demo_planner_context by blast
  moreover have "\<forall>sh \<in> set (auto_context_parallel_shapes demo_options
      (auto_context_floor (Some demo_model) (auto_context_cap (Some demo_model) demo_options))
      (auto_context_cap (Some demo_model) demo_options)). 0 \<le> ps_min_context sh"
    by (simp add: c demo_shape_def)
  ultimately show ?thesis using context_tier_order [OF s] s by blast
qed

lemma granule_down:
  fixes c :: int
  defines "d \<equiv> (if c \<ge> context_granularity then go_div c context_granularity * context_granularity else c)"
  shows "d \<le> c" "d < context_granularity \<or> context_granularity dvd d"
proof -
  have "c div 1024 * 1024 \<le> c" by presburger
  then show "d \<le> c" by (simp add: d_def context_granularity_def)
qed (simp add: d_def)

lemma slots_total_bounds:
  fixes n s :: int
  defines "t \<equiv> (if n > go_div (min max_int max_uint32) s then min max_int max_uint32 else n * s)"
  assumes "0 < n" "1 \<le> s"
  shows "0 < t" "t \<le> n * s" "t \<le> max_uint32"
proof -
  have lim: "go_div max_uint32 s = max_uint32 div s" "min max_int max_uint32 = max_uint32"
    using assms(3) by (simp_all add: max_int_def max_uint32_def)
  have "0 < t \<and> t \<le> n * s \<and> t \<le> max_uint32"
  proof (cases "n > max_uint32 div s")
    case True
    have "max_uint32 < (max_uint32 div s + 1) * s"
      using pos_mod_bound [of s max_uint32] div_mult_mod_eq [of max_uint32 s] assms(3)
      unfolding distrib_right by linarith
    also have "\<dots> \<le> n * s" using True assms(3) by (intro mult_right_mono) auto
    finally have "max_uint32 < n * s" .
    moreover have "t = max_uint32" using True by (simp only: t_def lim if_True)
    ultimately show ?thesis by (simp add: max_uint32_def)
  next
    case False
    then have "n * s \<le> max_uint32 div s * s" using assms(3) by (intro mult_right_mono) auto
    also have "\<dots> \<le> max_uint32"
      using pos_mod_sign [of s max_uint32] div_mult_mod_eq [of max_uint32 s] assms(3) by linarith
    finally show ?thesis using False assms(2,3) by (simp add: t_def lim)
  qed
  then show "0 < t" "t \<le> n * s" "t \<le> max_uint32" by auto
qed

lemma cap_for_slots_bounds:
  fixes m :: model_profile and slots :: int
  defines "cap opts \<equiv> auto_context_cap_for_slots (Some m) opts slots"
  shows "cap opts < context_granularity \<or> context_granularity dvd cap opts"
    "o_auto_context_max opts \<le> 0 \<or> cap opts \<le> o_auto_context_max opts"
    "native_context (Some m) \<le> 0 \<or>
       cap opts \<le> native_context (Some m) * max 1 slots \<and> cap opts \<le> max_uint32"
proof -
  define n where "n = native_context (Some m)"
  define nt where "nt = (if n > 0 then (if n > go_div (min max_int max_uint32) (max 1 slots)
      then min max_int max_uint32 else n * max 1 slots) else 0)"
  define c2 where "c2 = (let c1 = (if o_auto_context_max opts \<le> 0 then nt else o_auto_context_max opts)
      in if c1 \<le> 0 then unknown_auto_context_cap else c1)"
  define c3 where "c3 = (if nt > 0 \<and> nt < c2 then nt else c2)"
  have e: "cap opts = (if c3 \<ge> context_granularity
      then go_div c3 context_granularity * context_granularity else c3)"
    unfolding cap_def auto_context_cap_for_slots_def Let_def c3_def c2_def nt_def n_def ..
  have le: "cap opts \<le> c3" unfolding e by (rule granule_down)
  show "cap opts < context_granularity \<or> context_granularity dvd cap opts"
    unfolding e by (rule granule_down)
  show "o_auto_context_max opts \<le> 0 \<or> cap opts \<le> o_auto_context_max opts"
    using le by (auto simp: c3_def c2_def Let_def split: if_splits)
  show "native_context (Some m) \<le> 0 \<or>
       cap opts \<le> native_context (Some m) * max 1 slots \<and> cap opts \<le> max_uint32"
  proof (cases "0 < n")
    case True
    have nt: "0 < nt" "nt \<le> n * max 1 slots" "nt \<le> max_uint32"
      using slots_total_bounds [OF True, of "max 1 slots"] True by (simp_all add: nt_def)
    then have "c3 \<le> nt" by (auto simp: c3_def)
    with le nt show ?thesis by (auto simp: n_def)
  qed (simp add: n_def)
qed

text \<open>
  The range of the automatic search is legal: the cap is a multiple of the granule or below
  one, never exceeds the policy maximum or the native window times the slots, and with a native
  window stays below \<^verbatim>\<open>2^32\<close>; every slot shape has at least one slot, and either
  gives each of its slots the target within the cap or is the one-shape fallback at the floor.
\<close>

theorem context_range_legal:
  defines "cap opts m slots \<equiv> auto_context_cap_for_slots (Some m) opts slots"
  shows "(cap opts m slots < context_granularity \<or> context_granularity dvd cap opts m slots) \<and>
    (o_auto_context_max opts \<le> 0 \<or> cap opts m slots \<le> o_auto_context_max opts) \<and>
    (native_context (Some m) \<le> 0 \<or>
       cap opts m slots \<le> native_context (Some m) * max 1 slots \<and> cap opts m slots \<le> max_uint32) \<and>
    (\<forall>sh \<in> set (auto_context_parallel_shapes opts lo hi).
       1 \<le> ps_slots sh \<and>
       (ps_min_context sh = lo \<or>
        lo \<le> ps_min_context sh \<and> ps_min_context sh \<le> hi \<and>
        ps_slots sh * (if o_parallel_slot_target opts \<le> 0 then context_minimum else o_parallel_slot_target opts)
          \<le> ps_min_context sh))"
proof -
  note bounds = cap_for_slots_bounds [where m = m and opts = opts and slots = slots, folded cap_def]
  have shapes: "1 \<le> ps_slots sh \<and> (ps_min_context sh = lo \<or>
        lo \<le> ps_min_context sh \<and> ps_min_context sh \<le> hi \<and> ps_slots sh * target \<le> ps_min_context sh)"
    if "sh \<in> set (shapes_down k target lo hi)" for k target sh
    using that by (induction k) (auto simp: Let_def split: if_splits)
  have "1 \<le> ps_slots sh \<and> (ps_min_context sh = lo \<or>
        lo \<le> ps_min_context sh \<and> ps_min_context sh \<le> hi \<and>
        ps_slots sh * (if o_parallel_slot_target opts \<le> 0 then context_minimum else o_parallel_slot_target opts)
          \<le> ps_min_context sh)" if "sh \<in> set (auto_context_parallel_shapes opts lo hi)" for sh
    using that shapes [of sh _ "if o_parallel_slot_target opts \<le> 0 then context_minimum else o_parallel_slot_target opts"]
    by (auto simp: auto_context_parallel_shapes_def Let_def split: if_splits)
  with bounds show ?thesis by blast
qed

theorem context_range_legal_witness:
  "\<exists>opts :: plan_options. auto_context_cap_for_slots (Some demo_model) opts 2 = 262144 \<and>
     context_granularity dvd auto_context_cap_for_slots (Some demo_model) opts 2 \<and>
     (\<exists>sh \<in> set (auto_context_parallel_shapes opts 32768 100000).
        ps_slots sh = 3 \<and> ps_slots sh * 32768 \<le> ps_min_context sh)"
proof -
  let ?o = "demo_options\<lparr>o_parallel := 4, o_auto_parallel := True\<rparr>"
  let ?sh = "\<lparr>ps_value = 3, ps_slots = 3, ps_min_context = 98304\<rparr>"
  have e: "auto_context_cap_for_slots (Some demo_model) ?o 2 = 262144" by code_simp
  have s: "?sh \<in> set (auto_context_parallel_shapes ?o 32768 100000)" by code_simp
  note l = context_range_legal [of demo_model ?o 2 32768 100000]
  have "context_granularity dvd auto_context_cap_for_slots (Some demo_model) ?o 2"
    using l e by (simp add: context_granularity_def)
  moreover have "ps_slots ?sh * 32768 \<le> ps_min_context ?sh"
    using l s by (auto simp: demo_options_def context_minimum_def)
  ultimately show ?thesis using e s by (intro exI [of _ ?o] conjI bexI [of _ ?sh]) simp_all
qed

end
