(* ===== verification/GoText.thy ===== *)
theory GoText
  imports Prelude
begin

text \<open>
  Quoted text: \<^verbatim>\<open>%q\<close> (\<^verbatim>\<open>strconv.Quote\<close>) and \<^verbatim>\<open>strconv.Unquote\<close> of a double-quoted
  ASCII literal, and the lines of a written file. An escape can name a character beyond ASCII; the reader
  reports that case apart, since what it decodes to is no ASCII string.
\<close>

definition newline_char :: char where "newline_char = CHR 0x0A"

section \<open>Quoting\<close>

definition hex_char :: "nat \<Rightarrow> char" where
  "hex_char d = (if d < 10 then digit_char d else char_of (d + 87))"

definition quote_char :: "char \<Rightarrow> string" where
  "quote_char c =
     (let n = of_char c :: nat in
      if c = CHR 0x22 then [CHR 0x5C, CHR 0x22]
      else if c = CHR 0x5C then [CHR 0x5C, CHR 0x5C]
      else if n = 7 then [CHR 0x5C, CHR ''a'']
      else if n = 8 then [CHR 0x5C, CHR ''b'']
      else if n = 12 then [CHR 0x5C, CHR ''f'']
      else if n = 10 then [CHR 0x5C, CHR ''n'']
      else if n = 13 then [CHR 0x5C, CHR ''r'']
      else if n = 9 then [CHR 0x5C, CHR ''t'']
      else if n = 11 then [CHR 0x5C, CHR ''v'']
      else if n < 32 \<or> n = 127 then [CHR 0x5C, CHR ''x'', hex_char (n div 16), hex_char (n mod 16)]
      else [c])"

definition dquote :: string where "dquote = [CHR 0x22]"

definition go_quote :: "string \<Rightarrow> string" where
  "go_quote s = dquote @ concat (map quote_char s) @ dquote"

section \<open>Unquoting\<close>

datatype unquoted = Malformed | Decoded string | Wide

definition unhex :: "char \<Rightarrow> nat option" where
  "unhex c =
     (let n = of_char c in
      if 48 \<le> n \<and> n \<le> 57 then Some (n - 48)
      else if 97 \<le> n \<and> n \<le> 102 then Some (n - 87)
      else if 65 \<le> n \<and> n \<le> 70 then Some (n - 55)
      else None)"

text \<open>\<open>n\<close> digits in the given base from the front of the text.\<close>

fun scan_code :: "nat \<Rightarrow> nat \<Rightarrow> nat \<Rightarrow> string \<Rightarrow> (nat \<times> string) option" where
  "scan_code base 0 v s = Some (v, s)"
| "scan_code base (Suc n) v [] = None"
| "scan_code base (Suc n) v (c # s) =
     (case unhex c of
        None \<Rightarrow> None
      | Some d \<Rightarrow> if d < base then scan_code base n (v * base + d) s else None)"

definition valid_rune :: "nat \<Rightarrow> bool" where
  "valid_rune v \<longleftrightarrow> v < 0xD800 \<or> 0xDFFF < v \<and> v \<le> 0x10FFFF"

text \<open>What follows a backslash: the code it stands for and the rest of the text.\<close>

definition scan_escape :: "string \<Rightarrow> (nat \<times> string) option" where
  "scan_escape s =
     (case s of
        [] \<Rightarrow> None
      | c # r \<Rightarrow>
          if c = CHR ''a'' then Some (7, r) else if c = CHR ''b'' then Some (8, r)
          else if c = CHR ''f'' then Some (12, r) else if c = CHR ''n'' then Some (10, r)
          else if c = CHR ''r'' then Some (13, r) else if c = CHR ''t'' then Some (9, r)
          else if c = CHR ''v'' then Some (11, r)
          else if c = CHR ''x'' then scan_code 16 2 0 r
          else if c = CHR ''u'' \<or> c = CHR ''U'' then
            (case scan_code 16 (if c = CHR ''u'' then 4 else 8) 0 r of
               None \<Rightarrow> None
             | Some (v, rest) \<Rightarrow> if valid_rune v then Some (v, rest) else None)
          else if 48 \<le> (of_char c :: nat) \<and> (of_char c :: nat) \<le> 55 then
            (case scan_code 8 3 0 s of
               None \<Rightarrow> None
             | Some (v, rest) \<Rightarrow> if v > 255 then None else Some (v, rest))
          else if c = CHR 0x5C then Some (0x5C, r)
          else if c = CHR 0x22 then Some (0x22, r)
          else None)"

definition push_code :: "nat \<Rightarrow> unquoted \<Rightarrow> unquoted" where
  "push_code v u =
     (case u of
        Malformed \<Rightarrow> Malformed
      | Wide \<Rightarrow> Wide
      | Decoded s \<Rightarrow> if v < 128 then Decoded (char_of v # s) else Wide)"

lemma scan_code_shorter: "scan_code base n v s = Some (w, rest) \<Longrightarrow> length rest \<le> length s"
  by (induction base n v s rule: scan_code.induct) (auto split: option.splits if_splits)

lemma scan_escape_shorter:
  assumes "scan_escape s = Some (v, rest)"
  shows "length rest \<le> length s"
proof (cases s)
  case (Cons c r)
  note sh = scan_code_shorter [of 16 2 0 r] scan_code_shorter [of 16 4 0 r] scan_code_shorter [of 16 8 0 r]
    scan_code_shorter [of 8 3 0 s]
  show ?thesis
    using assms sh unfolding Cons scan_escape_def
    by (auto split: if_splits option.splits prod.splits simp: le_SucI)
qed (use assms in \<open>simp add: scan_escape_def\<close>)

text \<open>The characters between the quotes of a literal.\<close>

function unquote_body :: "string \<Rightarrow> unquoted" where
  "unquote_body [] = Decoded []"
| "unquote_body (c # r) =
     (if c = CHR 0x22 \<or> c = newline_char then Malformed
      else if c \<noteq> CHR 0x5C then push_code (of_char c) (unquote_body r)
      else case scan_escape r of None \<Rightarrow> Malformed | Some (v, rest) \<Rightarrow> push_code v (unquote_body rest))"
  by pat_completeness auto
termination
  by (relation "measure length") (auto dest: scan_escape_shorter simp: less_Suc_eq_le)

section \<open>Unquoting what was quoted\<close>

definition ascii :: "char \<Rightarrow> bool" where "ascii c \<longleftrightarrow> of_char c < (128 :: nat)"

lemma push_code_char [simp]: "ascii c \<Longrightarrow> push_code (of_char c) (Decoded s) = Decoded (c # s)"
  by (simp add: push_code_def ascii_def)

definition plain_char :: "char \<Rightarrow> bool" where
  "plain_char c \<longleftrightarrow> 32 \<le> (of_char c :: nat) \<and> of_char c < (127 :: nat)"

lemma unquote_quoted:
  assumes "list_all plain_char s"
  shows "unquote_body (concat (map quote_char s)) = Decoded s"
  using assms
proof (induction s)
  case (Cons c s)
  then have c: "32 \<le> (of_char c :: nat)" "of_char c < (127 :: nat)" by (simp_all add: plain_char_def)
  then have a: "ascii c" and n: "c \<noteq> newline_char" by (auto simp: ascii_def newline_char_def)
  have esc: "scan_escape (CHR 0x22 # r) = Some (0x22, r)" "scan_escape (CHR 0x5C # r) = Some (0x5C, r)" for r
    by (simp_all add: scan_escape_def)
  have p: "push_code 0x22 (Decoded s) = Decoded (CHR 0x22 # s)" "push_code 0x5C (Decoded s) = Decoded (CHR 0x5C # s)"
    using char_of_char [of "CHR 0x22"] char_of_char [of "CHR 0x5C"] by (simp_all add: push_code_def)
  consider "c = CHR 0x22" | "c = CHR 0x5C" | "c \<noteq> CHR 0x22" "c \<noteq> CHR 0x5C" by blast
  then show ?case
  proof cases
    case 3
    then have "quote_char c = [c]" using c by (simp add: quote_char_def Let_def)
    then show ?thesis using Cons 3 n a by simp
  qed (use Cons in \<open>simp_all add: quote_char_def Let_def esc p newline_char_def\<close>)
qed simp

section \<open>Lines\<close>

lemma split_saved:
  assumes "ls \<noteq> []" "\<forall>l \<in> set ls. newline_char \<notin> set l"
  shows "split_char newline_char (join_with [newline_char] ls @ [newline_char]) = ls @ [[]]"
proof -
  have "join_with [newline_char] ls @ [newline_char] = join_with [newline_char] (ls @ [[]])"
    using assms(1) by (induction ls rule: induct_list012) auto
  then show ?thesis using assms by (simp add: split_char_join)
qed

end
