(* ===== verification/GoFloat.thy ===== *)
theory GoFloat
  imports Complex_Main "HOL-Library.Log_Nat"
begin

text \<open>
  The rounding of \<^verbatim>\<open>float64\<close>: a finite value is its exact rational, and \<open>f64\<close> is the nearest
  binary64 value of a rational, a tie going to the even significand. Every arithmetic operation of the source on
  \<^verbatim>\<open>float64\<close> values is the exact operation followed by \<open>f64\<close>. Values beyond the largest binary64
  value, which would become infinite, are outside the model: shares, megabytes and layer counts stay far below.
  A product followed by a sum is rounded twice, as on amd64, where Go does not fuse the two.
\<close>

section \<open>Rounding\<close>

definition round_half_even :: "rat \<Rightarrow> int" where
  "round_half_even x =
     (let f = \<lfloor>x\<rfloor>; d = x - of_int f in
      if d < 1 / 2 then f else if 1 / 2 < d then f + 1 else if even f then f else f + 1)"

definition pow2 :: "int \<Rightarrow> rat" where
  "pow2 k = (if 0 \<le> k then 2 ^ nat k else 1 / 2 ^ nat (- k))"

text \<open>The exponent of a positive rational: \<open>2 ^ e \<le> x < 2 ^ (e + 1)\<close>.\<close>

definition exponent :: "rat \<Rightarrow> int" where
  "exponent x = (let (p, q) = quotient_of x; k = bitlen p - bitlen q in if pow2 k \<le> x then k else k - 1)"

text \<open>The distance of neighbouring binary64 values around \<open>x\<close>; subnormal values share the least one.\<close>

definition spacing :: "rat \<Rightarrow> rat" where
  "spacing x = pow2 (max (exponent \<bar>x\<bar> - 52) (- 1074))"

definition f64 :: "rat \<Rightarrow> rat" where
  "f64 x = (if x = 0 then 0 else of_int (round_half_even (x / spacing x)) * spacing x)"

section \<open>Laws\<close>

lemma round_half_even_int [simp]: "round_half_even (of_int n) = n"
  by (simp add: round_half_even_def Let_def)

lemma round_half_even_mono:
  assumes "x \<le> y"
  shows "round_half_even x \<le> round_half_even y"
proof (cases "\<lfloor>x\<rfloor> = \<lfloor>y\<rfloor>")
  case True
  then show ?thesis using assms by (auto simp: round_half_even_def Let_def)
next
  case False
  then have "\<lfloor>x\<rfloor> + 1 \<le> \<lfloor>y\<rfloor>" using floor_mono [OF assms] by linarith
  moreover have "round_half_even x \<le> \<lfloor>x\<rfloor> + 1" "\<lfloor>y\<rfloor> \<le> round_half_even y"
    by (auto simp: round_half_even_def Let_def)
  ultimately show ?thesis by linarith
qed

lemma round_half_even_near: "\<bar>of_int (round_half_even x) - x\<bar> \<le> 1 / 2"
proof -
  have "of_int \<lfloor>x\<rfloor> \<le> x" "x < of_int \<lfloor>x\<rfloor> + 1" by linarith+
  then show ?thesis by (auto simp: round_half_even_def Let_def abs_le_iff)
qed

lemma pow2_code [code]:
  "pow2 k = (if 0 \<le> k then of_int (push_bit (nat k) 1) else of_int 1 / of_int (push_bit (nat (- k)) 1))"
  by (simp add: pow2_def push_bit_eq_mult)

lemma pow2_pos [simp]: "0 < pow2 k" "pow2 k \<noteq> 0"
  by (simp_all add: pow2_def)

lemma pow2_add: "pow2 (a + b) = pow2 a * pow2 b"
proof -
  have "pow2 k = 2 powi k" for k by (simp add: pow2_def power_int_def inverse_eq_divide power_one_over)
  then show ?thesis by (simp add: power_int_add)
qed

lemma pow2_mono: "a \<le> b \<Longrightarrow> pow2 a \<le> pow2 b"
proof -
  assume "a \<le> b"
  then have "1 \<le> pow2 (b - a)" by (simp add: pow2_def)
  then have "pow2 a * 1 \<le> pow2 a * pow2 (b - a)" by (intro mult_left_mono) (simp_all add: less_imp_le)
  then show ?thesis by (simp flip: pow2_add)
qed

lemma pow2_quotient: "b \<le> a \<Longrightarrow> \<exists>n::int. pow2 a / pow2 b = of_int n"
proof -
  assume "b \<le> a"
  then have "pow2 (a - b) = of_int (2 ^ nat (a - b))" by (simp add: pow2_def)
  moreover have "pow2 a = pow2 (a - b) * pow2 b" by (simp flip: pow2_add)
  ultimately show ?thesis by simp
qed

lemma exponent_bounds:
  assumes "0 < x"
  shows "pow2 (exponent x) \<le> x \<and> x < pow2 (exponent x + 1)"
proof -
  obtain p q where pq: "quotient_of x = (p, q)" by fastforce
  have q: "0 < q" using quotient_of_denom_pos [OF pq] .
  have x: "x = of_int p / of_int q" using quotient_of_div [OF pq] .
  have p: "0 < p" using assms x q by (simp add: zero_less_divide_iff)
  define k where "k = bitlen p - bitlen q"
  have bp: "2 ^ nat (bitlen p - 1) \<le> p" "p < 2 ^ nat (bitlen p)" using bitlen_bounds [OF p] by auto
  have bq: "2 ^ nat (bitlen q - 1) \<le> q" "q < 2 ^ nat (bitlen q)" using bitlen_bounds [OF q] by auto
  have pos: "1 \<le> bitlen p" "1 \<le> bitlen q" using p q by (simp_all add: bitlen_alt_def)
  have pow: "pow2 i = of_int (2 ^ nat i)" if "0 \<le> i" for i using that by (simp add: pow2_def)
  have P: "pow2 (bitlen p - 1) \<le> of_int p" "of_int p < pow2 (bitlen p)"
    using bp pos by (simp_all only: pow of_int_le_iff of_int_less_iff)
  have Q: "pow2 (bitlen q - 1) \<le> of_int q" "of_int q < pow2 (bitlen q)"
    using bq pos by (simp_all only: pow of_int_le_iff of_int_less_iff)
  have hi: "x < pow2 (k + 1)"
  proof -
    have "pow2 (k + 1) * pow2 (bitlen q - 1) \<le> pow2 (k + 1) * of_int q" using Q by (intro mult_left_mono) (simp_all add: less_imp_le)
    moreover have "pow2 (k + 1) * pow2 (bitlen q - 1) = pow2 (bitlen p)" by (simp add: k_def flip: pow2_add)
    ultimately show ?thesis using P(2) q by (simp add: x pos_divide_less_eq)
  qed
  have lo: "pow2 (k - 1) \<le> x"
  proof -
    have "pow2 (k - 1) * of_int q \<le> pow2 (k - 1) * pow2 (bitlen q)" using Q by (intro mult_left_mono) (simp_all add: less_imp_le)
    moreover have "pow2 (k - 1) * pow2 (bitlen q) = pow2 (bitlen p - 1)" by (simp add: k_def flip: pow2_add)
    ultimately show ?thesis using P(1) q by (simp add: x pos_le_divide_eq)
  qed
  show ?thesis using hi lo by (simp add: exponent_def pq flip: k_def)
qed

lemma exponent_mono: "0 < x \<Longrightarrow> x \<le> y \<Longrightarrow> exponent x \<le> exponent y"
proof (rule ccontr)
  assume x: "0 < x" "x \<le> y" and "\<not> exponent x \<le> exponent y"
  then have "pow2 (exponent y + 1) \<le> pow2 (exponent x)" by (intro pow2_mono) simp
  with exponent_bounds [of x] exponent_bounds [of y] x show False by simp
qed

lemma spacing_pos [simp]: "0 < spacing x" "spacing x \<noteq> 0"
  by (simp_all add: spacing_def)

lemma f64_on_grid:
  assumes "x \<noteq> 0" "y = of_int n * spacing x"
  shows "x \<le> y \<Longrightarrow> f64 x \<le> y" "y \<le> x \<Longrightarrow> y \<le> f64 x" "x = y \<Longrightarrow> f64 x = y"
proof -
  have n: "y / spacing x = of_int n" using assms(2) by simp
  have e: "f64 x = of_int (round_half_even (x / spacing x)) * spacing x" using assms(1) by (simp add: f64_def)
  show "f64 x \<le> y" if "x \<le> y"
  proof -
    have "round_half_even (x / spacing x) \<le> round_half_even (y / spacing x)"
      using that by (intro round_half_even_mono divide_right_mono) (simp_all add: less_imp_le)
    then show ?thesis by (simp add: e assms(2) n mult_right_mono less_imp_le)
  qed
  show "y \<le> f64 x" if "y \<le> x"
  proof -
    have "round_half_even (y / spacing x) \<le> round_half_even (x / spacing x)"
      using that by (intro round_half_even_mono divide_right_mono) (simp_all add: less_imp_le)
    then show ?thesis by (simp add: e assms(2) n mult_right_mono less_imp_le)
  qed
  show "f64 x = y" if "x = y" using that n by (simp add: e assms(2))
qed

lemma f64_nonneg: "0 \<le> x \<Longrightarrow> 0 \<le> f64 x"
  using f64_on_grid(2) [of x 0 0] by (cases "x = 0") (simp_all add: f64_def)

text \<open>Rounding keeps the order.\<close>

lemma f64_mono:
  assumes "0 \<le> x" "x \<le> y"
  shows "f64 x \<le> f64 y"
proof (cases "x = 0")
  case True
  then show ?thesis using f64_nonneg [of y] assms by (simp add: f64_def)
next
  case False
  then have pos: "0 < x" "0 < y" using assms by simp_all
  show ?thesis
  proof (cases "spacing x = spacing y")
    case True
    have "round_half_even (x / spacing y) \<le> round_half_even (y / spacing y)"
      using assms by (intro round_half_even_mono divide_right_mono) (simp_all add: less_imp_le)
    then show ?thesis using pos True by (simp add: f64_def mult_right_mono less_imp_le)
  next
    case False
    let ?e = "exponent y"
    have le: "exponent x \<le> ?e" using exponent_mono pos assms by simp
    have "exponent x \<noteq> ?e" using False pos by (auto simp: spacing_def)
    with le False pos have lt: "exponent x < ?e" "- 1074 < ?e - 52" by (auto simp: spacing_def max_def split: if_splits)
    have sx: "spacing x = pow2 (max (exponent x - 52) (- 1074))" and sy: "spacing y = pow2 (?e - 52)"
      using pos lt by (simp_all add: spacing_def)
    obtain n where n: "pow2 ?e = of_int n * spacing x"
      using pow2_quotient [of "max (exponent x - 52) (- 1074)" ?e] lt 
      by (auto simp: sx divide_eq_eq)
    obtain m where m: "pow2 ?e = of_int m * spacing y"
      using pow2_quotient [of "?e - 52" ?e] by (auto simp: sy divide_eq_eq)
    have "x \<le> pow2 ?e"
      using exponent_bounds [OF pos(1)] pow2_mono [of "exponent x + 1" ?e] lt by simp
    then have "f64 x \<le> pow2 ?e" using f64_on_grid(1) [OF _ n] pos by simp
    also have "\<dots> \<le> f64 y" using f64_on_grid(2) [OF _ m] exponent_bounds [OF pos(2)] pos by simp
    finally show ?thesis .
  qed
qed

lemma f64_0 [simp]: "f64 0 = 0"
  by (simp add: f64_def)

lemma f64_1 [simp]: "f64 1 = 1"
  by code_simp

lemma f64_below_one: "f64 (1 - 1 / 2 ^ 53) = 1 - 1 / 2 ^ 53"
  by code_simp

text \<open>A fraction of at most \<open>2 ^ 53\<close> parts is not rounded up to one.\<close>

lemma f64_fraction:
  assumes "0 \<le> s" "s < n" "n \<le> 2 ^ 53"
  shows "f64 (of_int s / of_int n) < 1"
proof -
  have le: "of_int s / of_int n \<le> (1 - 1 / 2 ^ 53 :: rat)"
  proof -
    have "of_int s \<le> (of_int (n - 1) :: rat)" "of_int n \<le> (of_int (2 ^ 53) :: rat)" "of_int 0 < (of_int n :: rat)"
      using assms by (simp_all only: of_int_le_iff of_int_less_iff)
    then have "of_int s * 2 ^ 53 + of_int n \<le> of_int n * (2 ^ 53 :: rat)" by simp
    with \<open>of_int 0 < of_int n\<close>
    show ?thesis by (simp add: field_simps)
  qed
  have "0 \<le> (of_int s / of_int n :: rat)" using assms by simp
  from f64_mono [OF this le] have "f64 (of_int s / of_int n) \<le> 1 - 1 / 2 ^ 53" unfolding f64_below_one .
  also have "\<dots> < 1" by simp
  finally show ?thesis .
qed

text \<open>
  A significand of 53 bits over a power of two is exact: counts and sizes below \<open>2 ^ 53\<close>, halves and
  quarters are not rounded.
\<close>

lemma f64_dyadic:
  assumes "x = of_int n * pow2 (- int j)" "\<bar>n\<bar> < 2 ^ 53" "j \<le> 1074"
  shows "f64 x = x"
proof (cases "x = 0")
  case False
  let ?k = "max (exponent \<bar>x\<bar> - 52) (- 1074)"
  have "\<bar>x\<bar> < of_int (2 ^ 53) * pow2 (- int j)"
    using assms(1,2) by (simp add: abs_mult abs_of_pos of_int_abs [symmetric] mult_strict_right_mono del: of_int_abs)
  also have "\<dots> = pow2 (53 - int j)" by (simp add: pow2_add [of 53 "- int j", simplified] pow2_def [of 53])
  finally have "pow2 (exponent \<bar>x\<bar>) < pow2 (53 - int j)" using exponent_bounds [of "\<bar>x\<bar>"] False by simp
  then have "\<not> 53 - int j \<le> exponent \<bar>x\<bar>" using pow2_mono by (meson not_le)
  then have "?k \<le> - int j" using assms(3) by simp
  then obtain m where "pow2 (- int j) / pow2 ?k = of_int m" using pow2_quotient by blast
  then have "x = of_int (n * m) * spacing x" by (simp add: assms(1) spacing_def field_simps)
  from f64_on_grid(3) [OF False this] this show ?thesis by simp
qed simp

lemma f64_of_int: "\<bar>n\<bar> < 2 ^ 53 \<Longrightarrow> f64 (of_int n) = of_int n"
  by (rule f64_dyadic [where j = 0 and n = n]) (simp_all add: pow2_def)

text \<open>
  For evaluation: a significand of 53 bits needs no rounding, and a result is written as a reduced fraction.
\<close>

definition reduced :: "rat \<Rightarrow> rat" where
  "reduced x = (case quotient_of x of (p, q) \<Rightarrow> of_int p / of_int q)"

lemma reduced_ident [simp]: "reduced x = x"
  using quotient_of_div [of x] by (auto simp: reduced_def split: prod.split)

definition short_significand :: "int \<Rightarrow> int \<Rightarrow> bool" where
  "short_significand p q \<longleftrightarrow>
     \<bar>p\<bar> < 9007199254740992 \<and> bitlen q \<le> 1074 \<and> q = push_bit (nat (bitlen q - 1)) 1"

lemma f64_code [code]:
  "f64 x = (case quotient_of x of (p, q) \<Rightarrow>
     if short_significand p q then of_int p / of_int q
     else reduced (of_int (round_half_even (of_int p / of_int q / spacing (of_int p / of_int q))) * spacing (of_int p / of_int q)))"
proof -
  obtain p q where pq: "quotient_of x = (p, q)" by fastforce
  have x: "of_int p / of_int q = x" using quotient_of_div [OF pq] by simp
  have "0 < q" using quotient_of_denom_pos [OF pq] .
  then have j: "0 \<le> bitlen q - 1" by (simp add: bitlen_alt_def)
  have "f64 x = x" if "short_significand p q"
  proof -
    have "x = of_int p * pow2 (- int (nat (bitlen q - 1)))"
      using x that by (auto simp: short_significand_def pow2_def push_bit_eq_mult)
    from f64_dyadic [OF this] that j show ?thesis by (auto simp: short_significand_def)
  qed
  moreover have "round_half_even 0 = 0" using round_half_even_int [of 0] by (simp del: round_half_even_int)
  ultimately show ?thesis by (simp add: pq x f64_def [of x])
qed

end
