(* ===== verification/PlacementCache.thy ===== *)
theory PlacementCache
  imports ContextSearch OverrideTensor GoText GoFloat
begin

text \<open>
  The placement cache (\<^verbatim>\<open>go/pkg/placement/cache.go\<close>): the text file a validated
  plan is written to, the reader that refuses a stale or incomplete plan, the entry made from a
  strategy, and \<^verbatim>\<open>ClearModelCaches\<close>, which finds every file of one model by the
  identity line written inside it.

  A file system is a list of named contents per directory; an unreadable file has no content. The
  Go map \<^verbatim>\<open>PlanFreeVRAM\<close> is an association list with one entry per index; where
  the code sorts its keys the model sorts the list. A tensor-split share is its exact rational
  value. The decoder of the two JSON record formats is a parameter (the model name it yields).
\<close>

section \<open>Formatting\<close>

text \<open>\<^verbatim>\<open>%.2f\<close>: correctly rounded, halves to even.\<close>

definition format_fixed2 :: "rat \<Rightarrow> string" where
  "format_fixed2 v =
     (let n = nat (round_half_even (\<bar>v\<bar> * 100)) in
      (if v < 0 then ''-'' else []) @ digits_of_nat (n div 100) @ ''.'' @
        [digit_char (n div 10 mod 10), digit_char (n mod 10)])"

section \<open>Writing an entry\<close>

definition cache_line :: "string \<Rightarrow> string \<Rightarrow> string" where
  "cache_line key val = key @ ''='' @ dquote @ val @ dquote"

definition assignment_token :: "gpu_assignment \<Rightarrow> string" where
  "assignment_token a = join_with '':'' [itoa (ga_cuda_index a), itoa (ga_start a), itoa (ga_count a)]"

definition free_token :: "int \<times> int \<Rightarrow> string" where
  "free_token p = join_with '':'' [itoa (fst p), itoa (snd p)]"

definition one_if :: "bool \<Rightarrow> string \<Rightarrow> string list" where
  "one_if b line = (if b then [line] else [])"

text \<open>The lines in the order they are appended; \<open>stamp\<close> is the UTC time of the comment.\<close>

definition entry_lines :: "string \<Rightarrow> cache_entry \<Rightarrow> string list" where
  "entry_lines stamp e =
     [''# ggrun placement cache ('' @ stamp @ '')''] @
     one_if (ce_model_basename e \<noteq> []) (''CACHED_MODEL_BASENAME='' @ go_quote (ce_model_basename e)) @
     one_if (ce_gpu_assignments e \<noteq> [])
       (cache_line ''CACHED_GPU_ASSIGNMENTS'' (join_with '' '' (map assignment_token (ce_gpu_assignments e)))) @
     one_if (ce_ot_string e \<noteq> []) (cache_line ''CACHED_OT_STRING'' (ce_ot_string e)) @
     one_if (ce_tensor_split e \<noteq> [])
       (cache_line ''CACHED_TENSOR_SPLIT'' (join_with '','' (map format_fixed2 (ce_tensor_split e)))) @
     one_if (ce_split_mode e \<noteq> []) (cache_line ''CACHED_SPLIT_MODE'' (ce_split_mode e)) @
     one_if (ce_n_cpu_moe e > 0) (cache_line ''CACHED_NCPUMOE'' (itoa (ce_n_cpu_moe e))) @
     [cache_line ''CACHED_BATCH'' (itoa (ce_batch_size e)),
      cache_line ''CACHED_UBATCH'' (itoa (ce_ubatch_size e)),
      cache_line ''CACHED_PARALLEL'' (itoa (ce_parallel e))] @
     one_if (ce_kv_unified e) (cache_line ''CACHED_KVUNIFIED'' ''1'') @
     one_if (ce_no_pinned e) (cache_line ''CACHED_NO_PINNED'' ''1'') @
     [cache_line ''CACHED_MMAP'' (if ce_mmap e then ''1'' else ''0'')] @
     one_if (ce_plan_free_vram e \<noteq> [])
       (cache_line ''CACHED_PLAN_FREEVRAM''
          (join_with '' '' (map free_token (sort_key fst (ce_plan_free_vram e)))))"

definition save_placement_cache :: "string \<Rightarrow> cache_entry \<Rightarrow> string" where
  "save_placement_cache stamp e = join_with [newline_char] (entry_lines stamp e) @ [newline_char]"

definition snapshot_plan_free_vram :: "capabilities option \<Rightarrow> (int \<times> int) list" where
  "snapshot_plan_free_vram co =
     (case co of
        None \<Rightarrow> []
      | Some c \<Rightarrow> foldl (\<lambda>out g. AList.update (g_index g) (vram_free_mb g) out) [] (c_gpus c))"

section \<open>The entry of a strategy\<close>

record placed_strategy = plan_strategy +
  pl_ot_string :: string
  pl_tensor_split :: "rat list"
  pl_split_mode :: string
  pl_n_cpu_moe :: int
  pl_batch_size :: int
  pl_ubatch_size :: int
  pl_mmap :: bool
  pl_model_basename :: string

definition strategy_to_cache_entry :: "placed_strategy option \<Rightarrow> cache_entry option" where
  "strategy_to_cache_entry so =
     (case so of
        None \<Rightarrow> None
      | Some s \<Rightarrow> Some (empty_entry\<lparr>
          ce_ot_string := pl_ot_string s,
          ce_tensor_split := pl_tensor_split s,
          ce_split_mode := pl_split_mode s,
          ce_n_cpu_moe := pl_n_cpu_moe s,
          ce_batch_size := pl_batch_size s,
          ce_ubatch_size := pl_ubatch_size s,
          ce_parallel := s_parallel s,
          ce_mmap := pl_mmap s,
          ce_kv_unified := (s_kv_placement s = ''gpu''),
          ce_model_basename := pl_model_basename s,
          ce_plan_free_vram := s_plan_free_vram s\<rparr>))"

section \<open>Reading an entry\<close>

datatype cache_error =
    CacheUnreadable
  | CacheStale int int int
  | CacheUnknownGpu int
  | CacheNoPlacement
  | CacheMissingMmap
  | CacheMissingSplit

definition parse_gpu_assignments :: "string \<Rightarrow> gpu_assignment list" where
  "parse_gpu_assignments s =
     List.map_filter (\<lambda>tok. case split_char CHR '':'' tok of
         [a, b, c] \<Rightarrow> Some \<lparr>ga_cuda_index = atoi_value a, ga_start = atoi_value b, ga_count = atoi_value c\<rparr>
       | _ \<Rightarrow> None)
       (Prelude.fields s)"

definition parse_plan_free_vram :: "string \<Rightarrow> (int \<times> int) list" where
  "parse_plan_free_vram s =
     foldl (\<lambda>out tok. case split_char CHR '':'' tok of
         [a, b] \<Rightarrow>
           (case (atoi a, atoi b) of
              (Some idx, Some free) \<Rightarrow> if free < 0 then out else AList.update idx free out
            | _ \<Rightarrow> out)
       | _ \<Rightarrow> out) [] (Prelude.fields s)"

text \<open>The \<^verbatim>\<open>switch\<close> over the keys; the second component is \<^verbatim>\<open>hasMMap\<close>.\<close>

definition set_cache_field :: "string \<Rightarrow> string \<Rightarrow> cache_entry \<times> bool \<Rightarrow> cache_entry \<times> bool" where
  "set_cache_field key v st =
     (let (e, has_mmap) = st in
      if key = ''CACHED_MODEL_BASENAME'' then (e\<lparr>ce_model_basename := v\<rparr>, has_mmap)
      else if key = ''CACHED_GPU_ASSIGNMENTS'' then (e\<lparr>ce_gpu_assignments := parse_gpu_assignments v\<rparr>, has_mmap)
      else if key = ''CACHED_OT_STRING'' then (e\<lparr>ce_ot_string := v\<rparr>, has_mmap)
      else if key = ''CACHED_TENSOR_SPLIT'' then (e\<lparr>ce_tensor_split := parse_tensor_split v\<rparr>, has_mmap)
      else if key = ''CACHED_SPLIT_MODE'' then (e\<lparr>ce_split_mode := v\<rparr>, has_mmap)
      else if key = ''CACHED_NCPUMOE'' then (e\<lparr>ce_n_cpu_moe := atoi_value v\<rparr>, has_mmap)
      else if key = ''CACHED_BATCH'' then (e\<lparr>ce_batch_size := atoi_value v\<rparr>, has_mmap)
      else if key = ''CACHED_UBATCH'' then (e\<lparr>ce_ubatch_size := atoi_value v\<rparr>, has_mmap)
      else if key = ''CACHED_PARALLEL'' then (e\<lparr>ce_parallel := atoi_value v\<rparr>, has_mmap)
      else if key = ''CACHED_KVUNIFIED'' then (e\<lparr>ce_kv_unified := (v = ''1'')\<rparr>, has_mmap)
      else if key = ''CACHED_NO_PINNED'' then (e\<lparr>ce_no_pinned := (v = ''1'')\<rparr>, has_mmap)
      else if key = ''CACHED_MMAP'' then (e\<lparr>ce_mmap := (v = ''1'')\<rparr>, True)
      else if key = ''CACHED_PLAN_FREEVRAM'' then (e\<lparr>ce_plan_free_vram := parse_plan_free_vram v\<rparr>, has_mmap)
      else st)"

definition parse_cache_line :: "cache_entry \<times> bool \<Rightarrow> string \<Rightarrow> cache_entry \<times> bool" where
  "parse_cache_line st line0 =
     (let line = trim_space line0 in
      if line = [] \<or> has_prefix line ''#'' then st
      else case cut_char CHR ''='' line of
          None \<Rightarrow> st
        | Some (k, v) \<Rightarrow> set_cache_field (trim_space k) (trim_chars dquote (trim_space v)) st)"

definition parse_cache :: "string \<Rightarrow> cache_entry \<times> bool" where
  "parse_cache content =
     foldl parse_cache_line
       (empty_entry\<lparr>ce_batch_size := 1024, ce_ubatch_size := 512, ce_parallel := 2\<rparr>, False)
       (split_char newline_char content)"

definition plan_free_vram_slack_mb :: int where "plan_free_vram_slack_mb = 1024"

definition stale_reading :: "gpu list \<Rightarrow> int \<times> int \<Rightarrow> cache_error option" where
  "stale_reading gpus p =
     (case List.find (\<lambda>g. g_index g = fst p \<and> vram_free_mb g > snd p + plan_free_vram_slack_mb) gpus of
        None \<Rightarrow> None
      | Some g \<Rightarrow> Some (CacheStale (fst p) (vram_free_mb g) (snd p)))"

fun first_some :: "('a \<Rightarrow> 'b option) \<Rightarrow> 'a list \<Rightarrow> 'b option" where
  "first_some f [] = None"
| "first_some f (x # xs) = (case f x of None \<Rightarrow> first_some f xs | Some y \<Rightarrow> Some y)"

definition unknown_gpu :: "gpu list \<Rightarrow> gpu_assignment \<Rightarrow> cache_error option" where
  "unknown_gpu gpus a =
     (if \<exists>g \<in> set gpus. g_index g = ga_cuda_index a then None else Some (CacheUnknownGpu (ga_cuda_index a)))"

text \<open>
  \<open>file\<close> is the content, \<open>None\<close> when it cannot be read. Among several stale devices the map
  iteration of the source picks the one named in the error; the model takes the first.
\<close>

definition load_placement_cache :: "string option \<Rightarrow> capabilities \<Rightarrow> cache_error + cache_entry" where
  "load_placement_cache file caps =
     (case file of
        None \<Rightarrow> Inl CacheUnreadable
      | Some content \<Rightarrow>
          let (e, has_mmap) = parse_cache content in
          case first_some (stale_reading (c_gpus caps)) (ce_plan_free_vram e) of
            Some err \<Rightarrow> Inl err
          | None \<Rightarrow>
              (case first_some (unknown_gpu (c_gpus caps)) (ce_gpu_assignments e) of
                 Some err \<Rightarrow> Inl err
               | None \<Rightarrow>
                   if ce_gpu_assignments e = [] \<and> ce_tensor_split e = [] \<and> ce_ot_string e = []
                   then Inl CacheNoPlacement
                   else if \<not> has_mmap then Inl CacheMissingMmap
                   else if ce_gpu_assignments e \<noteq> [] \<and> ce_tensor_split e = [] then Inl CacheMissingSplit
                   else Inr e))"

section \<open>Clearing the files of one model\<close>

definition probe_header :: string where "probe_header = ''# Probe cache for ''"
definition basename_header :: string where "basename_header = ''CACHED_MODEL_BASENAME=''"

definition line_names_model :: "(string \<Rightarrow> bool) \<Rightarrow> string \<Rightarrow> bool" where
  "line_names_model matcher line0 =
     (let line = trim_space line0 in
      if has_prefix line probe_header then matcher (trim_space (trim_prefix line probe_header))
      else if has_prefix line basename_header
        then matcher (trim_chars dquote (trim_space (trim_prefix line basename_header)))
      else False)"

definition probe_cache_for_model :: "string \<Rightarrow> (string \<Rightarrow> bool) \<Rightarrow> bool" where
  "probe_cache_for_model content matcher =
     list_ex (line_names_model matcher) (split_char newline_char content)"

text \<open>\<open>decode\<close> yields the model name of a stored decision, if it decodes and carries one.\<close>

definition calibration_decision_for_model :: "(string \<Rightarrow> string option) \<Rightarrow> string \<Rightarrow> string \<Rightarrow> bool" where
  "calibration_decision_for_model decode data base =
     (case decode data of
        Some name \<Rightarrow> name = base
      | None \<Rightarrow> list_ex (\<lambda>line0. let line = trim_space line0 in
            has_prefix line ''# model: '' \<and> line = ''# model: '' @ base) (split_char newline_char data))"

type_synonym dir = "(string \<times> string option) list"

record cache_dirs =
  cd_root :: dir
  cd_probes :: dir
  cd_calibration :: dir
  cd_verified :: dir

definition matches_model :: "string \<Rightarrow> string \<Rightarrow> string \<Rightarrow> bool" where
  "matches_model base path_base0 header =
     (let path_base = (if path_base0 = base then [] else path_base0) in
      (base \<noteq> [] \<and> header = base) \<or> (path_base \<noteq> [] \<and> header = path_base))"

definition removes :: "(string \<Rightarrow> bool) \<Rightarrow> (string \<Rightarrow> bool) \<Rightarrow> string \<times> string option \<Rightarrow> bool" where
  "removes name_ok content_ok f =
     (name_ok (fst f) \<and> (case snd f of None \<Rightarrow> False | Some c \<Rightarrow> content_ok c))"

text \<open>
  One directory pass: \<open>deletable\<close> says which matching files \<^verbatim>\<open>os.Remove\<close> succeeds
  on. The result is the directory left and the number of files removed.
\<close>

definition clear_dir ::
  "(string \<Rightarrow> bool) \<Rightarrow> (string \<Rightarrow> bool) \<Rightarrow> (string \<Rightarrow> bool) \<Rightarrow> dir \<Rightarrow> dir \<times> int" where
  "clear_dir deletable name_ok content_ok d =
     (filter (\<lambda>f. \<not> (removes name_ok content_ok f \<and> deletable (fst f))) d,
      int (length (filter (\<lambda>f. removes name_ok content_ok f \<and> deletable (fst f)) d)))"

text \<open>
  \<open>base\<close> and \<open>path_base\<close> are the two names of the model, \<open>kv_name\<close> the file of its
  measured KV rates, \<open>cal\<close> and \<open>ver\<close> the JSON decoders.
\<close>

definition clear_model_caches ::
  "(string \<Rightarrow> bool) \<Rightarrow> (string \<Rightarrow> string option) \<Rightarrow> (string \<Rightarrow> string option)
     \<Rightarrow> string \<Rightarrow> string \<Rightarrow> string \<Rightarrow> cache_dirs \<Rightarrow> cache_dirs \<times> int" where
  "clear_model_caches deletable cal ver kv_name base0 path_base cd =
     (let base = (if base0 = [] then path_base else base0) in
      if base = [] \<and> path_base = [] then (cd, 0)
      else
        let m = matches_model base path_base;
            root1 = filter (\<lambda>f. \<not> (fst f = kv_name \<and> deletable (fst f))) (cd_root cd);
            n1 = int (length (filter (\<lambda>f. fst f = kv_name \<and> deletable (fst f)) (cd_root cd)));
            (root2, n2) = clear_dir deletable
              (\<lambda>n. has_suffix n ''.probe'' \<or> has_suffix n ''.place'') (\<lambda>c. probe_cache_for_model c m) root1;
            (probes, n3) = clear_dir deletable
              (\<lambda>n. has_suffix n ''.probe'') (\<lambda>c. probe_cache_for_model c m) (cd_probes cd);
            (calibration, n4) = clear_dir deletable
              (\<lambda>n. has_suffix n ''.json'') (\<lambda>c. calibration_decision_for_model cal c base) (cd_calibration cd);
            (verified, n5) = clear_dir deletable
              (\<lambda>n. has_suffix n ''.json'')
              (\<lambda>c. case ver c of None \<Rightarrow> False | Some name \<Rightarrow> name \<noteq> [] \<and> m name) (cd_verified cd)
        in (\<lparr>cd_root = root2, cd_probes = probes, cd_calibration = calibration, cd_verified = verified\<rparr>,
            n1 + n2 + n3 + n4 + n5))"

section \<open>Reading a written line\<close>

definition bare_value :: "string \<Rightarrow> bool" where
  "bare_value v \<longleftrightarrow> newline_char \<notin> set v \<and> (v = [] \<or> hd v \<noteq> CHR 0x22 \<and> last v \<noteq> CHR 0x22)"

definition cache_key :: "string \<Rightarrow> bool" where
  "cache_key k \<longleftrightarrow> k \<noteq> [] \<and> list_all (\<lambda>c. \<not> is_space c \<and> c \<noteq> CHR ''='' \<and> c \<noteq> CHR ''#'') k"

lemma trim_chars_dquote:
  assumes "v = [] \<or> hd v \<noteq> CHR 0x22 \<and> last v \<noteq> CHR 0x22"
  shows "trim_chars dquote (dquote @ v @ dquote) = v"
proof (cases v)
  case (Cons c w)
  then have c: "c \<noteq> CHR 0x22" using assms by simp
  obtain u d where s: "v = u @ [d]" using Cons by (metis list.distinct(1) rev_exhaust)
  then have "d \<noteq> CHR 0x22" using assms by auto
  have "dropWhile (\<lambda>c. c \<in> set dquote) (dquote @ v @ dquote) = u @ [d] @ dquote"
    using s Cons c \<open>d \<noteq> CHR 0x22\<close> by (cases u) (auto simp: dquote_def)
  with \<open>d \<noteq> CHR 0x22\<close> s show ?thesis by (simp add: trim_chars_def dquote_def)
qed (simp add: trim_chars_def dquote_def)

lemma parse_written_line:
  assumes "cache_key k" "bare_value v"
  shows "parse_cache_line st (cache_line k v) = set_cache_field k v st"
proof -
  obtain c k' where k: "k = c # k'" "\<not> is_space c" "c \<noteq> CHR ''#''"
    using assms(1) by (cases k) (auto simp: cache_key_def)
  have q: "\<not> is_space (CHR 0x22)" by (simp add: is_space_def)
  have last: "last (cache_line k v) = CHR 0x22" by (simp add: cache_line_def dquote_def)
  have hd: "hd (cache_line k v) = c" by (simp add: cache_line_def k)
  have t: "trim_space (cache_line k v) = cache_line k v"
    by (intro trim_space_ident disjI2 conjI) (simp_all only: hd last q k(2) not_False_eq_True)
  have tv: "trim_space (dquote @ v @ dquote) = dquote @ v @ dquote"
    by (rule trim_space_ident) (simp add: dquote_def q)
  have tk: "trim_space k = k"
    by (rule trim_space_ident) (use assms(1) in \<open>auto simp: cache_key_def list_all_iff\<close>)
  have cut: "cut_char CHR ''='' (cache_line k v) = Some (k, dquote @ v @ dquote)"
    using assms(1) cut_char_append [of "CHR ''=''" k "dquote @ v @ dquote"]
    by (auto simp: cache_line_def cache_key_def list_all_iff)
  have "cache_line k v \<noteq> []" "\<not> has_prefix (cache_line k v) ''#''"
    using k by (simp_all add: cache_line_def)
  then show ?thesis using assms(2)
    by (simp add: parse_cache_line_def t cut tv tk bare_value_def trim_chars_dquote del: has_prefix.simps)
qed

lemma parse_comment: "parse_cache_line st (''# ggrun placement cache ('' @ s @ '')'') = st"
proof -
  have "trim_space (''# ggrun placement cache ('' @ s @ '')'') = ''# ggrun placement cache ('' @ s @ '')''"
    by (rule trim_space_ident) (simp add: is_space_def)
  then show ?thesis by (simp add: parse_cache_line_def)
qed

lemma parse_empty_line: "parse_cache_line st [] = st"
  by (simp add: parse_cache_line_def trim_space_def trim_left_def trim_right_def)

section \<open>Reading the written values\<close>

lemma itoa_plain:
  assumes "c \<in> set (itoa i)"
  shows "\<not> is_space c" "c \<noteq> CHR '':''" "c \<noteq> CHR 0x22" "c \<noteq> newline_char"
proof -
  consider "is_digit c" | "c = CHR ''-''" using set_itoa_chars [OF assms] by blast
  then have "\<not> is_space c \<and> c \<noteq> CHR '':'' \<and> c \<noteq> CHR 0x22 \<and> c \<noteq> newline_char"
    by cases (auto simp: digit_not_special newline_char_def is_space_def is_digit_def)
  then show "\<not> is_space c" "c \<noteq> CHR '':''" "c \<noteq> CHR 0x22" "c \<noteq> newline_char" by auto
qed

lemma parse_assignment_tokens:
  assumes "\<forall>a \<in> set as. \<forall>i \<in> {ga_cuda_index a, ga_start a, ga_count a}. min_int \<le> i \<and> i \<le> max_int"
  shows "parse_gpu_assignments (join_with '' '' (map assignment_token as)) = as"
proof -
  have tok: "assignment_token a \<noteq> [] \<and> list_all (\<lambda>c. \<not> is_space c) (assignment_token a)" for a
    by (auto simp: assignment_token_def list_all_iff itoa_plain) (auto simp: is_space_def)
  have split: "split_char CHR '':'' (assignment_token a) =
      [itoa (ga_cuda_index a), itoa (ga_start a), itoa (ga_count a)]" for a
    unfolding assignment_token_def by (rule split_char_join) (auto dest: itoa_plain)
  have "Prelude.fields (join_with '' '' (map assignment_token as)) = map assignment_token as"
    by (rule fields_join) (use tok in auto)
  moreover have "List.map_filter (\<lambda>tok. case split_char CHR '':'' tok of
         [a, b, c] \<Rightarrow> Some \<lparr>ga_cuda_index = atoi_value a, ga_start = atoi_value b, ga_count = atoi_value c\<rparr>
       | _ \<Rightarrow> None) (map assignment_token as) = as"
    using assms by (induction as) (auto simp: List.map_filter_simps split atoi_value_itoa)
  ultimately show ?thesis by (simp only: parse_gpu_assignments_def)
qed

lemma parse_free_tokens:
  assumes "\<forall>p \<in> set ps. min_int \<le> fst p \<and> fst p \<le> max_int \<and> 0 \<le> snd p \<and> snd p \<le> max_int"
    "distinct (map fst ps)"
  shows "parse_plan_free_vram (join_with '' '' (map free_token ps)) = ps"
proof -
  have tok: "free_token p \<noteq> [] \<and> list_all (\<lambda>c. \<not> is_space c) (free_token p)" for p
    by (auto simp: free_token_def list_all_iff itoa_plain) (auto simp: is_space_def)
  have split: "split_char CHR '':'' (free_token p) = [itoa (fst p), itoa (snd p)]" for p
    unfolding free_token_def by (rule split_char_join) (auto dest: itoa_plain)
  have f: "Prelude.fields (join_with '' '' (map free_token ps)) = map free_token ps"
    by (rule fields_join) (use tok in auto)
  let ?step = "\<lambda>out tok. case split_char CHR '':'' tok of
         [a, b] \<Rightarrow>
           (case (atoi a, atoi b) of
              (Some idx, Some free) \<Rightarrow> if free < 0 then out else AList.update idx free out
            | _ \<Rightarrow> out)
       | _ \<Rightarrow> out"
  have upd: "AList.update k v out = out @ [(k, v)]" if "k \<notin> fst ` set out"
    for k v and out :: "(int \<times> int) list"
    using that by (induction out) auto
  have "foldl ?step out (map free_token ps) = out @ ps"
    if "set (map fst out) \<inter> set (map fst ps) = {}" for out
    using that assms
  proof (induction ps arbitrary: out)
    case (Cons p ps)
    have "min_int \<le> snd p" using Cons.prems(2) by (auto simp: min_int_def)
    then have "?step out (free_token p) = AList.update (fst p) (snd p) out"
      using Cons.prems(2) by (simp add: split atoi_itoa)
    also have "\<dots> = out @ [p]" using Cons.prems(1) by (subst upd) auto
    finally have s: "?step out (free_token p) = out @ [p]" .
    have "foldl ?step (out @ [p]) (map free_token ps) = (out @ [p]) @ ps"
      by (rule Cons.IH) (use Cons.prems in auto)
    then show ?case unfolding list.map foldl.simps s by simp
  qed simp
  from this [of "[]"] f show ?thesis by (simp add: parse_plan_free_vram_def)
qed

section \<open>Shares and names\<close>

definition round2 :: "rat \<Rightarrow> rat" where
  "round2 v = of_int (round_half_even (v * 100)) / 100"

lemma round_half_even_nonneg: "0 \<le> x \<Longrightarrow> 0 \<le> round_half_even x"
  by (simp add: round_half_even_def Let_def)

lemma round2_close: "\<bar>round2 v - v\<bar> \<le> 1 / 200"
proof -
  let ?f = "of_int \<lfloor>v * 100\<rfloor> :: rat"
  have "?f \<le> v * 100" "v * 100 < ?f + 1" by (simp, linarith)
  then have "\<bar>of_int (round_half_even (v * 100)) - v * 100\<bar> \<le> 1 / 2"
    by (auto simp: round_half_even_def Let_def abs_le_iff)
  then show ?thesis by (simp add: round2_def abs_le_iff field_simps)
qed

lemma parse_format_fixed2:
  assumes "0 \<le> v"
  shows "parse_decimal (format_fixed2 v) = Some (round2 v)"
proof -
  define n where "n = nat (round_half_even (v * 100))"
  let ?a = "digits_of_nat (n div 100)" and ?b = "[digit_char (n div 10 mod 10), digit_char (n mod 10)]"
  have f: "format_fixed2 v = ?a @ CHR ''.'' # ?b"
    using assms by (simp add: format_fixed2_def n_def Let_def)
  have d: "list_all is_digit ?a" "list_all is_digit ?b" by (simp_all add: digits_of_nat_digits)
  then have "CHR ''.'' \<notin> set ?a" by (auto simp: list_all_iff dest: digit_not_special)
  then have cut: "cut_char CHR ''.'' (format_fixed2 v) = Some (?a, ?b)"
    unfolding f by (rule cut_char_append)
  have b: "nat_of_digits ?b = 10 * (n div 10 mod 10) + n mod 10" by (simp add: nat_of_digits_def)
  have "n = 100 * (n div 100) + (10 * (n div 10 mod 10) + n mod 10)"
  proof -
    have "n div 10 div 10 = n div 100" by (simp flip: div_mult2_eq)
    then show ?thesis using div_mult_mod_eq [of n 10] div_mult_mod_eq [of "n div 10" 10] by linarith
  qed
  then have "of_nat n = (100 * of_nat (n div 100) + of_nat (10 * (n div 10 mod 10) + n mod 10) :: rat)"
    by (metis of_nat_add of_nat_mult of_nat_numeral)
  then have val: "of_nat (n div 100) + of_nat (10 * (n div 10 mod 10) + n mod 10) / 100 = (of_nat n / 100 :: rat)"
    by (simp add: field_simps)
  have u: "parse_unsigned_decimal (format_fixed2 v) = Some (of_nat n / 100)"
  proof -
    have "length ?b = 2" by simp
    then show ?thesis unfolding parse_unsigned_decimal_def cut Let_def option.case prod.case b nat_of_digits_of_nat
      using d val by (simp only: simp_thms if_True append_is_Nil_conv list.simps power2_eq_square) simp
  qed
  obtain c r where c: "?a = c # r" by (cases ?a) auto
  with d(1) have "is_digit c" by simp
  then have "c \<noteq> CHR ''-''" "c \<noteq> CHR ''+''" by (simp_all add: digit_not_special)
  then have "parse_decimal (format_fixed2 v) = parse_unsigned_decimal (format_fixed2 v)"
    by (simp add: parse_decimal_def f c)
  moreover have "(of_nat n :: rat) = of_int (round_half_even (v * 100))"
    using round_half_even_nonneg [of "v * 100"] assms by (simp add: n_def)
  ultimately show ?thesis using u by (simp add: round2_def)
qed

lemma format_fixed2_chars:
  assumes "0 \<le> v"
  shows "format_fixed2 v \<noteq> []" "list_all (\<lambda>c. is_digit c \<or> c = CHR ''.'') (format_fixed2 v)"
  using assms digits_of_nat_digits by (auto simp: format_fixed2_def Let_def list_all_iff)

lemma fields_func_word:
  "list_all (\<lambda>c. \<not> sep c) p \<Longrightarrow> fields_func sep w (p @ s) = fields_func sep (rev p @ w) s"
  by (induction p arbitrary: w) auto

lemma fields_func_join:
  "sep d \<Longrightarrow> \<forall>p \<in> set ps. p \<noteq> [] \<and> list_all (\<lambda>c. \<not> sep c) p \<Longrightarrow> fields_func sep [] (join_with [d] ps) = ps"
proof (induction ps rule: induct_list012)
  case (2 p)
  then show ?case using fields_func_word [of sep p "[]" "[]"] by simp
next
  case (3 p q ps)
  then show ?case by (simp add: fields_func_word [of sep p "[]"])
qed simp

lemma parse_split_tokens:
  assumes "\<forall>v \<in> set vs. 0 \<le> v"
  shows "parse_tensor_split (join_with '','' (map format_fixed2 vs)) = map round2 vs"
proof -
  have ns: "\<not> split_separator c" if "is_digit c \<or> c = CHR ''.''" for c
    using that digit_not_special [of c] by (auto simp: split_separator_def is_space_def)
  have "fields_func split_separator [] (join_with '','' (map format_fixed2 vs)) = map format_fixed2 vs"
  proof (rule fields_func_join)
    show "split_separator CHR '',''" by (simp add: split_separator_def)
    show "\<forall>p \<in> set (map format_fixed2 vs). p \<noteq> [] \<and> list_all (\<lambda>c. \<not> split_separator c) p"
      using assms format_fixed2_chars ns by (fastforce simp: list_all_iff)
  qed
  moreover have "List.map_filter (\<lambda>f. case parse_decimal f of
         None \<Rightarrow> None | Some v \<Rightarrow> if v < 0 then None else Some v) (map format_fixed2 vs) = map round2 vs"
    using assms round_half_even_nonneg
    by (induction vs) (auto simp: List.map_filter_simps parse_format_fixed2 round2_def not_less)
  ultimately show ?thesis by (simp add: parse_tensor_split_def)
qed

definition plain_name :: "string \<Rightarrow> bool" where
  "plain_name s = list_all (\<lambda>c. quote_char c = [c]) s"

lemma go_quote_plain:
  assumes "plain_name s"
  shows "go_quote s = dquote @ s @ dquote" "bare_value s"
proof -
  have c: "concat (map quote_char s) = s"
    using assms by (induction s) (auto simp: plain_name_def)
  then show "go_quote s = dquote @ s @ dquote" by (simp add: go_quote_def)
  have "c \<noteq> CHR 0x22 \<and> c \<noteq> newline_char" if "c \<in> set s" for c
    using assms that
    by (auto simp: plain_name_def list_all_iff quote_char_def newline_char_def)
  then show "bare_value s" by (cases s) (auto simp: bare_value_def)
qed

text \<open>A quoted name has strictly more backslashes when a quote or backslash is in it.\<close>

lemma count_backslash_quote:
  "count_list (concat (map quote_char s)) CHR 0x5C \<ge> count_list s CHR 0x5C + count_list s CHR 0x22
     + (if CHR 0x5C \<in> set s then 1 else 0)"
proof (induction s)
  case (Cons c s)
  have "count_list (quote_char c) CHR 0x5C \<ge> (if c = CHR 0x5C then 2 else if c = CHR 0x22 then 1 else 0)"
    by (simp add: quote_char_def Let_def)
  with Cons show ?case by (auto split: if_splits)
qed simp

lemma trim_chars_count:
  "x \<notin> set cs \<Longrightarrow> count_list (trim_chars cs s) x = count_list s x"
proof -
  assume x: "x \<notin> set cs"
  have d: "count_list (dropWhile (\<lambda>c. c \<in> set cs) t) x = count_list t x" for t
    using x by (induction t) auto
  have r: "count_list (rev t) x = count_list t x" for t
    by (induction t) auto
  show ?thesis by (simp add: trim_chars_def r d)
qed

lemma quoted_name_differs:
  assumes "CHR 0x22 \<in> set s \<or> CHR 0x5C \<in> set s"
  shows "trim_chars dquote (go_quote s) \<noteq> s"
proof
  assume e: "trim_chars dquote (go_quote s) = s"
  have "count_list (trim_chars dquote (go_quote s)) CHR 0x5C = count_list (concat (map quote_char s)) CHR 0x5C"
    by (subst trim_chars_count) (simp_all add: dquote_def go_quote_def)
  with e have "count_list s CHR 0x5C \<ge> count_list s CHR 0x5C + count_list s CHR 0x22
     + (if CHR 0x5C \<in> set s then 1 else 0)" using count_backslash_quote [of s] by simp
  with assms show False by (auto simp: count_list_0_iff split: if_splits)
qed

section \<open>The round trip\<close>

definition storable_entry :: "cache_entry \<Rightarrow> bool" where
  "storable_entry e \<longleftrightarrow>
     plain_name (ce_model_basename e) \<and> bare_value (ce_ot_string e) \<and> bare_value (ce_split_mode e) \<and>
     list_all (\<lambda>a. list_all (\<lambda>i. min_int \<le> i \<and> i \<le> max_int) [ga_cuda_index a, ga_start a, ga_count a])
       (ce_gpu_assignments e) \<and>
     list_all (\<lambda>v. 0 \<le> v) (ce_tensor_split e) \<and>
     list_all (\<lambda>i. min_int \<le> i \<and> i \<le> max_int)
       [ce_n_cpu_moe e, ce_batch_size e, ce_ubatch_size e, ce_parallel e] \<and>
     0 \<le> ce_n_cpu_moe e \<and>
     distinct (map fst (ce_plan_free_vram e)) \<and>
     list_all (\<lambda>p. min_int \<le> fst p \<and> fst p \<le> max_int \<and> 0 \<le> snd p \<and> snd p \<le> max_int) (ce_plan_free_vram e)"

text \<open>What a stored entry reads back as: shares to two decimals, readings by index.\<close>

definition stored_entry :: "cache_entry \<Rightarrow> cache_entry" where
  "stored_entry e = e\<lparr>ce_tensor_split := map round2 (ce_tensor_split e),
                      ce_plan_free_vram := sort_key fst (ce_plan_free_vram e)\<rparr>"

lemma bare_chars: "\<forall>c \<in> set v. c \<noteq> CHR 0x22 \<and> c \<noteq> newline_char \<Longrightarrow> bare_value v"
  unfolding bare_value_def using hd_in_set last_in_set by metis

lemma bare_join:
  assumes "\<forall>p \<in> set ps. \<forall>c \<in> set p. c \<noteq> CHR 0x22 \<and> c \<noteq> newline_char"
    "\<forall>c \<in> set d. c \<noteq> CHR 0x22 \<and> c \<noteq> newline_char"
  shows "bare_value (join_with d ps)"
proof (rule bare_chars)
  have "set (join_with d ps) \<subseteq> set d \<union> \<Union> (set ` set ps)"
    by (induction d ps rule: join_with.induct) auto
  then show "\<forall>c \<in> set (join_with d ps). c \<noteq> CHR 0x22 \<and> c \<noteq> newline_char"
    using assms by blast
qed

lemma bare_itoa [simp]: "bare_value (itoa i)"
  by (rule bare_chars) (simp add: itoa_plain)

lemma bare_flag [simp]: "bare_value ''1''" "bare_value ''0''"
  by (simp_all add: bare_value_def newline_char_def)

lemma bare_tokens:
  "bare_value (join_with '' '' (map assignment_token as))"
  "bare_value (join_with '' '' (map free_token ps))"
proof -
  have a: "c \<noteq> CHR 0x22 \<and> c \<noteq> newline_char" if "c \<in> set (assignment_token a)" for c a
    using that itoa_plain(3,4) by (auto simp: assignment_token_def newline_char_def)
  have f: "c \<noteq> CHR 0x22 \<and> c \<noteq> newline_char" if "c \<in> set (free_token p)" for c p
    using that itoa_plain(3,4) by (auto simp: free_token_def newline_char_def)
  have sp: "\<forall>c \<in> set '' ''. c \<noteq> CHR 0x22 \<and> c \<noteq> newline_char" by (simp add: newline_char_def)
  show "bare_value (join_with '' '' (map assignment_token as))"
    by (rule bare_join [OF _ sp]) (use a in \<open>simp add: image_iff\<close>)
  show "bare_value (join_with '' '' (map free_token ps))"
    by (rule bare_join [OF _ sp]) (use f in \<open>simp add: image_iff\<close>)
qed

lemma bare_split_tokens:
  assumes "\<forall>v \<in> set vs. 0 \<le> v"
  shows "bare_value (join_with '','' (map format_fixed2 vs))"
proof (rule bare_join)
  have d: "c \<noteq> CHR 0x22 \<and> c \<noteq> newline_char" if "is_digit c \<or> c = CHR ''.''" for c
    using that by (auto simp: is_digit_def newline_char_def)
  show "\<forall>p \<in> set (map format_fixed2 vs). \<forall>c \<in> set p. c \<noteq> CHR 0x22 \<and> c \<noteq> newline_char"
  proof (intro ballI)
    fix p c assume "p \<in> set (map format_fixed2 vs)" "c \<in> set p"
    then show "c \<noteq> CHR 0x22 \<and> c \<noteq> newline_char"
      using assms format_fixed2_chars(2) by (intro d) (auto simp: list_all_iff)
  qed
qed (simp add: newline_char_def)

lemma cache_keys [simp]:
  "cache_key ''CACHED_MODEL_BASENAME''" "cache_key ''CACHED_GPU_ASSIGNMENTS''" "cache_key ''CACHED_OT_STRING''"
  "cache_key ''CACHED_TENSOR_SPLIT''" "cache_key ''CACHED_SPLIT_MODE''" "cache_key ''CACHED_NCPUMOE''"
  "cache_key ''CACHED_BATCH''" "cache_key ''CACHED_UBATCH''" "cache_key ''CACHED_PARALLEL''"
  "cache_key ''CACHED_KVUNIFIED''" "cache_key ''CACHED_NO_PINNED''" "cache_key ''CACHED_MMAP''"
  "cache_key ''CACHED_PLAN_FREEVRAM''"
  by (simp_all add: cache_key_def is_space_def)

lemma set_cache_field_key [simp]:
  "set_cache_field ''CACHED_MODEL_BASENAME'' v (e, h) = (e\<lparr>ce_model_basename := v\<rparr>, h)"
  "set_cache_field ''CACHED_GPU_ASSIGNMENTS'' v (e, h) = (e\<lparr>ce_gpu_assignments := parse_gpu_assignments v\<rparr>, h)"
  "set_cache_field ''CACHED_OT_STRING'' v (e, h) = (e\<lparr>ce_ot_string := v\<rparr>, h)"
  "set_cache_field ''CACHED_TENSOR_SPLIT'' v (e, h) = (e\<lparr>ce_tensor_split := parse_tensor_split v\<rparr>, h)"
  "set_cache_field ''CACHED_SPLIT_MODE'' v (e, h) = (e\<lparr>ce_split_mode := v\<rparr>, h)"
  "set_cache_field ''CACHED_NCPUMOE'' v (e, h) = (e\<lparr>ce_n_cpu_moe := atoi_value v\<rparr>, h)"
  "set_cache_field ''CACHED_BATCH'' v (e, h) = (e\<lparr>ce_batch_size := atoi_value v\<rparr>, h)"
  "set_cache_field ''CACHED_UBATCH'' v (e, h) = (e\<lparr>ce_ubatch_size := atoi_value v\<rparr>, h)"
  "set_cache_field ''CACHED_PARALLEL'' v (e, h) = (e\<lparr>ce_parallel := atoi_value v\<rparr>, h)"
  "set_cache_field ''CACHED_KVUNIFIED'' v (e, h) = (e\<lparr>ce_kv_unified := (v = ''1'')\<rparr>, h)"
  "set_cache_field ''CACHED_NO_PINNED'' v (e, h) = (e\<lparr>ce_no_pinned := (v = ''1'')\<rparr>, h)"
  "set_cache_field ''CACHED_MMAP'' v (e, h) = (e\<lparr>ce_mmap := (v = ''1'')\<rparr>, True)"
  "set_cache_field ''CACHED_PLAN_FREEVRAM'' v (e, h) = (e\<lparr>ce_plan_free_vram := parse_plan_free_vram v\<rparr>, h)"
  by (simp_all add: set_cache_field_def)

lemma foldl_one_if: "foldl f st (one_if b l) = (if b then f st l else st)"
  by (simp add: one_if_def)

lemma parse_entry_lines:
  assumes "storable_entry e"
  shows "foldl parse_cache_line
      (empty_entry\<lparr>ce_batch_size := 1024, ce_ubatch_size := 512, ce_parallel := 2\<rparr>, False)
      (entry_lines stamp e) = (stored_entry e, True)"
proof -
  note S = assms [unfolded storable_entry_def list_all_iff]
  let ?i = "empty_entry\<lparr>ce_batch_size := 1024, ce_ubatch_size := 512, ce_parallel := 2\<rparr>"
  let ?st = "sort_key fst (ce_plan_free_vram e)"
  have name: "parse_cache_line st (''CACHED_MODEL_BASENAME='' @ go_quote (ce_model_basename e)) =
      set_cache_field ''CACHED_MODEL_BASENAME'' (ce_model_basename e) st" for st
    using S parse_written_line [of "''CACHED_MODEL_BASENAME''" "ce_model_basename e" st]
      go_quote_plain [of "ce_model_basename e"] by (simp add: cache_line_def)
  have gpus: "parse_gpu_assignments (join_with '' '' (map assignment_token (ce_gpu_assignments e))) = ce_gpu_assignments e"
    using S by (intro parse_assignment_tokens) auto
  have split: "parse_tensor_split (join_with '','' (map format_fixed2 (ce_tensor_split e))) = map round2 (ce_tensor_split e)"
    "bare_value (join_with '','' (map format_fixed2 (ce_tensor_split e)))"
    using S by (auto intro: parse_split_tokens bare_split_tokens)
  have free: "parse_plan_free_vram (join_with '' '' (map free_token ?st)) = ?st"
    by (rule parse_free_tokens) (use S in \<open>auto simp: distinct_map inj_on_def\<close>)
  have ints: "atoi_value (itoa (ce_n_cpu_moe e)) = ce_n_cpu_moe e" "atoi_value (itoa (ce_batch_size e)) = ce_batch_size e"
    "atoi_value (itoa (ce_ubatch_size e)) = ce_ubatch_size e" "atoi_value (itoa (ce_parallel e)) = ce_parallel e"
    using S by (auto intro: atoi_value_itoa)
  let ?f = "foldl parse_cache_line"
  let ?e1 = "?i\<lparr>ce_model_basename := ce_model_basename e\<rparr>"
  let ?e2 = "?e1\<lparr>ce_gpu_assignments := ce_gpu_assignments e\<rparr>"
  let ?e3 = "?e2\<lparr>ce_ot_string := ce_ot_string e\<rparr>"
  let ?e4 = "?e3\<lparr>ce_tensor_split := map round2 (ce_tensor_split e)\<rparr>"
  let ?e5 = "?e4\<lparr>ce_split_mode := ce_split_mode e\<rparr>"
  let ?e6 = "?e5\<lparr>ce_n_cpu_moe := ce_n_cpu_moe e\<rparr>"
  let ?e7 = "?e6\<lparr>ce_batch_size := ce_batch_size e, ce_ubatch_size := ce_ubatch_size e, ce_parallel := ce_parallel e\<rparr>"
  let ?e8 = "?e7\<lparr>ce_kv_unified := ce_kv_unified e\<rparr>"
  let ?e9 = "?e8\<lparr>ce_no_pinned := ce_no_pinned e\<rparr>"
  let ?e10 = "?e9\<lparr>ce_mmap := ce_mmap e\<rparr>"
  note step = foldl_one_if parse_written_line bare_tokens
  have "?f (?i, False) [''# ggrun placement cache ('' @ stamp @ '')''] = (?i, False)"
    by (simp only: foldl_Cons foldl_Nil parse_comment)
  moreover have "?f (?i, False)
      (one_if (ce_model_basename e \<noteq> []) (''CACHED_MODEL_BASENAME='' @ go_quote (ce_model_basename e))) = (?e1, False)"
    unfolding foldl_one_if name by (simp add: empty_entry_def)
  moreover have "?f (?e1, False) (one_if (ce_gpu_assignments e \<noteq> [])
      (cache_line ''CACHED_GPU_ASSIGNMENTS'' (join_with '' '' (map assignment_token (ce_gpu_assignments e))))) = (?e2, False)"
    by (simp add: step gpus empty_entry_def)
  moreover have "?f (?e2, False) (one_if (ce_ot_string e \<noteq> []) (cache_line ''CACHED_OT_STRING'' (ce_ot_string e))) = (?e3, False)"
    using S by (simp add: step empty_entry_def)
  moreover have "?f (?e3, False) (one_if (ce_tensor_split e \<noteq> [])
      (cache_line ''CACHED_TENSOR_SPLIT'' (join_with '','' (map format_fixed2 (ce_tensor_split e))))) = (?e4, False)"
    by (simp add: step split empty_entry_def)
  moreover have "?f (?e4, False) (one_if (ce_split_mode e \<noteq> []) (cache_line ''CACHED_SPLIT_MODE'' (ce_split_mode e))) = (?e5, False)"
    using S by (simp add: step empty_entry_def)
  moreover have "?f (?e5, False) (one_if (ce_n_cpu_moe e > 0) (cache_line ''CACHED_NCPUMOE'' (itoa (ce_n_cpu_moe e)))) = (?e6, False)"
    using S by (simp add: step ints empty_entry_def)
  moreover have "?f (?e6, False) [cache_line ''CACHED_BATCH'' (itoa (ce_batch_size e)),
      cache_line ''CACHED_UBATCH'' (itoa (ce_ubatch_size e)),
      cache_line ''CACHED_PARALLEL'' (itoa (ce_parallel e))] = (?e7, False)"
    by (simp add: step ints)
  moreover have "?f (?e7, False) (one_if (ce_kv_unified e) (cache_line ''CACHED_KVUNIFIED'' ''1'')) = (?e8, False)"
    by (simp add: step empty_entry_def)
  moreover have "?f (?e8, False) (one_if (ce_no_pinned e) (cache_line ''CACHED_NO_PINNED'' ''1'')) = (?e9, False)"
    by (simp add: step empty_entry_def)
  moreover have "?f (?e9, False) [cache_line ''CACHED_MMAP'' (if ce_mmap e then ''1'' else ''0'')] = (?e10, True)"
    by (simp add: step)
  moreover have "?f (?e10, True) (one_if (ce_plan_free_vram e \<noteq> [])
      (cache_line ''CACHED_PLAN_FREEVRAM'' (join_with '' '' (map free_token ?st)))) =
      (?e10\<lparr>ce_plan_free_vram := ?st\<rparr>, True)"
    by (simp add: step free empty_entry_def)
  moreover have "?e10\<lparr>ce_plan_free_vram := ?st\<rparr> = stored_entry e"
    by (simp add: stored_entry_def empty_entry_def)
  ultimately show ?thesis unfolding entry_lines_def foldl_append by (simp only:)
qed

lemma newline_free_lines:
  assumes "storable_entry e" "newline_char \<notin> set stamp"
  shows "\<forall>l \<in> set (entry_lines stamp e). newline_char \<notin> set l"
proof -
  note S = assms(1) [unfolded storable_entry_def list_all_iff]
  have line: "newline_char \<notin> set (cache_line k v)" if "bare_value v" "newline_char \<notin> set k" for k v
    using that by (auto simp: cache_line_def dquote_def newline_char_def bare_value_def)
  have name: "newline_char \<notin> set (''CACHED_MODEL_BASENAME='' @ go_quote (ce_model_basename e))"
    using S go_quote_plain [of "ce_model_basename e"]
    by (auto simp: dquote_def newline_char_def bare_value_def)
  have vals: "bare_value (join_with '','' (map format_fixed2 (ce_tensor_split e)))"
    "bare_value (ce_ot_string e)" "bare_value (ce_split_mode e)"
    using S by (auto intro: bare_split_tokens)
  have keys: "newline_char \<notin> set ''CACHED_GPU_ASSIGNMENTS''" "newline_char \<notin> set ''CACHED_OT_STRING''"
    "newline_char \<notin> set ''CACHED_TENSOR_SPLIT''" "newline_char \<notin> set ''CACHED_SPLIT_MODE''"
    "newline_char \<notin> set ''CACHED_NCPUMOE''" "newline_char \<notin> set ''CACHED_BATCH''"
    "newline_char \<notin> set ''CACHED_UBATCH''" "newline_char \<notin> set ''CACHED_PARALLEL''"
    "newline_char \<notin> set ''CACHED_KVUNIFIED''" "newline_char \<notin> set ''CACHED_NO_PINNED''"
    "newline_char \<notin> set ''CACHED_MMAP''" "newline_char \<notin> set ''CACHED_PLAN_FREEVRAM''"
    by (simp_all add: newline_char_def)
  have stamp: "newline_char \<notin> set (''# ggrun placement cache ('' @ stamp @ '')'')"
    using assms(2) by (simp add: newline_char_def)
  have one: "(\<forall>l \<in> set (one_if b x). P l) \<longleftrightarrow> (b \<longrightarrow> P x)" for b x and P :: "string \<Rightarrow> bool"
    by (simp add: one_if_def)
  show ?thesis unfolding entry_lines_def set_append ball_Un one
    using stamp name line vals keys bare_tokens bare_itoa bare_flag by simp
qed

lemma parse_saved:
  assumes "storable_entry e" "newline_char \<notin> set stamp"
  shows "parse_cache (save_placement_cache stamp e) = (stored_entry e, True)"
proof -
  have "entry_lines stamp e \<noteq> []" by (simp add: entry_lines_def)
  then have "split_char newline_char (save_placement_cache stamp e) = entry_lines stamp e @ [[]]"
    using split_saved newline_free_lines [OF assms] by (simp add: save_placement_cache_def)
  then show ?thesis using parse_entry_lines [OF assms(1)]
    by (simp add: parse_cache_def parse_empty_line)
qed

lemma first_some_None: "first_some f xs = None \<longleftrightarrow> (\<forall>x \<in> set xs. f x = None)"
  by (induction xs) (auto split: option.split)

lemma stale_reading_None:
  "stale_reading gpus p = None \<longleftrightarrow>
     (\<forall>g \<in> set gpus. g_index g = fst p \<longrightarrow> vram_free_mb g \<le> snd p + plan_free_vram_slack_mb)"
  by (auto simp: stale_reading_def find_None_iff find_Some_iff not_less split: option.split)

definition entry_usable :: "capabilities \<Rightarrow> cache_entry \<Rightarrow> bool" where
  "entry_usable caps e \<longleftrightarrow>
     list_all (\<lambda>p. list_all (\<lambda>g. g_index g = fst p \<longrightarrow> vram_free_mb g \<le> snd p + plan_free_vram_slack_mb) (c_gpus caps))
       (ce_plan_free_vram e) \<and>
     list_all (\<lambda>a. ga_cuda_index a \<in> g_index ` set (c_gpus caps)) (ce_gpu_assignments e) \<and>
     (ce_tensor_split e \<noteq> [] \<or> ce_gpu_assignments e = [] \<and> ce_ot_string e \<noteq> [])"

lemma load_ok_iff:
  "load_placement_cache f caps = Inr e \<longleftrightarrow>
     (\<exists>content. f = Some content \<and> parse_cache content = (e, True) \<and> entry_usable caps e)"
proof (cases f)
  case (Some content)
  obtain e' h where p: "parse_cache content = (e', h)" by (cases "parse_cache content")
  have st: "first_some (stale_reading (c_gpus caps)) (ce_plan_free_vram e') = None \<longleftrightarrow>
      list_all (\<lambda>p. list_all (\<lambda>g. g_index g = fst p \<longrightarrow> vram_free_mb g \<le> snd p + plan_free_vram_slack_mb) (c_gpus caps))
       (ce_plan_free_vram e')"
    by (auto simp: first_some_None stale_reading_None list_all_iff)
  have un: "first_some (unknown_gpu (c_gpus caps)) (ce_gpu_assignments e') = None \<longleftrightarrow>
      list_all (\<lambda>a. ga_cuda_index a \<in> g_index ` set (c_gpus caps)) (ce_gpu_assignments e')"
    by (force simp: first_some_None unknown_gpu_def list_all_iff)
  have "load_placement_cache f caps = Inr e \<longleftrightarrow> h \<and> e' = e \<and> entry_usable caps e'"
    unfolding entry_usable_def st [symmetric] un [symmetric]
    by (simp add: load_placement_cache_def Some p split: option.split)
  then show ?thesis by (auto simp: Some p)
qed (simp add: load_placement_cache_def)

section \<open>Properties\<close>

text \<open>
  C33: A plan that is saved and loaded again on the same machine is the same plan: every field
  survives the text format, tensor-split shares up to the two decimals written (half a hundredth),
  whenever the entry's strings can be written between quotes, its numbers are 64-bit, and the
  loader's own checks accept the entry.
\<close>

theorem placement_cache_roundtrip:
  assumes "storable_entry e" "newline_char \<notin> set stamp" "entry_usable caps e"
  shows "\<exists>e'. load_placement_cache (Some (save_placement_cache stamp e)) caps = Inr e' \<and>
    e' = e\<lparr>ce_tensor_split := ce_tensor_split e', ce_plan_free_vram := ce_plan_free_vram e'\<rparr> \<and>
    list_all2 (\<lambda>v' v. \<bar>v' - v\<bar> \<le> 1 / 200) (ce_tensor_split e') (ce_tensor_split e) \<and>
    map_of (ce_plan_free_vram e') = map_of (ce_plan_free_vram e)"
proof -
  have "set (sort_key fst (ce_plan_free_vram e)) = set (ce_plan_free_vram e)" by simp
  moreover have d: "distinct (map fst (ce_plan_free_vram e))"
    using assms(1) by (simp add: storable_entry_def)
  moreover have "distinct (map fst (sort_key fst (ce_plan_free_vram e)))"
    using d by (simp add: distinct_map)
  ultimately have m: "map_of (sort_key fst (ce_plan_free_vram e)) = map_of (ce_plan_free_vram e)"
    by (metis map_of_inject_set)
  have "entry_usable caps (stored_entry e)"
    using assms(3) by (simp add: entry_usable_def stored_entry_def list_all_iff)
  then have "load_placement_cache (Some (save_placement_cache stamp e)) caps = Inr (stored_entry e)"
    using parse_saved [OF assms(1,2)] by (simp add: load_ok_iff)
  moreover have "list_all2 (\<lambda>v' v. \<bar>v' - v\<bar> \<le> 1 / 200) (map round2 vs) vs" for vs
    using round2_close by (induction vs) (simp_all del: divide_le_eq_numeral1 le_divide_eq_numeral1)
  ultimately show ?thesis using m by (simp add: stored_entry_def)
qed

definition demo_entry :: cache_entry where
  "demo_entry = empty_entry\<lparr>ce_model_basename := ''m.gguf'', ce_ot_string := ''blk=CUDA0'',
     ce_gpu_assignments := [\<lparr>ga_cuda_index = 0, ga_start = 0, ga_count = 3\<rparr>],
     ce_tensor_split := [1 / 3, 2], ce_batch_size := 2048, ce_mmap := True,
     ce_plan_free_vram := [(1, 500), (0, 23000)]\<rparr>"

theorem placement_cache_roundtrip_witness:
  "\<exists>e'. load_placement_cache (Some (save_placement_cache ''t'' demo_entry)) (demo_caps [demo_gpu 0 24000 32]) = Inr e' \<and>
     ce_gpu_assignments e' = [\<lparr>ga_cuda_index = 0, ga_start = 0, ga_count = 3\<rparr>] \<and>
     ce_ot_string e' = ''blk=CUDA0'' \<and> ce_model_basename e' = ''m.gguf'' \<and> map_of (ce_plan_free_vram e') 0 = Some 23000"
proof -
  have "storable_entry demo_entry" "newline_char \<notin> set ''t''"
    "entry_usable (demo_caps [demo_gpu 0 24000 32]) demo_entry"
    by code_simp+
  from placement_cache_roundtrip [OF this] obtain e' where
    e: "load_placement_cache (Some (save_placement_cache ''t'' demo_entry)) (demo_caps [demo_gpu 0 24000 32]) = Inr e'"
    "e' = demo_entry\<lparr>ce_tensor_split := ce_tensor_split e', ce_plan_free_vram := ce_plan_free_vram e'\<rparr>"
    "map_of (ce_plan_free_vram e') = map_of (ce_plan_free_vram demo_entry)"
    by blast
  have "ce_gpu_assignments e' = ce_gpu_assignments demo_entry" "ce_ot_string e' = ce_ot_string demo_entry"
    "ce_model_basename e' = ce_model_basename demo_entry"
    by (subst e(2); simp)+
  with e(1,3) show ?thesis by (auto simp: demo_entry_def)
qed

text \<open>
  C34: A plan replayed from the cache is never pessimistic about the machine and never incomplete:
  no device named in it shows more than the slack of free VRAM beyond the reading the plan was made
  against, every device it assigns layers to exists, and it carries either a tensor split or an
  override string that needs none.
\<close>

theorem placement_cache_never_stale:
  assumes "load_placement_cache (Some content) caps = Inr e"
  shows "(\<forall>(i, planned) \<in> set (ce_plan_free_vram e). \<forall>g \<in> set (c_gpus caps).
            g_index g = i \<longrightarrow> vram_free_mb g \<le> planned + 1024) \<and>
    (\<forall>a \<in> set (ce_gpu_assignments e). \<exists>g \<in> set (c_gpus caps). g_index g = ga_cuda_index a) \<and>
    (ce_tensor_split e \<noteq> [] \<or> ce_gpu_assignments e = [] \<and> ce_ot_string e \<noteq> []) \<and>
    snd (parse_cache content)"
proof -
  have p: "parse_cache content = (e, True)" "entry_usable caps e" using assms by (auto simp: load_ok_iff)
  then show ?thesis
    by (auto simp: entry_usable_def list_all_iff plan_free_vram_slack_mb_def) (metis imageE)
qed

theorem placement_cache_never_stale_witness:
  "\<exists>content e. load_placement_cache (Some content) (demo_caps [demo_gpu 0 24000 32]) = Inr e \<and>
     (\<forall>planned. (0, planned) \<in> set (ce_plan_free_vram e) \<longrightarrow> 23850 \<le> planned + 1024) \<and> ce_plan_free_vram e \<noteq> []"
proof (intro exI conjI)
  let ?c = "save_placement_cache ''t'' demo_entry" and ?m = "demo_caps [demo_gpu 0 24000 32]"
  have "storable_entry demo_entry" "newline_char \<notin> set ''t''" "entry_usable ?m (stored_entry demo_entry)"
    by code_simp+
  then show l: "load_placement_cache (Some ?c) ?m = Inr (stored_entry demo_entry)"
    using parse_saved [of demo_entry "''t''"] by (auto simp: load_ok_iff)
  show "\<forall>planned. (0, planned) \<in> set (ce_plan_free_vram (stored_entry demo_entry)) \<longrightarrow> 23850 \<le> planned + 1024"
  proof (intro allI impI)
    fix planned :: int
    assume a: "(0, planned) \<in> set (ce_plan_free_vram (stored_entry demo_entry))"
    have "demo_gpu 0 24000 32 \<in> set (c_gpus ?m)" "g_index (demo_gpu 0 24000 32) = 0"
      "vram_free_mb (demo_gpu 0 24000 32) = 23850" by code_simp+
    with placement_cache_never_stale [OF l] a show "23850 \<le> planned + 1024" by fastforce
  qed
  show "ce_plan_free_vram (stored_entry demo_entry) \<noteq> []" by code_simp
qed

section \<open>Clearing\<close>

lemma trim_quoted_line:
  assumes "k \<noteq> []" "\<not> is_space (hd k)"
  shows "trim_space (k @ v @ dquote) = k @ v @ dquote"
proof (rule trim_space_ident)
  have "hd (k @ v @ dquote) = hd k" "last (k @ v @ dquote) = CHR 0x22"
    using assms(1) by (simp_all add: dquote_def)
  then show "k @ v @ dquote = [] \<or> \<not> is_space (hd (k @ v @ dquote)) \<and> \<not> is_space (last (k @ v @ dquote))"
    using assms(2) by (simp add: is_space_def)
qed

lemma cache_line_names_no_model:
  assumes "k \<noteq> []" "\<not> is_space (hd k)" "\<And>r. \<not> has_prefix (k @ ''='' @ r) probe_header"
    "\<And>r. \<not> has_prefix (k @ ''='' @ r) basename_header"
  shows "\<not> line_names_model m (cache_line k v)"
proof -
  have "trim_space (cache_line k v) = cache_line k v"
    using trim_quoted_line [of k "''='' @ dquote @ v"] assms(1,2) by (simp add: cache_line_def)
  then show ?thesis using assms(3,4) by (simp add: line_names_model_def cache_line_def)
qed

lemma key_names_no_model:
  "\<not> line_names_model m (cache_line ''CACHED_GPU_ASSIGNMENTS'' v)" "\<not> line_names_model m (cache_line ''CACHED_OT_STRING'' v)"
  "\<not> line_names_model m (cache_line ''CACHED_TENSOR_SPLIT'' v)" "\<not> line_names_model m (cache_line ''CACHED_SPLIT_MODE'' v)"
  "\<not> line_names_model m (cache_line ''CACHED_NCPUMOE'' v)" "\<not> line_names_model m (cache_line ''CACHED_BATCH'' v)"
  "\<not> line_names_model m (cache_line ''CACHED_UBATCH'' v)" "\<not> line_names_model m (cache_line ''CACHED_PARALLEL'' v)"
  "\<not> line_names_model m (cache_line ''CACHED_KVUNIFIED'' v)" "\<not> line_names_model m (cache_line ''CACHED_NO_PINNED'' v)"
  "\<not> line_names_model m (cache_line ''CACHED_MMAP'' v)" "\<not> line_names_model m (cache_line ''CACHED_PLAN_FREEVRAM'' v)"
  by (rule cache_line_names_no_model; simp add: probe_header_def basename_header_def is_space_def)+

lemma comment_names_no_model: "\<not> line_names_model m (''# ggrun placement cache ('' @ s @ '')'')"
proof -
  have "trim_space (''# ggrun placement cache ('' @ s @ '')'') = ''# ggrun placement cache ('' @ s @ '')''"
    by (rule trim_space_ident) (simp add: is_space_def)
  then show ?thesis by (simp add: line_names_model_def probe_header_def basename_header_def)
qed

lemma empty_names_no_model: "\<not> line_names_model m []"
  by (simp add: line_names_model_def trim_space_def trim_left_def trim_right_def probe_header_def basename_header_def)

lemma name_line_names:
  "line_names_model m (basename_header @ go_quote name) = m (trim_chars dquote (go_quote name))"
proof -
  have t: "trim_space (basename_header @ go_quote name) = basename_header @ go_quote name"
    using trim_quoted_line [of basename_header "dquote @ concat (map quote_char name)"]
    by (simp add: go_quote_def basename_header_def is_space_def)
  have q: "trim_space (go_quote name) = go_quote name"
    using trim_quoted_line [of dquote "concat (map quote_char name)"]
    by (simp add: go_quote_def dquote_def is_space_def)
  have "\<not> has_prefix (basename_header @ go_quote name) probe_header"
    by (simp add: basename_header_def probe_header_def)
  then show ?thesis by (simp add: line_names_model_def t q trim_prefix_def)
qed

lemma saved_names_model:
  assumes "storable_entry (e\<lparr>ce_model_basename := []\<rparr>)" "newline_char \<notin> set stamp"
    "ce_model_basename e \<noteq> []" "newline_char \<notin> set (go_quote (ce_model_basename e))"
  shows "probe_cache_for_model (save_placement_cache stamp e) m =
    m (trim_chars dquote (go_quote (ce_model_basename e)))"
proof -
  let ?e = "e\<lparr>ce_model_basename := []\<rparr>" and ?n = "basename_header @ go_quote (ce_model_basename e)"
  obtain ls where ls: "entry_lines stamp ?e = (''# ggrun placement cache ('' @ stamp @ '')'') # ls"
    "entry_lines stamp e = (''# ggrun placement cache ('' @ stamp @ '')'') # ?n # ls"
    using assms(3) by (simp add: entry_lines_def one_if_def basename_header_def)
  have "\<forall>l \<in> set (entry_lines stamp e). newline_char \<notin> set l"
    using newline_free_lines [OF assms(1,2)] assms(4) unfolding ls
    by (simp add: basename_header_def newline_char_def)
  then have "split_char newline_char (save_placement_cache stamp e) = entry_lines stamp e @ [[]]"
    unfolding save_placement_cache_def by (intro split_saved) (simp_all add: ls)
  moreover have "\<not> list_ex (line_names_model m) (entry_lines stamp ?e)"
    by (auto simp: entry_lines_def one_if_def list_ex_iff key_names_no_model
        comment_names_no_model [simplified] split: if_splits)
  ultimately show ?thesis
    by (simp add: probe_cache_for_model_def ls name_line_names empty_names_no_model)
qed

text \<open>
  Clearing a model's caches finds the plan saved for it exactly when the model's name has no
  double quote and no backslash: the name is written with \<^verbatim>\<open>%q\<close>, which escapes both,
  and read back by stripping the outer quotes only. So a plan saved under such a name survives
  "clear caches".
\<close>

theorem saved_plan_cleared_iff:
  assumes "storable_entry (e\<lparr>ce_model_basename := []\<rparr>)" "newline_char \<notin> set stamp"
    and "ce_model_basename e = base" "base \<noteq> []"
    and "list_all (\<lambda>c. 32 \<le> (of_char c :: nat) \<and> (of_char c :: nat) < 127) base"
  shows "(''p.place'', Some (save_placement_cache stamp e)) \<in>
      set (cd_root (fst (clear_model_caches (\<lambda>_. True) cal ver ''kv'' base base
        \<lparr>cd_root = [(''p.place'', Some (save_placement_cache stamp e))], cd_probes = [], cd_calibration = [], cd_verified = []\<rparr>)))
    \<longleftrightarrow> CHR 0x22 \<in> set base \<or> CHR 0x5C \<in> set base"
proof -
  have q: "newline_char \<notin> set (quote_char c)" if "c \<in> set base" for c
    using assms(5) that by (auto simp: list_all_iff quote_char_def newline_char_def Let_def split: if_splits)
  then have "newline_char \<notin> set (go_quote base)"
    by (auto simp: go_quote_def dquote_def newline_char_def)
  then have m: "probe_cache_for_model (save_placement_cache stamp e) (matches_model base base)
      \<longleftrightarrow> trim_chars dquote (go_quote base) = base"
    using saved_names_model [OF assms(1,2)] assms(3,4) by (simp add: matches_model_def)
  have "trim_chars dquote (go_quote base) = base \<longleftrightarrow> \<not> (CHR 0x22 \<in> set base \<or> CHR 0x5C \<in> set base)"
  proof (cases "CHR 0x22 \<in> set base \<or> CHR 0x5C \<in> set base")
    case True
    then show ?thesis using quoted_name_differs by blast
  next
    case False
    then have "plain_name base"
      using assms(5) by (auto simp: plain_name_def list_all_iff quote_char_def Let_def)
    with go_quote_plain [of base] trim_chars_dquote [of base] False show ?thesis by (simp add: bare_value_def)
  qed
  with m assms(4) show ?thesis
    by (simp add: clear_model_caches_def clear_dir_def removes_def has_suffix_def Let_def)
qed

theorem saved_plan_cleared_iff_witness:
  "let e = demo_entry\<lparr>ce_model_basename := [CHR ''a'', CHR 0x22, CHR ''b'']\<rparr>;
       f = (''p.place'', Some (save_placement_cache ''t'' e))
   in f \<in> set (cd_root (fst (clear_model_caches (\<lambda>_. True) (\<lambda>_. None) (\<lambda>_. None) ''kv''
        [CHR ''a'', CHR 0x22, CHR ''b''] [CHR ''a'', CHR 0x22, CHR ''b'']
        \<lparr>cd_root = [f], cd_probes = [], cd_calibration = [], cd_verified = []\<rparr>)))"
proof -
  let ?e = "demo_entry\<lparr>ce_model_basename := [CHR ''a'', CHR 0x22, CHR ''b'']\<rparr>"
  have h: "storable_entry (?e\<lparr>ce_model_basename := []\<rparr>)" "newline_char \<notin> set ''t''"
    "list_all (\<lambda>c. 32 \<le> (of_char c :: nat) \<and> (of_char c :: nat) < 127) [CHR ''a'', CHR 0x22, CHR ''b'']"
    by code_simp+
  show ?thesis
    using saved_plan_cleared_iff [OF h(1,2) _ _ h(3), of "\<lambda>_. None" "\<lambda>_. None"]
    by (simp add: Let_def)
qed

lemma clear_dir_again:
  "clear_dir d n c (fst (clear_dir d n c fs)) = (fst (clear_dir d n c fs), 0)"
  by (auto simp: clear_dir_def filter_id_conv filter_empty_conv)

lemma clear_dir_set:
  "set (fst (clear_dir d n c fs)) = {f \<in> set fs. \<not> (removes n c f \<and> d (fst f))}"
  by (auto simp: clear_dir_def)

text \<open>
  Clearing one model's caches removes every probe and placement file of the cache root whose
  contents name the model by either of its names, and nothing that names neither: the files left
  are those given except the deletable ones that name the model or hold its KV rates. Clearing a
  second time removes nothing.
\<close>

theorem clear_model_caches_exact:
  fixes deletable :: "string \<Rightarrow> bool" and cal ver :: "string \<Rightarrow> string option" and kv_name base path_base :: string
  assumes "base \<noteq> []"
  defines "m \<equiv> matches_model base path_base"
    and "after \<equiv> \<lambda>cd. fst (clear_model_caches deletable cal ver kv_name base path_base cd)"
  shows "set (cd_root (after cd)) = {f \<in> set (cd_root cd).
      \<not> (deletable (fst f) \<and>
         (fst f = kv_name \<or>
          (has_suffix (fst f) ''.probe'' \<or> has_suffix (fst f) ''.place'') \<and>
          (\<exists>c. snd f = Some c \<and> probe_cache_for_model c m)))} \<and>
    set (cd_calibration (after cd)) = {f \<in> set (cd_calibration cd).
      \<not> (deletable (fst f) \<and> has_suffix (fst f) ''.json'' \<and>
         (\<exists>c. snd f = Some c \<and> calibration_decision_for_model cal c base))} \<and>
    clear_model_caches deletable cal ver kv_name base path_base (after cd) = (after cd, 0)"
proof -
  let ?kv = "\<lambda>f. fst f = kv_name \<and> deletable (fst f)"
  let ?place = "\<lambda>n. has_suffix n ''.probe'' \<or> has_suffix n ''.place''" and ?named = "\<lambda>c. probe_cache_for_model c m"
  let ?root = "fst (clear_dir deletable ?place ?named (filter (\<lambda>f. \<not> ?kv f) (cd_root cd)))"
  let ?probes = "fst (clear_dir deletable (\<lambda>n. has_suffix n ''.probe'') ?named (cd_probes cd))"
  let ?cal = "fst (clear_dir deletable (\<lambda>n. has_suffix n ''.json'')
      (\<lambda>c. calibration_decision_for_model cal c base) (cd_calibration cd))"
  let ?ver = "fst (clear_dir deletable (\<lambda>n. has_suffix n ''.json'')
      (\<lambda>c. case ver c of None \<Rightarrow> False | Some name \<Rightarrow> name \<noteq> [] \<and> m name) (cd_verified cd))"
  have a: "after cd = \<lparr>cd_root = ?root, cd_probes = ?probes, cd_calibration = ?cal, cd_verified = ?ver\<rparr>"
    unfolding after_def clear_model_caches_def Let_def case_prod_beta m_def
    by (simp only: assms(1) simp_thms if_False fst_conv)
  have kv: "filter (\<lambda>f. \<not> ?kv f) ?root = ?root" "filter ?kv ?root = []"
    by (simp_all only: filter_id_conv filter_empty_conv clear_dir_set) auto
  have again: "clear_model_caches deletable cal ver kv_name base path_base (after cd) = (after cd, 0)"
    unfolding a m_def clear_model_caches_def Let_def case_prod_beta cache_dirs.simps
    by (simp only: assms(1) simp_thms if_False kv [unfolded m_def] clear_dir_again fst_conv snd_conv list.size) simp
  have "set (cd_root (after cd)) = {f \<in> set (cd_root cd).
      \<not> (deletable (fst f) \<and>
         (fst f = kv_name \<or> ?place (fst f) \<and> (\<exists>c. snd f = Some c \<and> ?named c)))}"
    unfolding a by (auto simp: clear_dir_set removes_def split: option.splits)
  moreover have "set (cd_calibration (after cd)) = {f \<in> set (cd_calibration cd).
      \<not> (deletable (fst f) \<and> has_suffix (fst f) ''.json'' \<and>
         (\<exists>c. snd f = Some c \<and> calibration_decision_for_model cal c base))}"
    unfolding a by (auto simp: clear_dir_set removes_def split: option.splits)
  ultimately show ?thesis using again by blast
qed

theorem clear_model_caches_exact_witness:
  "snd (clear_model_caches (\<lambda>_. True) (\<lambda>_. None) (\<lambda>_. None) ''kv'' ''m'' ''m.gguf''
     (fst (clear_model_caches (\<lambda>_. True) (\<lambda>_. None) (\<lambda>_. None) ''kv'' ''m'' ''m.gguf''
        \<lparr>cd_root = [(''a.probe'', Some ''# Probe cache for m.gguf''), (''b.probe'', Some ''# Probe cache for x'')],
         cd_probes = [], cd_calibration = [], cd_verified = []\<rparr>))) = 0"
  by (simp add: clear_model_caches_exact)

end
