(* ===== verification/LayerSplit.thy ===== *)
theory LayerSplit
  imports ModelProfile BestScan GoFloat
begin

text \<open>
  How a tensor split is turned into layers, and how leftover VRAM is filled
  (\<^verbatim>\<open>go/pkg/placement/placement.go\<close>): the mirror of llama.cpp's slot assignment
  (\<^verbatim>\<open>layerDeviceAssignments\<close>), shares of a per-layer total, the split of a dense model by
  memory bandwidth, the gate+up packer, the KV reserve, and the choice of expert-only devices.

  The slot loop, the shares of a total and the normalisation to hundredths round every operation as
  \<^verbatim>\<open>float64\<close> does (\<open>f64\<close>). A device index is an
  \<^typ>\<open>int\<close>, \<open>- 1\<close> for none, and a position in the device slice a \<^typ>\<open>nat\<close>. A layer
  count is not negative: \<^verbatim>\<open>make\<close> panics on a negative one.
\<close>

section \<open>Layers by tensor split\<close>

definition positive_sum :: "rat list \<Rightarrow> rat" where
  "positive_sum split = foldl (\<lambda>acc v. if v > 0 then f64 (acc + v) else acc) 0 split"

fun cumulative :: "rat \<Rightarrow> rat list \<Rightarrow> rat list" where
  "cumulative c [] = []"
| "cumulative c (v # vs) = (let c' = (if v > 0 then f64 (c + v) else c) in c' # cumulative c' vs)"

text \<open>The first device whose cumulative share exceeds the slot's fraction, else the last.\<close>

fun first_above :: "rat list \<Rightarrow> rat \<Rightarrow> nat \<Rightarrow> nat option" where
  "first_above [] f i = None"
| "first_above (c # cum) f i = (if c > f then Some i else first_above cum f (Suc i))"

definition slot_device :: "rat list \<Rightarrow> rat \<Rightarrow> int" where
  "slot_device cum f = (case first_above cum f 0 of Some i \<Rightarrow> int i | None \<Rightarrow> int (length cum) - 1)"

definition layer_device_assignments :: "rat list \<Rightarrow> int \<Rightarrow> int list \<times> int" where
  "layer_device_assignments split n =
     (let sum = positive_sum split in
      if sum \<le> 0 \<or> n \<le> 0 then (replicate (nat n) (- 1), - 1)
      else
        let cum = map (\<lambda>c. f64 (c / sum)) (cumulative 0 split); slots = of_int (n + 1)
        in (map (\<lambda>slot. slot_device cum (f64 (of_nat slot / slots))) [0..<nat n], slot_device cum (f64 (of_int n / slots))))"

definition layer_ownership :: "rat list \<Rightarrow> int \<Rightarrow> int list \<times> int" where
  "layer_ownership split n =
     (let (devs, out) = layer_device_assignments split n in
      (foldl (\<lambda>owned d. if 0 \<le> d \<and> d < int (length owned)
                         then owned[nat d := owned ! nat d + 1] else owned)
         (replicate (length split) 0) devs, out))"

text \<open>\<^verbatim>\<open>int(math.Ceil(x))\<close>\<close>

definition owned_share_mb :: "int \<Rightarrow> int list \<Rightarrow> int \<Rightarrow> int \<Rightarrow> int" where
  "owned_share_mb total_mb owned n idx =
     (if total_mb \<le> 0 \<or> n \<le> 0 \<or> idx < 0 \<or> idx \<ge> int (length owned) \<or> owned ! nat idx \<le> 0 then 0
      else \<lceil>f64 (f64 (of_int total_mb * of_int (owned ! nat idx)) / of_int n)\<rceil>)"

definition split_share_mb :: "int \<Rightarrow> rat list \<Rightarrow> int \<Rightarrow> int" where
  "split_share_mb total_mb split idx =
     (if total_mb \<le> 0 \<or> idx < 0 \<or> idx \<ge> int (length split) \<or> split ! nat idx \<le> 0 then 0
      else if positive_sum split \<le> 0 then 0
      else \<lceil>f64 (f64 (of_int total_mb * (split ! nat idx)) / positive_sum split)\<rceil>)"

text \<open>The overheads are by device index; an absent key reads 0.\<close>

definition has_measured_cuda_overhead :: "(int \<times> int) list \<Rightarrow> gpu list \<Rightarrow> rat list \<Rightarrow> bool" where
  "has_measured_cuda_overhead overhead gpus split =
     (if gpus = [] \<or> split = [] then False
      else list_all (\<lambda>(g, v). v \<le> 0 \<or> (case map_of overhead (g_index g) of None \<Rightarrow> False | Some o' \<Rightarrow> 0 < o'))
             (zip gpus split))"

definition system_probe_outlier_ratio :: int where "system_probe_outlier_ratio = 5"

definition whole_device_overhead_mb :: "int \<Rightarrow> int \<Rightarrow> int \<Rightarrow> int \<Rightarrow> int \<times> bool" where
  "whole_device_overhead_mb live accounted companion total_mb =
     (if live \<le> 0 \<or> accounted \<le> 0 \<or> total_mb \<le> 0 then (0, False)
      else
        let delta = live - accounted - companion in
        if delta \<le> 0 \<or> delta \<ge> go_div total_mb system_probe_outlier_ratio then (0, False) else (delta, True))"

section \<open>Splitting a dense model\<close>

text \<open>\<^verbatim>\<open>math.Round\<close>: halves away from zero.\<close>

definition go_round :: "rat \<Rightarrow> int" where
  "go_round x = (if x < 0 then - \<lfloor>- x + 1 / 2\<rfloor> else \<lfloor>x + 1 / 2\<rfloor>)"

definition normalize_split :: "rat list \<Rightarrow> rat list" where
  "normalize_split split =
     (let total = foldl (\<lambda>acc v. f64 (acc + v)) 0 split in
      if total = 0 then split else map (\<lambda>v. f64 (of_int (go_round (f64 (f64 (v / total) * 100))) / 100)) split)"

definition dense_mem_bandwidth_known :: "gpu list \<Rightarrow> bool" where
  "dense_mem_bandwidth_known gpus \<longleftrightarrow> gpus \<noteq> [] \<and> list_all (\<lambda>g. mem_bandwidth_mbps g > 0) gpus"

definition order_gpus_by_memory_bandwidth :: "gpu list \<Rightarrow> nat list" where
  "order_gpus_by_memory_bandwidth gpus =
     sort_key (\<lambda>i. let g = gpus ! i in (- mem_bandwidth_mbps g, - vram_total_mb g, g_index g))
       [0..<length gpus]"

text \<open>The loop over the devices in order: \<open>(device, share in MiB)\<close>.\<close>

fun fill_in_order :: "(nat \<Rightarrow> int) \<Rightarrow> int \<Rightarrow> nat list \<Rightarrow> (nat \<times> int) list" where
  "fill_in_order capacity remaining [] = []"
| "fill_in_order capacity remaining (gi # order) =
     (if remaining \<le> 0 then []
      else
        let take_mb = (if capacity gi > remaining then remaining else capacity gi)
        in (gi, take_mb) # fill_in_order capacity (remaining - take_mb) order)"

definition dense_capacity_mb :: "gpu list \<Rightarrow> nat list \<Rightarrow> int \<Rightarrow> (int \<Rightarrow> int) \<Rightarrow> int \<Rightarrow> nat \<Rightarrow> int" where
  "dense_capacity_mb gpus order overhead compute_buf mmproj gi =
     (let g = gpus ! gi;
          c = vram_free_mb g - overhead - compute_buf (g_index g);
          c' = (if order \<noteq> [] \<and> gi = hd order \<and> mmproj > 0 then c - mmproj else c)
      in if c' < 0 then 0 else c')"

definition assign_shares :: "nat \<Rightarrow> (nat \<times> rat) list \<Rightarrow> rat list" where
  "assign_shares n shares = foldl (\<lambda>split (i, v). split[i := v]) (replicate n 0) shares"

text \<open>
  \<open>mmproj\<close> is the strategy's \<^verbatim>\<open>MMProjSizeMB\<close>; the result is the new
  \<^verbatim>\<open>TensorSplit\<close>. The caller passes the number of devices.
\<close>

definition dense_fill_fastest_first_split ::
  "gpu list \<Rightarrow> int \<Rightarrow> (int \<Rightarrow> int) \<Rightarrow> int \<Rightarrow> int \<Rightarrow> int \<Rightarrow> rat list" where
  "dense_fill_fastest_first_split gpus overhead compute_buf mmproj total_size_mb kv_total_mb =
     (let order = order_gpus_by_memory_bandwidth gpus;
          combined = (if total_size_mb + kv_total_mb \<le> 0 then 1 else total_size_mb + kv_total_mb);
          capacity = dense_capacity_mb gpus order overhead compute_buf mmproj;
          total_capacity = foldl (\<lambda>t gi. t + capacity gi) 0 order;
          total_free = foldl (\<lambda>t g. t + vram_free_mb g) 0 gpus;
          shares =
            (if total_capacity \<ge> combined then
               map (\<lambda>(gi, t). (gi, f64 (of_int t / of_int combined))) (fill_in_order capacity combined order)
             else if total_capacity > 0 then
               map (\<lambda>gi. (gi, f64 (of_int (capacity gi) / of_int total_capacity))) order
             else if total_free > 0 then
               map (\<lambda>gi. (gi, f64 (of_int (vram_free_mb (gpus ! gi)) / of_int total_free))) order
             else [])
      in normalize_split (assign_shares (length gpus) shares))"

definition normalize_placement_policy :: "string \<Rightarrow> string" where
  "normalize_placement_policy policy =
     (let p = to_lower (trim_space policy) in
      if p = ''memory'' then ''memory'' else if p = ''capacity'' then ''capacity'' else ''link'')"

definition gpu_split_weight :: "gpu \<Rightarrow> rat" where
  "gpu_split_weight g = (if bandwidth_mbps g \<le> 0 then 1 else of_int (bandwidth_mbps g))"

definition gpu_placement_weight :: "gpu \<Rightarrow> string \<Rightarrow> rat" where
  "gpu_placement_weight g policy =
     (let p = normalize_placement_policy policy in
      if p = ''memory'' \<and> mem_bandwidth_mbps g > 0 then of_int (mem_bandwidth_mbps g)
      else if p = ''capacity'' then 1
      else gpu_split_weight g)"

definition order_gpus_for_placement :: "gpu list \<Rightarrow> string \<Rightarrow> nat list" where
  "order_gpus_for_placement gpus policy =
     (let p = normalize_placement_policy policy in
      if p = ''memory'' \<and> dense_mem_bandwidth_known gpus then order_gpus_by_memory_bandwidth gpus
      else if p = ''capacity'' then order_gpus_by_free_vram gpus
      else order_gpus_by_bandwidth gpus)"

section \<open>The KV reserve\<close>

definition kv_share :: "int \<Rightarrow> int \<Rightarrow> int \<Rightarrow> gpu \<Rightarrow> int" where
  "kv_share kv_total_mb total_free kv_per_layer_mb g =
     (let share = go_div (kv_total_mb * vram_free_mb g + total_free - 1) total_free in
      if kv_per_layer_mb > 0
      then go_div (share + kv_per_layer_mb - 1) kv_per_layer_mb * kv_per_layer_mb else share)"

definition kv_reserve_by_bandwidth :: "int \<Rightarrow> gpu list \<Rightarrow> nat list \<Rightarrow> int \<Rightarrow> int list" where
  "kv_reserve_by_bandwidth kv_total_mb gpus order kv_per_layer_mb =
     (let total_free = foldl (\<lambda>t g. t + vram_free_mb g) 0 gpus in
      if kv_total_mb \<le> 0 \<or> total_free \<le> 0 then replicate (length gpus) 0
      else
        let use_order = (if order = [] then seq_range (length gpus) else order)
        in foldl (\<lambda>reserve gi. reserve[gi := kv_share kv_total_mb total_free kv_per_layer_mb (gpus ! gi)])
             (replicate (length gpus) 0) use_order)"

section \<open>Packing gate+up chunks\<close>

record chunk_pin =
  cp_layer :: int
  cp_gi :: int

definition can_hold :: "int list \<Rightarrow> int \<Rightarrow> int \<Rightarrow> bool" where
  "can_hold rem chunk gi \<longleftrightarrow> 0 \<le> gi \<and> gi < int (length rem) \<and> rem ! nat gi \<ge> chunk"

text \<open>The fullest device that can hold a chunk, the first in fill order among equals.\<close>

definition roomiest :: "int list \<Rightarrow> int list \<Rightarrow> int \<Rightarrow> int option" where
  "roomiest rem order chunk =
     (case scan_best (can_hold rem chunk) (\<lambda>gi. rem ! nat gi) (\<lambda>a b. a > b) 0 order None of
        None \<Rightarrow> None
      | Some (i, _) \<Rightarrow> Some (order ! i))"

fun pack_loop :: "int list \<Rightarrow> int list \<Rightarrow> int \<Rightarrow> int \<Rightarrow> nat \<Rightarrow> chunk_pin list \<times> int" where
  "pack_loop rem order chunk layer 0 = ([], 0)"
| "pack_loop rem order chunk layer (Suc n) =
     (case roomiest rem order chunk of
        None \<Rightarrow> ([], 0)
      | Some gi \<Rightarrow>
          let (pins, moved) = pack_loop (rem[nat gi := rem ! nat gi - chunk]) order chunk (layer + 1) n
          in (\<lparr>cp_layer = layer, cp_gi = gi\<rparr> # pins, chunk + moved))"

definition pack_gate_up_chunks :: "int list \<Rightarrow> int list \<Rightarrow> int \<Rightarrow> int \<Rightarrow> int \<Rightarrow> chunk_pin list \<times> int" where
  "pack_gate_up_chunks remainder order chunk cpu_start cpu_count =
     (if chunk \<le> 0 \<or> cpu_count \<le> 0 then ([], 0)
      else pack_loop remainder order chunk cpu_start (nat cpu_count))"

section \<open>Expert-only devices\<close>

text \<open>
  The ratio of two bandwidths is compared exactly: a quotient of integers below \<open>2 ^ 40\<close> that is not
  33 / 100 differs from it by more than the rounding.
\<close>

definition expert_only_max_bandwidth_ratio :: rat where "expert_only_max_bandwidth_ratio = 33 / 100"

definition expert_only_candidate :: "gpu list \<Rightarrow> int list \<Rightarrow> int list \<Rightarrow> int \<Rightarrow> int \<Rightarrow> int \<Rightarrow> nat \<Rightarrow> bool" where
  "expert_only_candidate gpus split_fixed eo_fixed expert_mb non_expert_mb max_bw i =
     (let g = gpus ! i in
      if i \<ge> length split_fixed \<or> i \<ge> length eo_fixed \<or> bandwidth_mbps g \<le> 0 then False
      else
        let slow = (of_int (bandwidth_mbps g) / of_int max_bw \<le> expert_only_max_bandwidth_ratio);
            cant_fit = (non_expert_mb > 0 \<and> vram_free_mb g - split_fixed ! i < non_expert_mb)
        in (slow \<or> cant_fit) \<and> \<not> vram_free_mb g - eo_fixed ! i < expert_mb)"

fun mark_expert_only :: "bool list \<Rightarrow> int \<Rightarrow> nat list \<Rightarrow> bool list" where
  "mark_expert_only marks owners [] = marks"
| "mark_expert_only marks owners (i # cands) =
     (if owners \<le> 1 then marks else mark_expert_only (marks[i := True]) (owners - 1) cands)"

definition split_candidate :: "gpu list \<Rightarrow> int list \<Rightarrow> nat \<Rightarrow> bool" where
  "split_candidate gpus split_fixed i \<longleftrightarrow> i < length split_fixed \<and> vram_free_mb (gpus ! i) > split_fixed ! i"

definition expert_only_slow_gpus :: "gpu list \<Rightarrow> int list \<Rightarrow> int list \<Rightarrow> int \<Rightarrow> int \<Rightarrow> bool list" where
  "expert_only_slow_gpus gpus split_fixed eo_fixed expert_mb non_expert_mb =
     (let none = replicate (length gpus) False;
          max_bw = foldl (\<lambda>m g. if bandwidth_mbps g > m then bandwidth_mbps g else m) 0 gpus
      in
      if length gpus \<le> 1 \<or> expert_mb \<le> 0 \<or> max_bw \<le> 0 then none
      else
        let owners = int (length (filter (split_candidate gpus split_fixed) [0..<length gpus]));
            cands = filter (expert_only_candidate gpus split_fixed eo_fixed expert_mb non_expert_mb max_bw)
                      [0..<length gpus];
            sorted_cands = sort_key (\<lambda>i. let g = gpus ! i in (bandwidth_mbps g, - vram_free_mb g, g_index g)) cands
        in mark_expert_only none owners sorted_cands)"

definition compute_floor_mb :: int where "compute_floor_mb = 1024"

definition expert_only_compute_reserve_mb :: "int \<Rightarrow> int \<Rightarrow> int" where
  "expert_only_compute_reserve_mb split_owner_mb measured_mb =
     (if measured_mb \<le> 0 \<or> split_owner_mb \<le> 0 then compute_floor_mb
      else if measured_mb * 8 > split_owner_mb then compute_floor_mb
      else
        let reserve = go_div (measured_mb * 3) 2
        in if reserve > compute_floor_mb then compute_floor_mb else reserve)"

section \<open>Routed-layer costs\<close>

record moe_layer_memory =
  ml_routed :: int
  ml_shared :: int
  ml_aux :: int

definition whole_layer_mb :: "moe_layer_memory \<Rightarrow> int" where
  "whole_layer_mb c = ml_routed c + ml_shared c + ml_aux c"

definition layer_bytes_mib_ceil :: "int list \<Rightarrow> int \<Rightarrow> int" where
  "layer_bytes_mib_ceil vals layer =
     (if layer < 0 \<or> layer \<ge> int (length vals) then 0 else bytes_to_mib_ceil (vals ! nat layer))"

definition exact_layer_cost :: "model_profile \<Rightarrow> int \<Rightarrow> moe_layer_memory" where
  "exact_layer_cost m layer =
     \<lparr>ml_routed = bytes_to_mib_ceil (m_routed_expert_layer_bytes m ! nat layer),
      ml_shared = layer_bytes_mib_ceil (m_shexp_layer_bytes m) layer,
      ml_aux = layer_bytes_mib_ceil (m_expert_aux_layer_bytes m) layer\<rparr>"

definition moe_layer_memory_costs :: "model_profile option \<Rightarrow> int \<Rightarrow> int \<Rightarrow> moe_layer_memory list \<times> bool" where
  "moe_layer_memory_costs mo start count =
     (case mo of
        None \<Rightarrow> ([], False)
      | Some m \<Rightarrow>
          if count \<le> 0 then ([], False)
          else
            let in_range = (start \<ge> 0 \<and> start + count \<le> int (length (m_routed_expert_layer_bytes m)));
                costs = map (\<lambda>i. exact_layer_cost m (start + int i)) [0..<nat count]
            in if in_range \<and> list_all (\<lambda>c. ml_routed c > 0) costs then (costs, True)
               else
                 let routed_total = max 0 (bytes_to_mib_ceil (m_expert_bytes m) - bytes_to_mib_ceil (m_shexp_bytes m))
                 in (replicate (nat count)
                       \<lparr>ml_routed = ceil_div_int routed_total count,
                        ml_shared = ceil_div_int (bytes_to_mib_ceil (m_shexp_bytes m)) count,
                        ml_aux = ceil_div_int (bytes_to_mib_ceil (m_expert_aux_bytes m)) count\<rparr>, False))"

definition sum_routed_layer_mb :: "moe_layer_memory list \<Rightarrow> int \<Rightarrow> int" where
  "sum_routed_layer_mb costs start = foldl (\<lambda>t c. t + ml_routed c) 0 (drop (nat start) costs)"

section \<open>Slots and shares\<close>

lemma length_cumulative [simp]: "length (cumulative c split) = length split"
  by (induction split arbitrary: c) (auto simp: Let_def)

lemma cumulative_last: "split \<noteq> [] \<Longrightarrow> cumulative c split ! (length split - 1) = foldl (\<lambda>acc v. if v > 0 then f64 (acc + v) else acc) c split"
proof (induction split arbitrary: c)
  case (Cons v vs)
  then show ?case by (cases "vs = []") (auto simp: Let_def nth_Cons')
qed simp

text \<open>A share that is not positive adds nothing.\<close>

lemma cumulative_flat:
  "i < length split \<Longrightarrow> \<not> 0 < split ! i \<Longrightarrow> cumulative c split ! i = (if i = 0 then c else cumulative c split ! (i - 1))"
proof (induction split arbitrary: c i)
  case (Cons v vs)
  show ?case
  proof (cases i)
    case (Suc j)
    with Cons.prems Cons.IH [of j "if v > 0 then f64 (c + v) else c"] show ?thesis by (cases j) (auto simp: Let_def)
  qed (use Cons.prems in \<open>simp add: Let_def\<close>)
qed simp

lemma first_above_Some:
  "first_above cum f k = Some i \<longleftrightarrow> k \<le> i \<and> i - k < length cum \<and> cum ! (i - k) > f \<and> (\<forall>j < i - k. cum ! j \<le> f)"
proof (induction cum arbitrary: k)
  case (Cons c cum)
  show ?case
  proof (cases "c > f")
    case True
    then show ?thesis by (auto simp: nth_Cons' split: if_splits)
  next
    case False
    have "(k \<le> i \<and> i - k < length (c # cum) \<and> (c # cum) ! (i - k) > f \<and> (\<forall>j < i - k. (c # cum) ! j \<le> f)) \<longleftrightarrow>
      (Suc k \<le> i \<and> i - Suc k < length cum \<and> cum ! (i - Suc k) > f \<and> (\<forall>j < i - Suc k. cum ! j \<le> f))"
    proof (cases "k < i")
      case True
      then obtain d where d: "i - k = Suc d" "i - Suc k = d" by (metis Suc_diff_Suc)
      have "(\<forall>j < Suc d. (c # cum) ! j \<le> f) \<longleftrightarrow> (\<forall>j < d. cum ! j \<le> f)"
        using False by (auto simp: less_Suc_eq_0_disj)
      with d True show ?thesis by simp
    next
      case False': False
      with False show ?thesis by auto
    qed
    with Cons.IH [of "Suc k"] False show ?thesis by simp
  qed
qed simp

text \<open>The upper ends of the devices' intervals and the position of a slot, as the code rounds them.\<close>

definition interval_ends :: "rat list \<Rightarrow> rat list" where
  "interval_ends split = map (\<lambda>c. f64 (c / positive_sum split)) (cumulative 0 split)"

definition slot_position :: "int \<Rightarrow> nat \<Rightarrow> rat" where
  "slot_position n s = f64 (of_nat s / of_int (n + 1))"

definition slot_in :: "rat list \<Rightarrow> int \<Rightarrow> nat \<Rightarrow> nat \<Rightarrow> bool" where
  "slot_in split n i s \<longleftrightarrow>
     slot_position n s < interval_ends split ! i \<and> (\<forall>j < i. interval_ends split ! j \<le> slot_position n s)"

lemma slot_position_bounds:
  assumes "0 < n" "n < 2 ^ 53" "int s \<le> n"
  shows "0 \<le> slot_position n s \<and> slot_position n s < 1"
  using assms f64_nonneg [of "of_nat s / of_int (n + 1)"] f64_fraction [of "int s" "n + 1"] by (simp add: slot_position_def)

lemma slot_position_mono: "0 < n \<Longrightarrow> s \<le> s' \<Longrightarrow> slot_position n s \<le> slot_position n s'"
  unfolding slot_position_def by (intro f64_mono divide_right_mono) simp_all

lemma slot_device_in:
  assumes S: "0 < positive_sum split" and n: "0 < n" "n < 2 ^ 53" and s: "int s \<le> n"
  shows "\<exists>i < length split. slot_device (interval_ends split) (slot_position n s) = int i \<and> slot_in split n i s \<and> 0 < split ! i"
proof -
  let ?S = "positive_sum split" and ?cum = "interval_ends split" and ?f = "slot_position n s"
  have ne: "split \<noteq> []" using S by (auto simp: positive_sum_def)
  have "cumulative 0 split ! (length split - 1) = ?S" using cumulative_last [OF ne] by (simp add: positive_sum_def)
  then have last: "?cum ! (length split - 1) = 1" using ne S by (simp add: interval_ends_def)
  have f: "0 \<le> ?f" "?f < 1" using slot_position_bounds [OF n s] by auto
  define i where "i = (LEAST j. ?cum ! j > ?f \<and> j < length split)"
  have ex: "?cum ! (length split - 1) > ?f \<and> length split - 1 < length split" using last f(2) ne by simp
  then have i: "?cum ! i > ?f" "i < length split" unfolding i_def by (metis (mono_tags, lifting) LeastI)+
  have below: "?cum ! j \<le> ?f" if "j < i" for j
    using that not_less_Least [of j "\<lambda>j. ?cum ! j > ?f \<and> j < length split"] i(2)
    by (auto simp: i_def not_less)
  have "first_above ?cum ?f 0 = Some i"
    using i below by (simp add: first_above_Some interval_ends_def)
  then have dev: "slot_device ?cum ?f = int i" by (simp add: slot_device_def)
  have "0 < split ! i"
  proof (rule ccontr)
    assume flat: "\<not> 0 < split ! i"
    show False
    proof (cases i)
      case 0
      then show ?thesis using cumulative_flat [OF i(2) flat, of 0] i f(1) by (simp add: interval_ends_def)
    next
      case (Suc j)
      then have "?cum ! i = ?cum ! j" using cumulative_flat [OF i(2) flat, of 0] i(2) by (simp add: interval_ends_def)
      then show ?thesis using below [of j] i(1) Suc by simp
    qed
  qed
  then show ?thesis using dev i below by (auto simp: slot_in_def)
qed

lemma slot_in_le:
  assumes "slot_in split n i s" "slot_in split n j s'" "s \<le> s'" "0 < n"
  shows "i \<le> j"
proof (rule ccontr)
  assume "\<not> i \<le> j"
  then have "interval_ends split ! j \<le> slot_position n s" using assms(1) by (simp add: slot_in_def)
  then show False using slot_position_mono [OF assms(4,3)] assms(2) by (simp add: slot_in_def)
qed

text \<open>The device of a slot as a total function, under the hypotheses of the non-degenerate branch.\<close>

definition device_of_slot :: "rat list \<Rightarrow> int \<Rightarrow> nat \<Rightarrow> int" where
  "device_of_slot split n s = slot_device (interval_ends split) (slot_position n s)"

lemma assignments_eq:
  assumes "0 < positive_sum split" "0 < n"
  shows "layer_device_assignments split n = (map (device_of_slot split n) [0..<nat n], device_of_slot split n (nat n))"
  using assms by (simp add: layer_device_assignments_def device_of_slot_def interval_ends_def slot_position_def Let_def)

lemma device_of_slot_iff:
  assumes "0 < positive_sum split" "0 < n" "n < 2 ^ 53" "int s \<le> n" "i < length split"
  shows "device_of_slot split n s = int i \<longleftrightarrow> slot_in split n i s"
proof -
  obtain j where "j < length split" "device_of_slot split n s = int j" "slot_in split n j s"
    using slot_device_in [OF assms(1-4)] by (auto simp: device_of_slot_def)
  with assms(2) show ?thesis using slot_in_le [of split n i s j s] slot_in_le [of split n j s i s] by auto
qed

lemma count_devices:
  "length (foldl (\<lambda>owned d. if 0 \<le> d \<and> d < int (length owned) then owned[nat d := owned ! nat d + 1] else owned) own devs)
     = length own"
  "i < length own \<Longrightarrow>
   foldl (\<lambda>owned d. if 0 \<le> d \<and> d < int (length owned) then owned[nat d := owned ! nat d + 1] else owned) own devs ! i
     = own ! i + int (length (filter (\<lambda>d. d = int i) devs))"
proof -
  let ?f = "\<lambda>owned d. if 0 \<le> d \<and> d < int (length owned) then owned[nat d := owned ! nat d + (1::int)] else owned"
  show "length (foldl ?f own devs) = length own"
    by (induction devs arbitrary: own) auto
  show "i < length own \<Longrightarrow> foldl ?f own devs ! i = own ! i + int (length (filter (\<lambda>d. d = int i) devs))"
    by (induction devs arbitrary: own) (auto simp: nth_list_update)
qed

lemma sum_counts:
  "\<forall>d \<in> set devs. 0 \<le> d \<and> d < int n \<Longrightarrow>
   (\<Sum>i<n. int (length (filter (\<lambda>d. d = int i) devs))) = int (length devs)"
proof (induction devs)
  case (Cons d devs)
  have "(\<Sum>i<n. int (length (filter (\<lambda>d. d = int i) (d # devs)))) =
      (\<Sum>i<n. (if i = nat d then 1 else 0) + int (length (filter (\<lambda>d. d = int i) devs)))"
    using Cons.prems by (intro sum.cong) auto
  also have "\<dots> = 1 + (\<Sum>i<n. int (length (filter (\<lambda>d. d = int i) devs)))"
    using Cons.prems by (simp add: sum.distrib nat_less_iff)
  finally show ?case using Cons by simp
qed simp

section \<open>Properties\<close>

text \<open>
  C37: Which device owns which layer, in the arithmetic of the code. With the shares of the split added up,
  divided by their sum and rounded as \<^verbatim>\<open>float64\<close> (\<open>interval_ends\<close>), a layer belongs to the device
  into whose interval its slot falls, the lower end included; the output head takes the slot after the last layer.
  Every layer has exactly one owner, every owner has a positive share, the layers of a device are consecutive in
  device order, and the counts are those of the assignment and add up to the layers.
\<close>

theorem layer_ownership_blocks:
  fixes split :: "rat list" and n :: int
  assumes "0 < positive_sum split" "0 < n" "n < 2 ^ 53"
  defines "slots \<equiv> fst (layer_device_assignments split n) @ [snd (layer_ownership split n)]"
    and "owned \<equiv> fst (layer_ownership split n)"
  shows "length slots = Suc (nat n) \<and> sorted slots \<and>
    (\<forall>d \<in> set slots. 0 \<le> d \<and> d < int (length split) \<and> 0 < split ! nat d) \<and>
    (\<forall>s \<le> nat n. \<forall>i < length split. slots ! s = int i \<longleftrightarrow>
       slot_position n s < interval_ends split ! i \<and> (\<forall>j < i. interval_ends split ! j \<le> slot_position n s)) \<and>
    length owned = length split \<and> sum_list owned = n \<and>
    (\<forall>i < length split. owned ! i = int (length (filter (\<lambda>d. d = int i) (butlast slots))))"
proof -
  let ?dev = "device_of_slot split n"
  note eq = assignments_eq [OF assms(1,2)]
  have slots: "slots = map ?dev [0..<Suc (nat n)]" by (simp add: slots_def layer_ownership_def eq)
  have devs: "butlast slots = map ?dev [0..<nat n]" by (simp add: slots)
  have owned: "owned = foldl (\<lambda>owned d. if 0 \<le> d \<and> d < int (length owned)
      then owned[nat d := owned ! nat d + 1] else owned) (replicate (length split) 0) (butlast slots)"
    by (simp add: owned_def layer_ownership_def eq devs)
  have rng: "\<exists>i < length split. ?dev s = int i \<and> slot_in split n i s \<and> 0 < split ! i" if "s \<le> nat n" for s
    using slot_device_in [OF assms(1-3), of s] that assms(2) by (simp add: device_of_slot_def)
  have mono: "?dev s \<le> ?dev s'" if "s \<le> s'" "s' \<le> nat n" for s s'
    using rng [of s] rng [of s'] that slot_in_le [OF _ _ that(1) assms(2)] by fastforce
  have sorted: "sorted slots"
    unfolding slots by (auto simp: sorted_iff_nth_mono simp del: upt_Suc intro!: mono)
  have in_rng: "0 \<le> d \<and> d < int (length split) \<and> 0 < split ! nat d" if m: "d \<in> set slots" for d
  proof -
    obtain s where "s \<le> nat n" "d = ?dev s" using m unfolding slots by (auto simp: less_Suc_eq_le simp del: upt_Suc)
    with rng [of s] show ?thesis by auto
  qed
  have place: "slots ! s = int i \<longleftrightarrow> slot_in split n i s" if "s \<le> nat n" "i < length split" for s i
    using device_of_slot_iff [OF assms(1-3), of s i] that assms(2) by (simp add: slots nth_append del: upt_Suc)
  have cnt: "owned ! i = int (length (filter (\<lambda>d. d = int i) (butlast slots)))" if "i < length split" for i
    using that by (simp add: owned count_devices)
  have len: "length owned = length split" by (simp add: owned count_devices)
  have "sum_list owned = (\<Sum>i<length split. int (length (filter (\<lambda>d. d = int i) (butlast slots))))"
    using cnt len by (simp add: sum_list_sum_nth atLeast0LessThan)
  also have "\<dots> = n" using in_rng assms(2) by (subst sum_counts) (auto simp: slots dest: in_set_butlastD)
  finally have "sum_list owned = n" .
  then show ?thesis using sorted in_rng len cnt place by (simp add: slots slot_in_def)
qed

text \<open>
  The split 0.1, 0.2, 0.7 of nine layers: the sum 0.1 + 0.2 rounds above 0.3, so the second device also owns the
  layer at slot 3 of 10, which it would not with exact decimals.
\<close>

theorem layer_ownership_blocks_witness:
  "layer_device_assignments [f64 (1 / 10), f64 (1 / 5), f64 (7 / 10)] 9 = ([0, 1, 1, 1, 2, 2, 2, 2, 2], 2) \<and>
   sum_list (fst (layer_ownership [f64 (1 / 10), f64 (1 / 5), f64 (7 / 10)] 9)) = 9"
proof -
  have "0 < positive_sum [f64 (1 / 10), f64 (1 / 5), f64 (7 / 10)]" by code_simp
  note layer_ownership_blocks [OF this, of 9]
  moreover have "layer_device_assignments [f64 (1 / 10), f64 (1 / 5), f64 (7 / 10)] 9 = ([0, 1, 1, 1, 2, 2, 2, 2, 2], 2)"
    by code_simp
  ultimately show ?thesis by simp
qed

section \<open>Packing\<close>

text \<open>
  The comparison "more room" is the one \<^verbatim>\<open>newest\<close> of \<open>ModelInfo\<close> interprets the scan contract on.
\<close>

lemma roomiest_none: "roomiest rem order chunk = None \<longleftrightarrow> (\<forall>gi \<in> set order. \<not> can_hold rem chunk gi)"
  using newest.scan_best_none [of "can_hold rem chunk" "\<lambda>gi. rem ! nat gi" order]
  by (auto simp: roomiest_def split: option.split)

lemma roomiest_some:
  assumes "roomiest rem order chunk = Some gi"
  shows "gi \<in> set order" "can_hold rem chunk gi"
    and "gj \<in> set order \<Longrightarrow> can_hold rem chunk gj \<Longrightarrow> rem ! nat gj \<le> rem ! nat gi"
proof -
  obtain i k where s: "scan_best (can_hold rem chunk) (\<lambda>gi. rem ! nat gi) (\<lambda>a b. a > b) 0 order None = Some (i, k)"
    "gi = order ! i"
    using assms by (auto simp: roomiest_def split: option.splits)
  note b = newest.scan_best_some [OF s(1)]
  show "gi \<in> set order" "can_hold rem chunk gi" using b(1,2) s(2) by auto
  show "gj \<in> set order \<Longrightarrow> can_hold rem chunk gj \<Longrightarrow> rem ! nat gj \<le> rem ! nat gi"
    using b(3,4) s(2) by (auto simp: in_set_conv_nth not_less)
qed

text \<open>How many chunks the devices of \<open>order\<close> hold between them.\<close>

definition chunk_capacity :: "int list \<Rightarrow> int \<Rightarrow> int list \<Rightarrow> nat" where
  "chunk_capacity rem chunk order = (\<Sum>gi \<in> set order. nat (rem ! nat gi div chunk))"

lemma chunk_capacity_zero:
  assumes "0 < chunk" "\<forall>gi \<in> set order. 0 \<le> gi \<and> gi < int (length rem)"
  shows "chunk_capacity rem chunk order = 0 \<longleftrightarrow> (\<forall>gi \<in> set order. \<not> can_hold rem chunk gi)"
proof -
  have "nat (r div chunk) = 0 \<longleftrightarrow> r < chunk" for r
    using assms(1) by (metis linorder_not_le nat_0_iff nat_eq_iff2 pos_imp_zdiv_pos_iff)
  then show ?thesis using assms(2) by (auto simp: chunk_capacity_def can_hold_def)
qed

lemma chunk_capacity_take:
  assumes "0 < chunk" "gi \<in> set order" "can_hold rem chunk gi"
    "\<forall>gi \<in> set order. 0 \<le> gi \<and> gi < int (length rem)"
  shows "chunk_capacity rem chunk order =
    Suc (chunk_capacity (rem[nat gi := rem ! nat gi - chunk]) chunk order)"
proof -
  let ?r = "rem[nat gi := rem ! nat gi - chunk]"
  have ge: "chunk \<le> rem ! nat gi" and len: "nat gi < length rem"
    using assms(3) by (auto simp: can_hold_def)
  have "(rem ! nat gi - chunk) div chunk = rem ! nat gi div chunk - 1"
    using div_add_self2 [of chunk "rem ! nat gi - chunk"] assms(1) by simp
  moreover have "0 < rem ! nat gi div chunk" using ge assms(1) by (simp add: pos_imp_zdiv_pos_iff)
  ultimately have one: "nat (rem ! nat gi div chunk) = Suc (nat (?r ! nat gi div chunk))"
    using len by simp
  have rest: "(\<Sum>gj \<in> set order - {gi}. nat (?r ! nat gj div chunk)) = (\<Sum>gj \<in> set order - {gi}. nat (rem ! nat gj div chunk))"
    using assms(3,4) by (intro sum.cong) (auto simp: nth_list_update can_hold_def eq_nat_nat_iff)
  show ?thesis unfolding chunk_capacity_def
    using assms(2) one rest by (simp add: sum.remove [of _ gi])
qed

text \<open>Chunks pinned on one device.\<close>

definition pins_on :: "int \<Rightarrow> chunk_pin list \<Rightarrow> nat" where
  "pins_on gi pins = length (filter (\<lambda>p. cp_gi p = gi) pins)"

lemma pack_loop_spec:
  assumes "0 < chunk" "\<forall>gi \<in> set order. 0 \<le> gi \<and> gi < int (length rem)"
    "pack_loop rem order chunk layer n = (pins, moved)"
  shows "length pins = min n (chunk_capacity rem chunk order) \<and> moved = chunk * int (length pins) \<and>
    map cp_layer pins = map (\<lambda>i. layer + int i) [0..<length pins] \<and> cp_gi ` set pins \<subseteq> set order \<and>
    (\<forall>gi \<in> set order. pins_on gi pins = 0 \<or> chunk * int (pins_on gi pins) \<le> rem ! nat gi)"
  using assms(2,3)
proof (induction n arbitrary: rem layer pins moved)
  case (Suc n)
  show ?case
  proof (cases "roomiest rem order chunk")
    case None
    then have "chunk_capacity rem chunk order = 0"
      using Suc.prems(1) chunk_capacity_zero [OF assms(1)] roomiest_none by blast
    with None Suc.prems(2) show ?thesis by (simp add: pins_on_def)
  next
    case (Some gi)
    note best = roomiest_some [OF Some]
    let ?r = "rem[nat gi := rem ! nat gi - chunk]"
    obtain ps mv where rec: "pack_loop ?r order chunk (layer + 1) n = (ps, mv)" by fastforce
    then have p: "pins = \<lparr>cp_layer = layer, cp_gi = gi\<rparr> # ps" "moved = chunk + mv"
      using Suc.prems(2) Some by auto
    have "\<forall>gi \<in> set order. 0 \<le> gi \<and> gi < int (length ?r)" using Suc.prems(1) by simp
    note IH = Suc.IH [OF this rec]
    have cap: "chunk_capacity rem chunk order = Suc (chunk_capacity ?r chunk order)"
      using chunk_capacity_take [OF assms(1) best(1,2)] Suc.prems(1) .
    have layers: "map cp_layer pins = map (\<lambda>i. layer + int i) [0..<length pins]"
      using IH by (simp add: p upt_conv_Cons map_Suc_upt [symmetric] del: upt_Suc)
    have "pins_on gj pins = 0 \<or> chunk * int (pins_on gj pins) \<le> rem ! nat gj" if "gj \<in> set order" for gj
    proof (cases "gj = gi")
      case True
      have "chunk \<le> rem ! nat gi" "nat gi < length rem" using best(2) by (auto simp: can_hold_def)
      with IH best(1) True show ?thesis by (auto simp: pins_on_def p algebra_simps)
    next
      case False
      then have "nat gj \<noteq> nat gi" using Suc.prems(1) that best(1) by (simp add: eq_nat_nat_iff)
      with IH that False show ?thesis by (auto simp: pins_on_def p)
    qed
    with IH cap layers best(1) show ?thesis by (simp add: p algebra_simps)
  qed
qed (simp add: pins_on_def)

text \<open>
  The gate+up packer is optimal and safe: it places the largest number of chunks the leftover
  VRAM can hold (the sum over the devices of their whole chunks, or all CPU layers), on
  consecutive CPU layers from the first, never more on a device than its remainder holds, and it
  reports exactly the memory it moved.
\<close>

theorem pack_gate_up_optimal:
  assumes "pack_gate_up_chunks remainder order chunk cpu_start cpu_count = (pins, moved)"
    "0 < chunk" "\<forall>gi \<in> set order. 0 \<le> gi \<and> gi < int (length remainder)"
  shows "length pins = min (nat cpu_count) (\<Sum>gi \<in> set order. nat (remainder ! nat gi div chunk)) \<and>
    moved = chunk * int (length pins) \<and>
    map cp_layer pins = map (\<lambda>i. cpu_start + int i) [0..<length pins] \<and> cp_gi ` set pins \<subseteq> set order \<and>
    (\<forall>gi \<in> set order. pins_on gi pins = 0 \<or> chunk * int (pins_on gi pins) \<le> remainder ! nat gi)"
proof (cases "cpu_count \<le> 0")
  case True
  with assms show ?thesis by (simp add: pack_gate_up_chunks_def pins_on_def)
next
  case False
  then have "pack_loop remainder order chunk cpu_start (nat cpu_count) = (pins, moved)"
    using assms(1,2) by (simp add: pack_gate_up_chunks_def)
  from pack_loop_spec [OF assms(2,3) this] show ?thesis by (simp add: chunk_capacity_def)
qed

theorem pack_gate_up_optimal_witness:
  "pack_gate_up_chunks [500, 1700, 900] [1, 0, 2] 400 10 9 =
     ([\<lparr>cp_layer = 10, cp_gi = 1\<rparr>, \<lparr>cp_layer = 11, cp_gi = 1\<rparr>, \<lparr>cp_layer = 12, cp_gi = 1\<rparr>,
       \<lparr>cp_layer = 13, cp_gi = 2\<rparr>, \<lparr>cp_layer = 14, cp_gi = 1\<rparr>, \<lparr>cp_layer = 15, cp_gi = 0\<rparr>,
       \<lparr>cp_layer = 16, cp_gi = 2\<rparr>], 2800) \<and>
   length (fst (pack_gate_up_chunks [500, 1700, 900] [1, 0, 2] 400 10 9)) = min 9 (1 + 4 + 2)"
proof -
  have e: "pack_gate_up_chunks [500, 1700, 900] [1, 0, 2] 400 10 9 =
     ([\<lparr>cp_layer = 10, cp_gi = 1\<rparr>, \<lparr>cp_layer = 11, cp_gi = 1\<rparr>, \<lparr>cp_layer = 12, cp_gi = 1\<rparr>,
       \<lparr>cp_layer = 13, cp_gi = 2\<rparr>, \<lparr>cp_layer = 14, cp_gi = 1\<rparr>, \<lparr>cp_layer = 15, cp_gi = 0\<rparr>,
       \<lparr>cp_layer = 16, cp_gi = 2\<rparr>], 2800)" by code_simp
  from pack_gate_up_optimal [OF e] show ?thesis using e by (simp add: numeral_2_eq_2)
qed

section \<open>Expert-only devices keep a layer owner\<close>

lemma length_mark [simp]: "length (mark_expert_only marks owners cands) = length marks"
  by (induction marks owners cands rule: mark_expert_only.induct) auto

lemma mark_member:
  "i < length marks \<Longrightarrow> mark_expert_only marks owners cands ! i \<Longrightarrow> marks ! i \<or> i \<in> set cands"
proof (induction marks owners cands rule: mark_expert_only.induct)
  case (2 marks owners c cands)
  then show ?case by (cases "i = c") (auto split: if_splits)
qed simp

lemma mark_count:
  "length (filter id (mark_expert_only marks owners cands)) \<le> length (filter id marks) + nat (owners - 1)"
proof (induction marks owners cands rule: mark_expert_only.induct)
  case (2 marks owners i cands)
  show ?case
  proof (cases "owners \<le> 1")
    case False
    have "length (filter id (marks[i := True])) \<le> Suc (length (filter id marks))"
    proof (cases "i < length marks")
      case True
      then show ?thesis using length_filter_update [OF True, of id True] by (auto split: if_splits)
    next
      case False
      then have "marks[i := True] = marks" by (simp add: list_update_beyond)
      then show ?thesis by simp
    qed
    with 2 [OF False] False show ?thesis by (simp add: id_def)
  qed simp
qed simp

text \<open>
  Only devices that are slow on the link, or cannot hold one dense layer, become expert-only,
  each of them can carry a whole expert layer, and a device that can own layers is always left:
  the pass never turns the last split owner into expert storage.
\<close>

theorem expert_only_keeps_owner:
  fixes eo_fixed :: "int list" and expert_mb non_expert_mb :: int
  assumes "i < length gpus" "split_candidate gpus split_fixed i"
  defines "marks \<equiv> expert_only_slow_gpus gpus split_fixed eo_fixed expert_mb non_expert_mb"
  shows "length marks = length gpus \<and>
    (\<exists>j < length gpus. split_candidate gpus split_fixed j \<and> \<not> marks ! j) \<and>
    (\<forall>j < length gpus. marks ! j \<longrightarrow>
       0 < bandwidth_mbps (gpus ! j) \<and> expert_mb \<le> vram_free_mb (gpus ! j) - eo_fixed ! j \<and>
       (vram_free_mb (gpus ! j) - split_fixed ! j < non_expert_mb \<or>
        (\<exists>g \<in> set gpus. 100 * bandwidth_mbps (gpus ! j) \<le> 33 * bandwidth_mbps g)))"
proof -
  let ?none = "replicate (length gpus) False"
  let ?cand = "filter (split_candidate gpus split_fixed) [0..<length gpus]"
  define bw where "bw = foldl (\<lambda>m g. if bandwidth_mbps g > m then bandwidth_mbps g else m) 0 gpus"
  let ?eo = "expert_only_candidate gpus split_fixed eo_fixed expert_mb non_expert_mb bw"
  let ?sorted = "sort_key (\<lambda>i. let g = gpus ! i in (bandwidth_mbps g, - vram_free_mb g, g_index g))
      (filter ?eo [0..<length gpus])"
  have bw: "\<exists>g \<in> set gpus. bandwidth_mbps g = bw" if "0 < bw"
  proof -
    have "foldl (\<lambda>m g. if bandwidth_mbps g > m then bandwidth_mbps g else m) a gs = a \<or>
        (\<exists>g \<in> set gs. bandwidth_mbps g = foldl (\<lambda>m g. if bandwidth_mbps g > m then bandwidth_mbps g else m) a gs)"
      for a gs
    proof (induction gs arbitrary: a)
      case (Cons g gs)
      show ?case using Cons.IH [of "bandwidth_mbps g"] Cons.IH [of a] by auto
    qed simp
    from this [of 0 gpus] that show ?thesis by (auto simp: bw_def)
  qed
  consider (none) "marks = ?none"
    | (marked) "0 < bw" "marks = mark_expert_only ?none (int (length ?cand)) ?sorted"
  proof -
    have "marks = (if length gpus \<le> 1 \<or> expert_mb \<le> 0 \<or> bw \<le> 0 then ?none
        else mark_expert_only ?none (int (length ?cand)) ?sorted)"
      unfolding marks_def expert_only_slow_gpus_def Let_def bw_def ..
    with that show thesis by (cases "length gpus \<le> 1 \<or> expert_mb \<le> 0 \<or> bw \<le> 0") auto
  qed
  then show ?thesis
  proof cases
    case none
    with assms(1,2) show ?thesis by auto
  next
    case marked
    have "length (filter id marks) \<le> nat (int (length ?cand) - 1)"
      using mark_count [of ?none] by (simp add: marked(2))
    moreover have "?cand \<noteq> []" using assms(1,2) by (auto simp: filter_empty_conv)
    ultimately have few: "length (filter id marks) < length ?cand" by (cases ?cand) auto
    have len: "length marks = length gpus" by (simp add: marked(2))
    have owner: "\<exists>j < length gpus. split_candidate gpus split_fixed j \<and> \<not> marks ! j"
    proof (rule ccontr)
      assume "\<not> ?thesis"
      then have "set ?cand \<subseteq> {j. j < length marks \<and> marks ! j}" using len by auto
      then have "card (set ?cand) \<le> card {j. j < length marks \<and> marks ! j}" by (rule card_mono [rotated]) simp
      moreover have "card {j. j < length marks \<and> marks ! j} = length (filter id marks)"
        by (simp add: length_filter_conv_card)
      moreover have "card (set ?cand) = length ?cand" by (intro distinct_card) simp
      ultimately show False using few by simp
    qed
    have "0 < bandwidth_mbps (gpus ! j) \<and> expert_mb \<le> vram_free_mb (gpus ! j) - eo_fixed ! j \<and>
       (vram_free_mb (gpus ! j) - split_fixed ! j < non_expert_mb \<or>
        (\<exists>g \<in> set gpus. 100 * bandwidth_mbps (gpus ! j) \<le> 33 * bandwidth_mbps g))"
      if j: "j < length gpus" "marks ! j" for j
    proof -
      have "?none ! j \<or> j \<in> set ?sorted"
        by (rule mark_member) (use j marked(2) in simp_all)
      then have "?eo j" using j(1) by simp
      then have e: "0 < bandwidth_mbps (gpus ! j)" "expert_mb \<le> vram_free_mb (gpus ! j) - eo_fixed ! j"
        "(of_int (bandwidth_mbps (gpus ! j)) / of_int bw \<le> (33 / 100 :: rat)) \<or>
         vram_free_mb (gpus ! j) - split_fixed ! j < non_expert_mb"
        by (auto simp: expert_only_candidate_def Let_def expert_only_max_bandwidth_ratio_def split: if_splits)
      have "100 * bandwidth_mbps (gpus ! j) \<le> 33 * bw"
        if "of_int (bandwidth_mbps (gpus ! j)) / of_int bw \<le> (33 / 100 :: rat)"
      proof -
        have "of_int (100 * bandwidth_mbps (gpus ! j)) \<le> (of_int (33 * bw) :: rat)"
          using that marked(1) by (simp add: field_simps)
        then show ?thesis by (simp only: of_int_le_iff)
      qed
      with e bw [OF marked(1)] show ?thesis by auto
    qed
    with owner len show ?thesis by blast
  qed
qed

theorem expert_only_keeps_owner_witness:
  "expert_only_slow_gpus [demo_gpu 0 24000 32000, demo_gpu 1 12000 4000, demo_gpu 2 12000 4000]
     [4000, 4000, 4000] [1000, 1000, 1000] 1500 100 = [False, True, True] \<and>
   (\<exists>j < 3. split_candidate [demo_gpu 0 24000 32000, demo_gpu 1 12000 4000, demo_gpu 2 12000 4000] [4000, 4000, 4000] j \<and>
      \<not> [False, True, True] ! j)"
proof -
  let ?g = "[demo_gpu 0 24000 32000, demo_gpu 1 12000 4000, demo_gpu 2 12000 4000]"
  have e: "expert_only_slow_gpus ?g [4000, 4000, 4000] [1000, 1000, 1000] 1500 100 = [False, True, True]" by code_simp
  have c: "split_candidate ?g [4000, 4000, 4000] 0" by code_simp
  have "0 < length ?g" by simp
  from expert_only_keeps_owner [OF this c, of "[1000, 1000, 1000]" 1500 100]
  obtain j where "j < length ?g" "split_candidate ?g [4000, 4000, 4000] j" "\<not> [False, True, True] ! j"
    unfolding e by blast
  with e show ?thesis by (auto simp: numeral_3_eq_3)
qed

end
