(* ===== verification/KvLayers.thy ===== *)
theory KvLayers
  imports KvTypes LayerSplit
begin

text \<open>
  The size of the KV cache: per block (\<^verbatim>\<open>go/pkg/placement/kvlayers.go\<close>), from a
  measurement or by the scalar formulas (\<^verbatim>\<open>measuredKVTotalMB\<close> and
  \<^verbatim>\<open>computeKVTotalMB\<close> of \<^verbatim>\<open>placement.go\<close>), and its distribution over
  the devices of a layer split. Sizes are Go integers in bytes or MiB; the products stay far below
  \<^verbatim>\<open>2^63\<close> for any model file, so they are not wrapped.
\<close>

section \<open>Data\<close>

record kv_layer =
  kl_cached :: bool
  kl_swa :: bool
  kl_k_width :: int
  kl_v_width :: int
  kl_recurrent_f32 :: int

record kv_layer_layout =
  ll_layers :: "kv_layer list"
  ll_window :: int
  ll_v_width_max :: int

record kv_cache_shape =
  sh_context :: int
  sh_ubatch :: int
  sh_slots :: int
  sh_unified :: bool
  sh_swa_full :: bool
  sh_kv_type :: string
  sh_v_transposed :: bool
  sh_mtp :: bool

definition empty_layer :: kv_layer where
  "empty_layer = \<lparr>kl_cached = False, kl_swa = False, kl_k_width = 0, kl_v_width = 0, kl_recurrent_f32 = 0\<rparr>"

definition backend_default_ubatch :: int where "backend_default_ubatch = 512"

definition kv_special_cache_archs :: "string list" where
  "kv_special_cache_archs = [''gemma3n'', ''gemma4-assistant'', ''graniteswitch'']"

definition delta_net_hybrid_archs :: "string list" where
  "delta_net_hybrid_archs = [''qwen3next'', ''qwen35'', ''qwen35moe'']"

section \<open>Layouts\<close>

text \<open>The number of blocks that serve the normal context.\<close>

definition trunk_layers :: "model_profile \<Rightarrow> int" where
  "trunk_layers m =
     (let n = m_num_layers m; nextn = m_next_n_predict_layers m in
      if nextn > 0 \<and> nextn < n then n - nextn else n)"

definition delta_net_state_f32 :: "model_profile \<Rightarrow> int" where
  "delta_net_state_f32 m =
     (let head_v = go_div (m_ssm_inner_size m) (m_ssm_time_step_rank m) in
      (m_ssm_conv_kernel m - 1) * (2 * m_ssm_state_size m * m_ssm_group_count m + m_ssm_inner_size m)
        + head_v * head_v * m_ssm_time_step_rank m)"

definition delta_net_layer :: "model_profile \<Rightarrow> int \<Rightarrow> kv_layer" where
  "delta_net_layer m il =
     (if il \<ge> trunk_layers m then empty_layer
      else if go_mod (il + 1) (m_full_attn_interval m) \<noteq> 0
      then empty_layer\<lparr>kl_cached := True, kl_recurrent_f32 := delta_net_state_f32 m\<rparr>
      else empty_layer\<lparr>kl_cached := True, kl_k_width := m_head_count_kv m * m_key_length m,
                       kl_v_width := m_head_count_kv m * m_value_length m\<rparr>)"

definition cached_v_width_max :: "kv_layer list \<Rightarrow> int" where
  "cached_v_width_max ls = foldl (\<lambda>w l. if kl_cached l then max w (kl_v_width l) else w) 0 ls"

definition delta_net_hybrid_layout :: "model_profile option \<Rightarrow> kv_layer_layout option" where
  "delta_net_hybrid_layout mo =
     (case mo of
        None \<Rightarrow> None
      | Some m \<Rightarrow>
          if to_lower (m_model_arch m) \<notin> set delta_net_hybrid_archs \<or> \<not> has_ssm_layout mo \<or>
             m_head_count_kv_by_layer m \<noteq> [] \<or> m_swa_pattern m \<noteq> [] \<or> m_sliding_window m > 0 \<or>
             m_kv_lora_rank m > 0 \<or> m_kv_loops m > 1 then None
          else if m_num_layers m \<le> 0 \<or> m_full_attn_interval m \<le> 0 \<or> m_ssm_conv_kernel m \<le> 0 \<or>
             m_ssm_state_size m \<le> 0 \<or> m_ssm_group_count m \<le> 0 \<or> m_ssm_inner_size m \<le> 0 \<or>
             m_ssm_time_step_rank m \<le> 0 \<or> go_mod (m_ssm_inner_size m) (m_ssm_time_step_rank m) \<noteq> 0 \<or>
             m_key_length m \<le> 0 \<or> m_value_length m \<le> 0 \<or> m_head_count_kv m \<le> 0 then None
          else
            let ls = map (\<lambda>il. delta_net_layer m (int il)) [0..<nat (m_num_layers m)]
            in Some \<lparr>ll_layers = ls, ll_window = 0, ll_v_width_max = cached_v_width_max ls\<rparr>)"

text \<open>Key and value widths of a head; for a windowed block the stated ones if any.\<close>

definition head_widths :: "model_profile \<Rightarrow> int \<times> int" where
  "head_widths m =
     (let k = (if m_key_length m \<le> 0 \<and> m_embedding_length m > 0 \<and> m_head_count m > 0
               then go_div (m_embedding_length m) (m_head_count m) else m_key_length m)
      in (k, if m_value_length m \<le> 0 then k else m_value_length m))"

definition swa_widths :: "model_profile \<Rightarrow> int \<times> int" where
  "swa_widths m =
     (let (k, v) = head_widths m in
      (if m_key_length_swa m > 0 then m_key_length_swa m else k,
       if m_value_length_swa m > 0 then m_value_length_swa m else v))"

definition block_layer :: "model_profile \<Rightarrow> nat \<Rightarrow> kv_layer option" where
  "block_layer m il =
     (let heads = (if m_head_count_kv_by_layer m \<noteq> [] then m_head_count_kv_by_layer m ! il else m_head_count_kv m);
          pattern = (if m_swa_pattern m \<noteq> [] then m_swa_pattern m ! il else 0);
          (k, v) = (if pattern = 1 then swa_widths m else head_widths m)
      in
      if heads \<le> 0 then None
      else if pattern \<noteq> 0 \<and> pattern \<noteq> 1 then None
      else Some \<lparr>kl_cached = int il < trunk_layers m, kl_swa = (pattern = 1),
                 kl_k_width = heads * k, kl_v_width = heads * v, kl_recurrent_f32 = 0\<rparr>)"

definition stated_layout :: "model_profile \<Rightarrow> kv_layer_layout option" where
  "stated_layout m =
     (let n = m_num_layers m; (k, v) = head_widths m in
      if m_head_count_kv_by_layer m = [] \<and> m_swa_pattern m = [] then None
      else if n \<le> 0 \<or> m_kv_lora_rank m > 0 \<or> has_ssm_layout (Some m) \<or> m_kv_loops m > 1 \<or>
         to_lower (m_model_arch m) \<in> set kv_special_cache_archs then None
      else if m_head_count_kv_by_layer m \<noteq> [] \<and> int (length (m_head_count_kv_by_layer m)) \<noteq> n then None
      else if m_swa_pattern m \<noteq> [] \<and> int (length (m_swa_pattern m)) \<noteq> n then None
      else if m_swa_pattern m = [] \<and> m_sliding_window m > 0 then None
      else if k \<le> 0 \<or> v \<le> 0 then None
      else
        let blocks = map (block_layer m) [0..<nat n] in
        if None \<in> set blocks then None
        else
          let ls = map the blocks in
          if list_ex (\<lambda>l. kl_cached l \<and> kl_swa l) ls \<and> m_sliding_window m \<le> 0 then None
          else Some \<lparr>ll_layers = ls, ll_window = m_sliding_window m, ll_v_width_max = cached_v_width_max ls\<rparr>)"

definition model_kv_layer_layout :: "model_profile option \<Rightarrow> kv_layer_layout option" where
  "model_kv_layer_layout mo =
     (case delta_net_hybrid_layout mo of
        Some l \<Rightarrow> Some l
      | None \<Rightarrow> (case mo of None \<Rightarrow> None | Some m \<Rightarrow> stated_layout m))"

text \<open>MiB per slot, as the exact quotient.\<close>

definition recurrent_state_mib_per_slot :: "model_profile option \<Rightarrow> rat" where
  "recurrent_state_mib_per_slot mo =
     (case delta_net_hybrid_layout mo of
        None \<Rightarrow> 0
      | Some l \<Rightarrow> of_int (foldl (\<lambda>t x. t + kl_recurrent_f32 x) 0 (ll_layers l) * 4) / 1048576)"

section \<open>Cells and rows\<close>

definition pad_to_256 :: "int \<Rightarrow> int" where
  "pad_to_256 n = go_div (n + 255) 256 * 256"

text \<open>Cells per stream of a full and of a windowed cache, and the number of streams.\<close>

definition layout_cells :: "int \<Rightarrow> kv_cache_shape \<Rightarrow> int \<times> int \<times> int" where
  "layout_cells window0 sh =
     (let slots = max 1 (sh_slots sh);
          ctx = pad_to_256 (sh_context sh);
          (full, streams) = (if \<not> sh_unified sh \<and> slots > 1 then (pad_to_256 (go_div ctx slots), slots) else (ctx, 1))
      in
      if sh_swa_full sh then (full, full, streams)
      else
        let ub = (if sh_ubatch sh \<le> 0 then backend_default_ubatch else sh_ubatch sh);
            window = (if sh_unified sh then window0 * slots else window0)
        in (full, pad_to_256 (min full (window + ub)), streams))"

definition kv_row_bytes :: "string \<Rightarrow> int \<Rightarrow> int option" where
  "kv_row_bytes kv_type elems =
     (case kv_type_bytes_per_element kv_type of
        None \<Rightarrow> None
      | Some b \<Rightarrow>
          if elems \<le> 0 then None
          else if b \<ge> 2 then Some (elems * \<lfloor>b\<rfloor>)
          else Some (go_div (elems + 31) 32 * go_round (b * 32)))"

definition layer_cache_bytes :: "kv_layer_layout \<Rightarrow> kv_cache_shape \<Rightarrow> kv_layer \<Rightarrow> int option" where
  "layer_cache_bytes layout sh l =
     (if \<not> kl_cached l then Some 0
      else if kl_recurrent_f32 l > 0 then Some (kl_recurrent_f32 l * 4 * max 1 (sh_slots sh))
      else
        let v_width = (if sh_v_transposed sh then ll_v_width_max layout else kl_v_width l);
            (full, swa, streams) = layout_cells (ll_window layout) sh
        in case (kv_row_bytes (sh_kv_type sh) (kl_k_width l), kv_row_bytes (sh_kv_type sh) v_width) of
             (Some k, Some v) \<Rightarrow> Some ((k + v) * (if kl_swa l then swa else full) * streams)
           | _ \<Rightarrow> None)"

definition kv_layer_bytes :: "model_profile option \<Rightarrow> kv_cache_shape \<Rightarrow> int list option" where
  "kv_layer_bytes mo sh0 =
     (case (model_kv_layer_layout mo, mo) of
        (Some layout, Some m) \<Rightarrow>
          if sh_context sh0 \<le> 0 then None
          else
            let sh = (if m_full_context_windowed_kv m then sh0\<lparr>sh_swa_full := True\<rparr> else sh0);
                bytes = map (layer_cache_bytes layout sh) (ll_layers layout)
            in if None \<in> set bytes then None else Some (map the bytes)
      | _ \<Rightarrow> None)"

text \<open>\<^verbatim>\<open>(int, bool)\<close>: the second component is whether the total is positive.\<close>

definition kv_layer_total_mb :: "model_profile option \<Rightarrow> kv_cache_shape \<Rightarrow> int \<times> bool" where
  "kv_layer_total_mb mo sh =
     (case kv_layer_bytes mo sh of
        None \<Rightarrow> (0, False)
      | Some layers \<Rightarrow> let total = sum_list layers in (bytes_to_mib_ceil total, total > 0))"

section \<open>Totals\<close>

fun string_less :: "string \<Rightarrow> string \<Rightarrow> bool" where
  "string_less _ [] = False"
| "string_less [] (_ # _) = True"
| "string_less (c # s) (d # t) =
     ((of_char c :: nat) < of_char d \<or> c = d \<and> string_less s t)"

definition any_measured_kv_geometry :: "model_profile option \<Rightarrow> (kv_geometry \<times> string) option" where
  "any_measured_kv_geometry mo =
     (case mo of
        None \<Rightarrow> None
      | Some m \<Rightarrow>
          let best = foldl (\<lambda>best (t, g). if \<not> kg_measured g then best
                              else if best = [] \<or> string_less t best then t else best)
                       [] (m_measured_kv_geometry m)
          in if best = [] then None
             else map_option (\<lambda>g. (g, best)) (map_of (m_measured_kv_geometry m) best))"

definition requires_scoped_context_evidence :: "model_profile option \<Rightarrow> bool" where
  "requires_scoped_context_evidence mo = has_ssm_layout mo"

definition go_trunc :: "rat \<Rightarrow> int" where
  "go_trunc x = (if x < 0 then - \<lfloor>- x\<rfloor> else \<lfloor>x\<rfloor>)"

definition measured_kv_total_mb :: "model_profile \<Rightarrow> int \<Rightarrow> string \<Rightarrow> bool \<Rightarrow> int option" where
  "measured_kv_total_mb m ctx kv_type swa_full =
     (let safe = \<not> requires_scoped_context_evidence (Some m);
          at_type = (case map_of (m_measured_kv_geometry m) (to_lower kv_type) of
                       Some g \<Rightarrow> if safe \<and> kg_measured g then kg_total_mb g ctx swa_full else 0
                     | None \<Rightarrow> 0);
          rescaled = (case any_measured_kv_geometry (Some m) of
                        Some (g, t) \<Rightarrow>
                          (case rescale_kv_geometry g t kv_type of
                             (g', True) \<Rightarrow> if safe then kg_total_mb g' ctx swa_full else 0
                           | (_, False) \<Rightarrow> 0)
                      | None \<Rightarrow> 0)
      in
      if at_type > 0 then Some at_type
      else if rescaled > 0 then Some rescaled
      else case map_of (m_measured_kv_bytes_per_tok m) (to_lower kv_type) of
             Some r \<Rightarrow>
               if safe \<and> r > 0 \<and> \<not> swa_full
               then Some (go_trunc (r * of_int ctx / 1048576 + 1 / 2)) else None
           | None \<Rightarrow> None)"

definition swa_period :: "string \<Rightarrow> int" where
  "swa_period arch =
     (if arch \<in> {''gemma2'', ''cohere2'', ''exaone4'', ''llama4''} then 4
      else if arch = ''gemma3'' then 6
      else if arch = ''plamo3'' then 8
      else 6)"

definition kv_formula_elems :: "model_profile \<Rightarrow> int \<Rightarrow> bool \<Rightarrow> int" where
  "kv_formula_elems m ctx swa_full =
     (let per = m_head_count_kv m * (m_key_length m + m_value_length m) in
      if m_kv_lora_rank m > 0 then m_num_layers m * ctx * (m_kv_lora_rank m + m_rope_dim m)
      else if m_has_ssm m = 1 then
        let attn = (if m_full_attn_interval m > 0
                    then (let a = go_div (m_num_layers m) (m_full_attn_interval m) in if a < 1 then 1 else a)
                    else if m_head_count_kv m = 0 then 0
                    else go_div (m_num_layers m + 1) 2)
        in attn * ctx * per
      else if m_sliding_window m > 0 then
        let period = swa_period (m_model_arch m);
            full = go_div (m_num_layers m + period - 1) period;
            swa_ctx = (if \<not> swa_full \<and> ctx > m_sliding_window m then m_sliding_window m else ctx)
        in full * ctx * per + (m_num_layers m - full) * swa_ctx * per
      else m_num_layers m * ctx * per)"

definition compute_kv_total_mb :: "model_profile \<Rightarrow> int \<Rightarrow> string \<Rightarrow> bool \<Rightarrow> int" where
  "compute_kv_total_mb m ctx kv_type swa_full0 =
     (let swa_full = (m_full_context_windowed_kv m \<or> swa_full0) in
      case measured_kv_total_mb m ctx kv_type swa_full of
        Some mb \<Rightarrow> mb
      | None \<Rightarrow>
          let (mb, ok) = kv_layer_total_mb (Some m)
                \<lparr>sh_context = ctx, sh_ubatch = 0, sh_slots = 0, sh_unified = False, sh_swa_full = swa_full,
                 sh_kv_type = kv_type, sh_v_transposed = False, sh_mtp = False\<rparr>
          in if ok then mb
             else
               let elems0 = kv_formula_elems m ctx swa_full;
                   elems = (if m_kv_loops m > 1 then elems0 * m_kv_loops m else elems0);
                   b = (case kv_type_bytes_per_element kv_type of Some b \<Rightarrow> b | None \<Rightarrow> 17 / 16)
               in go_trunc (of_int elems * b / 1024 / 1024))"

definition estimate_kv_cache_mb :: "model_profile option \<Rightarrow> int \<Rightarrow> string \<Rightarrow> bool \<Rightarrow> int" where
  "estimate_kv_cache_mb mo ctx kv_type swa_full =
     (case mo of None \<Rightarrow> 0 | Some m \<Rightarrow> if ctx \<le> 0 then 0 else compute_kv_total_mb m ctx kv_type swa_full)"

section \<open>Shares\<close>

text \<open>
  \<open>devices\<close> is the device of every block (\<^verbatim>\<open>backendLayerDeviceAssignments\<close>).
\<close>

fun device_bytes :: "nat \<Rightarrow> int list \<Rightarrow> int list \<Rightarrow> int list \<times> int" where
  "device_bytes n [] devices = (replicate n 0, 0)"
| "device_bytes n layers [] = (replicate n 0, 0)"
| "device_bytes n (b # layers) (d # devices) =
     (let (out, total) = device_bytes n layers devices in
      if b > 0 \<and> d \<ge> 0 \<and> d < int n then (out[nat d := out ! nat d + b], total + b) else (out, total))"

definition kv_layer_fractions :: "int list \<Rightarrow> int list \<Rightarrow> nat \<Rightarrow> rat list option" where
  "kv_layer_fractions layers devices n =
     (let (out, total) = device_bytes n layers devices in
      if total \<le> 0 then None else Some (map (\<lambda>b. f64 (of_int b / of_int total)) out))"

definition kv_layer_device_fractions ::
  "model_profile option \<Rightarrow> kv_cache_shape \<Rightarrow> int list \<Rightarrow> rat list \<Rightarrow> rat list option" where
  "kv_layer_device_fractions mo sh devices split =
     (case kv_layer_bytes mo sh of
        None \<Rightarrow> None
      | Some layers \<Rightarrow> if split = [] then None else kv_layer_fractions layers devices (length split))"

definition kv_layer_share_mb ::
  "model_profile option \<Rightarrow> kv_cache_shape \<Rightarrow> int \<Rightarrow> rat list \<Rightarrow> int list \<Rightarrow> int list \<Rightarrow> int \<Rightarrow> int" where
  "kv_layer_share_mb mo sh total_mb split devices owned idx =
     (if total_mb \<le> 0 \<or> idx < 0 then 0
      else case kv_layer_device_fractions mo sh devices split of
        Some fr \<Rightarrow>
          if idx \<ge> int (length fr) \<or> fr ! nat idx \<le> 0 then 0
          else
            let (exact, ok) = kv_layer_total_mb mo sh;
                total = (if ok \<and> exact > total_mb then exact else total_mb)
            in \<lceil>f64 (of_int total * (fr ! nat idx))\<rceil>
      | None \<Rightarrow> owned_share_mb total_mb owned (case mo of None \<Rightarrow> 0 | Some m \<Rightarrow> m_num_layers m) idx)"

text \<open>The ratio of a full to a windowed cache at the reference context.\<close>

definition swa_full_kv_multiplier :: "model_profile option \<Rightarrow> rat option" where
  "swa_full_kv_multiplier mo =
     (case mo of
        None \<Rightarrow> None
      | Some m \<Rightarrow>
          let ctx = (if m_ctx_train m > 0 \<and> m_ctx_train m < 131072 then m_ctx_train m else 131072);
              full = estimate_kv_cache_mb mo ctx ''q8_0'' True;
              windowed = estimate_kv_cache_mb mo ctx ''q8_0'' False
          in if full \<le> 0 \<or> windowed \<le> 0 then None else Some (of_int full / of_int windowed))"

section \<open>Monotonicity\<close>

lemma go_div_sign: "0 < d \<Longrightarrow> go_div a d = (if 0 \<le> a then a div d else - (- a div d))"
  by (auto simp: go_div_def sgn_if)

lemma go_div_mono:
  assumes "0 < d" "a \<le> b"
  shows "go_div a d \<le> go_div b d"
proof -
  have "a div d \<le> b div d" "- b div d \<le> - a div d" using assms by (auto intro: zdiv_mono1)
  moreover have "0 \<le> b \<Longrightarrow> 0 \<le> b div d" "a < 0 \<Longrightarrow> 0 \<le> - a div d"
    using assms by (simp_all add: pos_imp_zdiv_nonneg_iff)
  ultimately show ?thesis using assms by (auto simp: go_div_sign)
qed

lemma pad_to_256_mono: "a \<le> b \<Longrightarrow> pad_to_256 a \<le> pad_to_256 b"
  by (simp add: pad_to_256_def go_div_mono)

lemma pad_to_256_ge: "0 \<le> a \<Longrightarrow> a \<le> pad_to_256 a"
  by (simp add: pad_to_256_def)

lemma kv_row_bytes_nonneg: "kv_row_bytes t n = Some r \<Longrightarrow> 0 \<le> r"
proof -
  assume a: "kv_row_bytes t n = Some r"
  then obtain b where b: "kv_type_bytes_per_element t = Some b" "0 < n"
    by (auto simp: kv_row_bytes_def split: option.splits if_splits)
  have "0 < b"
    using b(1) by (auto simp: kv_type_bytes_per_element_def Let_def split: sum.splits if_splits)
  then have "0 \<le> go_round (b * 32)" by (simp add: go_round_def)
  with a b \<open>0 < b\<close> show "0 \<le> r" by (auto simp: kv_row_bytes_def split: if_splits)
qed

lemma layout_cells_mono:
  assumes "layout_cells w sh = (full, swa, streams)"
    "layout_cells w (sh\<lparr>sh_context := c\<rparr>) = (full', swa', streams')" "sh_context sh \<le> c"
  shows "full \<le> full'" "swa \<le> swa'" "streams' = streams" "0 \<le> streams"
proof -
  have p: "pad_to_256 (sh_context sh) \<le> pad_to_256 c" by (rule pad_to_256_mono [OF assms(3)])
  then have q: "pad_to_256 (go_div (pad_to_256 (sh_context sh)) (max 1 (sh_slots sh)))
      \<le> pad_to_256 (go_div (pad_to_256 c) (max 1 (sh_slots sh)))"
    by (intro pad_to_256_mono [OF go_div_mono]) auto
  show f: "full \<le> full'" using assms p q by (auto simp: layout_cells_def Let_def split: if_splits)
  have "\<exists>x. swa = full \<and> swa' = full' \<or> swa = pad_to_256 (min full x) \<and> swa' = pad_to_256 (min full' x)"
    using assms(1,2) by (auto simp: layout_cells_def Let_def split: if_splits)
  with f show "swa \<le> swa'" by (auto intro!: pad_to_256_mono)
  show "streams' = streams" "0 \<le> streams"
    using assms(1,2) by (auto simp: layout_cells_def Let_def split: if_splits)
qed

lemma layer_cache_bytes_mono:
  assumes "layer_cache_bytes layout sh l = Some b" "sh_context sh \<le> c"
  shows "\<exists>b'. layer_cache_bytes layout (sh\<lparr>sh_context := c\<rparr>) l = Some b' \<and> b \<le> b'"
proof (cases "\<not> kl_cached l \<or> kl_recurrent_f32 l > 0")
  case True
  then show ?thesis using assms(1) by (auto simp: layer_cache_bytes_def)
next
  case False
  obtain full swa streams full' swa' streams' where
    c: "layout_cells (ll_window layout) sh = (full, swa, streams)"
    "layout_cells (ll_window layout) (sh\<lparr>sh_context := c\<rparr>) = (full', swa', streams')"
    by (metis prod_cases3)
  note m = layout_cells_mono [OF c assms(2)]
  let ?v = "if sh_v_transposed sh then ll_v_width_max layout else kl_v_width l"
  obtain k v where kv: "kv_row_bytes (sh_kv_type sh) (kl_k_width l) = Some k"
    "kv_row_bytes (sh_kv_type sh) ?v = Some v" "b = (k + v) * (if kl_swa l then swa else full) * streams"
    using assms(1) False c(1) by (auto simp: layer_cache_bytes_def Let_def split: option.splits)
  have "(k + v) * (if kl_swa l then swa else full) * streams \<le> (k + v) * (if kl_swa l then swa' else full') * streams"
    using m kv_row_bytes_nonneg [OF kv(1)] kv_row_bytes_nonneg [OF kv(2)]
    by (intro mult_right_mono mult_left_mono) auto
  then show ?thesis using False c(2) kv m(3) by (simp add: layer_cache_bytes_def Let_def)
qed

lemma map_option_mono:
  assumes "\<And>x b. x \<in> set xs \<Longrightarrow> f x = Some b \<Longrightarrow> \<exists>b' :: int. g x = Some b' \<and> b \<le> b'" "None \<notin> set (map f xs)"
  shows "None \<notin> set (map g xs) \<and> list_all2 (\<le>) (map (\<lambda>x. the (f x)) xs) (map (\<lambda>x. the (g x)) xs)"
  using assms
proof (induction xs)
  case (Cons x xs)
  obtain b where "f x = Some b" using Cons.prems(2) by (cases "f x") auto
  with Cons.prems(1) [of x] obtain b' where "g x = Some b'" "b \<le> b'" by auto
  with Cons \<open>f x = Some b\<close> show ?case by auto
qed simp

lemma sum_list_mono2: "list_all2 (\<le>) xs (ys :: int list) \<Longrightarrow> sum_list xs \<le> sum_list ys"
  by (induction rule: list_all2_induct) auto

lemma bytes_to_mib_ceil_mono: "a \<le> b \<Longrightarrow> bytes_to_mib_ceil a \<le> bytes_to_mib_ceil b"
  by (auto simp: bytes_to_mib_ceil_def intro!: zdiv_mono1)

section \<open>Properties\<close>

text \<open>
  The per-block price of the KV cache never falls when the context grows: at a larger context
  the same model is still priced, every block costs at least as much and so does the total, for
  every slot count, micro-batch, window and cache type. This is the monotonicity the automatic
  context search relies on.
\<close>

theorem kv_layer_price_monotone:
  assumes "kv_layer_bytes (Some m) sh = Some bytes" "sh_context sh \<le> c"
  shows "\<exists>bytes'. kv_layer_bytes (Some m) (sh\<lparr>sh_context := c\<rparr>) = Some bytes' \<and>
    list_all2 (\<le>) bytes bytes' \<and>
    fst (kv_layer_total_mb (Some m) sh) \<le> fst (kv_layer_total_mb (Some m) (sh\<lparr>sh_context := c\<rparr>))"
proof -
  let ?sh = "if m_full_context_windowed_kv m then sh\<lparr>sh_swa_full := True\<rparr> else sh"
  obtain layout where l: "model_kv_layer_layout (Some m) = Some layout" "0 < sh_context sh"
    "None \<notin> set (map (layer_cache_bytes layout ?sh) (ll_layers layout))"
    "bytes = map (\<lambda>x. the (layer_cache_bytes layout ?sh x)) (ll_layers layout)"
    using assms(1) by (auto simp: kv_layer_bytes_def Let_def split: option.splits if_splits)
  have sh': "(if m_full_context_windowed_kv m then sh\<lparr>sh_context := c, sh_swa_full := True\<rparr> else sh\<lparr>sh_context := c\<rparr>)
      = ?sh\<lparr>sh_context := c\<rparr>" by simp
  have "sh_context ?sh \<le> c" using assms(2) by simp
  from map_option_mono [OF layer_cache_bytes_mono [OF _ this] l(3)]
  have "None \<notin> set (map (layer_cache_bytes layout (?sh\<lparr>sh_context := c\<rparr>)) (ll_layers layout))"
    "list_all2 (\<le>) bytes (map (\<lambda>x. the (layer_cache_bytes layout (?sh\<lparr>sh_context := c\<rparr>) x)) (ll_layers layout))"
    by (simp_all add: l(4))
  moreover have "0 < c" using l(2) assms(2) by simp
  ultimately obtain bytes' where b: "kv_layer_bytes (Some m) (sh\<lparr>sh_context := c\<rparr>) = Some bytes'" "list_all2 (\<le>) bytes bytes'"
    using l(1) sh' by (simp add: kv_layer_bytes_def Let_def o_def)
  then have "fst (kv_layer_total_mb (Some m) sh) \<le> fst (kv_layer_total_mb (Some m) (sh\<lparr>sh_context := c\<rparr>))"
    using assms(1) bytes_to_mib_ceil_mono [OF sum_list_mono2] by (simp add: kv_layer_total_mb_def Let_def)
  with b show ?thesis by blast
qed

definition demo_swa_model :: model_profile where
  "demo_swa_model = empty_profile\<lparr>m_num_layers := 3, m_head_count_kv := 4, m_key_length := 64, m_value_length := 64,
     m_swa_pattern := [1, 1, 0], m_sliding_window := 512\<rparr>"

definition demo_cache_shape :: kv_cache_shape where
  "demo_cache_shape = \<lparr>sh_context = 4096, sh_ubatch = 512, sh_slots = 1, sh_unified = False, sh_swa_full = False,
     sh_kv_type = ''f16'', sh_v_transposed = False, sh_mtp = False\<rparr>"

theorem kv_layer_price_monotone_witness:
  "kv_layer_bytes (Some demo_swa_model) demo_cache_shape = Some [1048576, 1048576, 4194304] \<and>
   fst (kv_layer_total_mb (Some demo_swa_model) (demo_cache_shape\<lparr>sh_context := 8192\<rparr>)) \<ge> 6"
proof -
  have e: "kv_layer_bytes (Some demo_swa_model) demo_cache_shape = Some [1048576, 1048576, 4194304]" by code_simp
  moreover have "fst (kv_layer_total_mb (Some demo_swa_model) demo_cache_shape) = 6"
    by (simp add: kv_layer_total_mb_def e bytes_to_mib_ceil_def)
  ultimately show ?thesis using kv_layer_price_monotone [OF e, of 8192] by (auto simp: demo_cache_shape_def)
qed

lemma sum_list_update_group:
  "i < length xs \<Longrightarrow> sum_list (xs[i := x]) = sum_list xs + x - (xs ! i :: 'a :: ab_group_add)"
  by (induction xs arbitrary: i) (auto split: nat.split simp: algebra_simps)

lemma device_bytes_spec:
  assumes "device_bytes n layers devices = (out, tot)"
  shows "length out = n \<and> (\<forall>b \<in> set out. 0 \<le> b) \<and> sum_list out = tot"
  using assms
proof (induction n layers devices arbitrary: out tot rule: device_bytes.induct)
  case (3 n b layers d devices)
  obtain out' tot' where r: "device_bytes n layers devices = (out', tot')" by fastforce
  from "3.IH" [OF r] have IH: "length out' = n" "\<forall>b \<in> set out'. 0 \<le> b" "sum_list out' = tot'" by auto
  show ?case
  proof (cases "b > 0 \<and> d \<ge> 0 \<and> d < int n")
    case True
    then have o: "out = out'[nat d := out' ! nat d + b]" "tot = tot' + b" "nat d < length out'"
      using "3.prems" r IH(1) by auto
    have "sum_list out = sum_list out' + b"
      using o(3) by (simp add: o(1) sum_list_update_group)
    moreover have "0 \<le> x" if "x \<in> set out" for x
      using that IH(2) o(3) True set_update_subset_insert [of out' "nat d" "out' ! nat d + b"]
      by (auto simp: o(1))
    ultimately show ?thesis using IH o by simp
  next
    case False
    then show ?thesis using "3.prems" r IH by auto
  qed
qed (auto simp: sum_list_replicate)

text \<open>
  The share of a device is its part of the bytes, rounded once, and lies between nothing and everything; the parts
  add up to the bytes that were assigned.
\<close>

theorem kv_fractions_are_shares:
  assumes "kv_layer_fractions layers devices n = Some fr"
  shows "\<exists>out t. device_bytes n layers devices = (out, t) \<and> 0 < t \<and> sum_list out = t \<and> length fr = n \<and>
    (\<forall>i < n. fr ! i = f64 (of_int (out ! i) / of_int t) \<and> 0 \<le> fr ! i \<and> fr ! i \<le> 1)"
proof -
  obtain out t where d: "device_bytes n layers devices = (out, t)" by fastforce
  with assms have t: "0 < t" "fr = map (\<lambda>b. f64 (of_int b / of_int t)) out"
    by (auto simp: kv_layer_fractions_def split: if_splits)
  note s = device_bytes_spec [OF d]
  have "0 \<le> f64 (of_int b / of_int t) \<and> f64 (of_int b / of_int t) \<le> 1" if "b \<in> set out" for b
  proof -
    have "b \<le> t" using s that by (metis member_le_sum_list)
    with t(1) s that f64_mono [of "of_int b / of_int t" 1] f64_nonneg [of "of_int b / of_int t"] show ?thesis by simp
  qed
  with s t d show ?thesis by auto
qed

theorem kv_fractions_are_shares_witness:
  "\<exists>fr. kv_layer_fractions [1048576, 1048576, 6291456] [0, 1, 1] 2 = Some fr \<and> fr ! 0 = 1 / 8 \<and> fr ! 0 \<le> 1"
proof -
  have e: "kv_layer_fractions [1048576, 1048576, 6291456] [0, 1, 1] 2 = Some [1 / 8, 7 / 8]" by code_simp
  from kv_fractions_are_shares [OF e] e show ?thesis by auto
qed

end
