(* ===== verification/IkLayerSplit.thy ===== *)
theory IkLayerSplit
  imports KvLayers
begin

text \<open>
  The byte-weighted layer assignment of ik_llama.cpp and the split chosen for it
  (\<^verbatim>\<open>go/pkg/placement/iklayersplit.go\<close>): the sizes of the blocks, the walk of
  \<^verbatim>\<open>llm_load_tensors\<close>, the bytes each device ends up with, and
  \<^verbatim>\<open>ikDenseSplit\<close>, which searches the grid of hundredths for a split that fits.

  A \<^verbatim>\<open>float64\<close> is its exact rational value. The walk is written with
  \<^verbatim>\<open>float32\<close> roundings in the source; the rounding is the parameter \<open>f32\<close>, and
  every theorem holds for all such functions. An index error is outside the model: the source
  calls these functions with one entry per device.
\<close>

section \<open>Block sizes\<close>

definition layer_byte_value :: "int list \<Rightarrow> nat \<Rightarrow> int" where
  "layer_byte_value vals il = (if il \<ge> length vals \<or> vals ! il < 0 then 0 else vals ! il)"

definition ik_block_weight_bytes :: "model_profile \<Rightarrow> nat \<Rightarrow> bool \<Rightarrow> int" where
  "ik_block_weight_bytes m il routed =
     (let b = layer_byte_value (m_non_expert_layer_bytes m) il + layer_byte_value (m_expert_aux_layer_bytes m) il in
      if routed then b + layer_byte_value (m_expert_layer_bytes m) il
      else b + layer_byte_value (m_shexp_layer_bytes m) il)"

definition ik_mla_arch :: "string \<Rightarrow> bool" where
  "ik_mla_arch arch \<longleftrightarrow> arch \<in> {''deepseek2'', ''glm-dsa'', ''mistral4''}"

definition ik_rows :: "kv_cache_shape \<Rightarrow> int \<Rightarrow> int \<Rightarrow> int" where
  "ik_rows sh k_elems v_elems =
     (case (kv_row_bytes (sh_kv_type sh) k_elems, kv_row_bytes (sh_kv_type sh) v_elems) of
        (Some k, Some v) \<Rightarrow> (k + v) * sh_context sh
      | _ \<Rightarrow> 0)"

definition ik_layout_cache :: "model_profile \<Rightarrow> kv_cache_shape \<Rightarrow> kv_layer_layout \<Rightarrow> int list" where
  "ik_layout_cache m sh layout =
     (let slots = min (max 1 (sh_slots sh)) (sh_context sh);
          state = foldl (\<lambda>s l. max s (kl_recurrent_f32 l)) 0 (ll_layers layout)
      in map (\<lambda>(il, l).
           if kl_recurrent_f32 l > 0 then kl_recurrent_f32 l * 4 * slots
           else if kl_k_width l > 0 then ik_rows sh (kl_k_width l) (kl_v_width l)
           else if state > 0 \<and> to_lower (m_model_arch m) = ''qwen3next'' \<and> (il + 1) mod 4 \<noteq> 0
           then state * 4 * slots
           else if state > 0
           then ik_rows sh (m_head_count_kv m * m_key_length m) (m_head_count_kv m * m_value_length m)
           else 0)
         (zip [0..<length (ll_layers layout)] (ll_layers layout)))"

definition ik_layer_cache_bytes :: "model_profile \<Rightarrow> kv_cache_shape \<Rightarrow> int list" where
  "ik_layer_cache_bytes m sh =
     (let n = nat (m_num_layers m); arch = to_lower (m_model_arch m) in
      case model_kv_layer_layout (Some m) of
        Some layout \<Rightarrow> ik_layout_cache m sh layout
      | None \<Rightarrow>
          if m_kv_lora_rank m > 0 \<and> (ik_mla_arch arch \<or> arch = ''openpangu'') then
            (case kv_row_bytes (sh_kv_type sh) (m_kv_lora_rank m + m_rope_dim m) of
               Some row \<Rightarrow> replicate n (row * sh_context sh)
             | None \<Rightarrow> replicate n 0)
          else
            let heads = (if m_head_count_kv m \<le> 0 then m_head_count m else m_head_count_kv m);
                (key_len, value_len) = head_widths m
            in if has_ssm_layout (Some m) \<or> heads \<le> 0 \<or> key_len \<le> 0 then
                 replicate n (go_div (compute_kv_total_mb m (sh_context sh) (sh_kv_type sh) True * 1048576)
                                (m_num_layers m))
               else replicate n (ik_rows sh (heads * key_len) (heads * value_len)))"

text \<open>Weights added per block and attention compute, \<^verbatim>\<open>ikMLATerms\<close>.\<close>

definition ik_mla_terms :: "model_profile \<Rightarrow> kv_cache_shape \<Rightarrow> rat \<times> rat" where
  "ik_mla_terms m sh =
     (if \<not> ik_mla_arch (to_lower (m_model_arch m)) \<or> m_kv_lora_rank m \<le> 0 \<or> m_value_length_mla m \<le> 0 \<or>
         m_head_count m \<le> 0 then (0, 0)
      else case kv_row_bytes ''q8_0'' (m_kv_lora_rank m) of
        None \<Rightarrow> (0, 0)
      | Some row \<Rightarrow>
          (of_int row * of_int (m_value_length_mla m + m_kv_lora_rank m) * of_int (m_head_count m) * 2,
           2 * of_int (m_value_length_mla m) * of_int (m_head_count m) * of_int (sh_context sh) * 4))"

definition ik_ffn_compute_bytes :: "model_profile \<Rightarrow> nat \<Rightarrow> int \<Rightarrow> rat" where
  "ik_ffn_compute_bytes m il ub =
     (let embd = of_int (m_embedding_length m); per_token = of_int ub * 4;
          moe = (if m_routed_expert_layer_bytes m = [] then m_is_moe m \<and> int il \<ge> m_leading_dense m
                 else layer_byte_value (m_routed_expert_layer_bytes m) il > 0)
      in
      if \<not> moe then
        (if m_feed_forward_length m \<le> 0 then 0 else (2 * of_int (m_feed_forward_length m) + embd) * per_token)
      else
        let ff = (if m_expert_ff m \<le> 0 then m_feed_forward_length m else m_expert_ff m);
            routed = (2 * of_int ff + embd) * per_token * of_int (max 1 (m_expert_used_count m));
            shared = (if m_expert_shared_ff m > 0 \<and>
                         (layer_byte_value (m_shexp_layer_bytes m) il > 0 \<or> m_has_shexp m > 0)
                      then (2 * of_int (m_expert_shared_ff m) + embd) * per_token else 0)
        in max routed shared)"

text \<open>
  Sizes of the blocks and of the output slot, and \<^verbatim>\<open>max_compute\<close>;
  \<^verbatim>\<open>blockCompute\<close> and \<^verbatim>\<open>blockSize\<close> are the bodies of the loop.
\<close>

definition ik_loaded :: "model_profile \<Rightarrow> kv_cache_shape \<Rightarrow> nat \<Rightarrow> bool" where
  "ik_loaded m sh il \<longleftrightarrow> int il < trunk_layers m \<or> sh_mtp sh"

definition ik_block_compute :: "model_profile \<Rightarrow> kv_cache_shape \<Rightarrow> int \<Rightarrow> nat \<Rightarrow> rat" where
  "ik_block_compute m sh ub il =
     (let inp = of_int (m_embedding_length m) * of_int ub * 4 in
      if ik_loaded m sh il then max (ik_ffn_compute_bytes m il ub + 2 * inp) (snd (ik_mla_terms m sh)) else inp)"

definition ik_layer_sizes :: "model_profile option \<Rightarrow> kv_cache_shape \<Rightarrow> (rat list \<times> rat) option" where
  "ik_layer_sizes mo sh =
     (case mo of
        None \<Rightarrow> None
      | Some m \<Rightarrow>
          if m_num_layers m \<le> 0 \<or> sh_context sh \<le> 0 \<or> m_embedding_length m \<le> 0 \<or> m_vocab_size m \<le> 0 \<or>
             int (length (m_non_expert_layer_bytes m)) < m_num_layers m \<or>
             (m_expert_bytes m > 0 \<and> m_expert_layer_bytes m = []) then None
          else
            let n = nat (m_num_layers m);
                cache = ik_layer_cache_bytes m sh;
                ub = min (if sh_ubatch sh \<le> 0 then backend_default_ubatch else sh_ubatch sh) (sh_context sh);
                max_compute = foldl (\<lambda>c il. max c (ik_block_compute m sh ub il)) 0 [0..<n];
                sizes = map (\<lambda>il. (if ik_loaded m sh il
                                   then of_int (ik_block_weight_bytes m il True) + fst (ik_mla_terms m sh) else 0)
                                  + of_int (cache ! il)) [0..<n];
                output = (if m_output_bytes m \<le> 0 then m_token_embd_bytes m else m_output_bytes m);
                out_slot = of_int output + max 0 (of_int (m_vocab_size m) * of_int ub * 4 - max_compute)
            in Some (sizes @ [out_slot], max_compute))"

section \<open>The walk\<close>

text \<open>
  One device: how many of the remaining blocks it takes, and the bytes loaded after them. A block
  that crosses the target stays when it overshoots by less than the room it would leave.
\<close>

fun ik_fill :: "(rat \<Rightarrow> rat) \<Rightarrow> rat \<Rightarrow> rat list \<Rightarrow> rat \<Rightarrow> nat \<times> rat" where
  "ik_fill f32 target [] loaded = (0, loaded)"
| "ik_fill f32 target (s # sizes) loaded =
     (if loaded + s \<le> target then
        (let (k, l) = ik_fill f32 target sizes (f32 (loaded + s)) in (Suc k, l))
      else if loaded + s - target < f32 (target - loaded) then (1, f32 (loaded + s))
      else (0, loaded))"

fun ik_counts :: "(rat \<Rightarrow> rat) \<Rightarrow> rat \<Rightarrow> rat \<Rightarrow> rat list \<Rightarrow> rat list \<Rightarrow> rat \<Rightarrow> nat list" where
  "ik_counts f32 max_compute total_bytes [] sizes loaded = []"
| "ik_counts f32 max_compute total_bytes (c # cum) sizes loaded =
     (let (k, l) = ik_fill f32 (f32 (c * total_bytes)) sizes (f32 (loaded + max_compute))
      in k # ik_counts f32 max_compute total_bytes cum (drop k sizes) l)"

fun device_runs :: "nat \<Rightarrow> nat list \<Rightarrow> nat list" where
  "device_runs d [] = []"
| "device_runs d (k # ks) = replicate k d @ device_runs (Suc d) ks"

fun f32_cumulative :: "(rat \<Rightarrow> rat) \<Rightarrow> rat \<Rightarrow> rat list \<Rightarrow> rat list" where
  "f32_cumulative f32 t [] = []"
| "f32_cumulative f32 t (v # vs) = (let t' = f32 (t + f32 (max 0 v)) in t' # f32_cumulative f32 t' vs)"

text \<open>Blocks not reached by the walk stay with the last device.\<close>

definition ik_layer_device_assignments :: "(rat \<Rightarrow> rat) \<Rightarrow> rat list \<Rightarrow> rat \<Rightarrow> rat list \<Rightarrow> int list \<times> int" where
  "ik_layer_device_assignments f32 sizes max_compute split =
     (let n = length sizes - 1; raw = f32_cumulative f32 0 split in
      if length sizes \<le> 1 then ([], - 1)
      else if raw = [] \<or> last raw \<le> 0 then layer_device_assignments split (int n)
      else
        let cum = map (\<lambda>c. f32 (c / last raw)) raw;
            total_bytes = max_compute * of_nat (length split) + sum_list sizes;
            runs = (if length split > 1
                    then device_runs 0 (ik_counts f32 max_compute total_bytes cum sizes 0) else []);
            assigned = runs @ replicate (Suc n - length runs) (length split - 1)
        in (map int (take n assigned), int (assigned ! n)))"

definition backend_layer_device_assignments ::
  "(rat \<Rightarrow> rat) \<Rightarrow> model_profile option \<Rightarrow> kv_cache_shape \<Rightarrow> rat list \<Rightarrow> int list \<times> int" where
  "backend_layer_device_assignments f32 mo sh split =
     (case mo of
        None \<Rightarrow> layer_device_assignments split 0
      | Some m \<Rightarrow>
          (case (if m_byte_weighted_layer_split m \<and> length split > 1 then ik_layer_sizes mo sh else None) of
             Some (sizes, max_compute) \<Rightarrow> ik_layer_device_assignments f32 sizes max_compute split
           | None \<Rightarrow> layer_device_assignments split (m_num_layers m)))"

definition backend_layer_ownership ::
  "(rat \<Rightarrow> rat) \<Rightarrow> model_profile option \<Rightarrow> kv_cache_shape \<Rightarrow> rat list \<Rightarrow> int list \<times> int" where
  "backend_layer_ownership f32 mo sh split =
     (let (devs, out) = backend_layer_device_assignments f32 mo sh split in
      (foldl (\<lambda>owned d. if 0 \<le> d \<and> d < int (length owned) then owned[nat d := owned ! nat d + 1] else owned)
         (replicate (length split) 0) devs, out))"

section \<open>Bytes per device\<close>

definition add_at :: "int \<Rightarrow> int \<Rightarrow> int list \<Rightarrow> int list" where
  "add_at d b out = (if 0 \<le> d \<and> d < int (length out) then out[nat d := out ! nat d + b] else out)"

definition ik_device_weight_bytes ::
  "model_profile \<Rightarrow> kv_cache_shape \<Rightarrow> int list \<Rightarrow> int \<Rightarrow> nat \<Rightarrow> bool \<Rightarrow> int list" where
  "ik_device_weight_bytes m sh devices output_dev num_devices routed =
     (let n = nat (m_num_layers m);
          layer_bytes = foldl (\<lambda>t il. t + layer_byte_value (m_non_expert_layer_bytes m) il) 0 [0..<n];
          out = foldl (\<lambda>out il. if ik_loaded m sh il \<and> il < length devices
                                then add_at (devices ! il) (ik_block_weight_bytes m il routed) out else out)
                  (replicate num_devices 0) [0..<n];
          output = (if m_output_bytes m \<le> 0 then m_token_embd_bytes m else m_output_bytes m);
          global = m_non_expert_bytes m - m_token_embd_bytes m - m_output_bytes m - m_expert_aux_bytes m - layer_bytes
      in add_at output_dev (output + max 0 global) out)"

definition ik_device_kv_mb ::
  "model_profile \<Rightarrow> kv_cache_shape \<Rightarrow> int \<Rightarrow> int list \<Rightarrow> nat \<Rightarrow> int list" where
  "ik_device_kv_mb m sh total_mb0 devices n =
     (if total_mb0 \<le> 0 then replicate n 0
      else
        let (exact, ok) = kv_layer_total_mb (Some m) sh;
            priced = kv_layer_bytes (Some m) sh;
            total_mb = (if priced \<noteq> None \<and> ok \<and> exact > total_mb0 then exact else total_mb0)
        in case (case priced of Some layers \<Rightarrow> kv_layer_fractions layers devices n | None \<Rightarrow> None) of
             Some fr \<Rightarrow> map (\<lambda>f. if f > 0 then \<lceil>of_int total_mb * f\<rceil> else 0) fr
           | None \<Rightarrow>
               let owned = foldl (\<lambda>o' d. add_at d 1 o') (replicate n 0) devices
               in map (\<lambda>i. owned_share_mb total_mb owned (m_num_layers m) (int i)) [0..<n])"

section \<open>The split\<close>

record ik_dense_device =
  id_free_mb :: int
  id_capacity_mb :: int
  id_firm_mb :: int

text \<open>Weights plus KV in MiB per device under a split, \<^verbatim>\<open>allMB\<close> over \<^verbatim>\<open>ikDenseDeviceMB\<close>.\<close>

definition ik_dense_device_mb ::
  "(rat \<Rightarrow> rat) \<Rightarrow> model_profile \<Rightarrow> kv_cache_shape \<Rightarrow> int \<Rightarrow> rat list \<Rightarrow> int list \<times> int list" where
  "ik_dense_device_mb f32 m sh kv_total_mb split =
     (let (sizes, max_compute) = (case ik_layer_sizes (Some m) sh of Some p \<Rightarrow> p | None \<Rightarrow> ([], 0));
          (devices, output_dev) = ik_layer_device_assignments f32 sizes max_compute split
      in (map bytes_to_mib_ceil (ik_device_weight_bytes m sh devices output_dev (length split) True),
          ik_device_kv_mb m sh kv_total_mb devices (length split)))"

definition ik_all_mb :: "(rat \<Rightarrow> rat) \<Rightarrow> model_profile \<Rightarrow> kv_cache_shape \<Rightarrow> int \<Rightarrow> rat list \<Rightarrow> int list" where
  "ik_all_mb f32 m sh kv_total_mb split =
     (let (w, kv) = ik_dense_device_mb f32 m sh kv_total_mb split in map2 (+) w kv)"

definition device_capacity :: "ik_dense_device list \<Rightarrow> bool \<Rightarrow> nat \<Rightarrow> int" where
  "device_capacity devs firm d = (if firm then id_firm_mb (devs ! d) else id_capacity_mb (devs ! d))"

text \<open>The best boundary seen: first and last grid point, error (none is infinite), bytes used.\<close>

record grid_best =
  gb_first :: int
  gb_last :: int
  gb_err :: "rat option"
  gb_used :: int

definition no_best :: grid_best where
  "no_best = \<lparr>gb_first = - 1, gb_last = - 1, gb_err = None, gb_used = - 1\<rparr>"

text \<open>
  The scan of the grid points for one device: \<open>mb\<close> the device loads of the candidate,
  \<open>use\<close> the devices filled so far, this one included.
\<close>

fun scan_points ::
  "(int \<Rightarrow> int list) \<Rightarrow> int \<Rightarrow> nat \<Rightarrow> nat list \<Rightarrow> rat \<Rightarrow> bool \<Rightarrow> int list \<Rightarrow> grid_best \<Rightarrow> grid_best" where
  "scan_points mb cap dev used_devs target fill [] best = best"
| "scan_points mb cap dev used_devs target fill (p # ps) best =
     (if mb p ! dev > cap then best
      else
        let used = sum_list (map (\<lambda>d. mb p ! d) used_devs) in
        if used = gb_used best then scan_points mb cap dev used_devs target fill ps (best\<lparr>gb_last := p\<rparr>)
        else
          let err = (if fill then - of_int used else \<bar>of_int used - target\<bar>);
              better = (case gb_err best of None \<Rightarrow> True | Some e \<Rightarrow> err < e)
          in scan_points mb cap dev used_devs target fill ps
               (if better then \<lparr>gb_first = p, gb_last = p, gb_err = Some err, gb_used = used\<rparr> else best))"

definition chosen_points :: "int \<Rightarrow> grid_best \<Rightarrow> int" where
  "chosen_points prev best =
     (let (first, last) = (if gb_first best < 0 then (prev, prev) else (gb_first best, gb_last best)) in
      if first = prev then first + go_div (last - first) 2 else go_div (first + last + 1) 2)"

text \<open>
  The loop over all active devices but the last: \<open>done\<close> those already given a share,
  \<open>prev\<close> the hundredths given out. The result is the split in hundredths and what is left.
\<close>

fun choose_loop ::
  "(rat list \<Rightarrow> int list) \<Rightarrow> (nat \<Rightarrow> int) \<Rightarrow> rat list \<Rightarrow> rat \<Rightarrow> int \<Rightarrow> bool \<Rightarrow> nat
     \<Rightarrow> nat list \<Rightarrow> nat list \<Rightarrow> rat list \<Rightarrow> int \<Rightarrow> rat \<Rightarrow> rat list \<times> int" where
  "choose_loop all_mb cap intent intent_total real_total fill last_dev before [] split prev cum = (split, prev)"
| "choose_loop all_mb cap intent intent_total real_total fill last_dev before (dev # devs) split prev cum =
     (let cum' = cum + intent ! dev / intent_total;
          mb = (\<lambda>points. all_mb (split[dev := of_int (points - prev) / 100, last_dev := of_int (100 - points) / 100]));
          best = scan_points mb (cap dev) dev (before @ [dev]) (cum' * of_int real_total) fill [prev..100] no_best;
          points = chosen_points prev best
      in choose_loop all_mb cap intent intent_total real_total fill last_dev (before @ [dev]) devs
           (split[dev := of_int (points - prev) / 100]) points cum')"

definition choose_split ::
  "(rat list \<Rightarrow> int list) \<Rightarrow> (nat \<Rightarrow> int) \<Rightarrow> rat list \<Rightarrow> rat \<Rightarrow> int \<Rightarrow> nat list \<Rightarrow> bool \<Rightarrow> rat list" where
  "choose_split all_mb cap intent intent_total real_total active fill =
     (let (split, prev) = choose_loop all_mb cap intent intent_total real_total fill (last active) []
            (butlast active) (replicate (length intent) 0) 0 0
      in map (\<lambda>v. of_int (go_round (v * 100)) / 100) (split[last active := of_int (100 - prev) / 100]))"

definition over_device :: "(rat list \<Rightarrow> int list) \<Rightarrow> (nat \<Rightarrow> int) \<Rightarrow> nat \<Rightarrow> rat list \<Rightarrow> nat option" where
  "over_device all_mb cap n split =
     List.find (\<lambda>i. all_mb split ! i > 0 \<and> all_mb split ! i > cap i) [0..<n]"

definition fit_split ::
  "(rat list \<Rightarrow> int list) \<Rightarrow> (nat \<Rightarrow> int) \<Rightarrow> rat list \<Rightarrow> rat \<Rightarrow> int \<Rightarrow> nat list \<Rightarrow> rat list" where
  "fit_split all_mb cap intent intent_total real_total active =
     (let n = length intent;
          pick = choose_split all_mb cap intent intent_total real_total;
          s1 = pick active False;
          s2 = (if over_device all_mb cap n s1 \<noteq> None then pick active True else s1);
          every = filter (\<lambda>i. cap i > 0) [0..<n]
      in if over_device all_mb cap n s2 \<noteq> None \<and> length every > length active then pick every True else s2)"

datatype ik_split_result =
    IkUnavailable
  | IkOver "rat list" nat
  | IkSplit "rat list"

text \<open>\<open>IkUnavailable\<close>: the source returns the intent with \<^verbatim>\<open>ok\<close> false.\<close>

definition ik_dense_split ::
  "(rat \<Rightarrow> rat) \<Rightarrow> model_profile \<Rightarrow> kv_cache_shape \<Rightarrow> int \<Rightarrow> rat list \<Rightarrow> ik_dense_device list \<Rightarrow> ik_split_result" where
  "ik_dense_split f32 m sh kv_total_mb intent devs =
     (let n = length intent;
          active = filter (\<lambda>i. intent ! i > 0) [0..<n];
          intent_total = positive_sum intent;
          all_mb = ik_all_mb f32 m sh kv_total_mb;
          real_total = sum_list (all_mb intent);
          fit = (\<lambda>firm. fit_split all_mb (device_capacity devs firm) intent intent_total real_total active)
      in
      if ik_layer_sizes (Some m) sh = None \<or> n < 2 \<or> length devs \<noteq> n then IkUnavailable
      else if active = [] then IkUnavailable
      else
        let s1 = fit False;
            s2 = (if over_device all_mb (device_capacity devs False) n s1 \<noteq> None then fit True else s1)
        in case over_device all_mb (device_capacity devs True) n s2 of
             Some d \<Rightarrow> IkOver s2 d
           | None \<Rightarrow> IkSplit s2)"

text \<open>The compute buffers are by device index; a missing measurement is 0.\<close>

definition ik_dense_devices ::
  "gpu list \<Rightarrow> int \<Rightarrow> int \<Rightarrow> (int \<Rightarrow> int) \<Rightarrow> (int \<Rightarrow> int) \<Rightarrow> ik_dense_device list" where
  "ik_dense_devices gpus mmproj overhead compute_buf measured_buf =
     (let order = (if dense_mem_bandwidth_known gpus then order_gpus_by_memory_bandwidth gpus
                   else order_gpus_by_bandwidth gpus)
      in map (\<lambda>(i, g).
           let b0 = vram_free_mb g - overhead;
               base = (if order \<noteq> [] \<and> i = hd order \<and> mmproj > 0 then b0 - mmproj else b0)
           in \<lparr>id_free_mb = vram_free_mb g, id_capacity_mb = max 0 (base - compute_buf (g_index g)),
               id_firm_mb = max 0 (base - measured_buf (g_index g))\<rparr>)
         (zip [0..<length gpus] gpus))"

section \<open>The grid\<close>

definition in_grid :: "int \<Rightarrow> grid_best \<Rightarrow> bool" where
  "in_grid prev best \<longleftrightarrow> gb_first best = - 1 \<or>
     prev \<le> gb_first best \<and> gb_first best \<le> 100 \<and> prev \<le> gb_last best \<and> gb_last best \<le> 100"

lemma scan_points_in_grid:
  "in_grid prev best \<Longrightarrow> set ps \<subseteq> {prev..100} \<Longrightarrow> in_grid prev (scan_points mb cap dev ds target fill ps best)"
  by (induction mb cap dev ds target fill ps best rule: scan_points.induct)
    (auto simp: in_grid_def Let_def split: option.split)

lemma chosen_points_range:
  assumes "in_grid prev best" "0 \<le> prev" "prev \<le> 100"
  shows "prev \<le> chosen_points prev best" "chosen_points prev best \<le> 100"
  using assms by (auto simp: in_grid_def chosen_points_def Let_def)

text \<open>Shares that are hundredths and add up to the hundredths given out.\<close>

definition grid_split :: "int \<Rightarrow> rat list \<Rightarrow> bool" where
  "grid_split prev split \<longleftrightarrow>
     sum_list split = of_int prev / 100 \<and> (\<forall>v \<in> set split. \<exists>k :: int. 0 \<le> k \<and> v = of_int k / 100)"

lemma grid_split_update:
  assumes "grid_split prev split" "d < length split" "split ! d = 0" "prev \<le> points"
  shows "grid_split points (split[d := of_int (points - prev) / 100])"
proof -
  have "sum_list (split[d := of_int (points - prev) / 100]) = of_int points / 100"
    using assms by (simp add: sum_list_update_group grid_split_def diff_divide_distrib)
  moreover have "\<exists>k :: int. 0 \<le> k \<and> v = of_int k / 100"
    if "v \<in> set (split[d := of_int (points - prev) / 100])" for v
  proof -
    from that have "v = of_int (points - prev) / 100 \<or> v \<in> set split"
      using set_update_subset_insert [of split d "of_int (points - prev) / 100"] by blast
    then show ?thesis
    proof
      assume "v = of_int (points - prev) / 100"
      then show ?thesis using assms(4) by (intro exI [of _ "points - prev"]) simp
    next
      assume "v \<in> set split"
      then show ?thesis using assms(1) by (simp add: grid_split_def)
    qed
  qed
  ultimately show ?thesis by (simp add: grid_split_def)
qed

lemma choose_loop_grid:
  assumes "choose_loop all_mb cap intent it rt fill last_dev before devs split prev cum = (split', prev')"
    "grid_split prev split" "0 \<le> prev" "prev \<le> 100" "distinct devs" "last_dev \<notin> set devs" "last_dev < length split"
    "\<forall>d \<in> insert last_dev (set devs). d < length split \<and> split ! d = 0"
  shows "grid_split prev' split' \<and> 0 \<le> prev' \<and> prev' \<le> 100 \<and> length split' = length split \<and> split' ! last_dev = 0"
  using assms
proof (induction devs arbitrary: before split prev cum)
  case (Cons d devs)
  let ?cum = "cum + intent ! d / it"
  let ?mb = "\<lambda>points. all_mb (split[d := of_int (points - prev) / 100, last_dev := of_int (100 - points) / 100])"
  define points where "points = chosen_points prev
      (scan_points ?mb (cap d) d (before @ [d]) (?cum * of_int rt) fill [prev..100] no_best)"
  let ?s = "split[d := of_int (points - prev) / 100]"
  have "in_grid prev (scan_points ?mb (cap d) d (before @ [d]) (?cum * of_int rt) fill [prev..100] no_best)"
    by (rule scan_points_in_grid) (auto simp: in_grid_def no_best_def)
  then have p: "prev \<le> points" "points \<le> 100"
    using chosen_points_range Cons.prems(3,4) by (simp_all add: points_def)
  have "choose_loop all_mb cap intent it rt fill last_dev (before @ [d]) devs ?s points ?cum = (split', prev')"
    using Cons.prems(1) by (simp add: points_def Let_def)
  moreover have "grid_split points ?s"
    using grid_split_update [OF Cons.prems(2) _ _ p(1), of d] Cons.prems(8) by simp
  moreover have "\<forall>e \<in> insert last_dev (set devs). e < length ?s \<and> ?s ! e = 0"
    using Cons.prems(5,6,8) by (auto simp: nth_list_update)
  ultimately have "grid_split prev' split' \<and> 0 \<le> prev' \<and> prev' \<le> 100 \<and> length split' = length ?s \<and> split' ! last_dev = 0"
    using Cons.prems(3,5,6,7) p by (intro Cons.IH) auto
  then show ?case by simp
qed simp

lemma choose_split_grid:
  assumes "distinct active" "active \<noteq> []" "\<forall>d \<in> set active. d < length intent"
  shows "grid_split 100 (choose_split all_mb cap intent it rt active fill)"
    "length (choose_split all_mb cap intent it rt active fill) = length intent"
proof -
  let ?l = "last active"
  obtain split prev where c: "choose_loop all_mb cap intent it rt fill ?l [] (butlast active)
      (replicate (length intent) 0) 0 0 = (split, prev)" by fastforce
  have act: "active = butlast active @ [?l]" using assms(2) by simp
  then have d: "distinct (butlast active)" "?l \<notin> set (butlast active)" "?l < length intent"
    using assms by (metis distinct_append, metis distinct_append distinct_singleton disjoint_iff list.set_intros(1), metis last_in_set)
  have z: "\<forall>d \<in> insert ?l (set (butlast active)). d < length (replicate (length intent) (0::rat)) \<and>
      replicate (length intent) (0::rat) ! d = 0"
    using assms(3) d(3) by (auto dest: in_set_butlastD)
  have g0: "grid_split 0 (replicate (length intent) 0)"
    by (auto simp: grid_split_def sum_list_replicate)
  have g: "grid_split prev split \<and> 0 \<le> prev \<and> prev \<le> 100 \<and> length split = length (replicate (length intent) (0::rat)) \<and> split ! ?l = 0"
    by (rule choose_loop_grid [OF c g0 _ _ d(1,2) _ z]) (simp_all add: d(3))
  let ?f = "split[?l := of_int (100 - prev) / 100]"
  have f: "grid_split 100 ?f" using grid_split_update [of prev split ?l 100] g d(3) by simp
  have "of_int (go_round (v * 100)) / 100 = v" if v: "v \<in> set ?f" for v
  proof -
    obtain k :: int where "0 \<le> k" "v = of_int k / 100" using f v by (auto simp: grid_split_def)
    moreover have "\<lfloor>of_int k + 1 / 2 :: rat\<rfloor> = k" by linarith
    ultimately show ?thesis by (simp add: go_round_def)
  qed
  then have "map (\<lambda>v. of_int (go_round (v * 100)) / 100) ?f = ?f" by (intro map_idI)
  then have e: "choose_split all_mb cap intent it rt active fill = ?f" by (simp add: choose_split_def c)
  show "grid_split 100 (choose_split all_mb cap intent it rt active fill)"
    "length (choose_split all_mb cap intent it rt active fill) = length intent"
    using f g unfolding e by simp_all
qed

lemma fit_split_grid:
  assumes "distinct active" "active \<noteq> []" "\<forall>d \<in> set active. d < length intent"
  shows "grid_split 100 (fit_split all_mb cap intent it rt active) \<and>
    length (fit_split all_mb cap intent it rt active) = length intent"
proof -
  let ?every = "filter (\<lambda>i. cap i > 0) [0..<length intent]"
  have every: "grid_split 100 (choose_split all_mb cap intent it rt ?every fill) \<and>
      length (choose_split all_mb cap intent it rt ?every fill) = length intent"
    if "length active < length ?every" for fill
    using that by (intro conjI choose_split_grid) auto
  show ?thesis
    using choose_split_grid [OF assms] every by (auto simp: fit_split_def Let_def simp del: length_filter_conv_card)
qed

lemma if_result: "(if c then a else b) = s \<Longrightarrow> s = a \<or> s = b"
  by (auto split: if_splits)

lemma ik_result_split:
  "(if a then IkUnavailable else if b then IkUnavailable
    else case f x of Some d \<Rightarrow> IkOver x d | None \<Rightarrow> IkSplit x) = IkSplit s \<Longrightarrow>
   \<not> a \<and> \<not> b \<and> x = s \<and> f s = None"
  by (auto split: if_splits option.splits)

section \<open>Properties\<close>


text \<open>A first block small enough for one hundredth of the split, and a first card without room.\<close>

definition demo_ik_model :: model_profile where
  "demo_ik_model = empty_profile\<lparr>m_num_layers := 3, m_embedding_length := 1, m_vocab_size := 1,
     m_head_count_kv := 1, m_head_count := 1, m_key_length := 1, m_value_length := 1,
     m_non_expert_layer_bytes := [1, 5000, 5000], m_non_expert_bytes := 10100, m_output_bytes := 99\<rparr>"

definition demo_ik_shape :: kv_cache_shape where
  "demo_ik_shape = \<lparr>sh_context = 1, sh_ubatch = 1, sh_slots = 1, sh_unified = False, sh_swa_full = False,
     sh_kv_type = ''f16'', sh_v_transposed = False, sh_mtp = False\<rparr>"

definition demo_ik_devices :: "ik_dense_device list" where
  "demo_ik_devices = [\<lparr>id_free_mb = 0, id_capacity_mb = 0, id_firm_mb = 0\<rparr>,
     \<lparr>id_free_mb = 9, id_capacity_mb = 9, id_firm_mb = 9\<rparr>]"

lemma demo_ik_sizes: "ik_layer_sizes (Some demo_ik_model) demo_ik_shape \<noteq> None"
  by code_simp

lemma demo_ik_all_mb:
  "ik_all_mb id demo_ik_model demo_ik_shape 0 [0, 1] = [0, 1]"
  "ik_all_mb id demo_ik_model demo_ik_shape 0 [1/100, 99/100] = [1, 1]"
  by code_simp+

lemma demo_choose_split:
  assumes "all [0, 1] = [0, 1]" "all [1/100, 99/100] = [1, 1]" "cap 0 = 0"
  shows "choose_split all cap [1/2, 1/2] it rt [0, 1] fill = [0, 1]"
proof -
  have "[0..100] = 0 # 1 # [2..100 :: int]" by (simp add: upto_rec1)
  then show ?thesis
    by (simp add: choose_split_def assms no_best_def chosen_points_def go_round_def go_div_def Let_def del: upto.simps)
      linarith
qed

lemma demo_over_device:
  assumes "all [0, 1] = [0, 1]" "cap 0 = 0" "1 \<le> cap 1"
  shows "over_device all cap 2 [0, 1] = None"
  using assms by (simp add: over_device_def upt_rec)

lemma demo_fit_split:
  assumes "all [0, 1] = [0, 1]" "all [1/100, 99/100] = [1, 1]" "cap 0 = 0" "1 \<le> cap 1"
  shows "fit_split all cap [1/2, 1/2] it rt [0, 1] = [0, 1]"
  by (simp add: fit_split_def Let_def demo_choose_split [of all cap, OF assms(1-3), unfolded One_nat_def]
    demo_over_device [of all cap, OF assms(1,3,4)] numeral_2_eq_2 [symmetric])

lemma demo_ik_lists:
  "filter (\<lambda>i. [1/2, 1/2 :: rat] ! i > 0) [0..<2] = [0, 1]"
  "length [1/2, 1/2 :: rat] = 2" "length demo_ik_devices = 2"
  "device_capacity demo_ik_devices firm 0 = 0" "device_capacity demo_ik_devices firm (Suc 0) = 9"
  by (simp_all add: upt_rec demo_ik_devices_def device_capacity_def)

lemma demo_ik_split:
  "ik_dense_split id demo_ik_model demo_ik_shape 0 [1/2, 1/2] demo_ik_devices = IkSplit [0, 1]"
  unfolding ik_dense_split_def Let_def demo_ik_lists(2,3) demo_ik_lists(1)
  using demo_ik_sizes
    demo_fit_split [of "ik_all_mb id demo_ik_model demo_ik_shape 0" "device_capacity demo_ik_devices firm" for firm,
      OF demo_ik_all_mb]
    demo_over_device [of "ik_all_mb id demo_ik_model demo_ik_shape 0" "device_capacity demo_ik_devices firm" for firm,
      OF demo_ik_all_mb(1)]
  by (simp add: demo_ik_lists(4,5))


end
