(* ===== verification/Recovery.thy ===== *)
theory Recovery
  imports PlacementCache LoadMode "HOL-Library.Monad_Syntax"
begin

text \<open>
  The crash recovery launcher (\<^verbatim>\<open>go/pkg/recovery/recovery.go\<close>): one server attempt
  (\<^verbatim>\<open>runOnce\<close>), the classification of its log, the loop that restarts, derates, falls
  back or gives up (\<^verbatim>\<open>Run\<close>), and the startup progress it reports.

  The world of an attempt is an observation: whether the log file opens and the process starts, what
  each poll before the deadline sees, the log afterwards, and the answers of the callbacks. What the
  launcher does to the world is a list of events. Durations are nanoseconds. The number of attempts
  is the fuel of the loop; the first theorem gives the fuel that always suffices.
\<close>

section \<open>Log patterns\<close>

text \<open>
  The regular expressions, on ASCII: white space, word boundaries and case-insensitive literals
  (given in lower case). Each of these patterns has at most one way to match at a position.
\<close>

definition re_space :: "char \<Rightarrow> bool" where
  "re_space c \<longleftrightarrow> c \<in> {CHR '' '', CHR 0x09, CHR 0x0A, CHR 0x0C, CHR 0x0D}"

definition word_char :: "char \<Rightarrow> bool" where
  "word_char c \<longleftrightarrow> is_digit c \<or> c = CHR ''_'' \<or> 97 \<le> (of_char (to_lower_char c) :: nat) \<and> (of_char (to_lower_char c) :: nat) \<le> 122"

definition skip_ci :: "string \<Rightarrow> string \<Rightarrow> string option" where
  "skip_ci lit s = (if has_prefix (to_lower s) lit then Some (drop (length lit) s) else None)"

definition skip_spaces :: "string \<Rightarrow> string option" where
  "skip_spaces s = (if s \<noteq> [] \<and> re_space (hd s) then Some (dropWhile re_space s) else None)"

definition optional_spaces :: "string \<Rightarrow> string" where
  "optional_spaces s = dropWhile re_space s"

definition digits1 :: "string \<Rightarrow> (string \<times> string) option" where
  "digits1 s = (if s \<noteq> [] \<and> is_digit (hd s) then Some (takeWhile is_digit s, dropWhile is_digit s) else None)"

text \<open>An unsigned decimal with an optional fraction.\<close>

definition decimal1 :: "string \<Rightarrow> ((string \<times> string) \<times> string) option" where
  "decimal1 s = do {
     (whole, r) \<leftarrow> digits1 s;
     Some (if has_prefix r ''.'' then
             (case digits1 (tl r) of Some (fract, r') \<Rightarrow> ((whole, fract), r') | None \<Rightarrow> ((whole, []), r))
           else ((whole, []), r))
   }"

definition decimal_value :: "string \<Rightarrow> string \<Rightarrow> rat" where
  "decimal_value whole fract = of_nat (nat_of_digits (whole @ fract)) / 10 ^ length fract"

text \<open>The first position at which a pattern matches.\<close>

fun first_match :: "(string \<Rightarrow> 'a option) \<Rightarrow> string \<Rightarrow> 'a option" where
  "first_match p [] = p []"
| "first_match p (c # s) = (case p (c # s) of Some m \<Rightarrow> Some m | None \<Rightarrow> first_match p s)"

definition boundary :: "char option \<Rightarrow> string \<Rightarrow> bool" where
  "boundary prev s \<longleftrightarrow>
     (case prev of None \<Rightarrow> False | Some c \<Rightarrow> word_char c) \<noteq> (case s of [] \<Rightarrow> False | c # _ \<Rightarrow> word_char c)"

definition word_at :: "string \<Rightarrow> char option \<Rightarrow> string \<Rightarrow> string option" where
  "word_at w prev s =
     (case skip_ci w s of
        None \<Rightarrow> None
      | Some r \<Rightarrow> if boundary prev s \<and> boundary (Some (last w)) r then Some r else None)"

text \<open>What follows the first occurrence of a word, given the character before the text.\<close>

fun find_word :: "string \<Rightarrow> char option \<Rightarrow> string \<Rightarrow> string option" where
  "find_word w prev [] = word_at w prev []"
| "find_word w prev (c # s) =
     (case word_at w prev (c # s) of Some r \<Rightarrow> Some r | None \<Rightarrow> find_word w (Some c) s)"

definition word_then :: "string \<Rightarrow> string \<Rightarrow> string \<Rightarrow> bool" where
  "word_then a b s \<longleftrightarrow> (case find_word a None s of None \<Rightarrow> False | Some r \<Rightarrow> find_word b (Some (last a)) r \<noteq> None)"

definition oom_pattern :: "string \<Rightarrow> bool" where
  "oom_pattern s \<longleftrightarrow> find_word ''oom'' None s \<noteq> None \<or> find_word ''out of memory'' None s \<noteq> None"

definition ram_oom_pattern :: "string \<Rightarrow> bool" where
  "ram_oom_pattern s \<longleftrightarrow> word_then ''ram'' ''oom'' s \<or> word_then ''oom'' ''ram'' s"

definition cuda_oom_at :: "string \<Rightarrow> ((string \<times> string) \<times> string) option" where
  "cuda_oom_at s = do {
     s \<leftarrow> skip_ci ''allocating'' s;
     s \<leftarrow> skip_spaces s;
     (amount, s) \<leftarrow> decimal1 s;
     s \<leftarrow> skip_spaces s;
     s \<leftarrow> skip_ci ''mib'' s;
     s \<leftarrow> skip_spaces s;
     s \<leftarrow> skip_ci ''on device'' s;
     s \<leftarrow> skip_spaces s;
     (device, s) \<leftarrow> digits1 s;
     s \<leftarrow> skip_ci '':'' s;
     s \<leftarrow> skip_spaces s;
     s \<leftarrow> skip_ci ''cudamalloc failed: out of memory'' s;
     Some (amount, device)
   }"

text \<open>
  The least decimal that \<^verbatim>\<open>strconv.ParseFloat\<close> refuses as out of range, \<open>2 ^ 1024 - 2 ^ 970\<close>.
\<close>

definition float_range :: int where
  "float_range = 179769313486231580793728971405303415079934132710037826936173778980444968292764750946649017977587207096330286416692887910946555547851940402630657488671505820681908902000708383676273854845817711531764475730270069855571366959622842914819860834936475292719074168444365510704342711559699508093042880177904174497792"

definition parse_cuda_oom :: "string \<Rightarrow> (int \<times> int) option" where
  "parse_cuda_oom line = do {
     ((whole, fract), digits) \<leftarrow> first_match cuda_oom_at line;
     _ \<leftarrow> (if int (nat_of_digits (whole @ fract)) < float_range * 10 ^ length fract then Some () else None);
     device \<leftarrow> atoi digits;
     Some (device, \<lceil>decimal_value whole fract\<rceil>)
   }"

text \<open>The pattern \<^verbatim>\<open>\bcurrent device:\s*(\d+)\b\<close>; digits followed by a word character match up to no boundary.\<close>

fun cuda_device_from :: "char option \<Rightarrow> string \<Rightarrow> string option" where
  "cuda_device_from prev [] = None"
| "cuda_device_from prev (c # s) =
     (case (if boundary prev (c # s) then skip_ci ''current device:'' (c # s) else None) of
        None \<Rightarrow> cuda_device_from (Some c) s
      | Some r \<Rightarrow>
          (case digits1 (optional_spaces r) of
             None \<Rightarrow> cuda_device_from (Some c) s
           | Some (d, r') \<Rightarrow> if boundary (Some (last d)) r' then Some d else cuda_device_from (Some c) s))"

definition parse_cuda_device :: "string \<Rightarrow> int option" where
  "parse_cuda_device line = Option.bind (cuda_device_from None line) atoi"

section \<open>Failure types\<close>

datatype failure_type =
    FailureOOM | FailurePinnedFail | FailurePinnedCap | FailurePinnedHang | FailureCUDAOOM
  | FailureRAMOOM | FailureUnknownModel | FailureBackendCapability | FailureUnknown

definition deterministic :: "failure_type \<Rightarrow> bool" where
  "deterministic ft \<longleftrightarrow> ft = FailureBackendCapability \<or> ft = FailureUnknownModel"

text \<open>The tests on one line, in their order.\<close>

definition classify_line :: "string \<Rightarrow> failure_type option" where
  "classify_line line =
     (let low = to_lower line in
      if contains_sub low ''buffer type'' \<and>
         (contains_sub low ''unknown'' \<or> contains_sub low ''unsupported'' \<or>
          contains_sub low ''invalid'' \<or> contains_sub low ''no such'') then Some FailureBackendCapability
      else if contains_sub low ''unknown model architecture'' \<or> contains_sub low ''unable to load model'' then
        Some FailureUnknownModel
      else if contains_sub low ''pinned memory'' \<and> contains_sub low ''fail'' then Some FailurePinnedFail
      else if contains_sub low ''pinned memory'' \<and> contains_sub low ''capacity'' then Some FailurePinnedCap
      else if contains_sub low ''pinned memory'' \<and> contains_sub low ''hang'' then Some FailurePinnedHang
      else if parse_cuda_oom line \<noteq> None then Some FailureCUDAOOM
      else if ram_oom_pattern line then Some FailureRAMOOM
      else if oom_pattern line \<or> contains_sub low ''cuda error'' then Some FailureOOM
      else None)"

definition error_line :: "string \<Rightarrow> bool" where
  "error_line line \<longleftrightarrow>
     (let low = to_lower line in contains_sub low ''error'' \<or> contains_sub low ''failed'' \<or> contains_sub low ''abort'')"

text \<open>
  The scan from the last line back, with the last error line and the last line that is not blank
  seen so far (empty while there is none).
\<close>

fun scan_failure :: "string \<Rightarrow> string \<Rightarrow> string list \<Rightarrow> failure_type \<times> string" where
  "scan_failure err nonempty [] = (FailureUnknown, if err \<noteq> [] then err else nonempty)"
| "scan_failure err nonempty (line # rest) =
     (case classify_line line of
        Some ft \<Rightarrow> (ft, line)
      | None \<Rightarrow>
          scan_failure (if err = [] \<and> error_line line then line else err)
            (if nonempty = [] \<and> trim_space line \<noteq> [] then line else nonempty) rest)"

text \<open>\<open>None\<close>: no log was written or it cannot be opened. At most 49 lines are read.\<close>

definition parse_load_failure :: "string list option \<Rightarrow> failure_type \<times> string" where
  "parse_load_failure log_lines =
     (case log_lines of
        None \<Rightarrow> (FailureUnknown, [])
      | Some lines \<Rightarrow> scan_failure [] [] (take 49 (rev lines)))"


section \<open>One attempt\<close>

record launcher =
  l_binary :: string
  l_args :: argv
  l_fallback :: string
  l_max_restarts :: int
  l_backoff_base :: int
  l_keep_alive :: bool
  l_has_on_cuda_oom :: bool
  l_has_on_promote :: bool
  l_cache_path :: string
  l_success :: "cache_entry option"

text \<open>One round of the health loop: shutdown requested, process alive, the two HTTP statuses.\<close>

record poll =
  po_cancelled :: bool
  po_alive :: bool
  po_health :: "int option"
  po_models :: "int option"

record attempt =
  a_log_opens :: bool
  a_starts :: bool
  a_polls :: "poll list"
  a_wait_ok :: bool
  a_log :: "string list option"
  a_promote :: "argv \<times> bool"
  a_cuda :: "argv \<times> cache_entry option \<times> bool"
  a_cancelled :: bool
  a_backoff_cancelled :: bool

datatype run_event =
    EvSpawn argv
  | EvProbe
  | EvSave string cache_entry
  | EvFailure failure_type string
  | EvFallback string
  | EvRestart int int

datatype run_error = ErrPromotion | ErrCancelled | ErrLog | ErrStart | ErrDied | ErrTimeout | ErrWait

datatype health = Ready | Cancelled | Died | TimedOut

fun wait_health :: "poll list \<Rightarrow> health" where
  "wait_health [] = TimedOut"
| "wait_health (p # ps) =
     (if po_cancelled p then Cancelled
      else if \<not> po_alive p then Died
      else if po_health p = Some 200 \<or> po_models p = Some 200 then Ready
      else wait_health ps)"

definition handle_healthy :: "launcher \<Rightarrow> attempt \<Rightarrow> bool \<times> launcher \<times> run_event list" where
  "handle_healthy l a =
     (let save = (case l_success l of
            Some e \<Rightarrow> if l_cache_path l \<noteq> [] then [EvSave (l_cache_path l) e] else []
          | None \<Rightarrow> []);
          (new_args, ok) = a_promote a
      in if \<not> l_has_on_promote l \<or> \<not> ok \<or> new_args = [] then (False, l, EvProbe # save)
         else (True, l\<lparr>l_args := new_args\<rparr>, EvProbe # save))"

text \<open>
  The error of the attempt (\<open>None\<close>: the process exited normally), the launcher, whether this
  attempt has a log, and the events. \<open>argv_of\<close> is \<^verbatim>\<open>server.LoadModeArgs\<close>.
\<close>

definition run_once :: "(argv \<Rightarrow> argv) \<Rightarrow> launcher \<Rightarrow> string \<Rightarrow> attempt \<Rightarrow> run_error option \<times> launcher \<times> bool \<times> run_event list" where
  "run_once argv_of l binary a =
     (if \<not> a_log_opens a then (Some ErrLog, l, False, [])
      else
        let spawn = EvSpawn (argv_of (binary # l_args l)) in
        if \<not> a_starts a then (Some ErrStart, l, True, [spawn])
        else case wait_health (a_polls a) of
          Cancelled \<Rightarrow> (Some ErrCancelled, l, True, [spawn, EvProbe])
        | Died \<Rightarrow> (Some ErrDied, l, True, [spawn, EvProbe])
        | TimedOut \<Rightarrow> (Some ErrTimeout, l, True, [spawn, EvProbe])
        | Ready \<Rightarrow>
            let (promoted, l', evs) = handle_healthy l a in
            (if promoted then Some ErrPromotion else if a_wait_ok a then None else Some ErrWait,
             l', True, spawn # evs))"

section \<open>The recovery loop\<close>

record run_state =
  rs_restarts :: int
  rs_cuda :: int
  rs_promotions :: int
  rs_backoff :: int
  rs_binary :: string
  rs_logged :: bool

datatype run_result =
    RunOk
  | RunCancelled
  | RunNotConverged int
  | RunDeterministic failure_type string
  | RunMaxRestarts int string
  | RunFailed string

definition init_state :: "launcher \<Rightarrow> run_state" where
  "init_state l = \<lparr>rs_restarts = 0, rs_cuda = 0, rs_promotions = 0, rs_backoff = l_backoff_base l,
     rs_binary = l_binary l, rs_logged = False\<rparr>"

definition seconds30 :: int where
  "seconds30 = 30000000000"

definition next_backoff :: "int \<Rightarrow> int" where
  "next_backoff b = (if wrap64 (b * 2) > seconds30 then seconds30 else wrap64 (b * 2))"

text \<open>A step ends the loop (\<open>Inl\<close>) or goes on with a new launcher and state (\<open>Inr\<close>).\<close>

type_synonym step_result = "(run_result + launcher \<times> run_state) \<times> run_event list"

definition cuda_retry :: "launcher \<Rightarrow> run_state \<Rightarrow> attempt \<Rightarrow> failure_type \<Rightarrow> string \<Rightarrow> (launcher \<times> run_state) option" where
  "cuda_retry l s a ft msg =
     (let (new_args, entry, retry) = a_cuda a in
      if ft = FailureCUDAOOM \<and> rs_cuda s < 2 \<and> l_has_on_cuda_oom l \<and> parse_cuda_oom msg \<noteq> None \<and> retry
      then Some (l\<lparr>l_args := new_args, l_success := (if entry \<noteq> None then entry else l_success l)\<rparr>,
                 s\<lparr>rs_cuda := rs_cuda s + 1, rs_restarts := rs_restarts s + 1\<rparr>)
      else None)"

definition after_failure :: "launcher \<Rightarrow> run_state \<Rightarrow> attempt \<Rightarrow> failure_type \<Rightarrow> string \<Rightarrow> step_result" where
  "after_failure l s a ft msg =
     (case cuda_retry l s a ft msg of
        Some next \<Rightarrow> (Inr next, [])
      | None \<Rightarrow>
          if ft = FailureUnknownModel \<and> l_fallback l \<noteq> [] \<and> rs_binary s = l_binary l then
            (Inr (l, s\<lparr>rs_binary := l_fallback l, rs_restarts := 0, rs_backoff := l_backoff_base l\<rparr>),
             [EvFallback (l_fallback l)])
          else if deterministic ft then (Inl (RunDeterministic ft msg), [])
          else if rs_restarts s \<ge> l_max_restarts l then (Inl (RunMaxRestarts (l_max_restarts l) msg), [])
          else if \<not> l_keep_alive l then (Inl (RunFailed msg), [])
          else
            let s' = s\<lparr>rs_restarts := rs_restarts s + 1, rs_backoff := next_backoff (rs_backoff s)\<rparr> in
            (if a_backoff_cancelled a then Inl RunCancelled else Inr (l, s'),
             [EvRestart (rs_restarts s') (rs_backoff s)]))"

definition run_step :: "(argv \<Rightarrow> argv) \<Rightarrow> launcher \<Rightarrow> run_state \<Rightarrow> attempt \<Rightarrow> step_result" where
  "run_step argv_of l s a =
     (case run_once argv_of l (rs_binary s) a of
        (None, l', logged, evs) \<Rightarrow> (Inl RunOk, evs)
      | (Some err, l', logged, evs) \<Rightarrow>
          let s' = s\<lparr>rs_logged := rs_logged s \<or> logged\<rparr> in
          if err = ErrPromotion then
            (if rs_promotions s' \<ge> 1 then (Inl (RunNotConverged (rs_promotions s')), evs)
             else (Inr (l', s'\<lparr>rs_promotions := rs_promotions s' + 1, rs_restarts := 0, rs_backoff := l_backoff_base l'\<rparr>), evs))
          else if a_cancelled a \<or> err = ErrCancelled then (Inl RunCancelled, evs)
          else
            let (ft, msg) = parse_load_failure (if rs_logged s' then a_log a else None);
                (next, evs') = after_failure l' s' a ft msg
            in (next, evs @ EvFailure ft msg # evs'))"

fun run_from :: "(argv \<Rightarrow> argv) \<Rightarrow> (nat \<Rightarrow> attempt) \<Rightarrow> nat \<Rightarrow> nat \<Rightarrow> launcher \<Rightarrow> run_state \<Rightarrow> run_result option \<times> run_event list" where
  "run_from argv_of env 0 i l s = (None, [])"
| "run_from argv_of env (Suc fuel) i l s =
     (case run_step argv_of l s (env i) of
        (Inl r, evs) \<Rightarrow> (Some r, evs)
      | (Inr (l', s'), evs) \<Rightarrow>
          let (r, evs') = run_from argv_of env fuel (Suc i) l' s' in (r, evs @ evs'))"

definition run :: "(argv \<Rightarrow> argv) \<Rightarrow> (nat \<Rightarrow> attempt) \<Rightarrow> nat \<Rightarrow> launcher \<Rightarrow> run_result option \<times> run_event list" where
  "run argv_of env fuel l = run_from argv_of env fuel 0 l (init_state l)"


section \<open>Startup progress\<close>

definition startup_phase :: "string \<Rightarrow> string" where
  "startup_phase log_text =
     (let l = to_lower log_text in
      if contains_sub l ''server is listening'' \<or> contains_sub l ''model loaded'' then ''finishing startup''
      else if contains_sub l ''warming up'' then ''warming up the model''
      else if contains_sub l ''load_tensors'' \<or> contains_sub l ''loading model'' then ''loading model weights''
      else if contains_sub l ''pinned host memory'' \<or> contains_sub l ''allocating'' then ''pinning host memory''
      else ''starting backend'')"

record startup_progress =
  pr_done :: int
  pr_total :: int

definition startup_progress_percent :: "startup_progress \<Rightarrow> int" where
  "startup_progress_percent p =
     (if pr_total p \<le> 0 \<or> pr_done p \<le> 0 then 0
      else if pr_done p \<ge> pr_total p then 99
      else go_div (pr_done p * 100) (pr_total p))"

definition startup_progress_bar :: "int \<Rightarrow> int \<Rightarrow> string" where
  "startup_progress_bar percent width =
     (if width \<le> 0 then ''[]''
      else
        let percent = min 100 (max 0 percent);
            filled = min width (go_div (percent * width + 50) 100)
        in ''['' @ replicate (nat filled) CHR ''#'' @ replicate (nat (width - filled)) CHR ''-'' @ '']'')"

text \<open>The line break inside the log text is the byte 10.\<close>

definition latest_backend_line :: "string \<Rightarrow> string" where
  "latest_backend_line log_text =
     (case List.find (\<lambda>l. trim_space l \<noteq> []) (rev (split_char CHR 0x0A (trim_space log_text))) of
        None \<Rightarrow> []
      | Some l \<Rightarrow> join_with '' '' (Prelude.fields (trim_space l)))"

definition truncate_status :: "string \<Rightarrow> int \<Rightarrow> string" where
  "truncate_status s limit =
     (if limit \<le> 0 \<or> int (length s) \<le> limit then s
      else if limit \<le> 3 then take (nat limit) s
      else take (nat (limit - 3)) s @ ''...'')"

definition fit_startup_status_line :: "int \<Rightarrow> string \<Rightarrow> string" where
  "fit_startup_status_line cols line =
     (let line = join_with '' '' (Prelude.fields line) in
      if cols \<le> 1 then []
      else
        let limit = cols - 1 in
        if int (length line) \<le> limit then line
        else if limit \<le> 3 then take (nat limit) line
        else take (nat (limit - 3)) line @ ''...'')"

fun startup_model_path_from_args :: "argv \<Rightarrow> string" where
  "startup_model_path_from_args [] = []"
| "startup_model_path_from_args (arg # rest) =
     (if arg = ''-m'' \<or> arg = ''--model'' then (case rest of v # _ \<Rightarrow> v | [] \<Rightarrow> [])
      else if has_prefix arg ''-m='' then trim_prefix arg ''-m=''
      else if has_prefix arg ''--model='' then trim_prefix arg ''--model=''
      else startup_model_path_from_args rest)"

fun value_after :: "string \<Rightarrow> argv \<Rightarrow> string option" where
  "value_after flag (a # v # rest) = (if a = flag then Some v else value_after flag (v # rest))"
| "value_after flag _ = None"

definition extract_port :: "launcher \<Rightarrow> string" where
  "extract_port l = (case value_after ''--port'' (l_args l) of Some p \<Rightarrow> p | None \<Rightarrow> ''8081'')"

definition base_name :: "string \<Rightarrow> string" where
  "base_name p =
     (if p = [] then ''.''
      else
        let q = rev (dropWhile (\<lambda>c. c = CHR ''/'') (rev p)) in
        if q = [] then ''/'' else rev (takeWhile (\<lambda>c. c \<noteq> CHR ''/'') (rev q)))"

definition extract_model_name :: "launcher \<Rightarrow> string" where
  "extract_model_name l = (case value_after ''-m'' (l_args l) of Some p \<Rightarrow> base_name p | None \<Rightarrow> [])"

text \<open>
  The tracker and what one look at the process shows: the open model files with their offsets
  (\<^verbatim>\<open>/proc/PID/fd\<close>; none when it cannot be read) and the bytes read in all.
\<close>

record tracker =
  tr_pid :: int
  tr_paths :: "(string \<times> int) list"
  tr_total :: int
  tr_max_done :: int

definition fd_step :: "(string \<times> int) list \<Rightarrow> string \<times> int \<Rightarrow> (string \<times> int) list \<Rightarrow> (string \<times> int) list" where
  "fd_step paths fd by_path =
     (case map_of paths (fst fd) of
        None \<Rightarrow> by_path
      | Some sz \<Rightarrow>
          let pos = min sz (snd fd); old = (case map_of by_path (fst fd) of Some p \<Rightarrow> p | None \<Rightarrow> 0) in
          if pos > old then AList.update (fst fd) pos by_path else by_path)"

definition fd_positions :: "tracker \<Rightarrow> (string \<times> int) list \<Rightarrow> int" where
  "fd_positions t fds = sum_list (map snd (fold (fd_step (tr_paths t)) fds []))"

definition snapshot :: "tracker \<Rightarrow> (string \<times> int) list \<Rightarrow> int \<Rightarrow> startup_progress \<times> tracker" where
  "snapshot t fds rchar =
     (if tr_pid t \<le> 0 \<or> tr_total t \<le> 0 then (\<lparr>pr_done = 0, pr_total = 0\<rparr>, t)
      else
        let d0 = fd_positions t fds;
            d1 = (if d0 = 0 then rchar else d0);
            d2 = min d1 (tr_total t)
        in if d2 < tr_max_done t then (\<lparr>pr_done = tr_max_done t, pr_total = tr_total t\<rparr>, t)
           else (\<lparr>pr_done = d2, pr_total = tr_total t\<rparr>, t\<lparr>tr_max_done := d2\<rparr>))"

fun snapshots :: "tracker \<Rightarrow> ((string \<times> int) list \<times> int) list \<Rightarrow> startup_progress list" where
  "snapshots t [] = []"
| "snapshots t ((fds, rchar) # looks) = (let (p, t') = snapshot t fds rchar in p # snapshots t' looks)"

section \<open>Lemmas\<close>

lemma run_once_launcher:
  assumes "run_once argv_of l b a = (e, l', lg, evs)"
  shows "l_binary l' = l_binary l" "l_fallback l' = l_fallback l" "l_max_restarts l' = l_max_restarts l"
    "e \<noteq> Some ErrPromotion \<Longrightarrow> l' = l"
  using assms
  by (auto simp: run_once_def handle_healthy_def Let_def split: if_splits health.splits prod.splits)

lemma run_step_launcher:
  assumes "run_step argv_of l s a = (Inr (l', s'), evs)"
  shows "l_binary l' = l_binary l \<and> l_fallback l' = l_fallback l \<and> l_max_restarts l' = l_max_restarts l"
  using assms run_once_launcher(1-3) [of argv_of l "rs_binary s" a]
  by (auto simp: run_step_def after_failure_def cuda_retry_def Let_def
      split: option.splits prod.splits if_splits)

text \<open>
  What is left to spend: recoveries from a device out of memory, a promotion, a fallback, and the
  restarts since the last reset. A promotion and a fallback each buy a fresh set of restarts.
\<close>

definition spend :: "launcher \<Rightarrow> run_state \<Rightarrow> nat" where
  "spend l s = nat (2 - rs_cuda s) + nat (1 - rs_promotions s) * Suc (nat (l_max_restarts l))
     + (if rs_binary s = l_binary l then Suc (nat (l_max_restarts l)) else 0)
     + nat (l_max_restarts l - rs_restarts s)"

definition spend_ok :: "run_state \<Rightarrow> bool" where
  "spend_ok s \<longleftrightarrow> 0 \<le> rs_restarts s \<and> 0 \<le> rs_promotions s"

lemma cuda_retry_spend:
  assumes "cuda_retry l s a ft msg = Some (l', s')" "spend_ok s"
  shows "spend l' s' < spend l s \<and> spend_ok s'"
  using assms by (auto simp: cuda_retry_def spend_def spend_ok_def split: prod.splits if_splits)

lemma after_failure_spend:
  assumes "after_failure l s a ft msg = (Inr (l', s'), evs)" "l_fallback l \<noteq> l_binary l" "spend_ok s"
  shows "spend l' s' < spend l s \<and> spend_ok s'"
proof (cases "cuda_retry l s a ft msg")
  case None
  then show ?thesis
    using assms by (auto simp: after_failure_def spend_def spend_ok_def Let_def split: if_splits)
next
  case (Some r)
  then show ?thesis using assms cuda_retry_spend [of l s a ft msg l' s'] by (simp add: after_failure_def)
qed

lemma promotion_spend:
  assumes "\<not> rs_promotions s \<ge> 1" "spend_ok s" "l_binary l' = l_binary l" "l_max_restarts l' = l_max_restarts l"
  shows "spend l' (s\<lparr>rs_promotions := rs_promotions s + 1, rs_restarts := 0, rs_backoff := b\<rparr>) < spend l s"
proof -
  have "rs_promotions s = 0" using assms(1,2) by (simp add: spend_ok_def)
  then show ?thesis using assms(2-4) by (simp add: spend_def spend_ok_def)
qed

lemma spend_logged [simp]: "spend l (s\<lparr>rs_logged := b\<rparr>) = spend l s" "spend_ok (s\<lparr>rs_logged := b\<rparr>) = spend_ok s"
  by (simp_all add: spend_def spend_ok_def)

lemma run_step_spend:
  assumes step: "run_step argv_of l s a = (Inr (l', s'), evs)"
    and neq: "l_fallback l \<noteq> l_binary l" and ok: "spend_ok s"
  shows "spend l' s' < spend l s \<and> spend_ok s'"
proof -
  obtain e l1 lg evs1 where o: "run_once argv_of l (rs_binary s) a = (e, l1, lg, evs1)" by (metis prod_cases4)
  let ?s = "s\<lparr>rs_logged := rs_logged s \<or> lg\<rparr>"
  note keep = run_once_launcher [OF o]
  show ?thesis
  proof (cases "e = Some ErrPromotion")
    case True
    then have "\<not> rs_promotions ?s \<ge> 1 \<and> l' = l1 \<and>
        s' = ?s\<lparr>rs_promotions := rs_promotions ?s + 1, rs_restarts := 0, rs_backoff := l_backoff_base l1\<rparr>"
      using step by (auto simp: run_step_def o Let_def split: if_splits)
    moreover have "spend_ok ?s" using ok by simp
    ultimately show ?thesis using promotion_spend [of ?s l1 l] keep ok by (auto simp: spend_ok_def)
  next
    case False
    obtain ft msg where f: "parse_load_failure (if rs_logged ?s then a_log a else None) = (ft, msg)" by fastforce
    have "l1 = l" using keep(4) False by simp
    then obtain evs2 where "after_failure l ?s a ft msg = (Inr (l', s'), evs2)"
      using step False f by (auto simp: run_step_def o Let_def split: option.splits if_splits prod.splits)
    then show ?thesis using after_failure_spend [of l ?s a ft msg] neq ok by simp
  qed
qed

lemma run_from_returns:
  assumes "spend l s < fuel" "l_fallback l \<noteq> l_binary l" "spend_ok s"
  shows "fst (run_from argv_of env fuel i l s) \<noteq> None"
  using assms
proof (induction fuel arbitrary: i l s)
  case (Suc fuel)
  show ?case
  proof (cases "run_step argv_of l s (env i)")
    case (Pair nxt evs)
    show ?thesis
    proof (cases nxt)
      case (Inr ls)
      obtain l' s' where ls: "ls = (l', s')" by fastforce
      have "spend l' s' < fuel" "spend_ok s'" "l_fallback l' \<noteq> l_binary l'"
        using run_step_spend [OF Pair [unfolded Inr ls] Suc.prems(2,3)]
          run_step_launcher [OF Pair [unfolded Inr ls]] Suc.prems by simp_all
      then have "fst (run_from argv_of env fuel (Suc i) l' s') \<noteq> None" by (intro Suc.IH)
      then show ?thesis by (simp add: Pair Inr ls split_beta Let_def)
    qed (simp add: Pair)
  qed
qed simp

lemma spend_init: "spend l (init_state l) \<le> 4 + 3 * nat (l_max_restarts l)"
  by (simp add: spend_def init_state_def)

section \<open>Properties\<close>

text \<open>
  C6: The recovery loop always ends. Whatever the attempts do and the callbacks answer, a launcher
  whose fallback is another binary returns a result after at most five attempts plus three times the
  restart limit: two recoveries from a device out of memory, one promotion and one fallback are all
  it can add.
\<close>

theorem recovery_returns:
  assumes "l_fallback l \<noteq> l_binary l"
  shows "\<exists>r evs. run argv_of env (5 + 3 * nat (l_max_restarts l)) l = (Some r, evs)"
proof -
  have "fst (run argv_of env (5 + 3 * nat (l_max_restarts l)) l) \<noteq> None"
    unfolding run_def using spend_init [of l]
    by (intro run_from_returns assms) (simp_all add: spend_ok_def init_state_def)
  then show ?thesis by (metis prod.collapse option.exhaust)
qed


definition demo_launcher :: launcher where
  "demo_launcher = \<lparr>l_binary = ''ik'', l_args = [''-m'', ''/models/a.gguf''], l_fallback = ''main'', l_max_restarts = 1,
     l_backoff_base = 2000000000, l_keep_alive = True, l_has_on_cuda_oom = True, l_has_on_promote = True,
     l_cache_path = ''plan'', l_success = Some empty_entry\<rparr>"

text \<open>An attempt whose process dies at once, leaving the given log.\<close>

definition dead_attempt :: "string list \<Rightarrow> attempt" where
  "dead_attempt lines = \<lparr>a_log_opens = True, a_starts = True,
     a_polls = [\<lparr>po_cancelled = False, po_alive = False, po_health = None, po_models = None\<rparr>],
     a_wait_ok = False, a_log = Some lines, a_promote = ([], False), a_cuda = ([], None, False),
     a_cancelled = False, a_backoff_cancelled = False\<rparr>"

lemma recovery_returns_witness:
  "\<exists>r evs. run id (\<lambda>_. dead_attempt [''terminate called'']) 8 demo_launcher = (Some r, evs)"
  using recovery_returns [of demo_launcher id "\<lambda>_. dead_attempt [''terminate called'']"]
  by (simp add: demo_launcher_def)

section \<open>What is persisted\<close>

text \<open>
  Where the arguments and the candidate of attempt \<open>j\<close> can come from: the pair the launcher was given
  or that a recovery callback answered in an earlier attempt, and arguments that arrived with no plan
  of their own, from a promotion or from a recovery answer without an entry.
\<close>

definition plan_offered :: "(nat \<Rightarrow> attempt) \<Rightarrow> launcher \<Rightarrow> nat \<Rightarrow> argv \<Rightarrow> cache_entry \<Rightarrow> bool" where
  "plan_offered env l j args e \<longleftrightarrow>
     args = l_args l \<and> l_success l = Some e \<or>
     list_ex (\<lambda>i. a_cuda (env i) = (args, Some e, True)) [0..<j]"

definition args_without_plan :: "(nat \<Rightarrow> attempt) \<Rightarrow> launcher \<Rightarrow> nat \<Rightarrow> argv \<Rightarrow> bool" where
  "args_without_plan env l j args \<longleftrightarrow>
     list_ex (\<lambda>i. l_has_on_promote l \<and> a_promote (env i) = (args, True) \<or> a_cuda (env i) = (args, None, True)) [0..<j]"

text \<open>What holds of the launcher when attempt \<open>j\<close> of a run begins.\<close>

definition plan_inv :: "(nat \<Rightarrow> attempt) \<Rightarrow> launcher \<Rightarrow> nat \<Rightarrow> launcher \<Rightarrow> run_state \<Rightarrow> bool" where
  "plan_inv env l j l' s \<longleftrightarrow>
     l_cache_path l' = l_cache_path l \<and> l_binary l' = l_binary l \<and> l_fallback l' = l_fallback l \<and>
     l_has_on_promote l' = l_has_on_promote l \<and> rs_binary s \<in> {l_binary l, l_fallback l} \<and>
     (\<forall>e. l_success l' = Some e \<longrightarrow>
        plan_offered env l j (l_args l') e \<or> args_without_plan env l j (l_args l'))"

lemma plan_inv_init: "plan_inv env l 0 l (init_state l)"
  by (simp add: plan_inv_def init_state_def plan_offered_def)

lemma plan_inv_later: "plan_inv env l j l' s \<Longrightarrow> plan_inv env l (Suc j) l' s"
  by (auto simp: plan_inv_def plan_offered_def args_without_plan_def)

lemma plan_inv_cong:
  "plan_inv env l j l' s \<Longrightarrow> rs_binary s' = rs_binary s \<Longrightarrow> plan_inv env l j l' s'"
  by (simp add: plan_inv_def)

lemma plan_inv_promoted:
  assumes "plan_inv env l j l' s" "a_promote (env j) = (args, True)" "l_has_on_promote l'"
  shows "plan_inv env l (Suc j) (l'\<lparr>l_args := args\<rparr>) s"
  using assms by (simp add: plan_inv_def args_without_plan_def)

lemma plan_inv_retried:
  assumes "plan_inv env l j l' s" "cuda_retry l' s (env j) ft msg = Some (l2, s2)"
  shows "plan_inv env l (Suc j) l2 s2"
proof -
  obtain args entry where a: "a_cuda (env j) = (args, entry, True)"
    and l2: "l2 = l'\<lparr>l_args := args, l_success := (if entry \<noteq> None then entry else l_success l')\<rparr>"
    and s2: "rs_binary s2 = rs_binary s"
    using assms(2) by (auto simp: cuda_retry_def split: prod.splits if_splits)
  show ?thesis
    using assms(1) a by (cases entry) (simp_all add: l2 s2 plan_inv_def plan_offered_def args_without_plan_def)
qed

lemma handle_healthy_promoted:
  assumes "handle_healthy l a = (True, l', evs)"
  shows "\<exists>args. a_promote a = (args, True) \<and> l_has_on_promote l \<and> l' = l\<lparr>l_args := args\<rparr>"
  using assms by (auto simp: handle_healthy_def Let_def split: prod.splits if_splits)

lemma run_once_promoted:
  assumes "run_once argv_of l b a = (Some ErrPromotion, l', lg, evs)"
  shows "\<exists>args. a_promote a = (args, True) \<and> l_has_on_promote l \<and> l' = l\<lparr>l_args := args\<rparr>"
  using assms handle_healthy_promoted [of l a]
  by (auto simp: run_once_def Let_def split: if_splits health.splits prod.splits)

lemma after_failure_plan:
  assumes "after_failure l' s (env j) ft msg = (Inr (l2, s2), evs)" "plan_inv env l j l' s"
  shows "plan_inv env l (Suc j) l2 s2"
proof (cases "cuda_retry l' s (env j) ft msg")
  case None
  then have "l2 = l' \<and> (rs_binary s2 = rs_binary s \<or> rs_binary s2 = l_fallback l')"
    using assms(1) by (auto simp: after_failure_def Let_def split: if_splits)
  with plan_inv_later [OF assms(2)] show ?thesis by (auto simp: plan_inv_def)
next
  case (Some r)
  then show ?thesis using assms plan_inv_retried [of env l j l' s ft msg l2 s2] by (simp add: after_failure_def)
qed

lemma run_step_plan:
  assumes step: "run_step argv_of l' s (env j) = (Inr (l2, s2), evs)" and inv: "plan_inv env l j l' s"
  shows "plan_inv env l (Suc j) l2 s2"
proof -
  obtain e l1 lg evs1 where o: "run_once argv_of l' (rs_binary s) (env j) = (e, l1, lg, evs1)" by (metis prod_cases4)
  let ?s = "s\<lparr>rs_logged := rs_logged s \<or> lg\<rparr>"
  have inv': "plan_inv env l j l' ?s" by (rule plan_inv_cong [OF inv]) simp
  show ?thesis
  proof (cases "e = Some ErrPromotion")
    case True
    obtain args where a: "a_promote (env j) = (args, True)" "l_has_on_promote l'" "l1 = l'\<lparr>l_args := args\<rparr>"
      using run_once_promoted [OF o [unfolded True]] by blast
    have "l2 = l1 \<and> rs_binary s2 = rs_binary s"
      using step True by (auto simp: run_step_def o Let_def split: if_splits)
    with plan_inv_promoted [OF inv a(1,2)] a(3) show ?thesis by (auto intro: plan_inv_cong)
  next
    case False
    obtain ft msg where f: "parse_load_failure (if rs_logged ?s then a_log (env j) else None) = (ft, msg)" by fastforce
    have "l1 = l'" using run_once_launcher(4) [OF o False] .
    then obtain evs2 where "after_failure l' ?s (env j) ft msg = (Inr (l2, s2), evs2)"
      using step False f by (auto simp: run_step_def o Let_def split: option.splits if_splits prod.splits)
    then show ?thesis using inv' by (rule after_failure_plan)
  qed
qed

text \<open>The events of one attempt around a saved plan.\<close>

definition proven_save :: "(argv \<Rightarrow> argv) \<Rightarrow> launcher \<Rightarrow> run_state \<Rightarrow> attempt \<Rightarrow> string \<Rightarrow> cache_entry \<Rightarrow> run_event list \<Rightarrow> bool" where
  "proven_save argv_of l s a path e evs \<longleftrightarrow>
     a_log_opens a \<and> a_starts a \<and> wait_health (a_polls a) = Ready \<and>
     l_success l = Some e \<and> path = l_cache_path l \<and> path \<noteq> [] \<and>
     (\<exists>post. evs = [EvSpawn (argv_of (rs_binary s # l_args l)), EvProbe, EvSave path e] @ post)"

lemma run_step_save:
  assumes "run_step argv_of l s a = (r, evs)" "EvSave path e \<in> set evs"
  shows "proven_save argv_of l s a path e evs"
proof -
  obtain o' l1 lg evs1 where o: "run_once argv_of l (rs_binary s) a = (o', l1, lg, evs1)" by (metis prod_cases4)
  have later: "EvSave path e \<notin> set (snd (after_failure l' s' a ft msg))" for l' s' ft msg
    by (simp add: after_failure_def Let_def split: option.split)
  obtain post where evs: "evs = evs1 @ post" and here: "EvSave path e \<in> set evs1"
    using assms later by (auto simp: run_step_def o Let_def split_beta split: option.splits if_splits)
  have "a_log_opens a \<and> a_starts a \<and> wait_health (a_polls a) = Ready \<and> l_success l = Some e \<and> path = l_cache_path l \<and>
      path \<noteq> [] \<and> evs1 = [EvSpawn (argv_of (rs_binary s # l_args l)), EvProbe, EvSave path e]"
    using o here by (auto simp: run_once_def handle_healthy_def Let_def split: if_splits health.splits option.splits prod.splits)
  then show ?thesis unfolding proven_save_def evs by auto
qed

lemma run_from_save:
  assumes "run_from argv_of env fuel j l' s = (res, evs)" "EvSave path e \<in> set evs" "plan_inv env l j l' s"
  shows "\<exists>i lx sx pre mid post. evs = pre @ mid @ post \<and> plan_inv env l i lx sx \<and>
    proven_save argv_of lx sx (env i) path e mid"
  using assms
proof (induction fuel arbitrary: j l' s evs res)
  case (Suc fuel)
  obtain nxt evs1 where step: "run_step argv_of l' s (env j) = (nxt, evs1)" by fastforce
  obtain evs2 where evs: "evs = evs1 @ evs2" and
    rest: "evs2 = [] \<or> (\<exists>l2 s2. nxt = Inr (l2, s2) \<and> snd (run_from argv_of env fuel (Suc j) l2 s2) = evs2)"
    using Suc.prems(1) by (auto simp: step split_beta Let_def split: sum.splits)
  show ?case
  proof (cases "EvSave path e \<in> set evs1")
    case True
    have "evs = [] @ evs1 @ evs2" by (simp add: evs)
    with run_step_save [OF step True] Suc.prems(3) show ?thesis by blast
  next
    case False
    then have "EvSave path e \<in> set evs2" using Suc.prems(2) evs by simp
    then obtain l2 s2 where n: "nxt = Inr (l2, s2)" and r: "snd (run_from argv_of env fuel (Suc j) l2 s2) = evs2"
      using rest by auto
    have "plan_inv env l (Suc j) l2 s2" using run_step_plan [OF step [unfolded n] Suc.prems(3)] .
    then obtain i lx sx pre mid post where "evs2 = pre @ mid @ post" "plan_inv env l i lx sx"
        "proven_save argv_of lx sx (env i) path e mid"
      using Suc.IH [of "Suc j" l2 s2 _ evs2] \<open>EvSave path e \<in> set evs2\<close> r by (metis prod.collapse)
    moreover from this(1) have "evs = (evs1 @ pre) @ mid @ post" by (simp add: evs)
    ultimately show ?thesis by blast
  qed
qed simp


definition served_attempt :: attempt where
  "served_attempt = (dead_attempt [])\<lparr>a_polls :=
     [\<lparr>po_cancelled = False, po_alive = True, po_health = Some 503, po_models = None\<rparr>,
      \<lparr>po_cancelled = False, po_alive = True, po_health = Some 200, po_models = None\<rparr>]\<rparr>"

text \<open>
  A run whose first attempt runs out of memory on a device, whose callback answers new arguments with
  their plan, and whose second attempt serves: it is the second plan that is saved.
\<close>

definition derated_entry :: cache_entry where
  "derated_entry = empty_entry\<lparr>ce_batch_size := 512\<rparr>"

definition oom_line :: string where
  "oom_line = ''allocating 512.25 MiB on device 1: cudaMalloc failed: out of memory''"

lemma oom_line_parsed: "parse_cuda_oom oom_line = Some (1, 513)"
proof -
  have f: "first_match cuda_oom_at oom_line = Some ((''512'', ''25''), ''1'')" by code_simp
  have d: "decimal_value ''512'' ''25'' = 2049 / 4"
    by (simp add: decimal_value_def nat_of_digits_def digit_val_def)
  have r: "int (nat_of_digits (''512'' @ ''25'')) < float_range * 10 ^ length ''25''"
    by (simp add: nat_of_digits_def digit_val_def float_range_def)
  have a: "atoi ''1'' = Some 1" by code_simp
  have c: "\<lceil>2049 / 4 :: rat\<rceil> = 513" by linarith
  show ?thesis
    unfolding parse_cuda_oom_def f d a c bind.bind_lunit prod.case if_P [OF r] by simp
qed

lemma oom_line_class: "classify_line oom_line = Some FailureCUDAOOM"
proof -
  have t: "to_lower oom_line = ''allocating 512.25 mib on device 1: cudamalloc failed: out of memory''" by code_simp
  show ?thesis unfolding classify_line_def t Let_def oom_line_parsed by code_simp
qed

definition demo_run_env :: "nat \<Rightarrow> attempt" where
  "demo_run_env i =
     (if i = 0 then (dead_attempt [oom_line])\<lparr>a_cuda := ([''-m'', ''/models/a.gguf'', ''-b'', ''512''], Some derated_entry, True)\<rparr>
      else served_attempt\<lparr>a_wait_ok := True\<rparr>)"

lemma demo_run_saves:
  "\<exists>evs. run id demo_run_env 8 demo_launcher = (Some RunOk, evs) \<and> EvSave ''plan'' derated_entry \<in> set evs"
proof -
  have f: "parse_load_failure (Some [oom_line]) = (FailureCUDAOOM, oom_line)"
    by (simp add: parse_load_failure_def oom_line_class)
  show ?thesis
    by (simp add: run_def eval_nat_numeral run_step_def run_once_def handle_healthy_def after_failure_def cuda_retry_def
        init_state_def demo_run_env_def served_attempt_def dead_attempt_def demo_launcher_def f oom_line_parsed Let_def split_beta)
qed


lemma scan_failure_found:
  "scan_failure err nonempty lines = (ft, msg) \<Longrightarrow> ft \<noteq> FailureUnknown \<Longrightarrow>
   \<exists>pre post. lines = pre @ msg # post \<and> classify_line msg = Some ft \<and> (\<forall>l \<in> set pre. classify_line l = None)"
proof (induction lines arbitrary: err nonempty)
  case (Cons line rest)
  show ?case
  proof (cases "classify_line line")
    case None
    then obtain pre post where "rest = pre @ msg # post" "classify_line msg = Some ft" "\<forall>l \<in> set pre. classify_line l = None"
      using Cons by fastforce
    with None show ?thesis by (intro exI [of _ "line # pre"] exI [of _ post]) auto
  next
    case (Some f)
    with Cons.prems show ?thesis by (intro exI [of _ "[]"] exI [of _ rest]) auto
  qed
qed simp

lemma classify_line_known: "classify_line l \<noteq> Some FailureUnknown"
  by (simp add: classify_line_def Let_def)

lemma scan_failure_unknown:
  "scan_failure err nonempty lines = (FailureUnknown, msg) \<Longrightarrow> \<forall>l \<in> set lines. classify_line l = None"
  by (induction lines arbitrary: err nonempty) (auto simp: classify_line_known split: option.splits)

lemma scan_failure_message:
  "scan_failure err nonempty lines = (FailureUnknown, msg) \<Longrightarrow>
   err \<noteq> [] \<or> nonempty \<noteq> [] \<or> (\<exists>l \<in> set lines. trim_space l \<noteq> []) \<Longrightarrow> msg \<noteq> []"
proof (induction lines arbitrary: err nonempty)
  case (Cons line rest)
  have blank: "trim_space [] = []" by (simp add: trim_space_ident)
  let ?e = "if err = [] \<and> error_line line then line else err"
  let ?n = "if nonempty = [] \<and> trim_space line \<noteq> [] then line else nonempty"
  have "scan_failure ?e ?n rest = (FailureUnknown, msg)"
    using Cons.prems(1) by (auto simp: classify_line_known split: option.splits)
  moreover have "error_line line \<Longrightarrow> line \<noteq> []" by (auto simp: error_line_def to_lower_def)
  then have "?e \<noteq> [] \<or> ?n \<noteq> [] \<or> (\<exists>l \<in> set rest. trim_space l \<noteq> [])"
    using Cons.prems(2) blank by auto
  ultimately show ?case by (rule Cons.IH)
qed (auto split: if_splits)

text \<open>
  The reported failure is the last recognised line among the last 49 of the log: its type is
  that line's own and no later line is recognised. The failure is unknown exactly when none of those
  lines is recognised, and then, as long as one of them is not blank, the message is not empty.
\<close>

theorem failure_is_last_recognised:
  assumes "parse_load_failure (Some lines) = (ft, msg)"
  shows "if ft = FailureUnknown then
      (\<forall>l \<in> set (take 49 (rev lines)). classify_line l = None) \<and>
      (msg = [] \<longrightarrow> (\<forall>l \<in> set (take 49 (rev lines)). trim_space l = []))
    else \<exists>pre post. lines = pre @ msg # post \<and> length post < 49 \<and> classify_line msg = Some ft \<and>
      (\<forall>l \<in> set post. classify_line l = None)"
proof (cases "ft = FailureUnknown")
  case True
  then have "scan_failure [] [] (take 49 (rev lines)) = (FailureUnknown, msg)"
    using assms by (simp add: parse_load_failure_def)
  from scan_failure_unknown [OF this] scan_failure_message [OF this] show ?thesis using True by auto
next
  case False
  then obtain pre post where p: "take 49 (rev lines) = pre @ msg # post" "classify_line msg = Some ft"
    "\<forall>l \<in> set pre. classify_line l = None"
    using assms scan_failure_found by (simp add: parse_load_failure_def) blast
  then have "rev lines = pre @ msg # post @ drop 49 (rev lines)" by (metis append.assoc append_Cons append_take_drop_id)
  then have "lines = rev (post @ drop 49 (rev lines)) @ msg # rev pre" by (metis append.assoc append_Cons append_Nil rev.simps(2) rev_append rev_rev_ident)
  moreover have "length pre < 49" using arg_cong [OF p(1), of length] by simp
  ultimately have "lines = rev (post @ drop 49 (rev lines)) @ msg # rev pre \<and> length (rev pre) < 49 \<and>
      classify_line msg = Some ft \<and> (\<forall>l \<in> set (rev pre). classify_line l = None)"
    using p by simp
  then show ?thesis unfolding if_not_P [OF False] by (intro exI)
qed

lemma failure_is_last_recognised_witness:
  "parse_load_failure (Some [''load_tensors: buffer'', oom_line, ''exiting'']) = (FailureCUDAOOM, oom_line) \<and>
   parse_cuda_oom oom_line = Some (1, 513) \<and> classify_line ''exiting'' = None"
proof -
  let ?l = "[''load_tensors: buffer'', oom_line, ''exiting'']"
  have "classify_line ''exiting'' = None" by code_simp
  then have e: "parse_load_failure (Some ?l) = (FailureCUDAOOM, oom_line)"
    by (simp add: parse_load_failure_def oom_line_class del: contains_sub.simps)
  have "\<forall>l \<in> set [''exiting'']. classify_line l = None"
    using failure_is_last_recognised [OF e] \<open>classify_line ''exiting'' = None\<close> by simp
  with e oom_line_parsed show ?thesis by simp
qed

section \<open>Progress\<close>

definition tracker_ok :: "tracker \<Rightarrow> bool" where
  "tracker_ok t \<longleftrightarrow> 0 \<le> tr_max_done t \<and> (0 < tr_total t \<longrightarrow> tr_max_done t \<le> tr_total t)"

lemma snapshot_step:
  assumes "snapshot t fds rchar = (p, t')" "tracker_ok t" "0 < tr_pid t" "0 < tr_total t"
  shows "pr_total p = tr_total t" "tr_max_done t \<le> pr_done p" "pr_done p \<le> tr_total t"
    "tr_max_done t' = pr_done p" "tracker_ok t'" "tr_pid t' = tr_pid t" "tr_total t' = tr_total t"
  using assms by (auto simp: snapshot_def tracker_ok_def Let_def split: if_splits)

lemma snapshots_sorted:
  assumes "tracker_ok t" "0 < tr_pid t" "0 < tr_total t"
  shows "sorted (map pr_done (snapshots t looks)) \<and>
    (\<forall>p \<in> set (snapshots t looks). tr_max_done t \<le> pr_done p \<and> pr_done p \<le> tr_total t \<and> pr_total p = tr_total t)"
  using assms
proof (induction looks arbitrary: t)
  case (Cons look looks)
  obtain fds rchar where l: "look = (fds, rchar)" by fastforce
  obtain p t' where s: "snapshot t fds rchar = (p, t')" by fastforce
  note n = snapshot_step [OF s Cons.prems]
  from Cons.IH [of t'] n Cons.prems show ?case by (auto simp: l s)
qed simp

lemma percent_range: "0 \<le> startup_progress_percent p \<and> startup_progress_percent p \<le> 99"
proof (cases "pr_total p \<le> 0 \<or> pr_done p \<le> 0 \<or> pr_done p \<ge> pr_total p")
  case False
  then have "pr_done p * 100 div pr_total p * pr_total p < 100 * pr_total p"
    using pos_mod_sign [of "pr_total p" "pr_done p * 100"] unfolding minus_mod_eq_div_mult [symmetric] by linarith
  then have "pr_done p * 100 div pr_total p < 100" using False by simp
  then show ?thesis using False by (auto simp: startup_progress_percent_def pos_imp_zdiv_nonneg_iff)
qed (auto simp: startup_progress_percent_def)

lemma percent_mono:
  assumes "pr_done p \<le> pr_done q" "pr_total p = pr_total q"
  shows "startup_progress_percent p \<le> startup_progress_percent q"
proof (cases "pr_total q \<le> 0 \<or> pr_done p \<le> 0 \<or> pr_done q \<ge> pr_total q")
  case True
  then show ?thesis using percent_range [of p] percent_range [of q] assms
    by (auto simp: startup_progress_percent_def)
next
  case False
  then show ?thesis using assms by (auto simp: startup_progress_percent_def intro: zdiv_mono1)
qed

text \<open>
  However the offsets of the model files move, the progress shown never goes back, stays within
  the bytes to read, and never says more than 99 per cent before the server is healthy.
\<close>

theorem progress_never_regresses:
  assumes "0 < tr_pid t" "0 < tr_total t" "tr_max_done t = 0"
  shows "sorted (map startup_progress_percent (snapshots t looks)) \<and>
    (\<forall>p \<in> set (snapshots t looks). 0 \<le> pr_done p \<and> pr_done p \<le> pr_total p \<and> startup_progress_percent p \<le> 99)"
proof -
  have s: "sorted (map pr_done (snapshots t looks)) \<and>
      (\<forall>p \<in> set (snapshots t looks). tr_max_done t \<le> pr_done p \<and> pr_done p \<le> tr_total t \<and> pr_total p = tr_total t)"
    using assms by (intro snapshots_sorted) (auto simp: tracker_ok_def)
  have "sorted_wrt (\<lambda>p q. startup_progress_percent p \<le> startup_progress_percent q) (snapshots t looks)"
  proof (rule sorted_wrt_mono_rel)
    show "sorted_wrt (\<lambda>p q. pr_done p \<le> pr_done q) (snapshots t looks)"
      using s by (simp add: sorted_map)
    fix p q assume "p \<in> set (snapshots t looks)" "q \<in> set (snapshots t looks)" "pr_done p \<le> pr_done q"
    with s show "startup_progress_percent p \<le> startup_progress_percent q" by (intro percent_mono) simp_all
  qed
  then have "sorted (map startup_progress_percent (snapshots t looks))" by (simp add: sorted_map)
  moreover have "\<forall>p \<in> set (snapshots t looks). 0 \<le> pr_done p \<and> pr_done p \<le> pr_total p \<and> startup_progress_percent p \<le> 99"
    using s assms(3) percent_range by simp
  ultimately show ?thesis by blast
qed

lemma progress_never_regresses_witness:
  "map startup_progress_percent (snapshots \<lparr>tr_pid = 7, tr_paths = [(''m'', 200)], tr_total = 200, tr_max_done = 0\<rparr>
     [([(''m'', 50)], 0), ([(''m'', 20)], 0), ([], 900)]) = [25, 25, 99] \<and> sorted [25, 25, 99 :: int]"
proof -
  let ?t = "\<lparr>tr_pid = 7, tr_paths = [(''m'', 200)], tr_total = 200, tr_max_done = 0\<rparr>"
  let ?l = "[([(''m'', 50)], 0), ([(''m'', 20)], 0), ([], 900)]"
  have "map startup_progress_percent (snapshots ?t ?l) = [25, 25, 99]" by code_simp
  with progress_never_regresses [of ?t ?l] show ?thesis by simp
qed

section \<open>A fallback to the same binary\<close>

lemma dead_step:
  assumes "classify_line msg = Some FailureUnknownModel" "l_fallback l = l_binary l" "l_binary l \<noteq> []"
    "rs_binary s = l_binary l"
  shows "\<exists>s' evs. run_step argv_of l s (dead_attempt [msg]) = (Inr (l, s'), evs) \<and> rs_binary s' = l_binary l"
  using assms
  by (auto simp: run_step_def run_once_def dead_attempt_def parse_load_failure_def after_failure_def cuda_retry_def Let_def)

lemma dead_loop:
  assumes "classify_line msg = Some FailureUnknownModel" "l_fallback l = l_binary l" "l_binary l \<noteq> []"
    "rs_binary s = l_binary l"
  shows "fst (run_from argv_of (\<lambda>_. dead_attempt [msg]) fuel i l s) = None"
  using assms(4)
proof (induction fuel arbitrary: i s)
  case (Suc fuel)
  obtain s' evs where "run_step argv_of l s (dead_attempt [msg]) = (Inr (l, s'), evs)" "rs_binary s' = l_binary l"
    using dead_step [OF assms(1-3) Suc.prems] by blast
  with Suc.IH [of s'] show ?case by (simp add: split_beta Let_def)
qed simp

lemma demo_unknown: "classify_line ''unknown model architecture'' = Some FailureUnknownModel"
  by code_simp

text \<open>
  The guard of the previous property is needed: with the fallback path equal to the binary, a
  model the backend does not know is retried without end and without any backoff, because the test
  that the fallback has not been used compares the two paths.
\<close>

theorem fallback_same_binary_loops:
  "fst (run argv_of (\<lambda>_. dead_attempt [''unknown model architecture'']) fuel
     (demo_launcher\<lparr>l_fallback := ''ik''\<rparr>)) = None"
  unfolding run_def
  by (rule dead_loop [OF demo_unknown]) (simp_all add: demo_launcher_def init_state_def)

end
