(* ===== verification/Daemon.thy ===== *)
theory Daemon
  imports Prelude
begin

text \<open>
  The control daemon (\<^verbatim>\<open>go/pkg/daemon/daemon.go\<close>): the managed server process, its
  configuration and the five routes of the loopback control API. A request is handled under the
  mutex, so a run of the daemon is a sequence of whole requests. What the outside does during a
  request - whether the process is alive, whether it stops and starts, the two callbacks of the
  owner - is the \<open>world\<close> of the request; a JSON body is the configuration it decodes to.
\<close>

section \<open>Configuration and state\<close>

record config =
  dc_model_path :: string
  dc_server_args :: argv
  dc_port :: int
  dc_control_port :: int
  dc_memory_max_mb :: int
  dc_memory_high_mb :: int
  dc_control_token :: string
  dc_allow_explicit :: bool
  dc_startup_timeout_secs :: int
  dc_has_compute_args :: bool
  dc_has_compute_memory :: bool

definition startup_timeout :: "config \<Rightarrow> int" where
  "startup_timeout c = (if dc_startup_timeout_secs c > 0 then dc_startup_timeout_secs c else 300)"

text \<open>The cgroup limits (high, max).\<close>

definition memory_high_max_mb :: "config \<Rightarrow> int \<times> int" where
  "memory_high_max_mb c =
     (if dc_memory_high_mb c > 0 then (dc_memory_high_mb c, dc_memory_max_mb c)
      else (dc_memory_max_mb c, dc_memory_max_mb c))"

text \<open>A managed process, by what it was started with (\<^verbatim>\<open>server.StartWithTimeoutToOptions\<close>).\<close>

record process =
  sp_args :: argv
  sp_port :: int
  sp_timeout :: int
  sp_limits :: "int \<times> int"

definition start_process :: "config \<Rightarrow> argv \<Rightarrow> int \<Rightarrow> int \<Rightarrow> process" where
  "start_process c args port timeout =
     \<lparr>sp_args = args, sp_port = port, sp_timeout = timeout, sp_limits = memory_high_max_mb c\<rparr>"

record daemon =
  d_process :: "process option"
  d_config :: config
  d_http :: bool

definition new_daemon :: "string \<Rightarrow> config \<Rightarrow> daemon" where
  "new_daemon generated c =
     \<lparr>d_process = None,
      d_config = c\<lparr>dc_control_port := (if dc_control_port c = 0 then 9090 else dc_control_port c),
                   dc_control_token := (if dc_control_token c = [] then generated else dc_control_token c)\<rparr>,
      d_http = False\<rparr>"

record world =
  w_running :: bool
  w_stop_ok :: bool
  w_start_ok :: bool
  w_compute_args :: "string \<Rightarrow> int \<Rightarrow> argv option"
  w_compute_memory :: "argv \<Rightarrow> (int \<times> int) option"

section \<open>Requests\<close>

record request =
  rq_path :: string
  rq_method :: string
  rq_daemon_token :: string
  rq_authorization :: string
  rq_body :: "config option"

record safe_config =
  sc_model_path :: string
  sc_port :: int
  sc_control_port :: int
  sc_memory_max_mb :: int
  sc_startup_timeout_secs :: int

datatype body =
    ErrorBody string
  | StatusBody bool safe_config int
  | ConfigBody safe_config
  | DoneBody string

type_synonym response = "int \<times> body"

definition bearer_token :: "string \<Rightarrow> string" where
  "bearer_token header =
     (if length header < 7 \<or> \<not> equal_fold (take 7 header) ''Bearer '' then []
      else trim_space (drop 7 header))"

text \<open>\<open>None\<close>: authorized; otherwise the refusal.\<close>

definition authorize :: "daemon \<Rightarrow> request \<Rightarrow> response option" where
  "authorize d rq =
     (let token = dc_control_token (d_config d);
          got = (if rq_daemon_token rq = [] then bearer_token (rq_authorization rq) else rq_daemon_token rq)
      in if token = [] then Some (401, ErrorBody ''daemon control token is not configured'')
         else if got \<noteq> token then Some (401, ErrorBody ''unauthorized'')
         else None)"

definition safe_config_locked :: "daemon \<Rightarrow> safe_config" where
  "safe_config_locked d =
     \<lparr>sc_model_path = dc_model_path (d_config d), sc_port = dc_port (d_config d),
      sc_control_port = dc_control_port (d_config d), sc_memory_max_mb = dc_memory_max_mb (d_config d),
      sc_startup_timeout_secs = dc_startup_timeout_secs (d_config d)\<rparr>"

text \<open>The process exists and is alive.\<close>

definition is_running :: "daemon \<Rightarrow> world \<Rightarrow> bool" where
  "is_running d w \<longleftrightarrow> d_process d \<noteq> None \<and> w_running w"

definition method_error :: response where
  "method_error = (405, ErrorBody ''method not allowed'')"

definition guarded :: "string \<Rightarrow> (daemon \<Rightarrow> daemon \<times> response) \<Rightarrow> daemon \<Rightarrow> request \<Rightarrow> daemon \<times> response" where
  "guarded method handler d rq =
     (case authorize d rq of
        Some r \<Rightarrow> (d, r)
      | None \<Rightarrow> if rq_method rq \<noteq> method then (d, method_error) else handler d)"

section \<open>Handlers\<close>

definition handle_status :: "world \<Rightarrow> request \<Rightarrow> daemon \<Rightarrow> daemon \<times> response" where
  "handle_status w rq d =
     guarded ''GET'' (\<lambda>d. (d, 200, StatusBody (is_running d w) (safe_config_locked d) (dc_port (d_config d)))) d rq"

definition handle_config :: "world \<Rightarrow> request \<Rightarrow> daemon \<Rightarrow> daemon \<times> response" where
  "handle_config w rq d = guarded ''GET'' (\<lambda>d. (d, 200, ConfigBody (safe_config_locked d))) d rq"

definition handle_start :: "world \<Rightarrow> request \<Rightarrow> daemon \<Rightarrow> daemon \<times> response" where
  "handle_start w rq d =
     guarded ''POST'' (\<lambda>d.
       if is_running d w then (d, 409, ErrorBody ''already running'')
       else if \<not> w_start_ok w then (d, 500, ErrorBody ''start'')
       else
         let c = d_config d in
         (d\<lparr>d_process := Some (start_process c (dc_server_args c) (dc_port c) (startup_timeout c))\<rparr>,
          200, DoneBody ''started'')) d rq"

definition handle_stop :: "world \<Rightarrow> request \<Rightarrow> daemon \<Rightarrow> daemon \<times> response" where
  "handle_stop w rq d =
     guarded ''POST'' (\<lambda>d.
       if d_process d = None then (d, 409, ErrorBody ''not running'')
       else if \<not> w_stop_ok w then (d, 500, ErrorBody ''stop'')
       else (d\<lparr>d_process := None\<rparr>, 200, DoneBody ''stopped'')) d rq"

text \<open>The configuration a reload asks for, or the refusal.\<close>

definition reload_args :: "world \<Rightarrow> config \<Rightarrow> config \<Rightarrow> response + config" where
  "reload_args w old new =
     (let n1 = (if dc_model_path new \<noteq> [] then old\<lparr>dc_model_path := dc_model_path new\<rparr> else old);
          n2 = (if dc_port new > 0 then n1\<lparr>dc_port := dc_port new\<rparr> else n1);
          n3 = (if dc_startup_timeout_secs new > 0
                then n2\<lparr>dc_startup_timeout_secs := dc_startup_timeout_secs new\<rparr> else n2)
      in
      if dc_server_args new \<noteq> [] then
        (if \<not> dc_allow_explicit old then Inl (400, ErrorBody ''server_args reload is disabled'')
         else Inr (n3\<lparr>dc_server_args := dc_server_args new\<rparr>))
      else if dc_model_path new \<noteq> [] \<and> dc_has_compute_args n3 then
        (case w_compute_args w (dc_model_path n3) (dc_port n3) of
           None \<Rightarrow> Inl (500, ErrorBody ''compute placement'')
         | Some args \<Rightarrow> Inr (n3\<lparr>dc_server_args := args\<rparr>))
      else Inr n3)"

definition reload_memory :: "world \<Rightarrow> config \<Rightarrow> response + config" where
  "reload_memory w c =
     (if dc_has_compute_memory c then
        (case w_compute_memory w (dc_server_args c) of
           None \<Rightarrow> Inl (500, ErrorBody ''compute memory scope'')
         | Some (high, hard) \<Rightarrow> Inr (c\<lparr>dc_memory_high_mb := high, dc_memory_max_mb := hard\<rparr>))
      else Inr c)"

definition handle_reload :: "world \<Rightarrow> request \<Rightarrow> daemon \<Rightarrow> daemon \<times> response" where
  "handle_reload w rq d =
     guarded ''POST'' (\<lambda>d.
       case rq_body rq of
         None \<Rightarrow> (d, 400, ErrorBody ''invalid json'')
       | Some new \<Rightarrow>
           (case reload_args w (d_config d) new of
              Inl r \<Rightarrow> (d, r)
            | Inr c1 \<Rightarrow>
                (case reload_memory w c1 of
                   Inl r \<Rightarrow> (d, r)
                 | Inr next_cfg \<Rightarrow>
                     if is_running d w \<and> \<not> w_stop_ok w then (d, 500, ErrorBody ''stop old model'')
                     else
                       let d' = (if is_running d w then d\<lparr>d_process := None\<rparr> else d) in
                       if \<not> w_start_ok w then (d', 500, ErrorBody ''start'')
                       else
                         (d'\<lparr>d_process := Some (start_process next_cfg (dc_server_args next_cfg) (dc_port next_cfg)
                                                 (startup_timeout next_cfg)),
                             d_config := next_cfg\<rparr>, 200, DoneBody ''reloaded'')))) d rq"

definition serve :: "world \<Rightarrow> request \<Rightarrow> daemon \<Rightarrow> daemon \<times> response" where
  "serve w rq d =
     (if rq_path rq = ''/status'' then handle_status w rq d
      else if rq_path rq = ''/start'' then handle_start w rq d
      else if rq_path rq = ''/stop'' then handle_stop w rq d
      else if rq_path rq = ''/reload'' then handle_reload w rq d
      else if rq_path rq = ''/config'' then handle_config w rq d
      else (d, 404, ErrorBody ''404 page not found''))"

text \<open>\<^verbatim>\<open>Close\<close>: the process is forgotten even when stopping it fails; the result is the success of the stop.\<close>

definition close_daemon :: "world \<Rightarrow> daemon \<Rightarrow> daemon \<times> bool" where
  "close_daemon w d = (d\<lparr>d_process := None, d_http := False\<rparr>, d_process d = None \<or> w_stop_ok w)"

text \<open>\<^verbatim>\<open>Start\<close>, up to the listening: the control server is registered.\<close>

definition start_control :: "daemon \<Rightarrow> daemon" where
  "start_control d = d\<lparr>d_http := True\<rparr>"

section \<open>Runs\<close>

text \<open>Every sequence of whole requests, with one placement callback of the owner.\<close>

inductive daemon_run :: "(string \<Rightarrow> int \<Rightarrow> argv option) \<Rightarrow> daemon \<Rightarrow> daemon \<Rightarrow> bool"
  for compute :: "string \<Rightarrow> int \<Rightarrow> argv option" and d0 :: daemon where
  run_new: "daemon_run compute d0 d0"
| run_listen: "daemon_run compute d0 d \<Longrightarrow> daemon_run compute d0 (start_control d)"
| run_serve: "daemon_run compute d0 d \<Longrightarrow> w_compute_args w = compute \<Longrightarrow> daemon_run compute d0 (fst (serve w rq d))"
| run_close: "daemon_run compute d0 d \<Longrightarrow> daemon_run compute d0 (fst (close_daemon w d))"

section \<open>Lemmas\<close>

lemmas handler_defs = serve_def handle_status_def handle_start_def handle_stop_def handle_reload_def handle_config_def
  guarded_def method_error_def

lemma guarded_cases:
  assumes "guarded m h d rq = (d', r)"
  obtains (refused) "d' = d" | (handled) "authorize d rq = None" "h d = (d', r)"
  using assms by (auto simp: guarded_def split: option.splits if_splits)

definition reloaded_to :: "daemon \<Rightarrow> config \<Rightarrow> daemon" where
  "reloaded_to d c = d\<lparr>d_process := Some (start_process c (dc_server_args c) (dc_port c) (startup_timeout c)), d_config := c\<rparr>"

text \<open>What a served request does to the daemon: nothing, a stop, or a start of the configuration
  it has or is given.\<close>

definition reload_effect :: "world \<Rightarrow> request \<Rightarrow> daemon \<Rightarrow> daemon \<times> response \<Rightarrow> bool" where
  "reload_effect w rq d res \<longleftrightarrow>
     fst res = d \<or>
     is_running d w \<and> w_stop_ok w \<and> \<not> w_start_ok w \<and> fst res = d\<lparr>d_process := None\<rparr> \<and> fst (snd res) = 500 \<or>
     fst (snd res) = 200 \<and>
       (\<exists>new c1 c2. reload_args w (d_config d) new = Inr c1 \<and> reload_memory w c1 = Inr c2 \<and> fst res = reloaded_to d c2)"

lemma handle_reload_effect: "reload_effect w rq d (handle_reload w rq d)"
proof -
  obtain d' r where Pair: "handle_reload w rq d = (d', r)" by (cases "handle_reload w rq d")
  from Pair [unfolded handle_reload_def] show ?thesis
  proof (cases rule: guarded_cases)
    case handled
    then show ?thesis
      by (auto simp: Pair reload_effect_def reloaded_to_def Let_def split: option.splits sum.splits if_splits)
  qed (simp add: Pair reload_effect_def)
qed

definition start_effect :: "daemon \<Rightarrow> daemon" where
  "start_effect d = reloaded_to d (d_config d)"

lemma serve_effect:
  obtains (same) "fst (serve w rq d) = d"
  | (stopped) "fst (serve w rq d) = d\<lparr>d_process := None\<rparr>" "fst (snd (serve w rq d)) = 200"
  | (started) "fst (serve w rq d) = start_effect d" "fst (snd (serve w rq d)) = 200"
  | (reload) "rq_path rq = ''/reload''" "reload_effect w rq d (serve w rq d)"
proof (cases "rq_path rq = ''/reload''")
  case True
  then show ?thesis using handle_reload_effect reload by (simp add: serve_def)
next
  case False
  then have "fst (serve w rq d) = d \<or> fst (serve w rq d) = d\<lparr>d_process := None\<rparr> \<and> fst (snd (serve w rq d)) = 200 \<or>
      fst (serve w rq d) = start_effect d \<and> fst (snd (serve w rq d)) = 200"
    by (auto simp: serve_def handle_status_def handle_start_def handle_stop_def handle_config_def guarded_def
        start_effect_def reloaded_to_def Let_def split: option.split)
  then show ?thesis using same stopped started by blast
qed

lemma serve_unauthorized:
  assumes "authorize d rq = Some r"
  shows "serve w rq d = (d, if rq_path rq \<in> {''/status'', ''/start'', ''/stop'', ''/reload'', ''/config''} then r
                           else (404, ErrorBody ''404 page not found''))"
  using assms by (auto simp: handler_defs)

lemma reload_keeps:
  assumes "reload_args w old new = Inr c1" "reload_memory w c1 = Inr c2"
  shows "dc_control_token c2 = dc_control_token old" "dc_allow_explicit c2 = dc_allow_explicit old"
    "dc_control_port c2 = dc_control_port old"
    "dc_server_args c2 = dc_server_args old \<or> dc_allow_explicit old \<and> dc_server_args c2 = dc_server_args new \<or>
     w_compute_args w (dc_model_path c2) (dc_port c2) = Some (dc_server_args c2)"
  using assms
  by (auto simp: reload_args_def reload_memory_def Let_def split: if_splits option.splits)

lemma serve_config:
  obtains (kept) "d_config (fst (serve w rq d)) = d_config d"
  | (swapped) new c1 where "reload_args w (d_config d) new = Inr c1" "reload_memory w c1 = Inr (d_config (fst (serve w rq d)))"
proof (rule serve_effect [of w rq d])
  assume "reload_effect w rq d (serve w rq d)"
  then show ?thesis using kept swapped by (auto simp: reload_effect_def reloaded_to_def)
qed (use kept in \<open>auto simp: start_effect_def reloaded_to_def\<close>)

definition process_ok :: "daemon \<Rightarrow> bool" where
  "process_ok d \<longleftrightarrow>
     (case d_process d of
        None \<Rightarrow> True
      | Some p \<Rightarrow> p = start_process (d_config d) (dc_server_args (d_config d)) (dc_port (d_config d))
                     (startup_timeout (d_config d)))"

lemma reloaded_ok [simp]: "process_ok (reloaded_to d c)"
  by (simp add: process_ok_def reloaded_to_def)

lemma serve_process_ok: "process_ok d \<Longrightarrow> process_ok (fst (serve w rq d))"
  by (rule serve_effect [of w rq d]) (auto simp: start_effect_def reload_effect_def process_ok_def [of "d\<lparr>d_process := None\<rparr>"])

lemma serve_fixed:
  "dc_control_token (d_config (fst (serve w rq d))) = dc_control_token (d_config d) \<and>
   dc_allow_explicit (d_config (fst (serve w rq d))) = dc_allow_explicit (d_config d) \<and>
   dc_control_port (d_config (fst (serve w rq d))) = dc_control_port (d_config d)"
  by (rule serve_config [of w rq d]) (auto dest: reload_keeps)

lemma run_fixed:
  assumes "daemon_run compute d0 d"
  shows "dc_control_token (d_config d) = dc_control_token (d_config d0) \<and>
    dc_allow_explicit (d_config d) = dc_allow_explicit (d_config d0) \<and>
    dc_control_port (d_config d) = dc_control_port (d_config d0)"
  using assms by induction (simp_all add: serve_fixed start_control_def close_daemon_def)

section \<open>Properties\<close>

text \<open>
  C8: Whatever happened before, a request that carries the daemon's token neither in its own header
  nor as a bearer token changes nothing and is refused. The token is the one the daemon was created
  with, since no request can change it, and never the empty string.
\<close>

theorem daemon_unauthorized_inert:
  assumes "daemon_run compute (new_daemon generated c) d" "generated \<noteq> []"
    "rq_daemon_token rq \<noteq> dc_control_token (d_config (new_daemon generated c))"
    "rq_daemon_token rq = [] \<longrightarrow> bearer_token (rq_authorization rq) \<noteq> dc_control_token (d_config (new_daemon generated c))"
  shows "fst (serve w rq d) = d \<and> fst (snd (serve w rq d)) \<in> {401, 404}"
proof -
  have t: "dc_control_token (d_config d) = dc_control_token (d_config (new_daemon generated c))"
    using run_fixed [OF assms(1)] by simp
  moreover have "dc_control_token (d_config (new_daemon generated c)) \<noteq> []"
    using assms(2) by (simp add: new_daemon_def)
  ultimately obtain m where "authorize d rq = Some (401, m)"
    using assms(3,4) by (auto simp: authorize_def Let_def)
  then show ?thesis by (simp add: serve_unauthorized)
qed

text \<open>
  C9: The managed process is always the one the current configuration describes: its arguments,
  port, startup wait and memory limits are those of the configuration the daemon reports, through
  starts, reloads that fail half-way, stops and shutdown.
\<close>

theorem daemon_process_matches_config:
  assumes "daemon_run compute (new_daemon generated c) d" "d_process d = Some p"
  shows "p = start_process (d_config d) (dc_server_args (d_config d)) (dc_port (d_config d)) (startup_timeout (d_config d))"
proof -
  have "process_ok d" using assms(1)
  proof induction
    case (run_serve d w rq)
    then show ?case by (simp add: serve_process_ok)
  qed (auto simp: process_ok_def new_daemon_def start_control_def close_daemon_def split: option.splits)
  then show ?thesis using assms(2) by (simp add: process_ok_def)
qed

text \<open>
  Unless the owner allowed explicit arguments, no request can choose the command line: the
  server arguments are always the initial ones or an answer of the owner's placement callback.
\<close>

theorem daemon_argv_provenance:
  assumes "daemon_run compute (new_daemon generated c) d" "\<not> dc_allow_explicit c"
  shows "dc_server_args (d_config d) = dc_server_args c \<or>
    (\<exists>model port. compute model port = Some (dc_server_args (d_config d)))"
  using assms(1)
proof induction
  case (run_serve d w rq)
  have "\<not> dc_allow_explicit (d_config d)"
    using run_fixed [OF run_serve.hyps(1)] assms(2) by (simp add: new_daemon_def)
  then show ?case
    using run_serve by (cases rule: serve_config [of w rq d]) (auto dest: reload_keeps(4))
qed (simp_all add: new_daemon_def start_control_def close_daemon_def)

text \<open>
  C10: A request answered with an error leaves the configuration as it was; it leaves the process
  too, except that a reload whose new server did not start has already stopped the running one.
\<close>

theorem daemon_errors_keep_config:
  assumes "serve w rq d = (d', code, b)" "400 \<le> code"
  shows "d_config d' = d_config d \<and> d_http d' = d_http d \<and>
    (d_process d' = d_process d \<or>
     d_process d' = None \<and> rq_path rq = ''/reload'' \<and> is_running d w \<and> w_stop_ok w \<and> \<not> w_start_ok w)"
  using assms by (cases rule: serve_effect [of w rq d]) (auto simp: reload_effect_def)

section \<open>A reload of the port alone\<close>

definition blank_config :: config where
  "blank_config = \<lparr>dc_model_path = [], dc_server_args = [], dc_port = 0, dc_control_port = 0, dc_memory_max_mb = 0,
     dc_memory_high_mb = 0, dc_control_token = [], dc_allow_explicit = False, dc_startup_timeout_secs = 0,
     dc_has_compute_args = False, dc_has_compute_memory = False\<rparr>"

text \<open>
  A reload that names only a port keeps the old command line: the new server is started with
  arguments that still name the old port while the daemon waits for it on the new one, although the
  owner's callback could have computed the arguments for that port.
\<close>

theorem daemon_port_reload_keeps_args:
  assumes "authorize d rq = None" "rq_path rq = ''/reload''" "rq_method rq = ''POST''"
    "rq_body rq = Some (blank_config\<lparr>dc_port := port\<rparr>)" "0 < port"
    "\<not> dc_has_compute_memory (d_config d)" "\<not> is_running d w" "w_start_ok w"
  shows "\<exists>p. d_process (fst (serve w rq d)) = Some p \<and> sp_port p = port \<and> sp_args p = dc_server_args (d_config d) \<and>
    snd (serve w rq d) = (200, DoneBody ''reloaded'')"
  using assms
  by (simp add: handler_defs reload_args_def reload_memory_def Let_def blank_config_def start_process_def)

definition demo_config :: config where
  "demo_config = blank_config\<lparr>dc_model_path := ''a.gguf'', dc_server_args := [''srv'', ''--port'', ''8081''], dc_port := 8081,
     dc_control_token := ''secret'', dc_has_compute_args := True\<rparr>"

definition demo_world :: world where
  "demo_world = \<lparr>w_running = False, w_stop_ok = True, w_start_ok = True,
     w_compute_args = (\<lambda>m port. Some [''srv'', ''-m'', m, ''--port'', itoa port]), w_compute_memory = (\<lambda>_. None)\<rparr>"

definition demo_request :: "string \<Rightarrow> config option \<Rightarrow> request" where
  "demo_request path b = \<lparr>rq_path = path, rq_method = ''POST'', rq_daemon_token = [], rq_authorization = ''Bearer secret'', rq_body = b\<rparr>"

lemmas demo_defs = demo_config_def demo_world_def demo_request_def blank_config_def new_daemon_def

lemma demo_bearer: "bearer_token ''Bearer secret'' = ''secret''"
  by code_simp

lemma daemon_port_reload_keeps_args_witness:
  "\<exists>p. d_process (fst (serve demo_world (demo_request ''/reload'' (Some (blank_config\<lparr>dc_port := 9000\<rparr>))) (new_daemon ''x'' demo_config))) = Some p \<and>
     sp_port p = 9000 \<and> sp_args p = [''srv'', ''--port'', ''8081'']"
proof -
  let ?d = "new_daemon ''x'' demo_config" and ?rq = "demo_request ''/reload'' (Some (blank_config\<lparr>dc_port := 9000\<rparr>))"
  have "authorize ?d ?rq = None" by (simp add: demo_defs authorize_def demo_bearer)
  moreover have "rq_path ?rq = ''/reload''" "rq_method ?rq = ''POST''" "rq_body ?rq = Some (blank_config\<lparr>dc_port := 9000\<rparr>)"
    "\<not> dc_has_compute_memory (d_config ?d)" "\<not> is_running ?d demo_world" "w_start_ok demo_world"
    "dc_server_args (d_config ?d) = [''srv'', ''--port'', ''8081'']"
    by (simp_all add: demo_defs is_running_def)
  ultimately show ?thesis using daemon_port_reload_keeps_args [of ?d ?rq 9000 demo_world] by auto
qed

lemma daemon_unauthorized_inert_witness:
  "fst (serve demo_world ((demo_request ''/stop'' None)\<lparr>rq_authorization := ''Bearer guess''\<rparr>) (new_daemon ''x'' demo_config))
     = new_daemon ''x'' demo_config"
proof -
  have "bearer_token ''Bearer guess'' = ''guess''" by code_simp
  then show ?thesis
    using daemon_unauthorized_inert [OF daemon_run.run_new, of "''x''" "(demo_request ''/stop'' None)\<lparr>rq_authorization := ''Bearer guess''\<rparr>"
        demo_config demo_world]
    by (simp add: demo_defs)
qed

definition demo_swap :: request where
  "demo_swap = demo_request ''/reload'' (Some (blank_config\<lparr>dc_model_path := ''b.gguf''\<rparr>))"

definition demo_state :: daemon where
  "demo_state = fst (serve demo_world demo_swap (new_daemon ''x'' demo_config))"

lemma demo_run: "daemon_run (w_compute_args demo_world) (new_daemon ''x'' demo_config) demo_state"
  unfolding demo_state_def by (intro daemon_run.intros) simp

lemma demo_itoa: "itoa 8081 = ''8081''"
  by (simp add: itoa_def digits_of_nat.simps digit_char_def char_of_def bit_numeral_rec bit_Suc_0_iff)

definition demo_next :: config where
  "demo_next = (d_config (new_daemon ''x'' demo_config))\<lparr>dc_model_path := ''b.gguf'',
     dc_server_args := [''srv'', ''-m'', ''b.gguf'', ''--port'', ''8081'']\<rparr>"

lemma demo_swap_args:
  "reload_args demo_world (d_config (new_daemon ''x'' demo_config)) (blank_config\<lparr>dc_model_path := ''b.gguf''\<rparr>) = Inr demo_next"
  by (simp add: reload_args_def demo_next_def demo_defs demo_itoa)

lemma demo_swap_guard:
  "authorize (new_daemon ''x'' demo_config) demo_swap = None" "rq_path demo_swap = ''/reload''" "rq_method demo_swap = ''POST''"
  "rq_body demo_swap = Some (blank_config\<lparr>dc_model_path := ''b.gguf''\<rparr>)" "reload_memory w demo_next = Inr demo_next"
  "\<not> is_running (new_daemon ''x'' demo_config) w"
  by (simp_all add: demo_swap_def demo_defs authorize_def demo_bearer reload_memory_def demo_next_def is_running_def)

lemma demo_state:
  "d_process demo_state = Some (start_process demo_next (dc_server_args demo_next) 8081 300)" "d_config demo_state = demo_next"
proof -
  have "serve demo_world demo_swap (new_daemon ''x'' demo_config) =
      (reloaded_to (new_daemon ''x'' demo_config) demo_next, 200, DoneBody ''reloaded'')"
    by (simp add: handler_defs demo_swap_guard demo_swap_args reloaded_to_def) (simp add: demo_world_def)
  moreover have "dc_port demo_next = 8081" "startup_timeout demo_next = 300"
    by (simp_all add: demo_next_def demo_defs startup_timeout_def)
  ultimately show "d_process demo_state = Some (start_process demo_next (dc_server_args demo_next) 8081 300)"
    "d_config demo_state = demo_next"
    by (simp_all add: demo_state_def reloaded_to_def)
qed

lemma daemon_process_matches_config_witness:
  "dc_port (d_config demo_state) = 8081 \<and> startup_timeout (d_config demo_state) = 300"
  using daemon_process_matches_config [OF demo_run demo_state(1)] by (simp add: start_process_def)

lemma daemon_argv_provenance_witness:
  "\<exists>model port. w_compute_args demo_world model port = Some [''srv'', ''-m'', ''b.gguf'', ''--port'', ''8081'']"
proof -
  have "dc_server_args demo_next = [''srv'', ''-m'', ''b.gguf'', ''--port'', ''8081'']" "\<not> dc_allow_explicit demo_config"
    "dc_server_args demo_config = [''srv'', ''--port'', ''8081'']"
    by (simp_all add: demo_next_def demo_defs)
  with daemon_argv_provenance [OF demo_run] show ?thesis by (simp add: demo_state(2))
qed

lemma daemon_errors_keep_config_witness:
  "\<exists>d' b. serve (demo_world\<lparr>w_start_ok := False\<rparr>) demo_swap (new_daemon ''x'' demo_config) = (d', 500, b) \<and>
     d_config d' = d_config (new_daemon ''x'' demo_config)"
proof -
  have "reload_args (demo_world\<lparr>w_start_ok := False\<rparr>) (d_config (new_daemon ''x'' demo_config))
      (blank_config\<lparr>dc_model_path := ''b.gguf''\<rparr>) = Inr demo_next"
    by (simp add: reload_args_def demo_next_def demo_defs demo_itoa)
  then have "\<exists>d' b. serve (demo_world\<lparr>w_start_ok := False\<rparr>) demo_swap (new_daemon ''x'' demo_config) = (d', 500, b)"
    by (simp add: handler_defs demo_swap_guard)
  then show ?thesis using daemon_errors_keep_config by fastforce
qed

end
