(* ===== verification/TuneFlags.thy ===== *)
theory TuneFlags
  imports Complex_Main Prelude "HOL-Library.List_Lexorder" "HOL-Library.Char_ord"
begin

text \<open>
  The command-line algebra of the tuner (\<^verbatim>\<open>go/pkg/tune/engine.go\<close>): canonical flag
  names, applying overrides to an argument vector under a set of protected flags, the micro-batch
  clamp, and the plan of experiments. The theorems show that no override changes a protected flag.

  A JSON object is an association list in the order the Go map is iterated; a number is a rational
  and its non-integral rendering (\<^verbatim>\<open>%g\<close>) a parameter. Maps from flag to text are functions.
\<close>

section \<open>Flag names\<close>

definition flag_aliases :: "(string \<times> string) list" where
  "flag_aliases =
     [(''-c'', ''--ctx-size''), (''--ctx'', ''--ctx-size''), (''--ctx-size'', ''--ctx-size''),
      (''-b'', ''-b''), (''--batch-size'', ''-b''), (''-ub'', ''-ub''), (''--ubatch-size'', ''-ub''),
      (''-t'', ''--threads''), (''--threads'', ''--threads''),
      (''-tb'', ''--threads-batch''), (''--threads-batch'', ''--threads-batch''),
      (''-ngl'', ''-ngl''), (''--ngl'', ''-ngl''), (''--n-gpu-layers'', ''-ngl''),
      (''-np'', ''--parallel''), (''--parallel'', ''--parallel''),
      (''-fa'', ''--flash-attn''), (''--flash-attn'', ''--flash-attn''),
      (''--mg'', ''-mg''), (''--main-gpu'', ''-mg''), (''-ot'', ''-ot''), (''--override-tensor'', ''-ot''),
      (''-m'', ''-m''), (''--model'', ''-m''),
      (''-dt'', ''--defrag-thold''), (''--defrag-thold'', ''--defrag-thold''),
      (''-ctxcp'', ''--ctx-checkpoints''), (''--ctx-checkpoints'', ''--ctx-checkpoints''),
      (''--swa-checkpoints'', ''--ctx-checkpoints''),
      (''-khad'', ''-khad''), (''--k-cache-hadamard'', ''-khad''),
      (''-ger'', ''-ger''), (''--grouped-expert-routing'', ''-ger''),
      (''-mqkv'', ''-mqkv''), (''--merge-qkv'', ''-mqkv''),
      (''-muge'', ''-muge''), (''--merge-up-gate-experts'', ''-muge''),
      (''-cb'', ''--cont-batching''), (''--cont-batching'', ''--cont-batching''),
      (''-mtp'', ''--multi-token-prediction''), (''--multi-token-prediction'', ''--multi-token-prediction'')]"

definition flag_stem :: "string \<Rightarrow> string" where
  "flag_stem flag = (case cut_char CHR ''='' flag of Some (k, _) \<Rightarrow> if k = [] then flag else k | None \<Rightarrow> flag)"

definition canonical_flag_name :: "string \<Rightarrow> string" where
  "canonical_flag_name flag =
     (case map_of flag_aliases (flag_stem flag) of Some c \<Rightarrow> c | None \<Rightarrow> flag_stem flag)"

definition tune_flags :: "string list" where
  "tune_flags =
     [''-b'', ''-ub'', ''--threads'', ''--threads-batch'', ''--parallel'',
      ''--cache-type-k'', ''--cache-type-v'', ''--flash-attn'',
      ''--mlock'', ''--no-mmap'', ''--defrag-thold'', ''--ctx-checkpoints'',
      ''--run-time-repack'', ''-khad'', ''-ger'', ''-mqkv'', ''-muge'',
      ''--defer-experts'', ''--cont-batching'',
      ''--spec-type'', ''--spec-ngram-size-n'', ''--spec-ngram-size-m'', ''--spec-ngram-min-hits'',
      ''--spec-ngram-map-k-size-n'', ''--spec-ngram-map-k-size-m'', ''--spec-ngram-map-k-min-hits'',
      ''--spec-ngram-map-k4v-size-n'', ''--spec-ngram-map-k4v-size-m'', ''--spec-ngram-map-k4v-min-hits'',
      ''--spec-ngram-mod-n-match'', ''--spec-ngram-mod-n-min'', ''--spec-ngram-mod-n-max'',
      ''--spec-draft-n-max'', ''--spec-draft-n-min'', ''--draft-max'', ''--draft-min'',
      ''--spec-autotune'', ''--multi-token-prediction'']"

definition allowed_tune_flag :: "string \<Rightarrow> bool" where
  "allowed_tune_flag flag \<longleftrightarrow> canonical_flag_name flag \<in> set tune_flags"

definition switch_flags :: "string list" where
  "switch_flags =
     [''--mlock'', ''--no-mmap'', ''--jinja'', ''--no-jinja'',
      ''--kv-offload'', ''--no-kv-offload'', ''--no-context-shift'',
      ''--run-time-repack'', ''-khad'', ''-ger'', ''-mqkv'', ''-muge'',
      ''--defer-experts'', ''--cont-batching'', ''--spec-autotune'', ''--multi-token-prediction'']"

definition flag_needs_value :: "string \<Rightarrow> bool" where
  "flag_needs_value flag \<longleftrightarrow> canonical_flag_name flag \<notin> set switch_flags"

definition flag_value_may_start_with_dash :: "string \<Rightarrow> bool" where
  "flag_value_may_start_with_dash flag \<longleftrightarrow> canonical_flag_name flag = ''--defrag-thold''"

text \<open>\<^verbatim>\<open>flagHasSeparateValue(args, i)\<close>, given the token at \<^verbatim>\<open>i\<close> and those after it.\<close>

definition flag_has_separate_value :: "string \<Rightarrow> argv \<Rightarrow> bool" where
  "flag_has_separate_value tok rest \<longleftrightarrow>
     rest \<noteq> [] \<and> CHR ''='' \<notin> set tok \<and> flag_needs_value (canonical_flag_name tok) \<and>
     (has_prefix (hd rest) ''-'' \<longrightarrow> flag_value_may_start_with_dash (canonical_flag_name tok))"

section \<open>Editing an argument vector\<close>

fun remove_flag :: "string \<Rightarrow> argv \<Rightarrow> argv" where
  "remove_flag want [] = []"
| "remove_flag want (tok # rest) =
     (if canonical_flag_name tok = want then
        (if flag_has_separate_value tok rest then remove_flag want (drop 1 rest) else remove_flag want rest)
      else tok # remove_flag want rest)"

definition remove_conflicting :: "argv \<Rightarrow> string \<Rightarrow> argv" where
  "remove_conflicting flags new_flag = remove_flag (canonical_flag_name new_flag) flags"

fun apply_suggestion_with_protection :: "argv \<Rightarrow> argv \<Rightarrow> string set \<Rightarrow> argv" where
  "apply_suggestion_with_protection result [] protected = result"
| "apply_suggestion_with_protection result (flag # rest) protected =
     (if canonical_flag_name flag \<in> protected then
        (if rest \<noteq> [] \<and> \<not> has_prefix (hd rest) ''-''
         then apply_suggestion_with_protection result (drop 1 rest) protected
         else apply_suggestion_with_protection result rest protected)
      else
        let result = remove_conflicting result flag @ [flag] in
        if flag_has_separate_value flag rest
        then apply_suggestion_with_protection (result @ [hd rest]) (drop 1 rest) protected
        else apply_suggestion_with_protection result rest protected)"

fun flag_map_from :: "(string \<rightharpoonup> string) \<Rightarrow> argv \<Rightarrow> (string \<rightharpoonup> string)" where
  "flag_map_from m [] = m"
| "flag_map_from m (tok # rest) =
     (case cut_char CHR ''='' tok of
        Some (raw, v) \<Rightarrow>
          if has_prefix raw ''-'' then flag_map_from (m(canonical_flag_name raw \<mapsto> v)) rest
          else flag_map_from (m(canonical_flag_name tok \<mapsto> [])) rest
      | None \<Rightarrow>
          if flag_has_separate_value tok rest
          then flag_map_from (m(canonical_flag_name tok \<mapsto> hd rest)) (drop 1 rest)
          else flag_map_from (m(canonical_flag_name tok \<mapsto> [])) rest)"

definition flag_map :: "argv \<Rightarrow> (string \<rightharpoonup> string)" where
  "flag_map flags = flag_map_from (\<lambda>_. None) flags"

definition flag_text :: "(string \<rightharpoonup> string) \<Rightarrow> string \<Rightarrow> string" where
  "flag_text m k = (case m k of Some v \<Rightarrow> v | None \<Rightarrow> [])"

definition normalize_batch_args :: "argv \<Rightarrow> argv" where
  "normalize_batch_args flags =
     (case (atoi (trim_space (flag_text (flag_map flags) ''-b'')), atoi (trim_space (flag_text (flag_map flags) ''-ub''))) of
        (Some batch, Some ubatch) \<Rightarrow>
          if batch \<le> 0 \<or> ubatch \<le> batch then flags
          else apply_suggestion_with_protection flags [''-ub'', itoa batch] {}
      | _ \<Rightarrow> flags)"

definition default_protected_flags :: "string set" where
  "default_protected_flags = canonical_flag_name `
     {''-m'', ''--host'', ''--port'', ''--ctx-size'', ''--mmproj'', ''--jinja'', ''--reasoning'',
      ''--device'', ''--tensor-split'', ''--split-mode'', ''-mg'', ''-ngl'', ''--n-cpu-moe'', ''-ot''}"

definition quality_protected_flags :: "string set" where
  "quality_protected_flags = default_protected_flags \<union> canonical_flag_name `
     {''-b'', ''-ub'', ''--cache-type-k'', ''--cache-type-v'', ''--parallel'', ''--ctx-checkpoints''}"

section \<open>Override values\<close>

datatype flag_value = VNil | VBool bool | VNum rat | VStr string

definition sprint :: "(rat \<Rightarrow> string) \<Rightarrow> flag_value \<Rightarrow> string" where
  "sprint g v =
     (case v of
        VNil \<Rightarrow> ''<nil>''
      | VBool b \<Rightarrow> if b then ''true'' else ''false''
      | VNum r \<Rightarrow> g r
      | VStr s \<Rightarrow> s)"

definition normalize_flag_value :: "(rat \<Rightarrow> string) \<Rightarrow> flag_value \<Rightarrow> flag_value" where
  "normalize_flag_value g v =
     (case v of
        VNum r \<Rightarrow> if r = of_int \<lfloor>r\<rfloor> then VStr (itoa \<lfloor>r\<rfloor>) else VStr (g r)
      | _ \<Rightarrow> v)"

definition sanitized_value :: "(rat \<Rightarrow> string) \<Rightarrow> string \<Rightarrow> flag_value \<Rightarrow> flag_value option" where
  "sanitized_value g canon v =
     (case v of
        VBool b \<Rightarrow>
          if flag_needs_value canon then
            (if canon = ''--flash-attn'' then Some (VStr (if b then ''on'' else ''off''))
             else if \<not> b then Some (VBool False) else None)
          else Some (VBool b)
      | _ \<Rightarrow> Some (normalize_flag_value g v))"

definition sanitize_step :: "(rat \<Rightarrow> string) \<Rightarrow> string set \<Rightarrow> (string \<times> flag_value) list \<Rightarrow> string \<times> flag_value \<Rightarrow> (string \<times> flag_value) list" where
  "sanitize_step g protected out kv =
     (let canon = canonical_flag_name (fst kv) in
      if canon = [] \<or> \<not> allowed_tune_flag canon \<or> canon \<in> protected then out
      else case sanitized_value g canon (snd kv) of
        None \<Rightarrow> out
      | Some v \<Rightarrow> AList.update canon v out)"

definition sanitize_flag_values :: "(rat \<Rightarrow> string) \<Rightarrow> string set \<Rightarrow> (string \<times> flag_value) list \<Rightarrow> (string \<times> flag_value) list" where
  "sanitize_flag_values g protected vals = foldl (sanitize_step g protected) [] vals"

definition value_args :: "(rat \<Rightarrow> string) \<Rightarrow> string \<Rightarrow> flag_value \<Rightarrow> argv" where
  "value_args g key v =
     (if v = VBool True then [key]
      else if v = VNil then []
      else if sprint g v = [] then [key]
      else [key, sprint g v])"

definition lookup_value :: "(string \<times> flag_value) list \<Rightarrow> string \<Rightarrow> flag_value" where
  "lookup_value vals key = (case map_of vals key of Some v \<Rightarrow> v | None \<Rightarrow> VNil)"

definition flag_values_to_args :: "(rat \<Rightarrow> string) \<Rightarrow> (string \<times> flag_value) list \<Rightarrow> argv" where
  "flag_values_to_args g vals =
     concat (map (\<lambda>key. value_args g key (lookup_value vals key)) (sort (map (canonical_flag_name \<circ> fst) vals)))"

fun flag_args_to_values_from :: "(string \<times> flag_value) list \<Rightarrow> argv \<Rightarrow> (string \<times> flag_value) list" where
  "flag_args_to_values_from vals [] = vals"
| "flag_args_to_values_from vals (tok # rest) =
     (let key = canonical_flag_name tok in
      if key = [] \<or> \<not> has_prefix key ''-'' then flag_args_to_values_from vals rest
      else if flag_has_separate_value tok rest
      then flag_args_to_values_from (AList.update key (VStr (hd rest)) vals) (drop 1 rest)
      else flag_args_to_values_from (AList.update key (VBool True) vals) rest)"

definition flag_args_to_values :: "argv \<Rightarrow> (string \<times> flag_value) list" where
  "flag_args_to_values args = flag_args_to_values_from [] args"

definition override_step :: "(rat \<Rightarrow> string) \<Rightarrow> string set \<Rightarrow> (string \<times> flag_value) list \<Rightarrow> argv \<Rightarrow> string \<Rightarrow> argv" where
  "override_step g protected vals result key =
     (let v = lookup_value vals key in
      if v = VBool False then remove_conflicting result key
      else apply_suggestion_with_protection result (flag_values_to_args g [(key, v)]) protected)"

definition apply_overrides :: "(rat \<Rightarrow> string) \<Rightarrow> argv \<Rightarrow> (string \<times> flag_value) list \<Rightarrow> string set \<Rightarrow> argv" where
  "apply_overrides g base overrides protected =
     (let vals = sanitize_flag_values g protected overrides in
      if vals = [] then base
      else normalize_batch_args
             (foldl (override_step g protected vals) base (sort (map (canonical_flag_name \<circ> fst) vals))))"


section \<open>Canonical names\<close>

lemma flag_stem_plain: "CHR ''='' \<notin> set f \<Longrightarrow> flag_stem f = f"
  by (simp add: flag_stem_def cut_char_def)

lemma alias_stable:
  assumes "map_of flag_aliases k = Some c"
  shows "(map_of flag_aliases c = Some c \<or> map_of flag_aliases c = None) \<and> CHR ''='' \<notin> set c"
proof -
  have "list_all (\<lambda>(k, c). (map_of flag_aliases c = Some c \<or> map_of flag_aliases c = None) \<and> CHR ''='' \<notin> set c) flag_aliases"
    by code_simp
  then show ?thesis using map_of_SomeD [OF assms] by (auto simp: list_all_iff)
qed

lemma flag_stem_idem [simp]: "flag_stem (flag_stem f) = flag_stem f"
proof (cases "CHR ''='' \<in> set f")
  case True
  then show ?thesis
    using set_takeWhileD [of "CHR ''=''" "\<lambda>c. c \<noteq> CHR ''=''" f]
    by (auto simp: flag_stem_def cut_char_def)
qed (simp add: flag_stem_plain)

lemma canonical_idem [simp]: "canonical_flag_name (canonical_flag_name f) = canonical_flag_name f"
proof (cases "map_of flag_aliases (flag_stem f)")
  case None
  then show ?thesis by (simp add: canonical_flag_name_def)
next
  case (Some c)
  from alias_stable [OF this] Some show ?thesis by (auto simp: canonical_flag_name_def flag_stem_plain)
qed

lemma needs_canonical [simp]:
  "flag_needs_value (canonical_flag_name f) = flag_needs_value f"
  "flag_value_may_start_with_dash (canonical_flag_name f) = flag_value_may_start_with_dash f"
  "allowed_tune_flag (canonical_flag_name f) = allowed_tune_flag f"
  by (simp_all add: flag_needs_value_def flag_value_may_start_with_dash_def allowed_tune_flag_def)

section \<open>Arguments as items\<close>

text \<open>A flag with the value that follows it as a token of its own.\<close>

type_synonym flag_item = "string \<times> string option"

definition item_tokens :: "flag_item \<Rightarrow> argv" where
  "item_tokens i = fst i # (case snd i of None \<Rightarrow> [] | Some v \<Rightarrow> [v])"

definition tokens :: "flag_item list \<Rightarrow> argv" where
  "tokens its = concat (map item_tokens its)"

lemma tokens_simps [simp]:
  "tokens [] = []" "tokens (i # its) = item_tokens i @ tokens its" "tokens (its @ its') = tokens its @ tokens its'"
  by (simp_all add: tokens_def)

lemma item_tokens_simps [simp]: "item_tokens (f, None) = [f]" "item_tokens (f, Some v) = [f, v]"
  by (simp_all add: item_tokens_def)

text \<open>
  Well-formed items: every flag starts with a dash; a value is given only to a flag that takes one
  as the next token, and does not look like a flag of the tuner; the one flag whose value may start
  with a dash does not stand without its value.
\<close>

definition item_ok :: "flag_item \<Rightarrow> bool" where
  "item_ok i \<longleftrightarrow> has_prefix (fst i) ''-'' \<and>
     (case snd i of
        None \<Rightarrow> CHR ''='' \<in> set (fst i) \<or> \<not> flag_needs_value (fst i) \<or> \<not> flag_value_may_start_with_dash (fst i)
      | Some v \<Rightarrow> CHR ''='' \<notin> set (fst i) \<and> flag_needs_value (fst i) \<and>
          (has_prefix v ''-'' \<longrightarrow> flag_value_may_start_with_dash (fst i)) \<and> \<not> allowed_tune_flag v)"

definition items_ok :: "flag_item list \<Rightarrow> bool" where
  "items_ok its \<longleftrightarrow> list_all item_ok its"

lemma hd_tokens: "items_ok its \<Longrightarrow> its \<noteq> [] \<Longrightarrow> tokens its \<noteq> [] \<and> has_prefix (hd (tokens its)) ''-''"
  by (cases its) (auto simp: items_ok_def item_ok_def item_tokens_def)

text \<open>How one token of well-formed items is read.\<close>

lemma separate_value:
  assumes "items_ok ((f, v) # its)"
  shows "flag_has_separate_value f (tl (item_tokens (f, v)) @ tokens its) \<longleftrightarrow> v \<noteq> None"
proof (cases v)
  case None
  then show ?thesis
    using assms hd_tokens [of its] by (cases "its = []") (auto simp: items_ok_def item_ok_def flag_has_separate_value_def)
qed (use assms in \<open>auto simp: items_ok_def item_ok_def flag_has_separate_value_def\<close>)

definition drop_flag :: "string \<Rightarrow> flag_item list \<Rightarrow> flag_item list" where
  "drop_flag want its = filter (\<lambda>i. canonical_flag_name (fst i) \<noteq> want) its"

lemma items_ok_simps [simp]:
  "items_ok []" "items_ok (i # its) \<longleftrightarrow> item_ok i \<and> items_ok its" "items_ok (its @ its') \<longleftrightarrow> items_ok its \<and> items_ok its'"
  by (simp_all add: items_ok_def)

lemma items_ok_drop [simp]: "items_ok its \<Longrightarrow> items_ok (drop_flag want its)"
  by (simp add: items_ok_def drop_flag_def list_all_iff)

lemma remove_flag_items:
  assumes "items_ok its" "allowed_tune_flag want"
  shows "remove_flag (canonical_flag_name want) (tokens its) = tokens (drop_flag (canonical_flag_name want) its)"
  using assms(1)
proof (induction its)
  case (Cons i its)
  obtain f v where i: "i = (f, v)" by fastforce
  have sep: "flag_has_separate_value f (tl (item_tokens (f, v)) @ tokens its) \<longleftrightarrow> v \<noteq> None"
    using separate_value Cons.prems by (simp add: i)
  have IH: "remove_flag (canonical_flag_name want) (tokens its) = tokens (drop_flag (canonical_flag_name want) its)"
    using Cons by simp
  show ?case
  proof (cases v)
    case None
    then show ?thesis using sep IH by (simp add: i drop_flag_def)
  next
    case (Some x)
    then have "\<not> allowed_tune_flag x" using Cons.prems by (simp add: i item_ok_def)
    then have "canonical_flag_name x \<noteq> canonical_flag_name want"
      using assms(2) by (metis needs_canonical(3))
    then show ?thesis using sep IH Some by (simp add: i drop_flag_def)
  qed
qed (simp add: drop_flag_def)

text \<open>The map of an argument vector is that of its items.\<close>

definition put_item :: "(string \<rightharpoonup> string) \<Rightarrow> flag_item \<Rightarrow> (string \<rightharpoonup> string)" where
  "put_item m i =
     (case cut_char CHR ''='' (fst i) of
        Some (raw, v) \<Rightarrow> if has_prefix raw ''-'' then m(canonical_flag_name raw \<mapsto> v) else m(canonical_flag_name (fst i) \<mapsto> [])
      | None \<Rightarrow> m(canonical_flag_name (fst i) \<mapsto> (case snd i of None \<Rightarrow> [] | Some v \<Rightarrow> v)))"

lemma flag_map_items:
  "items_ok its \<Longrightarrow> flag_map_from m (tokens its) = foldl put_item m its"
proof (induction its arbitrary: m)
  case (Cons i its)
  obtain f v where i: "i = (f, v)" by fastforce
  have sep: "flag_has_separate_value f (tl (item_tokens (f, v)) @ tokens its) \<longleftrightarrow> v \<noteq> None"
    using separate_value Cons.prems by (simp add: i)
  have "cut_char CHR ''='' f \<noteq> None \<Longrightarrow> v = None"
    using Cons.prems by (auto simp: i item_ok_def cut_char_def split: option.splits if_splits)
  then show ?case
    using sep Cons by (cases v) (auto simp: i put_item_def split: option.split)
qed simp


lemma put_item_key:
  obtains v where "put_item m i = m(canonical_flag_name (fst i) \<mapsto> v)" "\<And>m'. put_item m' i = m'(canonical_flag_name (fst i) \<mapsto> v)"
proof (cases "cut_char CHR ''='' (fst i)")
  case None
  then show ?thesis using that by (simp add: put_item_def)
next
  case (Some rv)
  obtain raw x where rv: "rv = (raw, x)" by fastforce
  show ?thesis
  proof (cases "has_prefix raw ''-''")
    case True
    then have "flag_stem (fst i) = raw" using Some rv by (auto simp: flag_stem_def)
    then have "canonical_flag_name raw = canonical_flag_name (fst i)" by (metis canonical_flag_name_def flag_stem_idem)
    then show ?thesis using that Some rv True by (simp add: put_item_def)
  next
    case False
    then show ?thesis using that Some rv by (simp add: put_item_def)
  qed
qed

lemma put_items_key:
  "foldl put_item m its k = foldl put_item m [i \<leftarrow> its. canonical_flag_name (fst i) = k] k"
proof -
  have "m k = m' k \<Longrightarrow> foldl put_item m its k = foldl put_item m' [i \<leftarrow> its. canonical_flag_name (fst i) = k] k" for m'
  proof (induction its arbitrary: m m')
    case (Cons i its)
    obtain v where "put_item m i = m(canonical_flag_name (fst i) \<mapsto> v)" "put_item m' i = m'(canonical_flag_name (fst i) \<mapsto> v)"
      by (rule put_item_key [of m i]) blast
    then have h: "put_item m i k = put_item m' i k" "canonical_flag_name (fst i) \<noteq> k \<Longrightarrow> put_item m i k = m' k"
      using Cons.prems by simp_all
    show ?case
    proof (cases "canonical_flag_name (fst i) = k")
      case True
      then show ?thesis using Cons.IH [of "put_item m i" "put_item m' i", OF h(1)] by simp
    next
      case False
      then show ?thesis using Cons.IH [of "put_item m i" m', OF h(2)] by simp
    qed
  qed simp
  then show ?thesis by blast
qed

lemma flag_map_cong:
  assumes "items_ok its" "items_ok its'"
    "[i \<leftarrow> its. canonical_flag_name (fst i) = k] = [i \<leftarrow> its'. canonical_flag_name (fst i) = k]"
  shows "flag_map (tokens its) k = flag_map (tokens its') k"
  unfolding flag_map_def flag_map_items [OF assms(1)] flag_map_items [OF assms(2)]
  using put_items_key [of "\<lambda>_. None" its k] put_items_key [of "\<lambda>_. None" its' k] assms(3) by simp

section \<open>One override\<close>

lemma tune_flag_shape:
  assumes "allowed_tune_flag f"
  shows "has_prefix (canonical_flag_name f) ''-''" "CHR ''='' \<notin> set (canonical_flag_name f)"
proof -
  have "list_all (\<lambda>c. has_prefix c ''-'' \<and> CHR ''='' \<notin> set c) tune_flags" by code_simp
  then show "has_prefix (canonical_flag_name f) ''-''" "CHR ''='' \<notin> set (canonical_flag_name f)"
    using assms by (auto simp: allowed_tune_flag_def list_all_iff)
qed

text \<open>The items an override value becomes.\<close>

definition value_items :: "(rat \<Rightarrow> string) \<Rightarrow> string \<Rightarrow> flag_value \<Rightarrow> flag_item list" where
  "value_items g key v =
     (if v = VNil then []
      else if v = VBool True \<or> sprint g v = [] then [(key, None)]
      else [(key, Some (sprint g v))])"

lemma value_args_items: "value_args g key v = tokens (value_items g key v)"
  by (simp add: value_args_def value_items_def)

text \<open>A value that stays one value on the command line: \<open>plain_value\<close> is about what is left of it
  after sanitizing.\<close>

definition plain_value :: "(rat \<Rightarrow> string) \<Rightarrow> string \<Rightarrow> flag_value \<Rightarrow> bool" where
  "plain_value g key v \<longleftrightarrow> v = VBool False \<or> items_ok (value_items g key v)"

definition plain_override :: "(rat \<Rightarrow> string) \<Rightarrow> string \<times> flag_value \<Rightarrow> bool" where
  "plain_override g kv \<longleftrightarrow>
     (case sanitized_value g (canonical_flag_name (fst kv)) (snd kv) of
        None \<Rightarrow> True | Some v \<Rightarrow> plain_value g (canonical_flag_name (fst kv)) v)"

lemma apply_one:
  assumes "items_ok its" "allowed_tune_flag key" "canonical_flag_name key = key" "key \<notin> P" "item_ok (key, v)"
  shows "apply_suggestion_with_protection (tokens its) (item_tokens (key, v)) P = tokens (drop_flag key its @ [(key, v)])"
proof (cases v)
  case None
  then show ?thesis
    using assms remove_flag_items [OF assms(1,2)]
    by (simp add: remove_conflicting_def flag_has_separate_value_def)
next
  case (Some x)
  then have "flag_has_separate_value key [x]"
    using assms(5) by (auto simp: item_ok_def flag_has_separate_value_def)
  then show ?thesis
    using assms remove_flag_items [OF assms(1,2)] Some by (simp add: remove_conflicting_def)
qed

text \<open>An edit that keeps the protected items.\<close>

definition protected_items :: "string set \<Rightarrow> flag_item list \<Rightarrow> flag_item list" where
  "protected_items P its = [i \<leftarrow> its. canonical_flag_name (fst i) \<in> P]"

definition keeps :: "string set \<Rightarrow> flag_item list \<Rightarrow> argv \<Rightarrow> bool" where
  "keeps P its result \<longleftrightarrow> (\<exists>its'. result = tokens its' \<and> items_ok its' \<and> protected_items P its' = protected_items P its)"

lemma protected_drop: "key \<notin> P \<Longrightarrow> protected_items P (drop_flag key its) = protected_items P its"
  by (auto simp: protected_items_def drop_flag_def intro: filter_cong)

lemma apply_value:
  assumes "items_ok its" "allowed_tune_flag key" "canonical_flag_name key = key" "key \<notin> P" "plain_value g key v" "v \<noteq> VBool False"
  shows "keeps P its (apply_suggestion_with_protection (tokens its) (value_args g key v) P)"
proof (cases "value_items g key v")
  case Nil
  then show ?thesis using assms(1) by (auto simp: value_args_items keeps_def)
next
  case (Cons i rest)
  then obtain x where x: "value_items g key v = [(key, x)]" by (auto simp: value_items_def split: if_splits)
  then have "item_ok (key, x)" using assms(5,6) by (simp add: plain_value_def)
  then have "keeps P its (tokens (drop_flag key its @ [(key, x)]))"
    using assms(1,3,4) protected_drop [of key P its]
    by (auto simp: keeps_def protected_items_def intro!: exI [of _ "drop_flag key its @ [(key, x)]"])
  then show ?thesis
    using apply_one [OF assms(1-4) \<open>item_ok (key, x)\<close>] x by (simp add: value_args_items)
qed


section \<open>A set of overrides\<close>

text \<open>What sanitizing leaves: allowed canonical keys outside the protected set, with plain values.\<close>

definition sanitized_ok :: "(rat \<Rightarrow> string) \<Rightarrow> string set \<Rightarrow> (string \<times> flag_value) list \<Rightarrow> bool" where
  "sanitized_ok g P vals \<longleftrightarrow> (\<forall>(key, v) \<in> set vals.
     allowed_tune_flag key \<and> canonical_flag_name key = key \<and> key \<notin> P \<and> plain_value g key v)"

lemma update_subset: "set (AList.update k v al) \<subseteq> insert (k, v) (set al)"
  by (induction al) auto

lemma sanitize_step_ok:
  assumes "sanitized_ok g P out" "plain_override g kv"
  shows "sanitized_ok g P (sanitize_step g P out kv)"
  using assms update_subset [of "canonical_flag_name (fst kv)"]
  by (fastforce simp: sanitize_step_def sanitized_ok_def plain_override_def Let_def split: option.splits)

lemma sanitize_ok:
  assumes "\<forall>kv \<in> set ov. plain_override g kv"
  shows "sanitized_ok g P (sanitize_flag_values g P ov)"
proof -
  have "sanitized_ok g P out \<Longrightarrow> \<forall>kv \<in> set ov. plain_override g kv \<Longrightarrow> sanitized_ok g P (foldl (sanitize_step g P) out ov)" for out
    by (induction ov arbitrary: out) (simp_all add: sanitize_step_ok)
  from this [of "[]"] show ?thesis using assms by (simp add: sanitize_flag_values_def) (simp add: sanitized_ok_def)
qed

lemma flag_values_to_args_one: "canonical_flag_name key = key \<Longrightarrow> flag_values_to_args g [(key, v)] = value_args g key v"
  by (simp add: flag_values_to_args_def lookup_value_def)

lemma keeps_trans: "keeps P its r \<Longrightarrow> (\<And>its'. items_ok its' \<Longrightarrow> r = tokens its' \<Longrightarrow> keeps P its' r') \<Longrightarrow> keeps P its r'"
  by (fastforce simp: keeps_def)

lemma override_step_keeps:
  assumes "items_ok its" "sanitized_ok g P vals" "key \<in> fst ` set vals"
  shows "keeps P its (override_step g P vals (tokens its) key)"
proof -
  obtain v where v: "map_of vals key = Some v" using assms(3) by (metis imageE map_of_eq_None_iff not_None_eq)
  then have m: "(key, v) \<in> set vals" by (rule map_of_SomeD)
  then have k: "allowed_tune_flag key" "canonical_flag_name key = key" "key \<notin> P" "plain_value g key v"
    using assms(2) by (auto simp: sanitized_ok_def)
  show ?thesis
  proof (cases "v = VBool False")
    case True
    then have "override_step g P vals (tokens its) key = tokens (drop_flag key its)"
      using remove_flag_items [OF assms(1) k(1)] k(2) v
      by (simp add: override_step_def lookup_value_def remove_conflicting_def)
    then show ?thesis using assms(1) k(3) by (auto simp: keeps_def protected_drop intro!: exI [of _ "drop_flag key its"])
  next
    case False
    then show ?thesis
      using apply_value [OF assms(1) k(1,2,3,4)] k(2) v
      by (simp add: override_step_def lookup_value_def flag_values_to_args_one)
  qed
qed

lemma override_fold_keeps:
  assumes "sanitized_ok g P vals" "set keys \<subseteq> fst ` set vals" "items_ok its"
  shows "keeps P its (foldl (override_step g P vals) (tokens its) keys)"
  using assms(2,3)
proof (induction keys arbitrary: its)
  case (Cons key keys)
  then obtain its1 where s: "override_step g P vals (tokens its) key = tokens its1" "items_ok its1"
    "protected_items P its1 = protected_items P its"
    using override_step_keeps [OF Cons.prems(2) assms(1), of key] by (auto simp: keeps_def)
  with Cons.IH [of its1] Cons.prems show ?case by (simp add: keeps_def)
qed (auto simp: keeps_def)

section \<open>The clamp\<close>

lemma itoa_positive_item: "0 < b \<Longrightarrow> item_ok (''-ub'', Some (itoa b))"
proof -
  assume b: "0 < b"
  then have d: "\<forall>c \<in> set (itoa b). is_digit c" using digits_of_nat_digits [of "nat b"] by (simp add: itoa_def list_all_iff)
  have n: "\<not> has_prefix (itoa b) ''-''"
    using d itoa_nonempty [of b] by (cases "itoa b") (auto simp: is_digit_def)
  have "flag_stem (itoa b) = itoa b" using d by (intro flag_stem_plain) (auto simp: is_digit_def)
  moreover have "map_of flag_aliases (itoa b) = None"
  proof (rule ccontr)
    assume "map_of flag_aliases (itoa b) \<noteq> None"
    then obtain c where "(itoa b, c) \<in> set flag_aliases" by (auto dest: map_of_SomeD)
    moreover have "\<forall>(k, c) \<in> set flag_aliases. has_prefix k ''-''" by (simp add: flag_aliases_def)
    ultimately show False using n by auto
  qed
  ultimately have "canonical_flag_name (itoa b) = itoa b" by (simp add: canonical_flag_name_def)
  then have "\<not> allowed_tune_flag (itoa b)" using tune_flag_shape(1) [of "itoa b"] n by auto
  moreover have "flag_needs_value ''-ub''" by code_simp
  ultimately show ?thesis using n by (simp add: item_ok_def)
qed

lemma ub_canonical: "canonical_flag_name ''-ub'' = ''-ub''" "allowed_tune_flag ''-ub''" "canonical_flag_name ''-b'' = ''-b''"
  by code_simp+

definition stated_int :: "argv \<Rightarrow> string \<Rightarrow> int option" where
  "stated_int a k = atoi (trim_space (flag_text (flag_map a) k))"

lemma normalize_cases:
  assumes "items_ok its"
  obtains (same) "normalize_batch_args (tokens its) = tokens its"
      "\<And>b u. stated_int (tokens its) ''-b'' = Some b \<Longrightarrow> stated_int (tokens its) ''-ub'' = Some u \<Longrightarrow> b \<le> 0 \<or> u \<le> b"
  | (clamped) b u where "normalize_batch_args (tokens its) = tokens (drop_flag ''-ub'' its @ [(''-ub'', Some (itoa b))])"
      "stated_int (tokens its) ''-b'' = Some b" "stated_int (tokens its) ''-ub'' = Some u" "0 < b" "b < u"
proof (cases "\<exists>b u. stated_int (tokens its) ''-b'' = Some b \<and> stated_int (tokens its) ''-ub'' = Some u \<and> 0 < b \<and> b < u")
  case True
  then obtain b u where b: "stated_int (tokens its) ''-b'' = Some b" "stated_int (tokens its) ''-ub'' = Some u" "0 < b" "b < u"
    by blast
  have "normalize_batch_args (tokens its) = apply_suggestion_with_protection (tokens its) (item_tokens (''-ub'', Some (itoa b))) {}"
    using b by (simp add: normalize_batch_args_def stated_int_def)
  then show ?thesis
    using apply_one [OF assms ub_canonical(2,1) _ itoa_positive_item [OF b(3)], of "{}"] b clamped by simp
next
  case False
  then have "normalize_batch_args (tokens its) = tokens its"
    by (fastforce simp: normalize_batch_args_def stated_int_def not_le split: option.split)
  with False show ?thesis using same by force
qed

lemma stated_itoa:
  assumes "flag_map a k = Some (itoa b)" "0 < b" "b \<le> max_int"
  shows "stated_int a k = Some b"
proof -
  have "\<forall>c \<in> set (itoa b). \<not> is_space c"
    using set_itoa_chars [of _ b] digit_not_special(10) by (auto simp: is_space_def)
  then have "trim_space (itoa b) = itoa b" by (intro trim_space_ident) simp
  then show ?thesis using assms by (simp add: stated_int_def flag_text_def atoi_itoa min_int_def)
qed

lemma stated_range: "stated_int a k = Some b \<Longrightarrow> b \<le> max_int"
  by (auto simp: stated_int_def atoi_def split: option.splits if_splits)

lemma flag_map_last:
  assumes "items_ok (its @ [(f, Some v)])"
  shows "flag_map (tokens (its @ [(f, Some v)])) (canonical_flag_name f) = Some v"
proof -
  have "cut_char CHR ''='' f = None" using assms by (simp add: item_ok_def cut_char_def)
  then show ?thesis
    unfolding flag_map_def flag_map_items [OF assms] by (simp add: put_item_def)
qed

section \<open>Properties\<close>

text \<open>The items of an argument vector, and when they are well formed.\<close>

fun flag_items :: "argv \<Rightarrow> flag_item list" where
  "flag_items [] = []"
| "flag_items (tok # rest) =
     (if flag_has_separate_value tok rest then (tok, Some (hd rest)) # flag_items (drop 1 rest)
      else (tok, None) # flag_items rest)"

lemma tokens_flag_items: "tokens (flag_items a) = a"
proof (induction a rule: flag_items.induct)
  case (2 tok rest)
  then show ?case by (cases rest) (auto simp: flag_has_separate_value_def)
qed simp

definition well_formed_args :: "argv \<Rightarrow> bool" where
  "well_formed_args a \<longleftrightarrow> items_ok (flag_items a)"

lemma apply_overrides_items:
  assumes "items_ok its" "\<forall>kv \<in> set ov. plain_override g kv"
  obtains its' where "items_ok its'" "protected_items P its' = protected_items P its"
    "apply_overrides g (tokens its) ov P = tokens its \<or>
     apply_overrides g (tokens its) ov P = normalize_batch_args (tokens its')"
proof -
  let ?vals = "sanitize_flag_values g P ov"
  have v: "sanitized_ok g P ?vals" using assms(2) by (rule sanitize_ok)
  then have "set (sort (map (canonical_flag_name \<circ> fst) ?vals)) \<subseteq> fst ` set ?vals"
    by (force simp: sanitized_ok_def)
  from override_fold_keeps [OF v this assms(1)] show ?thesis
    using that by (auto simp: keeps_def apply_overrides_def Let_def)
qed

lemma protected_key:
  assumes "protected_items P its' = protected_items P its" "k \<in> P"
  shows "[i \<leftarrow> its'. canonical_flag_name (fst i) = k] = [i \<leftarrow> its. canonical_flag_name (fst i) = k]"
proof -
  have "[i \<leftarrow> x. canonical_flag_name (fst i) = k] = [i \<leftarrow> protected_items P x. canonical_flag_name (fst i) = k]" for x
    using assms(2) by (auto simp: protected_items_def intro: filter_cong)
  then show ?thesis using assms(1) by metis
qed

text \<open>A protected flag after the overrides: only the clamp can have touched it.\<close>

lemma protected_value_cases:
  assumes "well_formed_args base" "\<forall>kv \<in> set overrides. plain_override g kv" "k \<in> P"
  shows "flag_map (apply_overrides g base overrides P) k = flag_map base k \<or>
    k = ''-ub'' \<and> (\<exists>b > 0. flag_map (apply_overrides g base overrides P) k = Some (itoa b) \<and>
      (\<exists>u > b. stated_int base k = Some u) \<and> (''-b'' \<in> P \<longrightarrow> stated_int base ''-b'' = Some b))"
proof -
  let ?its = "flag_items base"
  have ok: "items_ok ?its" and t: "tokens ?its = base"
    using assms(1) by (simp_all add: well_formed_args_def tokens_flag_items)
  obtain its' where i: "items_ok its'" "protected_items P its' = protected_items P ?its"
    "apply_overrides g base overrides P = base \<or> apply_overrides g base overrides P = normalize_batch_args (tokens its')"
    using apply_overrides_items [OF ok assms(2), of P] by (metis t)
  have kept: "flag_map (tokens its') j = flag_map base j" if "j \<in> P" for j
    using flag_map_cong [OF i(1) ok protected_key [OF i(2) that]] by (simp add: t)
  note m = kept [OF assms(3)]
  show ?thesis
  proof (cases "apply_overrides g base overrides P = base")
    case False
    then have n: "apply_overrides g base overrides P = normalize_batch_args (tokens its')" using i(3) by simp
    from i(1) show ?thesis
    proof (cases rule: normalize_cases)
      case same
      then show ?thesis using n m by simp
    next
      case (clamped b u)
      let ?its2 = "drop_flag ''-ub'' its' @ [(''-ub'', Some (itoa b))]"
      have ok2: "items_ok ?its2" using i(1) itoa_positive_item [OF clamped(4)] by simp
      show ?thesis
      proof (cases "k = ''-ub''")
        case True
        have "flag_map (tokens ?its2) ''-ub'' = Some (itoa b)"
          using flag_map_last [OF ok2] by (simp add: ub_canonical)
        then show ?thesis using True clamped n m kept [of "''-b''"] by (auto simp: flag_text_def stated_int_def)
      next
        case False
        then have "[i \<leftarrow> ?its2. canonical_flag_name (fst i) = k] = [i \<leftarrow> its'. canonical_flag_name (fst i) = k]"
          by (auto simp: drop_flag_def ub_canonical intro: filter_cong)
        then show ?thesis using flag_map_cong [OF ok2 i(1)] m n clamped(1) by simp
      qed
    qed
  qed simp
qed

text \<open>
  Tuning never changes a protected flag. Whatever the overrides are - the model's suggestion, a
  cached file, a community configuration - every protected flag of a well-formed command line keeps
  its value or its absence, as long as each override is one value of its own flag. The only exception
  is the clamp of the micro-batch: a protected \<^verbatim>\<open>-ub\<close> can become the batch size when it was larger.
\<close>

theorem tune_protected_untouched:
  assumes "well_formed_args base" "\<forall>kv \<in> set overrides. plain_override g kv" "k \<in> P"
  shows "flag_map (apply_overrides g base overrides P) k = flag_map base k \<or>
    k = ''-ub'' \<and> (\<exists>b > 0. flag_map (apply_overrides g base overrides P) k = Some (itoa b) \<and>
      (\<exists>u > b. stated_int base k = Some u))"
  using protected_value_cases [OF assms] by blast

text \<open>
  After the clamp the micro-batch never exceeds the batch: whenever both are numbers and the
  batch is positive, the command line asks for at most one batch per micro-batch, and the clamp never
  raises a micro-batch.
\<close>

theorem tune_clamp_bounds_ubatch:
  assumes "well_formed_args base"
    "stated_int (normalize_batch_args base) ''-b'' = Some b" "0 < b"
    "stated_int (normalize_batch_args base) ''-ub'' = Some u"
  shows "u \<le> b \<and> (\<exists>u0. stated_int base ''-ub'' = Some u0 \<and> u \<le> u0)"
proof -
  let ?its = "flag_items base"
  have ok: "items_ok ?its" and t: "tokens ?its = base"
    using assms(1) by (simp_all add: well_formed_args_def tokens_flag_items)
  show ?thesis
    using ok
  proof (cases rule: normalize_cases)
    case same
    then show ?thesis using assms by (force simp: t)
  next
    case (clamped b' u')
    let ?its2 = "drop_flag ''-ub'' ?its @ [(''-ub'', Some (itoa b'))]"
    have ok2: "items_ok ?its2" using ok itoa_positive_item [OF clamped(4)] by simp
    have r: "normalize_batch_args base = tokens ?its2" using clamped(1) by (simp add: t)
    have "flag_map (tokens ?its2) ''-ub'' = Some (itoa b')" using flag_map_last [OF ok2] by (simp add: ub_canonical)
    then have "stated_int (tokens ?its2) ''-ub'' = Some b'" using stated_itoa clamped(4) stated_range [OF clamped(2)] by blast
    then have "u = b'" using assms(4) r by simp
    moreover have "flag_map (tokens ?its2) ''-b'' = flag_map (tokens ?its) ''-b''"
      by (rule flag_map_cong [OF ok2 ok]) (auto simp: drop_flag_def ub_canonical intro: filter_cong)
    then have "b = b'" using assms(2) clamped(2) r by (simp add: stated_int_def flag_text_def)
    ultimately show ?thesis using clamped by (simp add: t)
  qed
qed

definition demo_args :: argv where
  "demo_args = [''-m'', ''a.gguf'', ''-b'', ''512'', ''-ub'', ''1024'', ''--mlock'']"

definition demo_overrides :: "(string \<times> flag_value) list" where
  "demo_overrides = [(''-ngl'', VStr ''0''), (''--threads'', VNum 8), (''--mlock'', VBool False), (''-ub'', VStr ''4096'')]"

lemma tune_protected_untouched_witness:
  "apply_overrides (\<lambda>_. []) demo_args demo_overrides quality_protected_flags =
     [''-m'', ''a.gguf'', ''-b'', ''512'', ''--threads'', ''8'', ''-ub'', ''512''] \<and>
   flag_map (apply_overrides (\<lambda>_. []) demo_args demo_overrides quality_protected_flags) ''-m'' = flag_map demo_args ''-m''"
proof
  show "apply_overrides (\<lambda>_. []) demo_args demo_overrides quality_protected_flags =
     [''-m'', ''a.gguf'', ''-b'', ''512'', ''--threads'', ''8'', ''-ub'', ''512'']"
    by code_simp
  have "well_formed_args demo_args" by code_simp
  moreover have "\<forall>kv \<in> set demo_overrides. plain_override (\<lambda>_. []) kv" by code_simp
  moreover have "''-m'' \<in> quality_protected_flags" by code_simp
  ultimately show "flag_map (apply_overrides (\<lambda>_. []) demo_args demo_overrides quality_protected_flags) ''-m'' = flag_map demo_args ''-m''"
    using tune_protected_untouched [of demo_args demo_overrides "\<lambda>_. []" "''-m''" quality_protected_flags] by simp
qed

lemma tune_clamp_bounds_ubatch_witness:
  "stated_int (normalize_batch_args demo_args) ''-ub'' = Some 512 \<and> (512 :: int) \<le> 512"
proof -
  have "well_formed_args demo_args" "stated_int (normalize_batch_args demo_args) ''-b'' = Some 512"
    "stated_int (normalize_batch_args demo_args) ''-ub'' = Some 512"
    by code_simp+
  with tune_clamp_bounds_ubatch [of demo_args 512 512] show ?thesis by simp
qed

text \<open>
  The allow-list does not hold for the values: a text given to a switch is passed on as the next
  token and read back as a flag of its own, so that an override set can put a flag outside the
  allow-list on the command line.
\<close>

theorem tune_switch_value_escapes:
  "apply_overrides g [] [(''--mlock'', VStr ''--no-warmup'')] quality_protected_flags = [''--mlock'', ''--no-warmup''] \<and>
   \<not> allowed_tune_flag ''--no-warmup''"
  by code_simp

end
