(* ===== verification/TunePlan.thy ===== *)
theory TunePlan
  imports TuneFlags
begin

text \<open>
  The tuner's own experiments (\<^verbatim>\<open>deterministicPlan\<close>, \<^verbatim>\<open>placementSafeTunePlan\<close>,
  \<^verbatim>\<open>guardRiskyMoEOverrides\<close> in \<^verbatim>\<open>go/pkg/tune/engine.go\<close>) over the flags of
  \<open>TuneFlags\<close>. The detected machine enters by its core and thread counts.
\<close>

section \<open>Reading the current flags\<close>

text \<open>\<^verbatim>\<open>fmt.Sscanf(s, "%d", &n)\<close>: leading blanks, a sign, at least one digit; the rest is not read.\<close>

definition scan_int :: "string \<Rightarrow> int option" where
  "scan_int s =
     (let t = dropWhile is_space s;
          (neg, u) = (case t of c # r \<Rightarrow> if c = CHR ''-'' then (True, r) else if c = CHR ''+'' then (False, r) else (False, t)
                      | [] \<Rightarrow> (False, []));
          d = takeWhile is_digit u;
          v = (if neg then - int (nat_of_digits d) else int (nat_of_digits d))
      in if d = [] \<or> v < min_int \<or> v > max_int then None else Some v)"

definition atoi_default :: "string \<Rightarrow> int \<Rightarrow> int" where
  "atoi_default s fallback = (case scan_int s of None \<Rightarrow> fallback | Some n \<Rightarrow> if n \<le> 0 then fallback else n)"

definition atoi_flag_value :: "(rat \<Rightarrow> string) \<Rightarrow> flag_value \<Rightarrow> int \<Rightarrow> int" where
  "atoi_flag_value g v fallback =
     (case v of
        VNum r \<Rightarrow> if r > 0 then \<lfloor>r\<rfloor> else fallback
      | _ \<Rightarrow> (case atoi (trim_space (sprint g v)) of
                None \<Rightarrow> fallback | Some n \<Rightarrow> if n > 0 then n else fallback))"

definition is_moe_offload_flags :: "(string \<rightharpoonup> string) \<Rightarrow> bool" where
  "is_moe_offload_flags m \<longleftrightarrow> flag_text m ''--n-cpu-moe'' \<noteq> [] \<or> flag_text m ''-ot'' \<noteq> []"

definition flag_present :: "(string \<rightharpoonup> string) \<Rightarrow> string \<Rightarrow> bool" where
  "flag_present m flag \<longleftrightarrow> m (canonical_flag_name flag) \<noteq> None"

definition tune_backend_help_supports :: "string \<Rightarrow> string \<Rightarrow> bool" where
  "tune_backend_help_supports help token \<longleftrightarrow>
     help \<noteq> [] \<and> token \<noteq> [] \<and> contains_sub (to_lower help) (to_lower token)"

definition tune_moe_flag_supported :: "(string \<rightharpoonup> string) \<Rightarrow> string \<Rightarrow> bool \<Rightarrow> string \<Rightarrow> bool" where
  "tune_moe_flag_supported base help is_ik flag \<longleftrightarrow>
     is_ik \<or> flag_present base flag \<or> tune_backend_help_supports help (dropWhile (\<lambda>c. c = CHR ''-'') flag)"

definition backend_is_ik :: "string \<Rightarrow> bool" where
  "backend_is_ik backend \<longleftrightarrow>
     (let b = to_lower (trim_space backend) in b = ''ik'' \<or> b = ''ik_llama'' \<or> contains_sub b ''ik_llama'')"

definition has_ik_runtime_flags :: "(string \<rightharpoonup> string) \<Rightarrow> bool" where
  "has_ik_runtime_flags m \<longleftrightarrow>
     flag_text m ''--run-time-repack'' \<noteq> [] \<or> flag_text m ''-khad'' \<noteq> [] \<or> flag_text m ''-ger'' \<noteq> [] \<or>
     flag_text m ''-mqkv'' \<noteq> [] \<or> flag_text m ''-muge'' \<noteq> []"

definition meaningful_improvement :: "rat \<Rightarrow> rat \<Rightarrow> rat \<Rightarrow> bool" where
  "meaningful_improvement candidate incumbent min_pct \<longleftrightarrow>
     (if candidate \<le> 0 \<or> incumbent \<le> 0 then candidate > incumbent
      else candidate \<ge> incumbent * (1 + min_pct / 100))"

section \<open>The plan\<close>

record suggestion =
  sg_name :: string
  sg_flag_values :: "(string \<times> flag_value) list"
  sg_flags :: argv

definition suggestion_key :: "(rat \<Rightarrow> string) \<Rightarrow> (string \<times> flag_value) list \<Rightarrow> string" where
  "suggestion_key g vals =
     concat (map (\<lambda>key. key @ ''='' @ sprint g (lookup_value vals key) @ '';'')
       (sort (map (canonical_flag_name \<circ> fst) vals)))"

text \<open>A proposed experiment: its condition, name and values.\<close>

type_synonym proposal = "bool \<times> string \<times> (string \<times> flag_value) list"

definition add_candidate ::
  "(rat \<Rightarrow> string) \<Rightarrow> bool \<Rightarrow> suggestion list \<times> string list \<Rightarrow> proposal \<Rightarrow> suggestion list \<times> string list" where
  "add_candidate g spec_autotune acc p =
     (case (acc, p) of ((cands, seen), (cond, name, vals0)) \<Rightarrow>
        if \<not> cond then acc
        else
          let vals1 = (if \<not> spec_autotune then AList.delete ''--spec-autotune'' vals0 else vals0);
              vals = sanitize_flag_values g {} vals1;
              key = suggestion_key g vals
          in if vals = [] \<or> key \<in> set seen then acc
             else (cands @ [\<lparr>sg_name = name, sg_flag_values = vals, sg_flags = flag_values_to_args g vals\<rparr>], key # seen))"

definition proposals :: "(string \<rightharpoonup> string) \<Rightarrow> bool \<Rightarrow> (int \<times> int) option \<Rightarrow> string \<Rightarrow> proposal list" where
  "proposals base is_ik cpu help =
     (let batch = atoi_default (flag_text base ''-b'') 4096;
          ubatch = atoi_default (flag_text base ''-ub'') 512;
          moe = is_moe_offload_flags base;
          spec = trim_space (flag_text base ''--spec-type'');
          num = (\<lambda>n. VStr (itoa n))
      in
      [(spec = ''ngram-mod'', ''spec-ngram-mod-lower-depth'',
          [(''--spec-ngram-mod-n-min'', VStr ''16''), (''--spec-ngram-mod-n-max'', VStr ''48''), (''--spec-autotune'', VBool True)]),
       (spec \<noteq> ''ngram-mod'' \<and> contains_sub spec ''ngram'', ''spec-disable-autotune'', [(''--spec-autotune'', VBool False)]),
       (\<not> moe \<and> batch > 0 \<and> batch < 8192, ''larger-batch'', [(''-b'', num (min (batch * 2) 8192))]),
       (\<not> moe \<and> batch > 0 \<and> batch < 16384, ''max-prefill-batch'', [(''-b'', VStr ''16384'')]),
       (moe \<and> batch > 1024, ''smaller-moe-batch'', [(''-b'', num (max (go_div batch 2) 1024))]),
       (moe \<and> batch > 1536, ''moe-batch-1536'', [(''-b'', VStr ''1536'')]),
       (\<not> moe \<and> ubatch > 0 \<and> ubatch < 2048, ''larger-ubatch'', [(''-ub'', num (min (ubatch * 2) 2048))]),
       (moe \<and> ubatch > 384, ''moe-ubatch-384'', [(''-ub'', VStr ''384'')]),
       (ubatch > 256, ''smaller-ubatch'', [(''-ub'', num (max (go_div ubatch 2) 256))]),
       (is_ik \<and> \<not> moe \<and> flag_text base ''--defrag-thold'' \<noteq> ''0.5'', ''dense-defrag-0.5'', [(''--defrag-thold'', VStr ''0.5'')])]
      @ (case cpu of
           None \<Rightarrow> []
         | Some (cores, threads) \<Rightarrow>
             [(cores > 0 \<and> atoi_default (flag_text base ''--threads'') 0 \<noteq> cores, ''threads-physical'', [(''--threads'', num cores)]),
              (threads > cores \<and> atoi_default (flag_text base ''--threads-batch'') 0 \<noteq> threads, ''threads-batch-logical'',
                [(''--threads-batch'', num threads)])])
      @ [(moe \<and> \<not> flag_present base ''--defer-experts'' \<and> tune_moe_flag_supported base help is_ik ''--defer-experts'',
            ''moe-defer-experts'', [(''--defer-experts'', VBool True)]),
         (moe \<and> flag_present base ''--no-mmap'', ''moe-mmap-pagecache'', [(''--no-mmap'', VBool False)]),
         (moe \<and> \<not> flag_present base ''--cont-batching'' \<and> tune_moe_flag_supported base help is_ik ''--cont-batching'',
            ''moe-cont-batching'', [(''--cont-batching'', VBool True)]),
         (moe \<and> is_ik, ''moe-disable-repack'', [(''--run-time-repack'', VBool False)]),
         (moe \<and> is_ik, ''moe-disable-khad'', [(''-khad'', VBool False)]),
         (moe \<and> is_ik, ''moe-defrag-off'', [(''--defrag-thold'', VStr ''-1'')]),
         (moe \<and> is_ik, ''moe-no-muge'', [(''-muge'', VBool False)]),
         (moe \<and> is_ik, ''moe-no-ger'', [(''-ger'', VBool False)]),
         (moe \<and> is_ik, ''moe-no-mqkv'', [(''-mqkv'', VBool False)])])"

definition deterministic_plan ::
  "(rat \<Rightarrow> string) \<Rightarrow> argv \<Rightarrow> string \<Rightarrow> (int \<times> int) option \<Rightarrow> string \<Rightarrow> suggestion list" where
  "deterministic_plan g base_flags backend cpu help =
     (let base = flag_map base_flags;
          is_ik = backend_is_ik backend \<or> has_ik_runtime_flags base;
          spec_autotune = is_ik \<or> tune_backend_help_supports help ''spec-autotune''
      in fst (foldl (add_candidate g spec_autotune) ([], []) (proposals base is_ik cpu help)))"

text \<open>The suggestion of a round (counted from 1); the Go remainder is negative for round 0 of a nonempty plan.\<close>

definition deterministic_suggestion_for ::
  "(rat \<Rightarrow> string) \<Rightarrow> nat \<Rightarrow> argv \<Rightarrow> string \<Rightarrow> (int \<times> int) option \<Rightarrow> string \<Rightarrow> suggestion option" where
  "deterministic_suggestion_for g n_round base_flags backend cpu help =
     (let cands = deterministic_plan g base_flags backend cpu help in
      if cands = [] then None
      else
        let c = cands ! ((n_round - 1) mod length cands)
        in Some (c\<lparr>sg_flags := flag_values_to_args g (sg_flag_values c)\<rparr>))"

definition changes_batch :: "suggestion \<Rightarrow> bool" where
  "changes_batch c \<longleftrightarrow>
     list_ex (\<lambda>(k, _). canonical_flag_name k = ''-b'' \<or> canonical_flag_name k = ''-ub'') (sg_flag_values c)"

definition placement_safe_tune_plan :: "suggestion list \<Rightarrow> suggestion list" where
  "placement_safe_tune_plan generic = filter (\<lambda>c. \<not> changes_batch c) generic"

section \<open>The guard for expert offload\<close>

definition risky_override :: "(rat \<Rightarrow> string) \<Rightarrow> (string \<rightharpoonup> string) \<Rightarrow> string \<Rightarrow> flag_value \<Rightarrow> bool" where
  "risky_override g base canon v \<longleftrightarrow>
     (let batch = atoi_default (flag_text base ''-b'') 2048;
          ubatch = atoi_default (flag_text base ''-ub'') 512;
          k = flag_text base ''--cache-type-k''; vt = flag_text base ''--cache-type-v''
      in
      if canon = ''--parallel'' \<or> canon = ''--ctx-size'' then True
      else if canon = ''--spec-type'' \<or> has_prefix canon ''--spec-'' \<or> canon = ''--multi-token-prediction'' then True
      else if canon = ''--flash-attn'' \<and> equal_fold (sprint g v) ''off'' then True
      else if canon = ''-ub'' then atoi_flag_value g v ubatch > ubatch
      else if canon = ''-b'' then atoi_flag_value g v batch > max batch 4096
      else if canon = ''--cache-type-k'' then k \<noteq> [] \<and> sprint g v \<noteq> k
      else if canon = ''--cache-type-v'' then vt \<noteq> [] \<and> sprint g v \<noteq> vt
      else False)"

definition guard_risky_moe_overrides ::
  "(rat \<Rightarrow> string) \<Rightarrow> (string \<times> flag_value) list \<Rightarrow> argv \<Rightarrow> (string \<times> flag_value) list" where
  "guard_risky_moe_overrides g overrides base_flags =
     (let base = flag_map base_flags in
      if overrides = [] \<or> \<not> is_moe_offload_flags base then overrides
      else foldl (\<lambda>out (key, v).
             let canon = canonical_flag_name key in
             if risky_override g base canon v then out else AList.update canon v out) [] overrides)"

section \<open>Properties\<close>

definition tunable :: "string set \<Rightarrow> string \<Rightarrow> bool" where
  "tunable P k \<longleftrightarrow> allowed_tune_flag k \<and> canonical_flag_name k = k \<and> k \<notin> P"

lemma sanitize_step_keys:
  "list_all (tunable P \<circ> fst) out \<Longrightarrow> list_all (tunable P \<circ> fst) (sanitize_step g P out kv)"
  using update_subset [of "canonical_flag_name (fst kv)" _ out]
  by (fastforce simp: sanitize_step_def tunable_def list_all_iff Let_def split: option.split)

lemma sanitize_keys: "list_all (tunable P \<circ> fst) (sanitize_flag_values g P vals)"
proof -
  have "list_all (tunable P \<circ> fst) out \<Longrightarrow> list_all (tunable P \<circ> fst) (foldl (sanitize_step g P) out vals)" for out
    by (induction vals arbitrary: out) (simp_all add: sanitize_step_keys)
  then show ?thesis by (simp add: sanitize_flag_values_def)
qed

lemma allowed_not_placement: "allowed_tune_flag k \<Longrightarrow> canonical_flag_name k \<notin> default_protected_flags"
proof -
  have "\<forall>f \<in> set tune_flags. f \<notin> default_protected_flags" by code_simp
  then show "allowed_tune_flag k \<Longrightarrow> ?thesis" by (auto simp: allowed_tune_flag_def)
qed

definition candidate_fine :: "(rat \<Rightarrow> string) \<Rightarrow> suggestion \<Rightarrow> bool" where
  "candidate_fine g c \<longleftrightarrow> sg_flag_values c \<noteq> [] \<and> sg_flags c = flag_values_to_args g (sg_flag_values c) \<and>
     list_all (tunable {} \<circ> fst) (sg_flag_values c)"

definition candidate_key :: "(rat \<Rightarrow> string) \<Rightarrow> suggestion \<Rightarrow> string" where
  "candidate_key g c = suggestion_key g (sg_flag_values c)"

lemma candidate_key_make [simp]: "candidate_key g \<lparr>sg_name = n, sg_flag_values = v, sg_flags = f\<rparr> = suggestion_key g v"
  by (simp add: candidate_key_def)

lemma plan_fold:
  assumes "\<forall>c \<in> set (fst acc). candidate_fine g c" "distinct (map (candidate_key g) (fst acc))"
    "snd acc = rev (map (candidate_key g) (fst acc))"
  shows "(\<forall>c \<in> set (fst (foldl (add_candidate g b) acc ps)). candidate_fine g c) \<and>
    distinct (map (candidate_key g) (fst (foldl (add_candidate g b) acc ps)))"
  using assms
proof (induction ps arbitrary: acc)
  case (Cons p ps)
  obtain cands seen cond name vals where a: "acc = (cands, seen)" "p = (cond, name, vals)" by (metis prod.exhaust)
  have fine: "\<forall>c \<in> set (fst (add_candidate g b acc p)). candidate_fine g c"
    using Cons.prems(1) by (auto simp: a add_candidate_def candidate_fine_def sanitize_keys Let_def)
  have "distinct (map (candidate_key g) (fst (add_candidate g b acc p))) \<and>
      snd (add_candidate g b acc p) = rev (map (candidate_key g) (fst (add_candidate g b acc p)))"
    using Cons.prems(2,3) by (auto simp: a add_candidate_def Let_def)
  then show ?case using Cons.IH [OF fine] by simp
qed simp

text \<open>
  C11: The tuner's own experiments stay in bounds: every candidate of the plan sets only flags of the
  allow-list, hence no flag the placement engine owns, no two candidates set the same values, and the
  placement-safe plan sets neither the batch nor the micro-batch.
\<close>

theorem tune_plan_in_bounds:
  "(\<forall>c \<in> set (deterministic_plan g base backend cpu help). \<forall>(k, v) \<in> set (sg_flag_values c).
      allowed_tune_flag k \<and> k \<notin> default_protected_flags) \<and>
   distinct (map (candidate_key g) (deterministic_plan g base backend cpu help)) \<and>
   (\<forall>c \<in> set (placement_safe_tune_plan (deterministic_plan g base backend cpu help)). \<forall>(k, v) \<in> set (sg_flag_values c).
      canonical_flag_name k \<noteq> ''-b'' \<and> canonical_flag_name k \<noteq> ''-ub'')"
proof (intro conjI)
  have "\<exists>b ps. deterministic_plan g base backend cpu help = fst (foldl (add_candidate g b) ([], []) ps)"
    unfolding deterministic_plan_def Let_def by blast
  then obtain b ps where p: "deterministic_plan g base backend cpu help = fst (foldl (add_candidate g b) ([], []) ps)" by blast
  have f: "(\<forall>c \<in> set (deterministic_plan g base backend cpu help). candidate_fine g c) \<and>
      distinct (map (candidate_key g) (deterministic_plan g base backend cpu help))"
    unfolding p by (rule plan_fold) simp_all
  have "tunable {} k \<Longrightarrow> allowed_tune_flag k \<and> k \<notin> default_protected_flags" for k
    using allowed_not_placement [of k] by (auto simp: tunable_def)
  then show "\<forall>c \<in> set (deterministic_plan g base backend cpu help). \<forall>(k, v) \<in> set (sg_flag_values c).
      allowed_tune_flag k \<and> k \<notin> default_protected_flags"
    using f by (force simp: candidate_fine_def list_all_iff)
  show "distinct (map (candidate_key g) (deterministic_plan g base backend cpu help))"
    using f by simp
qed (auto simp: placement_safe_tune_plan_def changes_batch_def list_ex_iff)

lemma tune_plan_in_bounds_witness:
  "map sg_name (placement_safe_tune_plan (deterministic_plan (\<lambda>_. []) [''-b'', ''2'', ''-ub'', ''4''] ''llama'' (Some (8, 9)) [])) =
     [''threads-physical'', ''threads-batch-logical''] \<and>
   distinct (map (candidate_key (\<lambda>_. [])) (deterministic_plan (\<lambda>_. []) [''-b'', ''2'', ''-ub'', ''4''] ''llama'' (Some (8, 9)) []))"
proof
  show "map sg_name (placement_safe_tune_plan (deterministic_plan (\<lambda>_. []) [''-b'', ''2'', ''-ub'', ''4''] ''llama'' (Some (8, 9)) [])) =
     [''threads-physical'', ''threads-batch-logical'']"
    by code_simp
qed (use tune_plan_in_bounds in blast)

end
