(* ===== verification/StrategyArgs.thy ===== *)
theory StrategyArgs
  imports PlacementCache TuneFlags
begin

text \<open>
  The launch command line: \<^verbatim>\<open>Strategy.Args\<close>
  (\<^verbatim>\<open>go/pkg/placement/placement.go\<close>) with the speculative decoding flags
  (\<^verbatim>\<open>DraftFlags\<close>, \<^verbatim>\<open>draft.go\<close>) and the sparse lookup flag
  (\<^verbatim>\<open>sparseLookupArgs\<close>, \<^verbatim>\<open>sparselookup.go\<close>).

  The source appends one flag, or a flag and its value, at a time; each such append is a
  \<^typ>\<open>flag_item\<close> and the argument vector is their tokens. The theorems join this writer to its
  readers: the tuner of \<open>TuneFlags\<close> and the cache entry of \<open>PlacementCache\<close>.
\<close>

section \<open>Strategies\<close>

datatype draft_type = DraftNone | DraftModel | DraftEagle3 | DraftDFlash | DraftNgram | DraftMTP

record draft_config =
  dr_type :: draft_type
  dr_backend_tag :: string
  dr_path :: string
  dr_gpu :: int
  dr_ctx_size :: int
  dr_kv_type :: string
  dr_threads :: int
  dr_gpu_layers :: string
  dr_supports_ctx :: bool
  dr_spec_autotune :: bool
  dr_max :: int
  dr_min :: int
  dr_p_split :: rat
  dr_spec_type :: string
  dr_mtp_flag :: bool
  dr_ngram_n :: int
  dr_ngram_m :: int
  dr_ngram_min_hits :: int

datatype lookup_policy = NoPolicy | LayerTier | ResidentTier | PagedTier

record launch_strategy = placed_strategy +
  la_host :: string
  la_flash_attention :: bool
  la_kv_type_v :: string
  la_threads :: int
  la_threads_batch :: int
  la_cpu_range :: string
  la_cpu_strict :: bool
  la_supports_cpu_range :: bool
  la_supports_cpu_range_batch :: bool
  la_supports_cpu_strict_batch :: bool
  la_supports_kv_offload :: bool
  la_reasoning_off :: bool
  la_has_ssm :: bool
  la_supports_no_context_shift :: bool
  la_mmproj_path :: string
  la_supports_fit :: bool
  la_fit_takes_value :: bool
  la_main_gpu :: int
  la_backend_tag :: string
  la_mlock :: bool
  la_cram :: int
  la_max_checkpoints :: int
  la_checkpoint_min_step :: int
  la_min_step_flag :: string
  la_is_moe :: bool
  la_draft :: "draft_config option"
  la_lookup_mb :: int
  la_lookup_flag :: string
  la_lookup_policy :: lookup_policy

section \<open>Speculative decoding\<close>

text \<open>An append under a condition.\<close>

definition opt :: "bool \<Rightarrow> 'a list \<Rightarrow> 'a list" where
  "opt b xs = (if b then xs else [])"

definition val_item :: "string \<Rightarrow> string \<Rightarrow> flag_item" where
  "val_item f v = (f, Some v)"

definition num_item :: "string \<Rightarrow> int \<Rightarrow> flag_item" where
  "num_item f n = (f, Some (itoa n))"

definition lone_item :: "string \<Rightarrow> flag_item" where
  "lone_item f = (f, None)"

definition backend_supports_mtp :: "string \<Rightarrow> bool" where
  "backend_supports_mtp tag \<longleftrightarrow>
     (let t = to_lower (trim_space tag) in t = ''ik'' \<or> t = ''ik_llama'' \<or> contains_sub t ''ik_llama'')"

definition spec_type_with_n_max :: "string \<Rightarrow> int \<Rightarrow> string" where
  "spec_type_with_n_max spec n = (if n \<le> 0 \<or> contains_sub spec '':'' then spec else spec @ '':n_max='' @ itoa n)"

definition draft_device_name :: "string \<Rightarrow> int \<Rightarrow> string" where
  "draft_device_name tag gpu =
     (if contains_sub (to_lower tag) ''vulkan'' then ''Vulkan'' @ itoa gpu else ''CUDA'' @ itoa gpu)"

definition default_text :: "string \<Rightarrow> string \<Rightarrow> string" where
  "default_text s d = (if s = [] then d else s)"

definition draft_model_items :: "draft_config \<Rightarrow> flag_item list" where
  "draft_model_items d =
     (let ik = backend_supports_mtp (dr_backend_tag d);
          spec0 = dr_spec_type d;
          spec1 = (if dr_type d = DraftEagle3 then default_text spec0 ''eagle3'' else spec0);
          spec = (if dr_type d = DraftDFlash then default_text spec1 ''draft-dflash'' else spec1)
      in
      (if dr_type d = DraftModel \<and> ik then
         [val_item ''--spec-type'' (spec_type_with_n_max (default_text spec ''draft'') (dr_max d))]
       else opt (spec \<noteq> []) [val_item ''--spec-type'' spec]) @
      opt (dr_path d \<noteq> []) [val_item ''--model-draft'' (dr_path d)] @
      opt (dr_gpu d \<ge> 0 \<and> dr_path d \<noteq> []) [val_item ''--device-draft'' (draft_device_name (dr_backend_tag d) (dr_gpu d))] @
      opt (dr_gpu_layers d \<noteq> [] \<and> \<not> ik) [val_item ''--spec-draft-ngl'' (dr_gpu_layers d)] @
      opt (dr_ctx_size d > 0 \<and> (dr_supports_ctx d \<or> ik)) [num_item ''--ctx-size-draft'' (dr_ctx_size d)] @
      opt (dr_kv_type d \<noteq> [])
        [val_item ''--cache-type-k-draft'' (dr_kv_type d), val_item ''--cache-type-v-draft'' (dr_kv_type d)] @
      opt (dr_threads d > 0) [num_item ''--threads-draft'' (dr_threads d)] @
      opt (dr_max d > 0 \<and> \<not> (ik \<and> dr_type d = DraftModel)) [num_item ''--spec-draft-n-max'' (dr_max d)] @
      opt (dr_min d > 0 \<and> \<not> ik) [num_item ''--spec-draft-n-min'' (dr_min d)] @
      opt (dr_p_split d > 0) [val_item (if ik then ''--p-split'' else ''--spec-draft-p-split'') (format_fixed2 (dr_p_split d))] @
      opt (dr_spec_autotune d) [lone_item ''--spec-autotune''])"

definition draft_ngram_items :: "draft_config \<Rightarrow> flag_item list" where
  "draft_ngram_items d =
     (let ik = backend_supports_mtp (dr_backend_tag d);
          spec = default_text (dr_spec_type d) ''ngram-map-k'';
          n = dr_ngram_n d; m = dr_ngram_m d; hits = dr_ngram_min_hits d
      in
      [val_item ''--spec-type'' spec] @
      (if ik then
         opt (n > 0) [num_item ''--spec-ngram-size-n'' n] @
         opt (m > 0) [num_item ''--spec-ngram-size-m'' m] @
         opt (hits > 0) [num_item ''--spec-ngram-min-hits'' hits]
       else if spec = ''ngram-mod'' then
         opt (n > 0) [num_item ''--spec-ngram-mod-n-match'' n] @
         opt (dr_min d > 0) [num_item ''--spec-ngram-mod-n-min'' (dr_min d)] @
         opt (dr_max d > 0) [num_item ''--spec-ngram-mod-n-max'' (dr_max d)]
       else if spec = ''ngram-map-k4v'' then
         opt (n > 0) [num_item ''--spec-ngram-map-k4v-size-n'' n] @
         opt (m > 0) [num_item ''--spec-ngram-map-k4v-size-m'' m] @
         opt (hits > 0) [num_item ''--spec-ngram-map-k4v-min-hits'' hits] @
         opt (dr_max d > 0) [num_item ''--spec-draft-n-max'' (dr_max d)]
       else
         opt (n > 0) [num_item ''--spec-ngram-map-k-size-n'' n] @
         opt (m > 0) [num_item ''--spec-ngram-map-k-size-m'' m] @
         opt (hits > 0) [num_item ''--spec-ngram-map-k-min-hits'' hits]) @
      opt (dr_spec_autotune d) [lone_item ''--spec-autotune''])"

definition draft_mtp_items :: "draft_config \<Rightarrow> flag_item list" where
  "draft_mtp_items d =
     (let ik = backend_supports_mtp (dr_backend_tag d);
          spec = default_text (dr_spec_type d) (if ik then ''mtp'' else ''draft-mtp'')
      in
      [val_item ''--spec-type'' (if ik then spec_type_with_n_max spec (dr_max d) else spec)] @
      opt (ik \<or> dr_mtp_flag d) [lone_item ''--multi-token-prediction''] @
      opt (dr_path d \<noteq> [])
        ([val_item ''--model-draft'' (dr_path d)] @
         opt (dr_gpu d \<ge> 0) [val_item ''--device-draft'' (draft_device_name (dr_backend_tag d) (dr_gpu d))] @
         opt (dr_gpu_layers d \<noteq> [] \<and> \<not> ik) [val_item ''--spec-draft-ngl'' (dr_gpu_layers d)] @
         opt (dr_ctx_size d > 0 \<and> (dr_supports_ctx d \<or> ik)) [num_item ''--ctx-size-draft'' (dr_ctx_size d)] @
         opt (dr_kv_type d \<noteq> [])
           [val_item ''--cache-type-k-draft'' (dr_kv_type d), val_item ''--cache-type-v-draft'' (dr_kv_type d)] @
         opt (dr_threads d > 0) [num_item ''--threads-draft'' (dr_threads d)]) @
      opt (dr_max d > 0 \<and> \<not> ik) [num_item ''--spec-draft-n-max'' (dr_max d)] @
      opt (dr_spec_autotune d) [lone_item ''--spec-autotune''])"

definition draft_items :: "draft_config option \<Rightarrow> flag_item list" where
  "draft_items cfg =
     (case cfg of
        None \<Rightarrow> []
      | Some d \<Rightarrow>
          (case dr_type d of
             DraftNone \<Rightarrow> []
           | DraftModel \<Rightarrow> draft_model_items d
           | DraftEagle3 \<Rightarrow> draft_model_items d
           | DraftDFlash \<Rightarrow> draft_model_items d
           | DraftNgram \<Rightarrow> draft_ngram_items d
           | DraftMTP \<Rightarrow> draft_mtp_items d))"

definition draft_flags :: "draft_config option \<Rightarrow> argv" where
  "draft_flags cfg = tokens (draft_items cfg)"

section \<open>The launch arguments\<close>

definition sparse_lookup_items :: "launch_strategy \<Rightarrow> flag_item list" where
  "sparse_lookup_items s =
     (if la_lookup_mb s \<le> 0 \<or> la_lookup_flag s = [] then []
      else case la_lookup_policy s of
        ResidentTier \<Rightarrow> [val_item (la_lookup_flag s) ''on'']
      | PagedTier \<Rightarrow> [val_item (la_lookup_flag s) ''on'']
      | LayerTier \<Rightarrow> [val_item (la_lookup_flag s) ''off'']
      | NoPolicy \<Rightarrow> [])"

definition v_cache_type :: "launch_strategy \<Rightarrow> string" where
  "v_cache_type s = default_text (la_kv_type_v s) (s_kv_type s)"

definition cpu_range_items :: "launch_strategy \<Rightarrow> flag_item list" where
  "cpu_range_items s =
     opt (pl_n_cpu_moe s > 0 \<and> la_cpu_range s \<noteq> [] \<and> la_supports_cpu_range s)
       ([val_item ''--cpu-range'' (la_cpu_range s)] @
        opt (la_cpu_strict s) [val_item ''--cpu-strict'' ''1''] @
        opt (la_supports_cpu_range_batch s)
          ([val_item ''--cpu-range-batch'' (la_cpu_range s)] @
           opt (la_cpu_strict s \<and> la_supports_cpu_strict_batch s) [val_item ''--cpu-strict-batch'' ''1'']))"

definition offload_items :: "launch_strategy \<Rightarrow> flag_item list" where
  "offload_items s =
     (if s_type s = CPUOnly then [val_item ''-ngl'' ''0'']
      else if s_type s = DenseCPUOffload \<and> la_supports_fit s then
        [if la_fit_takes_value s then val_item ''--fit'' ''on'' else lone_item ''--fit'']
      else opt (pl_tensor_split s \<noteq> [] \<or> s_type s \<noteq> CPUOnly)
        ([val_item ''-ngl'' ''999''] @
         opt (la_supports_fit s \<and> la_fit_takes_value s) [val_item ''--fit'' ''off''] @
         opt (la_main_gpu s \<ge> 0 \<and> pl_tensor_split s = [] \<and> \<not> equal_fold (la_backend_tag s) ''metal'')
           ([num_item ''-mg'' (la_main_gpu s)] @
            opt (s_type s = SingleGPU) [val_item ''--device'' (device_name (la_backend_tag s) (la_main_gpu s))])))"

text \<open>\<^verbatim>\<open>backendCheckpointMinStepFlag("", tag)\<close>, the fallback without a help text.\<close>

definition default_min_step_flag :: "string \<Rightarrow> string" where
  "default_min_step_flag tag =
     (if equal_fold (trim_space tag) ''ik_llama'' then ''--ctx-checkpoints-interval'' else ''--checkpoint-min-step'')"

definition checkpoint_items :: "launch_strategy \<Rightarrow> flag_item list" where
  "checkpoint_items s =
     [num_item ''-cram'' (la_cram s)] @
     opt (la_max_checkpoints s \<ge> 0)
       ([num_item ''--ctx-checkpoints'' (la_max_checkpoints s)] @
        (let flag = default_text (la_min_step_flag s) (default_min_step_flag (la_backend_tag s)) in
         opt (la_checkpoint_min_step s > 0 \<and> flag \<noteq> ''-'') [num_item flag (la_checkpoint_min_step s)]))"

definition ik_items :: "launch_strategy \<Rightarrow> flag_item list" where
  "ik_items s =
     opt (la_backend_tag s = ''ik_llama'')
       ([lone_item ''--run-time-repack'', lone_item ''-khad'', val_item ''--defrag-thold'' ''0.1''] @
        opt (la_is_moe s) [lone_item ''-muge'', lone_item ''-ger''] @
        opt (pl_tensor_split s \<noteq> [] \<or> s_type s \<noteq> CPUOnly) [lone_item ''-mqkv''])"

definition strategy_items :: "launch_strategy \<Rightarrow> string \<Rightarrow> int \<Rightarrow> flag_item list" where
  "strategy_items s model_path port =
     [val_item ''-m'' model_path, val_item ''--host'' (default_text (la_host s) ''127.0.0.1''),
      num_item ''--port'' port, num_item ''--ctx-size'' (s_context_size s)] @
     opt (la_flash_attention s) [val_item ''--flash-attn'' ''on''] @
     [num_item ''-b'' (pl_batch_size s), num_item ''-ub'' (pl_ubatch_size s),
      val_item ''--cache-type-k'' (s_kv_type s), val_item ''--cache-type-v'' (v_cache_type s),
      lone_item ''--jinja'', num_item ''--threads'' (la_threads s), num_item ''--threads-batch'' (la_threads_batch s)] @
     cpu_range_items s @
     (if s_kv_placement s = ''cpu'' then [lone_item ''--no-kv-offload'']
      else opt (s_kv_placement s = ''gpu'' \<and> la_supports_kv_offload s) [lone_item ''--kv-offload'']) @
     opt (la_reasoning_off s) [val_item ''--reasoning'' ''off''] @
     opt (la_has_ssm s \<or> la_supports_no_context_shift s) [lone_item ''--no-context-shift''] @
     [num_item ''--parallel'' (if s_parallel s > 0 then s_parallel s else 1)] @
     opt (la_mmproj_path s \<noteq> []) [val_item ''--mmproj'' (la_mmproj_path s)] @
     offload_items s @
     opt (pl_tensor_split s \<noteq> []) [val_item ''--tensor-split'' (join_with '','' (map format_fixed2 (pl_tensor_split s)))] @
     opt (pl_split_mode s \<noteq> []) [val_item ''--split-mode'' (pl_split_mode s)] @
     opt (pl_ot_string s \<noteq> []) [val_item ''-ot'' (pl_ot_string s)] @
     opt (pl_n_cpu_moe s > 0) [num_item ''--n-cpu-moe'' (pl_n_cpu_moe s)] @
     opt (\<not> pl_mmap s) [lone_item ''--no-mmap''] @
     sparse_lookup_items s @
     opt (la_mlock s) [lone_item ''--mlock''] @
     checkpoint_items s @
     ik_items s @
     draft_items (la_draft s) @
     [val_item ''--timeout'' ''2147483647'']"

definition strategy_args :: "launch_strategy \<Rightarrow> string \<Rightarrow> int \<Rightarrow> argv" where
  "strategy_args s model_path port = tokens (strategy_items s model_path port)"


section \<open>Well-formed items\<close>

definition plain_text :: "string \<Rightarrow> bool" where
  "plain_text v \<longleftrightarrow> \<not> has_prefix v ''-''"

definition value_flag :: "string \<Rightarrow> bool" where
  "value_flag f \<longleftrightarrow> has_prefix f ''-'' \<and> CHR ''='' \<notin> set f \<and> flag_needs_value f"

definition lone_flag :: "string \<Rightarrow> bool" where
  "lone_flag f \<longleftrightarrow> has_prefix f ''-'' \<and> CHR ''='' \<notin> set f \<and> \<not> (flag_needs_value f \<and> flag_value_may_start_with_dash f)"

lemma value_flags [simp]:
  "value_flag ''--cache-type-k''" "value_flag ''--cache-type-k-draft''" "value_flag ''--cache-type-v''"
  "value_flag ''--cache-type-v-draft''" "value_flag ''--cpu-range''" "value_flag ''--cpu-range-batch''"
  "value_flag ''--cpu-strict''" "value_flag ''--cpu-strict-batch''" "value_flag ''--ctx-checkpoints''"
  "value_flag ''--ctx-size''" "value_flag ''--ctx-size-draft''" "value_flag ''--defrag-thold''"
  "value_flag ''--device''" "value_flag ''--device-draft''" "value_flag ''--fit''"
  "value_flag ''--flash-attn''" "value_flag ''--host''" "value_flag ''--mmproj''"
  "value_flag ''--model-draft''" "value_flag ''--n-cpu-moe''" "value_flag ''--parallel''"
  "value_flag ''--port''" "value_flag ''--reasoning''" "value_flag ''--spec-draft-n-max''"
  "value_flag ''--spec-draft-n-min''" "value_flag ''--spec-draft-ngl''" "value_flag ''--spec-ngram-map-k-min-hits''"
  "value_flag ''--spec-ngram-map-k-size-m''" "value_flag ''--spec-ngram-map-k-size-n''" "value_flag ''--spec-ngram-map-k4v-min-hits''"
  "value_flag ''--spec-ngram-map-k4v-size-m''" "value_flag ''--spec-ngram-map-k4v-size-n''" "value_flag ''--spec-ngram-min-hits''"
  "value_flag ''--spec-ngram-mod-n-match''" "value_flag ''--spec-ngram-mod-n-max''" "value_flag ''--spec-ngram-mod-n-min''"
  "value_flag ''--spec-ngram-size-m''" "value_flag ''--spec-ngram-size-n''" "value_flag ''--spec-type''"
  "value_flag ''--split-mode''" "value_flag ''--tensor-split''" "value_flag ''--threads''"
  "value_flag ''--threads-batch''" "value_flag ''--threads-draft''" "value_flag ''--timeout''"
  "value_flag ''-b''" "value_flag ''-cram''" "value_flag ''-m''"
  "value_flag ''-mg''" "value_flag ''-ngl''" "value_flag ''-ot''"
  "value_flag ''-ub''" "value_flag ''--ctx-checkpoints-interval''" "value_flag ''--checkpoint-min-step''"
  "value_flag ''--p-split''" "value_flag ''--spec-draft-p-split''"
  by code_simp+

lemma lone_flags [simp]:
  "lone_flag ''--fit''" "lone_flag ''--jinja''" "lone_flag ''--kv-offload''"
  "lone_flag ''--mlock''" "lone_flag ''--multi-token-prediction''" "lone_flag ''--no-context-shift''"
  "lone_flag ''--no-kv-offload''" "lone_flag ''--no-mmap''" "lone_flag ''--run-time-repack''"
  "lone_flag ''--spec-autotune''" "lone_flag ''-ger''" "lone_flag ''-khad''"
  "lone_flag ''-mqkv''" "lone_flag ''-muge''"
  by code_simp+

lemma has_prefix_single: "has_prefix v [c] \<longleftrightarrow> v \<noteq> [] \<and> hd v = c"
  by (cases v) auto

lemma alias_dashed:
  assumes "map_of flag_aliases k = Some c"
  shows "has_prefix k ''-''"
proof -
  have "list_all (\<lambda>(k, c). has_prefix k ''-'') flag_aliases" by code_simp
  then show ?thesis using map_of_SomeD [OF assms] by (auto simp: list_all_iff)
qed

lemma plain_not_allowed:
  assumes "plain_text v"
  shows "\<not> allowed_tune_flag v"
proof
  assume a: "allowed_tune_flag v"
  have "\<not> has_prefix (flag_stem v) ''-''"
    using assms by (cases v) (auto simp: plain_text_def flag_stem_def cut_char_def split: if_splits)
  moreover from this have "map_of flag_aliases (flag_stem v) = None"
    using alias_dashed by (cases "map_of flag_aliases (flag_stem v)") auto
  ultimately show False using tune_flag_shape(1) [OF a] by (simp add: canonical_flag_name_def)
qed

lemma plain_digits: "plain_text (digits_of_nat n @ s)"
  using digits_of_nat_digits [of n] digits_of_nat_nonempty [of n]
  by (cases "digits_of_nat n") (auto simp: plain_text_def is_digit_def)

lemma plain_itoa [simp]: "0 \<le> n \<Longrightarrow> plain_text (itoa n)"
  using plain_digits [of "nat n" "[]"] by (simp add: itoa_def)

text \<open>An item the tuner reads back as written, and whose value is not a flag.\<close>

definition good_item :: "flag_item \<Rightarrow> bool" where
  "good_item i \<longleftrightarrow> item_ok i \<and> CHR ''='' \<notin> set (fst i) \<and> (case snd i of None \<Rightarrow> True | Some v \<Rightarrow> plain_text v)"

definition good_items :: "flag_item list \<Rightarrow> bool" where
  "good_items its \<longleftrightarrow> list_all good_item its"

lemma good_items_simps [simp]:
  "good_items []" "good_items (i # its) \<longleftrightarrow> good_item i \<and> good_items its"
  "good_items (its @ its') \<longleftrightarrow> good_items its \<and> good_items its'"
  by (simp_all add: good_items_def)

lemma good_items_ok: "good_items its \<Longrightarrow> items_ok its"
  by (auto simp: good_items_def items_ok_def list_all_iff good_item_def)

lemma good_val: "value_flag f \<Longrightarrow> plain_text v \<Longrightarrow> good_item (val_item f v)"
  by (simp add: good_item_def item_ok_def val_item_def value_flag_def plain_not_allowed) (simp add: plain_text_def)

lemma good_num: "value_flag f \<Longrightarrow> 0 \<le> n \<Longrightarrow> good_item (num_item f n)"
  using good_val [of f "itoa n"] by (simp add: val_item_def num_item_def)

lemma good_lone: "lone_flag f \<Longrightarrow> good_item (lone_item f)"
  by (auto simp: good_item_def item_ok_def lone_item_def lone_flag_def)

lemma good_items_opt [simp]: "good_items (opt b xs) \<longleftrightarrow> (b \<longrightarrow> good_items xs)"
  by (simp add: opt_def)

lemma good_items_if [simp]: "good_items (if b then xs else ys) = (if b then good_items xs else good_items ys)"
  by simp

lemmas item_rules [simp] = good_val good_num good_lone

lemma plain_simps [simp]:
  "plain_text (CHR ''C'' # s)" "plain_text (CHR ''V'' # s)" "plain_text ''on''" "plain_text ''off''" "plain_text ''0''" "plain_text ''1''"
  "plain_text ''999''" "plain_text ''0.1''" "plain_text ''2147483647''" "plain_text ''127.0.0.1''"
  "plain_text ''eagle3''" "plain_text ''draft-dflash''" "plain_text ''draft''" "plain_text ''ngram-map-k''" "plain_text ''mtp''" "plain_text ''draft-mtp''"
  by (simp_all add: plain_text_def)

lemma plain_default [simp]: "plain_text s \<Longrightarrow> plain_text d \<Longrightarrow> plain_text (default_text s d)"
  by (simp add: default_text_def)

lemma plain_spec [simp]: "plain_text s \<Longrightarrow> plain_text (spec_type_with_n_max s n)"
  by (cases s) (auto simp: spec_type_with_n_max_def plain_text_def)

lemma plain_device [simp]: "plain_text (draft_device_name t n)" "plain_text (device_name t n)"
  by (simp_all add: draft_device_name_def device_name_def)

lemma plain_fixed [simp]: "0 \<le> v \<Longrightarrow> plain_text (format_fixed2 v @ s)"
  using plain_digits by (simp add: format_fixed2_def Let_def)

lemma plain_fixed_nil [simp]: "0 \<le> v \<Longrightarrow> plain_text (format_fixed2 v)"
  using plain_fixed [of v "[]"] by simp

lemma plain_split:
  assumes "\<forall>v \<in> set vs. 0 \<le> v"
  shows "plain_text (join_with '','' (map format_fixed2 vs))"
  using assms by (cases vs; cases "tl vs") (auto simp: plain_text_def [of "[]"] neq_Nil_conv)

definition sane_draft :: "draft_config option \<Rightarrow> bool" where
  "sane_draft cfg \<longleftrightarrow>
     (case cfg of None \<Rightarrow> True
      | Some d \<Rightarrow> list_all plain_text [dr_path d, dr_kv_type d, dr_gpu_layers d, dr_spec_type d])"

lemma draft_parts_ok:
  assumes "list_all plain_text [dr_path d, dr_kv_type d, dr_gpu_layers d, dr_spec_type d]"
  shows "good_items (draft_model_items d)" "good_items (draft_ngram_items d)" "good_items (draft_mtp_items d)"
  using assms by (simp_all add: draft_model_items_def draft_ngram_items_def draft_mtp_items_def Let_def)

lemma draft_items_good: "sane_draft cfg \<Longrightarrow> good_items (draft_items cfg)"
  using draft_parts_ok by (auto simp: sane_draft_def draft_items_def split: option.splits draft_type.splits)

definition sane_strategy :: "launch_strategy \<Rightarrow> string \<Rightarrow> int \<Rightarrow> bool" where
  "sane_strategy s model_path port \<longleftrightarrow>
     list_all plain_text [model_path, la_host s, s_kv_type s, la_kv_type_v s, la_cpu_range s, la_mmproj_path s,
       pl_split_mode s, pl_ot_string s] \<and>
     list_all (\<lambda>n. 0 \<le> n) [port, s_context_size s, pl_batch_size s, pl_ubatch_size s, la_threads s, la_threads_batch s, la_cram s] \<and>
     (\<forall>v \<in> set (pl_tensor_split s). 0 \<le> v) \<and>
     (la_lookup_flag s \<noteq> [] \<longrightarrow> value_flag (la_lookup_flag s)) \<and>
     (la_min_step_flag s \<noteq> [] \<and> la_min_step_flag s \<noteq> ''-'' \<longrightarrow> value_flag (la_min_step_flag s)) \<and>
     sane_draft (la_draft s)"

lemma parts_ok:
  assumes "sane_strategy s model_path port"
  shows "good_items (cpu_range_items s)" "good_items (offload_items s)" "good_items (sparse_lookup_items s)"
    "good_items (checkpoint_items s)" "good_items (ik_items s)" "good_items (draft_items (la_draft s))"
  using assms draft_items_good
  by (simp_all add: sane_strategy_def cpu_range_items_def offload_items_def sparse_lookup_items_def checkpoint_items_def ik_items_def
      default_text_def default_min_step_flag_def Let_def split: lookup_policy.split)

lemma strategy_items_good:
  assumes "sane_strategy s model_path port"
  shows "good_items (strategy_items s model_path port)"
  using assms parts_ok [OF assms] plain_split [of "pl_tensor_split s"]
  by (simp add: strategy_items_def sane_strategy_def v_cache_type_def)

section \<open>Reading the items back\<close>

lemma flag_items_tokens: "items_ok its \<Longrightarrow> flag_items (tokens its) = its"
proof (induction its)
  case (Cons i its)
  obtain f v where i: "i = (f, v)" by (cases i)
  show ?case using separate_value [of f v its] Cons by (cases v) (simp_all add: i)
qed simp

lemma strategy_args_well_formed:
  assumes "sane_strategy s model_path port"
  shows "well_formed_args (strategy_args s model_path port)"
  using good_items_ok [OF strategy_items_good [OF assms]]
  by (simp add: well_formed_args_def strategy_args_def flag_items_tokens)

text \<open>The readers of \<^verbatim>\<open>go/pkg/placement\<close> look for the first occurrence of a name.\<close>

definition first_item :: "string list \<Rightarrow> flag_item list \<Rightarrow> flag_item option" where
  "first_item names its = List.find (\<lambda>i. fst i \<in> set names) its"

lemma first_item_simps [simp]:
  "first_item names [] = None"
  "first_item names (i # its) = (if fst i \<in> set names then Some i else first_item names its)"
  by (simp_all add: first_item_def)

lemma first_item_append [simp]:
  "first_item names (its @ its') = (case first_item names its of None \<Rightarrow> first_item names its' | Some i \<Rightarrow> Some i)"
  by (induction its) simp_all

lemma first_item_opt [simp]: "first_item names (opt b its) = (if b then first_item names its else None)"
  by (simp add: opt_def)

lemma item_parts [simp]:
  "fst (val_item f v) = f" "fst (num_item f n) = f" "fst (lone_item f) = f"
  "snd (val_item f v) = Some v" "snd (num_item f n) = Some (itoa n)" "snd (lone_item f) = None"
  by (simp_all add: val_item_def num_item_def lone_item_def)

lemma arg_index_from_shift: "arg_index_from (Suc k) a names = map_option Suc (arg_index_from k a names)"
  by (induction a arbitrary: k) auto

lemma arg_index_bound: "arg_index_from 0 a names = Some k \<Longrightarrow> k < length a"
  by (induction a arbitrary: k) (auto simp: arg_index_from_shift split: if_splits)

lemma arg_value_simps:
  "arg_value [] names = None"
  "arg_value (a # args) names = (if a \<in> set names then (case args of [] \<Rightarrow> None | b # _ \<Rightarrow> Some b) else arg_value args names)"
  by (auto simp: arg_value_def arg_index_def arg_index_from_shift split: option.split list.split)

lemma plain_not_name: "plain_text v \<Longrightarrow> \<forall>n \<in> set names. has_prefix n ''-'' \<Longrightarrow> v \<notin> set names"
  by (auto simp: plain_text_def)

lemma arg_index_tokens:
  assumes "good_items its" "\<forall>n \<in> set names. has_prefix n ''-''"
  shows "(arg_index (tokens its) names = None) = (first_item names its = None)"
  using assms(1)
proof (induction its)
  case (Cons i its)
  obtain f v where i: "i = (f, v)" by (cases i)
  show ?case
    using Cons plain_not_name [OF _ assms(2)]
    by (cases v) (auto simp: i arg_index_def arg_index_from_shift good_item_def)
qed (simp add: arg_index_def)

lemma arg_value_tokens:
  assumes "good_items its" "\<forall>n \<in> set names. has_prefix n ''-''" "first_item names its = Some (f, Some v)"
  shows "arg_value (tokens its) names = Some v"
  using assms(1,3)
proof (induction its)
  case (Cons i its)
  obtain g w where i: "i = (g, w)" by (cases i)
  show ?case
    using Cons plain_not_name [OF _ assms(2)]
    by (cases w) (auto simp: i arg_value_simps good_item_def split: if_splits)
qed simp

lemma arg_value_absent: "arg_index a names = None \<Longrightarrow> arg_value a names = None"
  by (simp add: arg_value_def)

text \<open>The names the cache entry is read from, and the parts of a strategy that have none of them.\<close>

definition cache_names :: "string list" where
  "cache_names = [''-ot'', ''--override-tensor'', ''--tensor-split'', ''--split-mode'', ''--n-cpu-moe'', ''-b'', ''--batch-size'',
     ''-ub'', ''--ubatch-size'', ''--parallel'', ''-np'', ''--no-mmap'', ''--no-kv-offload'']"

lemma first_item_foreign:
  assumes "list_all (\<lambda>i. fst i \<notin> set cache_names) its" "set names \<subseteq> set cache_names"
  shows "first_item names its = None"
  using assms by (induction its) auto

lemma foreign_simps [simp]:
  "list_all P (opt b xs) = (b \<longrightarrow> list_all P xs)"
  by (simp add: opt_def)

lemma foreign_drafts: "list_all (\<lambda>i. fst i \<notin> set cache_names) (draft_items cfg)"
  by (simp add: draft_items_def draft_model_items_def draft_ngram_items_def draft_mtp_items_def Let_def cache_names_def
      split: option.split draft_type.split)

definition own_flags :: "launch_strategy \<Rightarrow> bool" where
  "own_flags s \<longleftrightarrow> la_lookup_flag s \<notin> set cache_names \<and> la_min_step_flag s \<notin> set cache_names"

lemma foreign_parts:
  assumes "own_flags s"
  shows "list_all (\<lambda>i. fst i \<notin> set cache_names) (cpu_range_items s)"
    "list_all (\<lambda>i. fst i \<notin> set cache_names) (offload_items s)"
    "list_all (\<lambda>i. fst i \<notin> set cache_names) (sparse_lookup_items s)"
    "list_all (\<lambda>i. fst i \<notin> set cache_names) (checkpoint_items s)"
    "list_all (\<lambda>i. fst i \<notin> set cache_names) (ik_items s)"
  using assms
  by (simp_all add: own_flags_def cpu_range_items_def offload_items_def sparse_lookup_items_def checkpoint_items_def ik_items_def
      default_text_def default_min_step_flag_def Let_def cache_names_def split: lookup_policy.split)

text \<open>The items of one name.\<close>

definition items_named :: "string list \<Rightarrow> flag_item list \<Rightarrow> flag_item list" where
  "items_named names its = filter (\<lambda>i. fst i \<in> set names) its"

lemma items_named_simps [simp]:
  "items_named names [] = []" "items_named names (i # its) = opt (fst i \<in> set names) [i] @ items_named names its"
  "items_named names (its @ its') = items_named names its @ items_named names its'"
  "items_named names (opt b its) = opt b (items_named names its)"
  by (simp_all add: items_named_def opt_def)

lemma items_named_foreign:
  "list_all (\<lambda>i. fst i \<notin> set cache_names) its \<Longrightarrow> set names \<subseteq> set cache_names \<Longrightarrow> items_named names its = []"
  by (induction its) (auto simp: opt_def)

lemma first_item_named: "first_item names its = (case items_named names its of [] \<Rightarrow> None | i # _ \<Rightarrow> Some i)"
  by (induction its) (simp_all add: opt_def)

lemma opt_simps [simp]: "opt True xs = xs" "opt False xs = []" "opt b [] = []"
  by (simp_all add: opt_def)

lemma kv_offload_items:
  "items_named names (if b then xs else ys) = (if b then items_named names xs else items_named names ys)"
  by simp

lemma strategy_items_named:
  assumes "own_flags s"
  shows "items_named [''-b'', ''--batch-size''] (strategy_items s m p) = [num_item ''-b'' (pl_batch_size s)]"
    "items_named [''-ub'', ''--ubatch-size''] (strategy_items s m p) = [num_item ''-ub'' (pl_ubatch_size s)]"
    "items_named [''--parallel'', ''-np''] (strategy_items s m p) =
       [num_item ''--parallel'' (if s_parallel s > 0 then s_parallel s else 1)]"
    "items_named [''-ot'', ''--override-tensor''] (strategy_items s m p) =
       opt (pl_ot_string s \<noteq> []) [val_item ''-ot'' (pl_ot_string s)]"
    "items_named [''--tensor-split''] (strategy_items s m p) =
       opt (pl_tensor_split s \<noteq> []) [val_item ''--tensor-split'' (join_with '','' (map format_fixed2 (pl_tensor_split s)))]"
    "items_named [''--split-mode''] (strategy_items s m p) = opt (pl_split_mode s \<noteq> []) [val_item ''--split-mode'' (pl_split_mode s)]"
    "items_named [''--n-cpu-moe''] (strategy_items s m p) = opt (pl_n_cpu_moe s > 0) [num_item ''--n-cpu-moe'' (pl_n_cpu_moe s)]"
    "items_named [''--no-mmap''] (strategy_items s m p) = opt (\<not> pl_mmap s) [lone_item ''--no-mmap'']"
    "items_named [''--no-kv-offload''] (strategy_items s m p) = opt (s_kv_placement s = ''cpu'') [lone_item ''--no-kv-offload'']"
  by (simp_all add: strategy_items_def items_named_foreign [OF foreign_drafts] foreign_parts [OF assms, THEN items_named_foreign]
      cache_names_def kv_offload_items)

lemma named_first:
  "items_named names its = [i] \<Longrightarrow> first_item names its = Some i"
  "items_named names its = opt b [i] \<Longrightarrow> first_item names its = (if b then Some i else None)"
  by (simp_all add: first_item_named opt_def)

lemma named_value:
  assumes "good_items its" "items_named names its = opt b [i]" "snd i = Some v" "\<forall>n \<in> set names. has_prefix n ''-''"
  shows "arg_value (tokens its) names = (if b then Some v else None)"
proof -
  obtain f where i: "i = (f, Some v)" using assms(3) by (cases i) auto
  show ?thesis
    using named_first(2) [OF assms(2)] arg_value_tokens [OF assms(1,4), of f v] arg_index_tokens [OF assms(1,4)] arg_value_absent i
    by simp
qed

lemma named_value1:
  assumes "good_items its" "items_named names its = [i]" "snd i = Some v" "\<forall>n \<in> set names. has_prefix n ''-''"
  shows "arg_value (tokens its) names = Some v"
  using named_value [of its names True i v] assms by simp

lemma strategy_arg_values:
  assumes "sane_strategy s m p" "own_flags s"
  shows "arg_value (strategy_args s m p) [''-b'', ''--batch-size''] = Some (itoa (pl_batch_size s))"
    "arg_value (strategy_args s m p) [''-ub'', ''--ubatch-size''] = Some (itoa (pl_ubatch_size s))"
    "arg_value (strategy_args s m p) [''--parallel'', ''-np''] = Some (itoa (if s_parallel s > 0 then s_parallel s else 1))"
    "arg_value (strategy_args s m p) [''-ot'', ''--override-tensor''] = (if pl_ot_string s \<noteq> [] then Some (pl_ot_string s) else None)"
    "arg_value (strategy_args s m p) [''--tensor-split''] =
       (if pl_tensor_split s \<noteq> [] then Some (join_with '','' (map format_fixed2 (pl_tensor_split s))) else None)"
    "arg_value (strategy_args s m p) [''--split-mode''] = (if pl_split_mode s \<noteq> [] then Some (pl_split_mode s) else None)"
    "arg_value (strategy_args s m p) [''--n-cpu-moe''] = (if pl_n_cpu_moe s > 0 then Some (itoa (pl_n_cpu_moe s)) else None)"
  unfolding strategy_args_def
  by (rule strategy_items_named(1-3) [OF assms(2), THEN named_value1 [OF strategy_items_good [OF assms(1)]]]
      strategy_items_named(4-7) [OF assms(2), THEN named_value [OF strategy_items_good [OF assms(1)]]], simp, simp)+

lemma strategy_arg_switches:
  assumes "sane_strategy s m p" "own_flags s"
  shows "(arg_index (strategy_args s m p) [''--no-mmap''] = None) = pl_mmap s"
    "(arg_index (strategy_args s m p) [''--no-kv-offload''] = None) = (s_kv_placement s \<noteq> ''cpu'')"
  using arg_index_tokens [OF strategy_items_good [OF assms(1)]] strategy_items_named [OF assms(2)]
  by (simp_all add: strategy_args_def first_item_named opt_def)

section \<open>The entry read back\<close>

definition in_int :: "int \<Rightarrow> bool" where
  "in_int n \<longleftrightarrow> min_int \<le> n \<and> n \<le> max_int"

text \<open>The entry of a strategy as its command line states it.\<close>

definition stated_entry :: "launch_strategy \<Rightarrow> gpu_assignment list \<Rightarrow> cache_entry" where
  "stated_entry s as =
     empty_entry\<lparr>
       ce_gpu_assignments := positive_assignments as,
       ce_ot_string := pl_ot_string s,
       ce_tensor_split := map round2 (pl_tensor_split s),
       ce_split_mode := pl_split_mode s,
       ce_n_cpu_moe := max (pl_n_cpu_moe s) 0,
       ce_batch_size := pl_batch_size s,
       ce_ubatch_size := pl_ubatch_size s,
       ce_parallel := (if s_parallel s > 0 then s_parallel s else 1),
       ce_mmap := pl_mmap s,
       ce_kv_unified := (s_kv_placement s \<noteq> ''cpu'')\<rparr>"

lemma entry_from_strategy_args:
  assumes "sane_strategy s m p" "own_flags s"
    "list_all in_int [pl_n_cpu_moe s, pl_batch_size s, pl_ubatch_size s, s_parallel s]"
  shows "cache_entry_from_args (strategy_args s m p) as = stated_entry s as"
  using assms(3) parse_split_tokens [of "pl_tensor_split s"] assms(1)
  by (auto simp: cache_entry_from_args_def Let_def strategy_arg_values [OF assms(1,2)] strategy_arg_switches [OF assms(1,2)]
      stated_entry_def in_int_def atoi_value_itoa sane_strategy_def max_int_def min_int_def)

section \<open>The command line under the tuner\<close>

lemma canonical_batch:
  "canonical_flag_name f = ''-b'' \<longleftrightarrow> flag_stem f \<in> {''-b'', ''--batch-size''}"
  "canonical_flag_name f = ''-ub'' \<longleftrightarrow> flag_stem f \<in> {''-ub'', ''--ubatch-size''}"
proof -
  have a: "list_all (\<lambda>(k, c). (c = ''-b'' \<longrightarrow> k \<in> {''-b'', ''--batch-size''}) \<and> (c = ''-ub'' \<longrightarrow> k \<in> {''-ub'', ''--ubatch-size''}))
      flag_aliases" by code_simp
  have b: "map_of flag_aliases ''-b'' = Some ''-b''" "map_of flag_aliases ''--batch-size'' = Some ''-b''"
    "map_of flag_aliases ''-ub'' = Some ''-ub''" "map_of flag_aliases ''--ubatch-size'' = Some ''-ub''"
    by code_simp+
  show "canonical_flag_name f = ''-b'' \<longleftrightarrow> flag_stem f \<in> {''-b'', ''--batch-size''}"
    "canonical_flag_name f = ''-ub'' \<longleftrightarrow> flag_stem f \<in> {''-ub'', ''--ubatch-size''}"
    using a b by (auto simp: canonical_flag_name_def list_all_iff split: option.splits dest: map_of_SomeD)
qed

lemma canonical_items:
  assumes "good_items its"
  shows "[i \<leftarrow> its. canonical_flag_name (fst i) = ''-b''] = items_named [''-b'', ''--batch-size''] its"
    "[i \<leftarrow> its. canonical_flag_name (fst i) = ''-ub''] = items_named [''-ub'', ''--ubatch-size''] its"
  using assms unfolding items_named_def
  by (auto simp: canonical_batch flag_stem_plain good_items_def good_item_def list_all_iff intro!: filter_cong)

lemma flag_map_single:
  assumes "good_items its" "[i \<leftarrow> its. canonical_flag_name (fst i) = k] = [num_item f n]" "CHR ''='' \<notin> set f"
    "canonical_flag_name f = k"
  shows "flag_map (tokens its) k = Some (itoa n)"
  using put_items_key [of "\<lambda>_. None" its k] assms
  by (simp add: flag_map_def flag_map_items [OF good_items_ok] put_item_def num_item_def cut_char_def)

lemma strategy_batch_flags:
  assumes "sane_strategy s m p" "own_flags s"
  shows "flag_map (strategy_args s m p) ''-b'' = Some (itoa (pl_batch_size s))"
    "flag_map (strategy_args s m p) ''-ub'' = Some (itoa (pl_ubatch_size s))"
  unfolding strategy_args_def
  by (rule flag_map_single [OF strategy_items_good [OF assms(1)]],
      simp add: canonical_items [OF strategy_items_good [OF assms(1)]] strategy_items_named [OF assms(2)], simp, simp add: ub_canonical)+

section \<open>Properties\<close>

text \<open>
  C25: The command line carries the plan. The cache entry read back from the arguments of a strategy
  is the entry of the strategy itself: same expert override, split mode, CPU layers, batch sizes and
  mmap choice, the tensor split to two decimals. What the command line cannot carry is stated: the
  assignments come from the launcher, the free memory snapshot and the model's name are not there, a
  parallelism of zero becomes one, and the unified-cache flag is true for every KV placement but the
  CPU one, where the strategy's own entry has it for the GPU placement only.
\<close>

theorem strategy_args_roundtrip:
  assumes "sane_strategy s m p" "own_flags s"
    "list_all in_int [pl_n_cpu_moe s, pl_batch_size s, pl_ubatch_size s, s_parallel s]"
    "strategy_to_cache_entry (Some (placed_strategy.truncate s)) = Some e"
  shows "cache_entry_from_args (strategy_args s m p) as =
    e\<lparr>ce_gpu_assignments := positive_assignments as,
      ce_tensor_split := map round2 (ce_tensor_split e),
      ce_n_cpu_moe := max (ce_n_cpu_moe e) 0,
      ce_parallel := (if ce_parallel e > 0 then ce_parallel e else 1),
      ce_kv_unified := (s_kv_placement s \<noteq> ''cpu''),
      ce_model_basename := [], ce_plan_free_vram := []\<rparr>"
  using assms(4) entry_from_strategy_args [OF assms(1-3)]
  by (auto simp: strategy_to_cache_entry_def placed_strategy.defs stated_entry_def empty_entry_def)

text \<open>
  C26: A tuned launch is still the launch that was placed. Whatever plain overrides the tuner applies to
  the command line of a strategy whose micro-batch does not exceed its batch, every quality-protected
  flag - model, context, device selection, splits, expert placement, batch sizes, cache types, slots -
  reads as the strategy wrote it, without the exception the clamp makes in general.
\<close>

theorem tuned_launch_keeps_placement:
  assumes "sane_strategy s m p" "own_flags s" "\<forall>kv \<in> set overrides. plain_override g kv"
    "0 < pl_ubatch_size s" "pl_ubatch_size s \<le> pl_batch_size s" "pl_batch_size s \<le> max_int" "k \<in> quality_protected_flags"
  shows "flag_map (apply_overrides g (strategy_args s m p) overrides quality_protected_flags) k =
    flag_map (strategy_args s m p) k"
proof -
  have b: "''-b'' \<in> quality_protected_flags" by (simp add: quality_protected_flags_def ub_canonical)
  have "stated_int (strategy_args s m p) ''-b'' = Some (pl_batch_size s)"
    "stated_int (strategy_args s m p) ''-ub'' = Some (pl_ubatch_size s)"
    using strategy_batch_flags [OF assms(1,2)] stated_itoa assms(4-6) by simp_all
  then show ?thesis
    using protected_value_cases [OF strategy_args_well_formed [OF assms(1)] assms(3,7)] b assms(5) by auto
qed

definition demo_strategy :: launch_strategy where
  "demo_strategy =
     \<lparr>s_type = MultiGPUDense, s_context_size = 8, s_kv_placement = ''auto'', s_kv_type = ''q8_0'', s_mmap_required = False,
      s_parallel = 0, s_plan_free_vram = [(0, 9)], s_verified_reused = False, s_context_auto = False,
      s_context_fit_tier = [], s_context_fit_rejected = 0, s_context_fit_evidence = [],
      pl_ot_string = ''blk.0.=CPU'', pl_tensor_split = [1, 3], pl_split_mode = ''layer'', pl_n_cpu_moe = - 1,
      pl_batch_size = 4, pl_ubatch_size = 2, pl_mmap = False, pl_model_basename = ''a.gguf'',
      la_host = [], la_flash_attention = True, la_kv_type_v = [], la_threads = 3, la_threads_batch = 3, la_cpu_range = [],
      la_cpu_strict = False, la_supports_cpu_range = False, la_supports_cpu_range_batch = False,
      la_supports_cpu_strict_batch = False, la_supports_kv_offload = True, la_reasoning_off = False, la_has_ssm = False,
      la_supports_no_context_shift = True, la_mmproj_path = [], la_supports_fit = False, la_fit_takes_value = False,
      la_main_gpu = 0, la_backend_tag = ''cuda'', la_mlock = False, la_cram = 0, la_max_checkpoints = 1,
      la_checkpoint_min_step = 0, la_min_step_flag = [], la_is_moe = True, la_draft = None, la_lookup_mb = 0,
      la_lookup_flag = [], la_lookup_policy = NoPolicy\<rparr>"

lemma demo_strategy_ok:
  "sane_strategy demo_strategy ''a.gguf'' 81" "own_flags demo_strategy"
  by (simp_all add: sane_strategy_def own_flags_def demo_strategy_def plain_text_def cache_names_def sane_draft_def)

lemma strategy_args_roundtrip_witness:
  "cache_entry_from_args (strategy_args demo_strategy ''a.gguf'' 81) [] =
     empty_entry\<lparr>ce_ot_string := ''blk.0.=CPU'', ce_tensor_split := map round2 [1, 3], ce_split_mode := ''layer'',
       ce_batch_size := 4, ce_ubatch_size := 2, ce_parallel := 1, ce_kv_unified := True\<rparr>"
proof -
  have e: "strategy_to_cache_entry (Some (placed_strategy.truncate demo_strategy)) =
      Some (empty_entry\<lparr>ce_ot_string := ''blk.0.=CPU'', ce_tensor_split := [1, 3], ce_split_mode := ''layer'',
        ce_n_cpu_moe := - 1, ce_batch_size := 4, ce_ubatch_size := 2, ce_model_basename := ''a.gguf'',
        ce_plan_free_vram := [(0, 9)]\<rparr>)"
    by (simp add: strategy_to_cache_entry_def placed_strategy.defs demo_strategy_def empty_entry_def)
  have "list_all in_int [pl_n_cpu_moe demo_strategy, pl_batch_size demo_strategy, pl_ubatch_size demo_strategy, s_parallel demo_strategy]"
    by (simp add: demo_strategy_def in_int_def min_int_def max_int_def)
  from strategy_args_roundtrip [OF demo_strategy_ok this e, of "[]"] show ?thesis
    by (simp add: empty_entry_def positive_assignments_def) (simp add: demo_strategy_def)
qed

lemma tuned_launch_keeps_placement_witness:
  "flag_map (apply_overrides (\<lambda>_. []) (strategy_args demo_strategy ''a.gguf'' 81) demo_overrides quality_protected_flags) ''-m'' =
   Some ''a.gguf''"
proof -
  have "\<forall>kv \<in> set demo_overrides. plain_override (\<lambda>_. []) kv" by code_simp
  moreover have "''-m'' \<in> quality_protected_flags" by code_simp
  ultimately have "flag_map (apply_overrides (\<lambda>_. []) (strategy_args demo_strategy ''a.gguf'' 81) demo_overrides quality_protected_flags) ''-m'' =
      flag_map (strategy_args demo_strategy ''a.gguf'' 81) ''-m''"
    by (intro tuned_launch_keeps_placement demo_strategy_ok) (simp_all add: demo_strategy_def max_int_def)
  moreover have "flag_map (strategy_args demo_strategy ''a.gguf'' 81) ''-m'' = Some ''a.gguf''" by code_simp
  ultimately show ?thesis by simp
qed

end
