(* ===== verification/SparseLookup.thy ===== *)
theory SparseLookup
  imports StrategyArgs BestScan ModelProfile
begin

text \<open>
  The sparse lookup tier (\<^verbatim>\<open>go/pkg/placement/sparselookup.go\<close>): which policies may hold the
  lookup tables of a model, the profile each policy plans with, the choice among the plans, the
  charge of a resident tier to host memory, and the scope of the evidence.

  The planning pass for one policy (\<^verbatim>\<open>Compute\<close> with the policy set) is a parameter; it
  returns the plan or its error together with the profile, whose measurements it may have updated.
\<close>

section \<open>Capabilities and policies\<close>

datatype lookup_capability = LookupUnknown | LookupFileBacked | LookupAnonymous

definition normalize_lookup_capability :: "string \<Rightarrow> lookup_capability" where
  "normalize_lookup_capability v =
     (let t = to_lower (trim_space v) in
      if t = ''file-backed'' then LookupFileBacked
      else if t = ''anonymous'' then LookupAnonymous
      else LookupUnknown)"

definition policy_text :: "lookup_policy \<Rightarrow> string" where
  "policy_text p =
     (case p of NoPolicy \<Rightarrow> [] | LayerTier \<Rightarrow> ''layer'' | ResidentTier \<Rightarrow> ''resident'' | PagedTier \<Rightarrow> ''paged'')"

definition normalize_lookup_policy :: "string \<Rightarrow> lookup_policy" where
  "normalize_lookup_policy v =
     (let t = to_lower (trim_space v) in
      if t = ''layer'' then LayerTier
      else if t = ''resident'' then ResidentTier
      else if t = ''paged'' then PagedTier
      else NoPolicy)"

definition sparse_lookup_lazy_flag :: string where
  "sparse_lookup_lazy_flag = ''--lazy-mode''"

record lookup_options =
  lo_capability :: string
  lo_evidence :: string
  lo_flag :: string
  lo_lazy :: string
  lo_policy :: lookup_policy
  lo_force_mmap :: bool
  lo_backend_identity :: string
  lo_backend_tag :: string

record lookup_strategy = launch_strategy +
  lk_bytes :: int
  lk_capability :: lookup_capability
  lk_evidence :: string
  lk_ranges :: "sparse_lookup_range list"
  lk_host_footprint_mb :: int

datatype lookup_refusal =
    LazyContractMissing string string string string int
  | ResidentNoRoom string int int
  | ExpertPagingRefused int int int string

datatype 'e lookup_error =
    LookupRefused lookup_refusal
  | NoTierFits int string "(lookup_policy \<times> 'e) list" "string option"

definition sparse_lookup_kind :: "model_profile option \<Rightarrow> string" where
  "sparse_lookup_kind mo =
     (case mo of
        Some m \<Rightarrow> if m_sparse_lookup_kind m \<noteq> [] then m_sparse_lookup_kind m @ '' lookup'' else ''sparse lookup''
      | None \<Rightarrow> ''sparse lookup'')"

definition sparse_lookup_flag :: "lookup_options \<Rightarrow> string" where
  "sparse_lookup_flag opts =
     (let f = trim_space (lo_flag opts) in if f \<noteq> [] then f else sparse_lookup_lazy_flag)"

definition sparse_lookup_backend_name :: "lookup_options \<Rightarrow> string" where
  "sparse_lookup_backend_name opts =
     (case List.find (\<lambda>v. v \<noteq> []) (map trim_space [lo_backend_identity opts, lo_backend_tag opts]) of
        Some v \<Rightarrow> v
      | None \<Rightarrow> ''the selected backend'')"

definition lookup_lazy :: "lookup_options \<Rightarrow> bool" where
  "lookup_lazy opts \<longleftrightarrow> normalize_lookup_capability (lo_capability opts) = LookupFileBacked"

text \<open>The policies to try, in order of preference.\<close>

definition sparse_lookup_candidates :: "model_profile \<Rightarrow> lookup_options \<Rightarrow> lookup_refusal + lookup_policy list" where
  "sparse_lookup_candidates m opts =
     (let lazy = lookup_lazy opts;
          choice = to_lower (trim_space (lo_lazy opts))
      in
      if choice = ''off'' then Inr [LayerTier]
      else if choice = ''on'' \<and> \<not> lazy then
        Inl (LazyContractMissing (sparse_lookup_flag opts) (sparse_lookup_backend_name opts) (m_sparse_lookup_kind m)
          (trim_space (lo_evidence opts)) (bytes_to_mib_ceil (m_sparse_lookup_bytes m)))
      else if lazy then Inr [ResidentTier, PagedTier]
      else Inr [LayerTier])"

section \<open>The profile of a policy\<close>

text \<open>The addition of the layer bytes, for the indices both slices have.\<close>

fun add_layers :: "int list \<Rightarrow> int list \<Rightarrow> int list" where
  "add_layers [] bs = []"
| "add_layers layers [] = layers"
| "add_layers (l # layers) (b # bs) = (l + b) # add_layers layers bs"

definition sparse_lookup_model_view :: "model_profile \<Rightarrow> lookup_policy \<Rightarrow> model_profile" where
  "sparse_lookup_model_view m policy =
     (if policy = LayerTier then
        m\<lparr>m_non_expert_bytes := m_non_expert_bytes m + m_sparse_lookup_bytes m,
          m_non_expert_layer_bytes :=
            (if length (m_non_expert_layer_bytes m) > 0
             then add_layers (m_non_expert_layer_bytes m) (m_sparse_lookup_layer_bytes m)
             else m_non_expert_layer_bytes m)\<rparr>
      else
        let removed = (if m_sparse_lookup_bytes m > m_size_bytes m then m_size_bytes m else m_sparse_lookup_bytes m) in
        m\<lparr>m_size_bytes := m_size_bytes m - removed,
          m_sparse_lookup_view_bytes := m_sparse_lookup_view_bytes m + removed,
          m_total_size_mb :=
            (if m_total_size_mb m > 0
             then (let t = m_total_size_mb m - bytes_to_mib_floor removed in if t < 1 then 1 else t)
             else m_total_size_mb m)\<rparr>)"

definition artifact_size_bytes :: "model_profile \<Rightarrow> int" where
  "artifact_size_bytes m = m_size_bytes m + m_sparse_lookup_view_bytes m"

definition artifact_total_size_mb :: "model_profile \<Rightarrow> int" where
  "artifact_total_size_mb m =
     (if m_sparse_lookup_view_bytes m \<le> 0 \<or> m_total_size_mb m \<le> 0 then m_total_size_mb m
      else m_total_size_mb m + bytes_to_mib_floor (m_sparse_lookup_view_bytes m))"

definition strategy_accounting ::
  "model_profile option \<Rightarrow> lookup_strategy option \<Rightarrow> lookup_options \<Rightarrow> model_profile option \<times> lookup_options" where
  "strategy_accounting mo so opts =
     (case (mo, so) of
        (Some m, Some s) \<Rightarrow>
          if la_lookup_policy s = NoPolicy \<or> lo_policy opts \<noteq> NoPolicy then (mo, opts)
          else
            (Some (if m_sparse_lookup_bytes m > 0 then sparse_lookup_model_view m (la_lookup_policy s) else m),
             opts\<lparr>lo_policy := la_lookup_policy s\<rparr>)
      | _ \<Rightarrow> (mo, opts))"

section \<open>Scoped evidence\<close>

definition scope_suffix :: "lookup_policy \<Rightarrow> string" where
  "scope_suffix p = ''|lookup='' @ policy_text p"

definition sparse_lookup_scoped_tag :: "string \<Rightarrow> lookup_policy \<Rightarrow> string" where
  "sparse_lookup_scoped_tag tag p =
     (if p = NoPolicy then tag
      else if has_suffix tag (scope_suffix p) then tag
      else tag @ scope_suffix p)"

definition default_backend :: "string \<Rightarrow> string" where
  "default_backend tag = (let t = trim_space tag in if t = [] then ''llama'' else t)"

definition scoped_backend_cache_tag :: "string \<Rightarrow> string \<Rightarrow> string" where
  "scoped_backend_cache_tag tag workload =
     (let t = default_backend tag; w = trim_space workload in
      if w = [] then t else t @ ''|workload='' @ w)"

definition scoped_backend_feature_tag :: "string \<Rightarrow> bool \<Rightarrow> string" where
  "scoped_backend_feature_tag tag swa_full =
     (let t = default_backend tag in
      if contains_sub t ''|swa-full='' then t
      else if \<not> swa_full then t
      else t @ ''|swa-full=true'')"

definition backend_cache_tag :: "string \<Rightarrow> string \<Rightarrow> string \<Rightarrow> bool \<Rightarrow> lookup_policy \<Rightarrow> string" where
  "backend_cache_tag cache_tag backend_tag workload swa_full policy =
     (let tag = (let t = trim_space cache_tag in if t = [] then backend_tag else t) in
      sparse_lookup_scoped_tag (scoped_backend_feature_tag (scoped_backend_cache_tag tag workload) swa_full) policy)"

section \<open>Charging the tier\<close>

definition sparse_lookup_resident_caps ::
  "capabilities option \<Rightarrow> model_profile option \<Rightarrow> lookup_options \<Rightarrow> lookup_refusal + capabilities option" where
  "sparse_lookup_resident_caps caps mo opts =
     (case mo of
        None \<Rightarrow> Inr caps
      | Some m \<Rightarrow>
          if lo_policy opts \<noteq> ResidentTier \<or> m_sparse_lookup_bytes m \<le> 0 then Inr caps
          else
            let tier = bytes_to_mib_ceil (m_sparse_lookup_bytes m) in
            (case caps of
               None \<Rightarrow> Inl (ResidentNoRoom (sparse_lookup_kind mo) tier 0)
             | Some c \<Rightarrow>
                 if ram_free_mb (c_ram c) \<le> tier
                 then Inl (ResidentNoRoom (sparse_lookup_kind mo) tier (ram_free_mb (c_ram c)))
                 else Inr (apply_ram_headroom caps tier)))"

definition apply_sparse_lookup_tier ::
  "lookup_strategy \<Rightarrow> model_profile option \<Rightarrow> lookup_options \<Rightarrow> lookup_strategy" where
  "apply_sparse_lookup_tier s mo opts =
     (case mo of
        None \<Rightarrow> s
      | Some m \<Rightarrow>
          if m_sparse_lookup_bytes m \<le> 0 \<or> lo_policy opts = NoPolicy then s
          else
            let tier = bytes_to_mib_ceil (m_sparse_lookup_bytes m);
                already = (la_lookup_policy s = lo_policy opts \<and> la_lookup_mb s = tier);
                flag = trim_space (lo_flag opts)
            in s\<lparr>la_lookup_mb := tier,
                 lk_bytes := m_sparse_lookup_bytes m,
                 la_lookup_policy := lo_policy opts,
                 lk_capability := normalize_lookup_capability (lo_capability opts),
                 la_lookup_flag := (if flag = [] \<and> lo_policy opts \<noteq> LayerTier then sparse_lookup_lazy_flag else flag),
                 lk_evidence := lo_evidence opts,
                 lk_ranges := m_sparse_lookup_ranges m,
                 lk_host_footprint_mb :=
                   (if \<not> already \<and> lo_policy opts = ResidentTier \<and> lk_host_footprint_mb s > 0
                    then lk_host_footprint_mb s + tier else lk_host_footprint_mb s)\<rparr>)"

definition strategy_uses_lazy_lookup :: "lookup_strategy \<Rightarrow> bool" where
  "strategy_uses_lazy_lookup s \<longleftrightarrow>
     la_lookup_mb s > 0 \<and> (la_lookup_policy s = ResidentTier \<or> la_lookup_policy s = PagedTier)"

definition strategy_uses_file_backed_lookup :: "lookup_strategy \<Rightarrow> bool" where
  "strategy_uses_file_backed_lookup s \<longleftrightarrow> la_lookup_mb s > 0 \<and> la_lookup_policy s = PagedTier"

definition sparse_lookup_expert_paging_error ::
  "model_profile option \<Rightarrow> lookup_options \<Rightarrow> int \<Rightarrow> int \<Rightarrow> lookup_refusal option" where
  "sparse_lookup_expert_paging_error mo opts needed avail =
     (case mo of
        None \<Rightarrow> None
      | Some m \<Rightarrow>
          if m_sparse_lookup_bytes m \<le> 0 \<or> lo_force_mmap opts \<or> lo_policy opts \<noteq> PagedTier then None
          else Some (ExpertPagingRefused needed avail (bytes_to_mib_ceil (m_sparse_lookup_bytes m)) (sparse_lookup_kind mo)))"

definition sparse_lookup_record_matches ::
  "lookup_strategy option \<Rightarrow> model_profile option \<Rightarrow> lookup_options \<Rightarrow> bool" where
  "sparse_lookup_record_matches restored mo opts =
     (case (restored, mo) of
        (Some r, Some m) \<Rightarrow>
          m_sparse_lookup_bytes m \<le> 0 \<or>
          (la_lookup_policy r = lo_policy opts \<and> la_lookup_mb r = bytes_to_mib_ceil (m_sparse_lookup_bytes m))
      | _ \<Rightarrow> True)"

section \<open>The choice of a policy\<close>

definition sparse_lookup_plan_better :: "lookup_strategy \<Rightarrow> lookup_strategy \<Rightarrow> bool" where
  "sparse_lookup_plan_better a b =
     (if s_mmap_required a \<noteq> s_mmap_required b then \<not> s_mmap_required a
      else s_context_size a > s_context_size b)"

definition sync_measured_model_fields :: "model_profile \<Rightarrow> model_profile \<Rightarrow> model_profile" where
  "sync_measured_model_fields dst src =
     dst\<lparr>m_measured_kv_bytes_per_tok := m_measured_kv_bytes_per_tok src,
         m_measured_kv_geometry := m_measured_kv_geometry src,
         m_measured_compute_coefficient := m_measured_compute_coefficient src\<rparr>"

type_synonym 'e planning_pass =
  "capabilities option \<Rightarrow> model_profile \<Rightarrow> lookup_options \<Rightarrow> ('e + lookup_strategy) \<times> model_profile"

text \<open>One pass, and the loop over the candidates with its two accumulators.\<close>

definition policy_pass ::
  "'e planning_pass \<Rightarrow> capabilities option \<Rightarrow> lookup_options \<Rightarrow> model_profile \<Rightarrow> lookup_policy \<Rightarrow>
     ('e + lookup_strategy) \<times> model_profile" where
  "policy_pass pass caps opts m policy =
     (let (r, view) = pass caps (sparse_lookup_model_view m policy) (opts\<lparr>lo_policy := policy\<rparr>) in
      (r, sync_measured_model_fields m view))"

fun try_policies ::
  "'e planning_pass \<Rightarrow> capabilities option \<Rightarrow> lookup_options \<Rightarrow> model_profile \<Rightarrow> lookup_strategy option \<Rightarrow>
     (lookup_policy \<times> 'e) list \<Rightarrow> lookup_policy list \<Rightarrow>
     lookup_strategy option \<times> (lookup_policy \<times> 'e) list \<times> model_profile" where
  "try_policies pass caps opts m best errs [] = (best, errs, m)"
| "try_policies pass caps opts m best errs (p # ps) =
     (let (r, m') = policy_pass pass caps opts m p in
      case r of
        Inl e \<Rightarrow> try_policies pass caps opts m' best (errs @ [(p, e)]) ps
      | Inr s \<Rightarrow>
          try_policies pass caps opts m'
            (case best of None \<Rightarrow> Some s | Some b \<Rightarrow> if sparse_lookup_plan_better s b then Some s else best) errs ps)"

definition lookup_hint :: "lookup_options \<Rightarrow> lookup_policy list \<Rightarrow> string option" where
  "lookup_hint opts candidates =
     (if candidates = [LayerTier]
      then Some (if equal_fold (trim_space (lo_lazy opts)) ''off'' then ''lazy reads were turned off''
                 else trim_space (lo_evidence opts))
      else None)"

definition compute_sparse_lookup ::
  "'e planning_pass \<Rightarrow> capabilities option \<Rightarrow> model_profile \<Rightarrow> lookup_options \<Rightarrow>
     ('e lookup_error + lookup_strategy) \<times> model_profile" where
  "compute_sparse_lookup pass caps m opts =
     (case sparse_lookup_candidates m opts of
        Inl e \<Rightarrow> (Inl (LookupRefused e), m)
      | Inr candidates \<Rightarrow>
          let (best, errs, m') = try_policies pass caps opts m None [] candidates in
          (case best of
             Some s \<Rightarrow> (Inr s, m')
           | None \<Rightarrow>
               (Inl (NoTierFits (bytes_to_mib_ceil (m_sparse_lookup_bytes m)) (sparse_lookup_kind (Some m)) errs
                  (lookup_hint opts candidates)), m')))"

text \<open>\<^verbatim>\<open>computeResolvedStrategy\<close>: the builders (\<open>core\<close>), then the tier.\<close>

definition compute_resolved_strategy :: "'e planning_pass \<Rightarrow> 'e planning_pass" where
  "compute_resolved_strategy core caps m opts =
     (let (r, m') = core caps m opts in
      (case r of Inl e \<Rightarrow> Inl e | Inr s \<Rightarrow> Inr (apply_sparse_lookup_tier s (Some m') opts), m'))"

section \<open>The best plan\<close>

definition plan_key :: "lookup_strategy \<Rightarrow> bool \<times> int" where
  "plan_key s = (s_mmap_required s, s_context_size s)"

definition plan_before :: "bool \<times> int \<Rightarrow> bool \<times> int \<Rightarrow> bool" where
  "plan_before a b = (if fst a \<noteq> fst b then \<not> fst a else snd a > snd b)"

lemma plan_better_key: "sparse_lookup_plan_better a b = plan_before (plan_key a) (plan_key b)"
  by (simp add: sparse_lookup_plan_better_def plan_before_def plan_key_def)

interpretation plans: scan_order plan_before
  by unfold_locales (auto simp: plan_before_def split: if_splits)

text \<open>The passes the loop makes, in order, with their outcomes.\<close>

fun tried_passes ::
  "'e planning_pass \<Rightarrow> capabilities option \<Rightarrow> lookup_options \<Rightarrow> model_profile \<Rightarrow> lookup_policy list \<Rightarrow>
     (lookup_policy \<times> ('e + lookup_strategy)) list" where
  "tried_passes pass caps opts m [] = []"
| "tried_passes pass caps opts m (p # ps) =
     (let (r, m') = policy_pass pass caps opts m p in (p, r) # tried_passes pass caps opts m' ps)"

definition succeeded :: "lookup_policy \<times> ('e + lookup_strategy) \<Rightarrow> bool" where
  "succeeded t = (case snd t of Inl _ \<Rightarrow> False | Inr _ \<Rightarrow> True)"

definition outcome_key :: "lookup_policy \<times> ('e + lookup_strategy) \<Rightarrow> bool \<times> int" where
  "outcome_key t = plan_key (projr (snd t))"

lemma outcome_simps [simp]:
  "\<not> succeeded (p, Inl e)" "succeeded (p, Inr s)" "outcome_key (p, Inr s) = plan_key s"
  "snd t = Inr s \<Longrightarrow> succeeded t" "snd t = Inr s \<Longrightarrow> outcome_key t = plan_key s"
  by (simp_all add: succeeded_def outcome_key_def)

abbreviation best_of :: "(lookup_policy \<times> ('e + lookup_strategy)) list \<Rightarrow> nat \<Rightarrow> (nat \<times> (bool \<times> int)) option \<Rightarrow>
    (nat \<times> (bool \<times> int)) option" where
  "best_of ts i b \<equiv> scan_best succeeded outcome_key plan_before i ts b"

definition tracks :: "(lookup_policy \<times> ('e + lookup_strategy)) list \<Rightarrow> lookup_strategy option \<Rightarrow> (nat \<times> (bool \<times> int)) option \<Rightarrow> bool" where
  "tracks ts best b =
     (case b of
        None \<Rightarrow> best = None
      | Some (i, k) \<Rightarrow> i < length ts \<and> (\<exists>s. best = Some s \<and> snd (ts ! i) = Inr s \<and> k = plan_key s))"

lemma tracks_snoc: "tracks ts best b \<Longrightarrow> tracks (ts @ [t]) best b"
  by (auto simp: tracks_def nth_append split: option.splits)

lemma tracks_new: "tracks (ts @ [(p, Inr s)]) (Some s) (Some (length ts, plan_key s))"
  by (simp add: tracks_def)

lemma try_policies_scan:
  assumes "tracks pre best b"
  shows "tracks (pre @ tried_passes pass caps opts m ps) (fst (try_policies pass caps opts m best errs ps))
    (best_of (tried_passes pass caps opts m ps) (length pre) b)"
  using assms
proof (induction ps arbitrary: pre best b m errs)
  case (Cons p ps)
  obtain r m' where r: "policy_pass pass caps opts m p = (r, m')" by fastforce
  note IH = Cons.IH [of "pre @ [(p, r)]" _ _ m']
  show ?case
  proof (cases r)
    case (Inl e)
    then show ?thesis using IH [OF tracks_snoc [OF Cons.prems]] r by simp
  next
    case (Inr s)
    show ?thesis
    proof (cases b)
      case None
      then have "best = None" using Cons.prems by (simp add: tracks_def)
      then show ?thesis using IH [of "Some s" "Some (length pre, plan_key s)"] tracks_new [of pre p s] Inr r None by simp
    next
      case (Some ik)
      then obtain i s0 where i: "b = Some (i, plan_key s0)" "best = Some s0" using Cons.prems
        by (cases ik) (auto simp: tracks_def)
      then show ?thesis
        using IH [OF tracks_snoc [OF Cons.prems]] IH [of "Some s" "Some (length pre, plan_key s)"] tracks_new [of pre p s] Inr r
        by (simp add: plan_better_key)
    qed
  qed
qed simp

lemma try_policies_best:
  assumes "try_policies pass caps opts m None [] ps = (best, errs, m')"
  shows "best = None \<longleftrightarrow> (\<forall>t \<in> set (tried_passes pass caps opts m ps). \<not> succeeded t)"
    "best = Some s \<Longrightarrow> \<exists>i < length (tried_passes pass caps opts m ps).
       snd (tried_passes pass caps opts m ps ! i) = Inr s \<and>
       (\<forall>j < length (tried_passes pass caps opts m ps). \<forall>s'. snd (tried_passes pass caps opts m ps ! j) = Inr s' \<longrightarrow>
          \<not> sparse_lookup_plan_better s' s \<and> (j < i \<longrightarrow> sparse_lookup_plan_better s s'))"
proof -
  let ?ts = "tried_passes pass caps opts m ps"
  have t: "tracks ?ts best (best_of ?ts 0 None)"
    using try_policies_scan [of "[]" None None pass caps opts m ps "[]"] assms by (simp add: tracks_def)
  show "best = None \<longleftrightarrow> (\<forall>t \<in> set ?ts. \<not> succeeded t)"
    using t plans.scan_best_none [of succeeded outcome_key ?ts] by (auto simp: tracks_def split: option.splits)
  assume "best = Some s"
  with t obtain i where i: "best_of ?ts 0 None = Some (i, plan_key s)" "i < length ?ts" "snd (?ts ! i) = Inr s"
    by (auto simp: tracks_def split: option.splits)
  have "\<not> sparse_lookup_plan_better s' s \<and> (j < i \<longrightarrow> sparse_lookup_plan_better s s')"
    if "j < length ?ts" "snd (?ts ! j) = Inr s'" for j s'
    using plans.scan_best_some(4,5) [OF i(1), of j] that by (simp add: plan_better_key)
  with i(2,3) show "\<exists>i < length ?ts. snd (?ts ! i) = Inr s \<and> (\<forall>j < length ?ts. \<forall>s'. snd (?ts ! j) = Inr s' \<longrightarrow>
      \<not> sparse_lookup_plan_better s' s \<and> (j < i \<longrightarrow> sparse_lookup_plan_better s s'))" by blast
qed

section \<open>Views\<close>

lemma length_add_layers [simp]: "length (add_layers ls bs) = length ls"
  by (induction ls bs rule: add_layers.induct) simp_all

lemma sum_add_layers: "length bs \<le> length ls \<Longrightarrow> sum_list (add_layers ls bs) = sum_list ls + sum_list bs"
  by (induction ls bs rule: add_layers.induct) auto

lemma view_bytes [simp]:
  "m_sparse_lookup_bytes (sparse_lookup_model_view m p) = m_sparse_lookup_bytes m"
  "m_sparse_lookup_kind (sparse_lookup_model_view m p) = m_sparse_lookup_kind m"
  by (simp_all add: sparse_lookup_model_view_def Let_def)

lemma view_artifact_size: "artifact_size_bytes (sparse_lookup_model_view m p) = artifact_size_bytes m"
  by (simp add: artifact_size_bytes_def sparse_lookup_model_view_def Let_def)

lemma sync_lookup [simp]:
  "m_sparse_lookup_bytes (sync_measured_model_fields d v) = m_sparse_lookup_bytes d"
  by (simp add: sync_measured_model_fields_def)

lemma apply_tier_idem:
  "apply_sparse_lookup_tier (apply_sparse_lookup_tier s mo opts) mo opts = apply_sparse_lookup_tier s mo opts"
  by (cases mo) (simp_all add: apply_sparse_lookup_tier_def Let_def)

lemma policy_pass_bytes: "policy_pass pass caps opts m p = (r, m') \<Longrightarrow> m_sparse_lookup_bytes m' = m_sparse_lookup_bytes m"
  by (auto simp: policy_pass_def split: prod.splits)

lemma tried_pass_of:
  assumes "t \<in> set (tried_passes pass caps opts m ps)"
  obtains m1 where "fst t \<in> set ps" "snd t = fst (policy_pass pass caps opts m1 (fst t))"
    "m_sparse_lookup_bytes m1 = m_sparse_lookup_bytes m"
  using assms
proof (induction ps arbitrary: m thesis)
  case (Cons p ps)
  obtain r m' where r: "policy_pass pass caps opts m p = (r, m')" by fastforce
  consider "t = (p, r)" | "t \<in> set (tried_passes pass caps opts m' ps)" using Cons.prems(2) r by auto
  then show ?case
  proof cases
    case 1
    then show ?thesis using Cons.prems(1) [of m] r by simp
  next
    case 2
    obtain m1 where "fst t \<in> set ps" "snd t = fst (policy_pass pass caps opts m1 (fst t))"
      "m_sparse_lookup_bytes m1 = m_sparse_lookup_bytes m'" by (rule Cons.IH [OF _ 2])
    then show ?thesis using Cons.prems(1) [of m1] policy_pass_bytes [OF r] by simp
  qed
qed simp

text \<open>What the builders promise about the profile they return: the lookup bytes stay.\<close>

definition keeps_lookup :: "'e planning_pass \<Rightarrow> bool" where
  "keeps_lookup core \<longleftrightarrow> (\<forall>caps m opts. m_sparse_lookup_bytes (snd (core caps m opts)) = m_sparse_lookup_bytes m)"

lemma chosen_plan_shape:
  assumes "compute_sparse_lookup (compute_resolved_strategy core) caps m opts = (Inr s, m')" "keeps_lookup core"
    "0 < m_sparse_lookup_bytes m"
  obtains ps p s0 m1 where "sparse_lookup_candidates m opts = Inr ps" "p \<in> set ps"
    "s = apply_sparse_lookup_tier s0 (Some m1) (opts\<lparr>lo_policy := p\<rparr>)" "m_sparse_lookup_bytes m1 = m_sparse_lookup_bytes m"
proof -
  obtain ps where ps: "sparse_lookup_candidates m opts = Inr ps"
    using assms(1) by (cases "sparse_lookup_candidates m opts") (auto simp: compute_sparse_lookup_def)
  let ?pass = "compute_resolved_strategy core"
  obtain best errs m2 where t: "try_policies ?pass caps opts m None [] ps = (best, errs, m2)"
    by (cases "try_policies ?pass caps opts m None [] ps") auto
  then have "best = Some s" using assms(1) ps by (auto simp: compute_sparse_lookup_def split: option.splits)
  from try_policies_best(2) [OF t this] obtain u where u: "u \<in> set (tried_passes ?pass caps opts m ps)" "snd u = Inr s"
    by (meson nth_mem)
  obtain m1 where m1: "fst u \<in> set ps" "snd u = fst (policy_pass ?pass caps opts m1 (fst u))"
    "m_sparse_lookup_bytes m1 = m_sparse_lookup_bytes m" by (rule tried_pass_of [OF u(1)])
  obtain r v where c: "core caps (sparse_lookup_model_view m1 (fst u)) (opts\<lparr>lo_policy := fst u\<rparr>) = (r, v)" by fastforce
  have v: "m_sparse_lookup_bytes v = m_sparse_lookup_bytes m" using assms(2) c m1(3) by (metis keeps_lookup_def snd_conv view_bytes(1))
  have "case r of Inl e \<Rightarrow> False | Inr s0 \<Rightarrow> s = apply_sparse_lookup_tier s0 (Some v) (opts\<lparr>lo_policy := fst u\<rparr>)"
    using u(2) m1(2) c by (auto simp: policy_pass_def compute_resolved_strategy_def split: sum.splits)
  then obtain s0 where "s = apply_sparse_lookup_tier s0 (Some v) (opts\<lparr>lo_policy := fst u\<rparr>)" by (auto split: sum.splits)
  then show ?thesis using that [OF ps m1(1) _ v] by blast
qed

lemma candidates_cases:
  assumes "sparse_lookup_candidates m opts = Inr ps"
  shows "ps = [LayerTier] \<or> ps = [ResidentTier, PagedTier] \<and> lookup_lazy opts \<and> to_lower (trim_space (lo_lazy opts)) \<noteq> ''off''"
  using assms by (auto simp: sparse_lookup_candidates_def Let_def split: if_splits)

lemma tier_positive: "0 < n \<Longrightarrow> 0 < bytes_to_mib_ceil n"
proof -
  assume "0 < n"
  then have "1 \<le> (n + 1048575) div 1048576" using zdiv_mono1 [of 1048576 "n + 1048575" 1048576] by simp
  with \<open>0 < n\<close> show ?thesis by (simp add: bytes_to_mib_ceil_def go_div_def)
qed

section \<open>Properties\<close>

text \<open>
  The choice of the lookup tier. Among the policies that are candidates for the model and the
  options, tried in order of preference, the plan returned is the first of the best ones: no other
  plan keeps the execution weights resident when it does not, none of the same residency has more
  context, and every plan before it is strictly worse. An error means that every candidate failed.
\<close>

theorem lookup_plan_choice:
  assumes "compute_sparse_lookup pass caps m opts = (r, m')" "sparse_lookup_candidates m opts = Inr ps"
    "ts = tried_passes pass caps opts m ps"
  shows "case r of
      Inl e \<Rightarrow> \<forall>t \<in> set ts. \<not> succeeded t
    | Inr s \<Rightarrow> \<exists>i < length ts. snd (ts ! i) = Inr s \<and>
        (\<forall>j < length ts. \<forall>s'. snd (ts ! j) = Inr s' \<longrightarrow>
           \<not> sparse_lookup_plan_better s' s \<and> (j < i \<longrightarrow> sparse_lookup_plan_better s s'))"
proof -
  obtain best errs m2 where t: "try_policies pass caps opts m None [] ps = (best, errs, m2)"
    by (cases "try_policies pass caps opts m None [] ps") auto
  show ?thesis
    using try_policies_best [OF t] assms t
    by (cases best) (auto simp: compute_sparse_lookup_def split: sum.splits)
qed

text \<open>
  Lazy lookup needs a reviewed contract. The launch arguments of a chosen plan turn lazy lookup
  reads on exactly when the plan holds the tier lazily, and then the capability of the backend
  normalises to file-backed and the user did not turn lazy reads off; otherwise the flag is stated off,
  or absent when the backend has none, and the tables are charged to their layers.
\<close>

theorem lazy_lookup_needs_contract:
  assumes "compute_sparse_lookup (compute_resolved_strategy core) caps m opts = (Inr s, m')" "keeps_lookup core"
    "0 < m_sparse_lookup_bytes m"
  shows "if strategy_uses_lazy_lookup s
    then normalize_lookup_capability (lo_capability opts) = LookupFileBacked \<and>
      to_lower (trim_space (lo_lazy opts)) \<noteq> ''off'' \<and>
      sparse_lookup_items (launch_strategy.truncate s) = [(sparse_lookup_flag opts, Some ''on'')]
    else la_lookup_policy s = LayerTier \<and>
      sparse_lookup_items (launch_strategy.truncate s) =
        (if trim_space (lo_flag opts) = [] then [] else [(trim_space (lo_flag opts), Some ''off'')])"
proof -
  obtain ps p s0 m1 where p: "sparse_lookup_candidates m opts = Inr ps" "p \<in> set ps"
    "s = apply_sparse_lookup_tier s0 (Some m1) (opts\<lparr>lo_policy := p\<rparr>)" "m_sparse_lookup_bytes m1 = m_sparse_lookup_bytes m"
    by (rule chosen_plan_shape [OF assms])
  have f: "sparse_lookup_lazy_flag \<noteq> []" by (simp add: sparse_lookup_lazy_flag_def)
  show ?thesis
    using candidates_cases [OF p(1)] p(2-4) assms(3) tier_positive [OF assms(3)] f
    by (auto simp: strategy_uses_lazy_lookup_def apply_sparse_lookup_tier_def Let_def sparse_lookup_items_def launch_strategy.defs
        sparse_lookup_flag_def val_item_def lookup_lazy_def)
qed

text \<open>
  A resident tier is charged to host memory once. Recording the tier a second time changes
  nothing; and when the footprint the builders planned fits the memory left after the tier was held
  back, the footprint with the tier fits the memory there was before.
\<close>

theorem resident_tier_charged_once:
  assumes "sparse_lookup_resident_caps (Some c) (Some m) opts = Inr (Some c')"
    "lk_host_footprint_mb s \<le> ram_free_mb (c_ram c')"
  shows "apply_sparse_lookup_tier (apply_sparse_lookup_tier s (Some m) opts) (Some m) opts = apply_sparse_lookup_tier s (Some m) opts \<and>
    lk_host_footprint_mb (apply_sparse_lookup_tier s (Some m) opts) \<le> ram_free_mb (c_ram c)"
proof -
  have "lk_host_footprint_mb (apply_sparse_lookup_tier s (Some m) opts) \<le> ram_free_mb (c_ram c)"
  proof (cases "lo_policy opts = ResidentTier \<and> 0 < m_sparse_lookup_bytes m")
    case True
    then show ?thesis
      using assms tier_positive [of "m_sparse_lookup_bytes m"]
      by (auto simp: sparse_lookup_resident_caps_def Let_def apply_ram_headroom_def apply_sparse_lookup_tier_def split: if_splits)
  next
    case False
    then have "c' = c" using assms(1) by (auto simp: sparse_lookup_resident_caps_def split: if_splits)
    then show ?thesis using assms(2) False by (auto simp: apply_sparse_lookup_tier_def Let_def)
  qed
  then show ?thesis by (simp add: apply_tier_idem)
qed

section \<open>Witnesses\<close>

definition demo_lookup_strategy :: lookup_strategy where
  "demo_lookup_strategy =
     launch_strategy.extend demo_strategy (lookup_strategy.fields 0 LookupUnknown [] [] 5)"

definition demo_lookup_options :: lookup_options where
  "demo_lookup_options =
     \<lparr>lo_capability = ''File-Backed'', lo_evidence = [], lo_flag = [], lo_lazy = [], lo_policy = NoPolicy,
      lo_force_mmap = False, lo_backend_identity = [], lo_backend_tag = ''cuda''\<rparr>"

definition demo_core :: "string planning_pass" where
  "demo_core caps m opts =
     (if lo_policy opts = LayerTier then Inl ''no room''
      else Inr (demo_lookup_strategy\<lparr>s_context_size := (if lo_policy opts = PagedTier then 16 else 8)\<rparr>), m)"

definition demo_table_profile :: model_profile where
  "demo_table_profile = empty_profile\<lparr>m_size_bytes := 5000000, m_sparse_lookup_bytes := 3000000\<rparr>"

lemma demo_keeps: "keeps_lookup demo_core"
  by (simp add: keeps_lookup_def demo_core_def)

lemma demo_table_bytes [simp]: "m_sparse_lookup_bytes demo_table_profile = 3000000"
  by (simp add: demo_table_profile_def)

lemma demo_tried:
  "sparse_lookup_candidates demo_table_profile demo_lookup_options = Inr [ResidentTier, PagedTier]"
  "\<exists>s m'. compute_sparse_lookup (compute_resolved_strategy demo_core) None demo_table_profile demo_lookup_options = (Inr s, m') \<and>
     s_context_size s = 16 \<and> strategy_uses_lazy_lookup s"
proof -
  have l: "normalize_lookup_capability ''File-Backed'' = LookupFileBacked" by code_simp
  show c: "sparse_lookup_candidates demo_table_profile demo_lookup_options = Inr [ResidentTier, PagedTier]"
    by (simp add: sparse_lookup_candidates_def demo_lookup_options_def lookup_lazy_def l to_lower_def trim_space_def trim_left_def trim_right_def)
  have b: "bytes_to_mib_ceil 3000000 = 3" by code_simp
  show "\<exists>s m'. compute_sparse_lookup (compute_resolved_strategy demo_core) None demo_table_profile demo_lookup_options = (Inr s, m') \<and>
     s_context_size s = 16 \<and> strategy_uses_lazy_lookup s"
    by (simp add: compute_sparse_lookup_def c policy_pass_def compute_resolved_strategy_def demo_core_def
        apply_sparse_lookup_tier_def b sparse_lookup_plan_better_def
        demo_lookup_strategy_def demo_strategy_def launch_strategy.defs strategy_uses_lazy_lookup_def Let_def)
qed

lemma lookup_plan_choice_witness:
  "\<exists>s i. fst (compute_sparse_lookup (compute_resolved_strategy demo_core) None demo_table_profile demo_lookup_options) = Inr s \<and>
     s_context_size s = 16 \<and>
     i < length (tried_passes (compute_resolved_strategy demo_core) None demo_lookup_options demo_table_profile [ResidentTier, PagedTier]) \<and>
     snd (tried_passes (compute_resolved_strategy demo_core) None demo_lookup_options demo_table_profile [ResidentTier, PagedTier] ! i) = Inr s"
proof -
  obtain s m' where s: "compute_sparse_lookup (compute_resolved_strategy demo_core) None demo_table_profile demo_lookup_options = (Inr s, m')"
    "s_context_size s = 16" using demo_tried(2) by blast
  show ?thesis using lookup_plan_choice [OF s(1) demo_tried(1) refl] s by auto
qed

lemma lazy_lookup_needs_contract_witness:
  "\<exists>s. fst (compute_sparse_lookup (compute_resolved_strategy demo_core) None demo_table_profile demo_lookup_options) = Inr s \<and>
     sparse_lookup_items (launch_strategy.truncate s) = [(''--lazy-mode'', Some ''on'')]"
proof -
  obtain s m' where s: "compute_sparse_lookup (compute_resolved_strategy demo_core) None demo_table_profile demo_lookup_options = (Inr s, m')"
    "strategy_uses_lazy_lookup s" using demo_tried(2) by blast
  have "0 < m_sparse_lookup_bytes demo_table_profile" by simp
  moreover have "sparse_lookup_flag demo_lookup_options = ''--lazy-mode''" by code_simp
  ultimately show ?thesis using lazy_lookup_needs_contract [OF s(1) demo_keeps] s by simp
qed

lemma resident_tier_charged_once_witness:
  "lk_host_footprint_mb (apply_sparse_lookup_tier demo_lookup_strategy (Some demo_table_profile)
     (demo_lookup_options\<lparr>lo_policy := ResidentTier\<rparr>)) \<le> 9"
proof -
  let ?c = "\<lparr>c_os = [], c_arch = [], c_gpus = [], c_ram = \<lparr>ram_total_mb = 9, ram_free_mb = 9\<rparr>,
      c_cpu = \<lparr>cpu_model = [], cpu_cores = 1, cpu_threads = 1, cpu_flags = [], physical_ids = []\<rparr>, c_backends = [], host_memory_bandwidth_mbps = 0, host_memory_bandwidth_source = []\<rparr>"
  have b: "bytes_to_mib_ceil 3000000 = 3" by code_simp
  have "sparse_lookup_resident_caps (Some ?c) (Some demo_table_profile) (demo_lookup_options\<lparr>lo_policy := ResidentTier\<rparr>) =
      Inr (Some (?c\<lparr>c_ram := \<lparr>ram_total_mb = 6, ram_free_mb = 6\<rparr>\<rparr>))"
    by (simp add: sparse_lookup_resident_caps_def b apply_ram_headroom_def)
  from resident_tier_charged_once [OF this, of demo_lookup_strategy] show ?thesis
    by (simp add: demo_lookup_strategy_def launch_strategy.defs lookup_strategy.defs)
qed

end
