(* ===== verification/Paths.thy ===== *)
theory Paths
  imports Prelude
begin

text \<open>
  The lexical part of Go's \<^verbatim>\<open>path/filepath\<close> on Unix, as far as the program uses it:
  \<^verbatim>\<open>Clean\<close>, \<^verbatim>\<open>Join\<close>, \<^verbatim>\<open>Dir\<close>,
  \<^verbatim>\<open>Base\<close>, \<^verbatim>\<open>IsAbs\<close>, with \<^verbatim>\<open>strings.ReplaceAll\<close>.
\<close>

definition slash :: char where "slash = CHR ''/''"

text \<open>The elements kept by \<^verbatim>\<open>Clean\<close>; \<open>out\<close> is reversed.\<close>

fun clean_elems :: "bool \<Rightarrow> string list \<Rightarrow> string list \<Rightarrow> string list" where
  "clean_elems rooted out [] = rev out"
| "clean_elems rooted out (p # ps) =
     (if p = [] \<or> p = ''.'' then clean_elems rooted out ps
      else if p = ''..'' then
        (case out of
           [] \<Rightarrow> clean_elems rooted (if rooted then [] else [''..'']) ps
         | q # qs \<Rightarrow> if q = ''..'' then clean_elems rooted (''..'' # out) ps else clean_elems rooted qs ps)
      else clean_elems rooted (p # out) ps)"

definition path_is_abs :: "string \<Rightarrow> bool" where
  "path_is_abs p = has_prefix p ''/''"

definition path_clean :: "string \<Rightarrow> string" where
  "path_clean p =
     (let rooted = path_is_abs p; es = clean_elems rooted [] (split_char slash p) in
      if rooted then slash # join_with ''/'' es
      else if es = [] then ''.'' else join_with ''/'' es)"

definition path_join :: "string list \<Rightarrow> string" where
  "path_join es = (let ne = filter (\<lambda>e. e \<noteq> []) es in if ne = [] then [] else path_clean (join_with ''/'' ne))"

text \<open>\<^verbatim>\<open>Dir\<close> cleans everything up to the last separator.\<close>

definition path_dir :: "string \<Rightarrow> string" where
  "path_dir p = path_clean (rev (dropWhile (\<lambda>c. c \<noteq> slash) (rev p)))"

definition path_base :: "string \<Rightarrow> string" where
  "path_base p =
     (if p = [] then ''.''
      else let q = rev (dropWhile (\<lambda>c. c = slash) (rev p));
               b = rev (takeWhile (\<lambda>c. c \<noteq> slash) (rev q))
           in if b = [] then ''/'' else b)"

text \<open>\<^verbatim>\<open>strings.ReplaceAll\<close> for a nonempty \<open>old\<close>; the number counts the bytes of a match still to skip.\<close>

fun replace_from :: "string \<Rightarrow> string \<Rightarrow> nat \<Rightarrow> string \<Rightarrow> string" where
  "replace_from old new k [] = []"
| "replace_from old new 0 (c # s) =
     (if has_prefix (c # s) old then new @ replace_from old new (length old - 1) s else c # replace_from old new 0 s)"
| "replace_from old new (Suc k) (c # s) = replace_from old new k s"

definition replace_all :: "string \<Rightarrow> string \<Rightarrow> string \<Rightarrow> string" where
  "replace_all s old new = replace_from old new 0 s"

section \<open>Cleaned paths\<close>

definition proper_elem :: "string \<Rightarrow> bool" where
  "proper_elem p \<longleftrightarrow> p \<noteq> [] \<and> p \<noteq> ''.'' \<and> slash \<notin> set p"

text \<open>A cleaned element list: proper elements, \<^verbatim>\<open>..\<close> only in front and not below the root.\<close>

definition cleaned :: "bool \<Rightarrow> string list \<Rightarrow> bool" where
  "cleaned rooted es \<longleftrightarrow> list_all proper_elem es \<and>
     (\<exists>n ds. es = replicate n ''..'' @ ds \<and> ''..'' \<notin> set ds \<and> (rooted \<longrightarrow> n = 0))"

lemma cleaned_nil [simp]: "cleaned rooted []"
  by (auto simp: cleaned_def)

lemma cleaned_snoc:
  assumes "cleaned rooted es" "proper_elem p" "p \<noteq> ''..''"
  shows "cleaned rooted (es @ [p])"
proof -
  obtain n ds where "es = replicate n ''..'' @ ds" "''..'' \<notin> set ds" "rooted \<longrightarrow> n = 0"
    using assms(1) by (auto simp: cleaned_def)
  then show ?thesis using assms
    by (auto simp: cleaned_def intro!: exI [of _ n] exI [of _ "ds @ [p]"])
qed

lemma cleaned_butlast:
  assumes "cleaned rooted (es @ [q])" "q \<noteq> ''..''"
  shows "cleaned rooted es"
proof -
  obtain n ds where d: "es @ [q] = replicate n ''..'' @ ds" "''..'' \<notin> set ds" "rooted \<longrightarrow> n = 0"
    using assms(1) by (auto simp: cleaned_def)
  have "ds \<noteq> []"
  proof
    assume "ds = []"
    then have "q \<in> set (replicate n ''..'')" using d(1) by (metis append_Nil2 in_set_conv_decomp)
    then show False using assms(2) by simp
  qed
  then obtain ds' where "ds = ds' @ [q]" using d(1) by (metis append_butlast_last_id last_appendR last_snoc)
  then show ?thesis using assms(1) d by (auto simp: cleaned_def intro!: exI [of _ n] exI [of _ ds'])
qed

lemma cleaned_dots:
  assumes "cleaned False (es @ [''..''])"
  shows "cleaned False (es @ [''..'', ''..''])"
proof -
  obtain n ds where d: "es @ [''..''] = replicate n ''..'' @ ds" "''..'' \<notin> set ds"
    using assms unfolding cleaned_def by blast
  have e: "list_all proper_elem (es @ [''..''])" using assms by (simp add: cleaned_def)
  have "ds = []" using d(1,2) by (cases ds rule: rev_cases) auto
  then have "es @ [''..'', ''..''] = replicate (Suc n) ''..''"
    using d(1) by (metis append.assoc append_Cons append_Nil append_Nil2 replicate_append_same replicate_Suc)
  then show ?thesis using e unfolding cleaned_def
    by (intro conjI exI [of _ "Suc n"] exI [of _ "[]"]) (auto simp: list_all_iff simp del: replicate.simps)
qed

lemma clean_elems_cleaned:
  assumes "cleaned rooted (rev out)" "\<forall>p \<in> set ps. slash \<notin> set p" "rooted \<longrightarrow> ''..'' \<notin> set out"
  shows "cleaned rooted (clean_elems rooted out ps)"
  using assms
proof (induction rooted out ps rule: clean_elems.induct)
  case (2 rooted out p ps)
  have dots: "proper_elem ''..''" by (simp add: proper_elem_def slash_def)
  consider "p = [] \<or> p = ''.''" | "p = ''..''" | "p \<noteq> []" "p \<noteq> ''.''" "p \<noteq> ''..''" by blast
  then show ?case
  proof cases
    case 1
    then show ?thesis using 2 by auto
  next
    case 2
    note p = this
    show ?thesis
    proof (cases out)
      case Nil
      have "cleaned rooted (if rooted then [] else [''..''])"
        using dots by (auto simp: cleaned_def intro!: exI [of _ "1 :: nat"] exI [of _ "[]"])
      then show ?thesis using "2.IH"(2) "2.prems" p Nil by auto
    next
      case (Cons q qs)
      show ?thesis
      proof (cases "q = ''..''")
        case True
        then have "\<not> rooted" using "2.prems"(3) Cons by auto
        then have "cleaned rooted (rev (''..'' # out))" using cleaned_dots [of "rev qs"] "2.prems"(1) Cons True by simp
        then show ?thesis using "2.IH"(3) "2.prems" p Cons True \<open>\<not> rooted\<close> by simp
      next
        case False
        then have "cleaned rooted (rev qs)" using cleaned_butlast "2.prems"(1) Cons by simp
        then show ?thesis using "2.IH"(4) "2.prems" p Cons False by simp
      qed
    qed
  next
    case 3
    then have "cleaned rooted (rev out @ [p])" using "2.prems" by (intro cleaned_snoc) (auto simp: proper_elem_def)
    then show ?thesis using "2.IH"(5) "2.prems" 3 by auto
  qed
qed simp

lemma clean_elems_plain:
  "list_all proper_elem ds \<Longrightarrow> ''..'' \<notin> set ds \<Longrightarrow> clean_elems rooted out ds = rev out @ ds"
  by (induction ds arbitrary: out) (auto simp: proper_elem_def)

lemma clean_elems_dots:
  "clean_elems False (replicate k ''..'') (replicate n ''..'' @ ds) = clean_elems False (replicate (k + n) ''..'') ds"
proof (induction n arbitrary: k)
  case (Suc n)
  have "clean_elems False (replicate k ''..'') (replicate (Suc n) ''..'' @ ds) =
      clean_elems False (replicate (Suc k) ''..'') (replicate n ''..'' @ ds)"
    by (cases k) simp_all
  then show ?case using Suc [of "Suc k"] by simp
qed simp

lemma clean_elems_id:
  assumes "cleaned rooted es"
  shows "clean_elems rooted [] es = es"
proof -
  obtain n ds where d: "es = replicate n ''..'' @ ds" "''..'' \<notin> set ds" "rooted \<longrightarrow> n = 0"
    using assms unfolding cleaned_def by blast
  have "list_all proper_elem es" using assms by (simp add: cleaned_def)
  note d = d this
  show ?thesis
  proof (cases rooted)
    case True
    then show ?thesis using d clean_elems_plain [of ds rooted "[]"] by simp
  next
    case False
    then show ?thesis using d clean_elems_dots [of 0 n ds] clean_elems_plain [of ds False "replicate n ''..''"] by simp
  qed
qed

lemma split_char_no_slash: "p \<in> set (split_char slash s) \<Longrightarrow> slash \<notin> set p"
  by (induction s arbitrary: p) (auto split: list.splits if_splits)

lemma clean_elems_split:
  "cleaned (path_is_abs p) (clean_elems (path_is_abs p) [] (split_char slash p))"
  using split_char_no_slash by (intro clean_elems_cleaned) auto

lemma path_clean_idem [simp]: "path_clean (path_clean p) = path_clean p"
proof -
  let ?r = "path_is_abs p"
  define es where "es = clean_elems ?r [] (split_char slash p)"
  have c: "cleaned ?r es" using clean_elems_split by (simp add: es_def)
  then have e: "\<forall>q \<in> set es. slash \<notin> set q \<and> q \<noteq> []"
    by (auto simp: cleaned_def list_all_iff proper_elem_def)
  have sl: "[slash] = ''/''" by (simp add: slash_def)
  have sp: "es \<noteq> [] \<Longrightarrow> split_char slash (join_with ''/'' es) = es"
    using split_char_join [of es slash] e sl by simp
  show ?thesis
  proof (cases ?r)
    case True
    then have "path_clean p = slash # join_with ''/'' es" by (simp add: path_clean_def es_def Let_def)
    moreover have "path_clean (slash # join_with ''/'' es) = slash # join_with ''/'' es"
    proof -
      have "clean_elems True [] (split_char slash (slash # join_with ''/'' es)) = es"
        using sp clean_elems_id [OF c] True by (cases "es = []") simp_all
      then show ?thesis by (simp add: path_clean_def path_is_abs_def slash_def Let_def)
    qed
    ultimately show ?thesis by simp
  next
    case False
    show ?thesis
    proof (cases "es = []")
      case True
      then have "path_clean p = ''.''" using False by (simp add: path_clean_def es_def Let_def)
      then show ?thesis by (simp add: path_clean_def path_is_abs_def slash_def)
    next
      case ne: False
      then obtain q qs where q: "es = q # qs" by (cases es) auto
      have "\<not> path_is_abs (join_with ''/'' es)"
        using e q by (cases q; cases qs) (auto simp: path_is_abs_def slash_def)
      then have "path_clean (join_with ''/'' es) = join_with ''/'' es"
        using sp clean_elems_id [OF c] False ne by (simp add: path_clean_def Let_def)
      moreover have "path_clean p = join_with ''/'' es" using False ne by (simp add: path_clean_def es_def Let_def)
      ultimately show ?thesis by simp
    qed
  qed
qed

end
