(* ===== verification/ArchProbe.thy ===== *)
theory ArchProbe
  imports Paths
begin

text \<open>
  The architecture probe of a built backend (\<^verbatim>\<open>go/pkg/backends/archsupport.go\<close>): the
  streaming search for a NUL-bracketed architecture name, the bounded walk over the llama libraries an
  executable loads, and the three-valued answer.

  The machine is a record of observations: what each file yields when it is read (the chunks
  \<^verbatim>\<open>Read\<close> returns and how reading ends), the parsed dynamic section or import table of an
  object, directory listings and trees. A tree lists its children in the order
  \<^verbatim>\<open>WalkDir\<close> visits them.
\<close>

section \<open>Searching a file\<close>

datatype read_end = ReadEof | ReadFailed

text \<open>
  One iteration of the read loop per chunk. \<open>None\<close> is an error; the carried suffix is one byte
  shorter than the needle.
\<close>

fun scan_chunks :: "string \<Rightarrow> string \<Rightarrow> string list \<Rightarrow> read_end \<Rightarrow> bool option" where
  "scan_chunks needle carry [] e = (case e of ReadEof \<Rightarrow> Some False | ReadFailed \<Rightarrow> None)"
| "scan_chunks needle carry (c # cs) e =
     (if c = [] then scan_chunks needle carry cs e
      else
        let window = carry @ c; overlap = length needle - 1 in
        if contains_sub window needle then Some True
        else scan_chunks needle (if length window > overlap then List.drop (length window - overlap) window else window) cs e)"

datatype tree_node = FileNode string | DirNode string "tree_node list"

record elf_object =
  elf_needed :: "string list"
  elf_runpath :: "string list"
  elf_rpath :: "string list"

record probe_machine =
  pm_reads :: "string \<Rightarrow> (string list \<times> read_end) option"
  pm_resolve :: "string \<Rightarrow> string option"
  pm_elf :: "string \<Rightarrow> elf_object option"
  pm_pe_symbols :: "string \<Rightarrow> string list option"
  pm_is_file :: "string \<Rightarrow> bool"
  pm_entries :: "string \<Rightarrow> (string \<times> bool) list option"
  pm_tree :: "string \<Rightarrow> tree_node option"

definition file_has_literal :: "probe_machine \<Rightarrow> string \<Rightarrow> string \<Rightarrow> bool option" where
  "file_has_literal pm path needle =
     (case pm_reads pm path of
        None \<Rightarrow> None
      | Some (chunks, e) \<Rightarrow> scan_chunks needle [] chunks e)"

section \<open>Libraries of an object\<close>

text \<open>
  \<^verbatim>\<open>findLibInBuildTree\<close>: directories visited so far, the path found, and whether the walk
  was told to stop.
\<close>

definition arch_probe_search_dirs :: nat where "arch_probe_search_dirs = 512"

definition depth_of :: "string \<Rightarrow> nat" where
  "depth_of path = count_list (path_clean path) slash"

fun node_name :: "tree_node \<Rightarrow> string" where
  "node_name (FileNode n) = n"
| "node_name (DirNode n _) = n"

type_synonym walk_state = "nat \<times> string \<times> bool"

fun walk_node :: "string \<Rightarrow> nat \<Rightarrow> string \<Rightarrow> tree_node \<Rightarrow> walk_state \<Rightarrow> walk_state"
  and walk_nodes :: "string \<Rightarrow> nat \<Rightarrow> string \<Rightarrow> tree_node list \<Rightarrow> walk_state \<Rightarrow> walk_state" where
  "walk_node name root_depth path (FileNode n) (visited, found, stop) =
     (if found \<noteq> [] then (visited, found, True)
      else if n = name then (visited, path, True)
      else (visited, found, False))"
| "walk_node name root_depth path (DirNode n children) (visited, found, stop) =
     (if found \<noteq> [] then (visited, found, True)
      else if visited + 1 > arch_probe_search_dirs then (visited + 1, found, True)
      else if int (depth_of path) - int root_depth \<ge> 3 then (visited + 1, found, False)
      else walk_nodes name root_depth path children (visited + 1, found, False))"
| "walk_nodes name root_depth path [] st = st"
| "walk_nodes name root_depth path (c # cs) st =
     (let st' = walk_node name root_depth (path_join [path, node_name c]) c st in
      if snd (snd st') then st' else walk_nodes name root_depth path cs st')"

definition find_lib_in_build_tree :: "probe_machine \<Rightarrow> string \<Rightarrow> string \<Rightarrow> string" where
  "find_lib_in_build_tree pm root name =
     (if root = [] \<or> name = [] then []
      else case pm_tree pm root of
          None \<Rightarrow> []
        | Some t \<Rightarrow> fst (snd (walk_node name (depth_of root) root t (0, [], False))))"

definition origin_entry :: "string \<Rightarrow> string \<Rightarrow> string option" where
  "origin_entry origin entry0 =
     (let entry = trim_space entry0 in
      if entry = [] then None
      else let e = replace_all (replace_all entry ''${ORIGIN}'' origin) ''$ORIGIN'' origin in
           if path_is_abs e then Some e else None)"

definition elf_search_dirs :: "elf_object \<Rightarrow> string \<Rightarrow> string list" where
  "elf_search_dirs ob origin =
     List.map_filter (origin_entry origin) (concat (map (split_char CHR '':'') (elf_runpath ob @ elf_rpath ob))) @ [origin]"

definition names_llama :: "string \<Rightarrow> bool" where
  "names_llama name \<longleftrightarrow> contains_sub (to_lower name) ''llama''"

definition locate_elf_lib :: "probe_machine \<Rightarrow> string list \<Rightarrow> string \<Rightarrow> string \<Rightarrow> string option" where
  "locate_elf_lib pm dirs origin name =
     (if \<not> names_llama name then None
      else
        let found = (case List.find (pm_is_file pm) (map (\<lambda>d. path_join [d, name]) dirs) of
                       Some c \<Rightarrow> c
                     | None \<Rightarrow> find_lib_in_build_tree pm (path_dir origin) name)
        in if found = [] then None else Some found)"

definition elf_llama_deps :: "probe_machine \<Rightarrow> string \<Rightarrow> string list" where
  "elf_llama_deps pm path =
     (case pm_elf pm path of
        None \<Rightarrow> []
      | Some ob \<Rightarrow>
          let origin = path_dir path; dirs = elf_search_dirs ob origin in
          List.map_filter (locate_elf_lib pm dirs origin) (elf_needed ob))"

definition resolve_sibling_llama_libs :: "probe_machine \<Rightarrow> string \<Rightarrow> string list \<Rightarrow> string list" where
  "resolve_sibling_llama_libs pm dir imports =
     (case pm_entries pm dir of
        None \<Rightarrow> []
      | Some entries \<Rightarrow>
          let by_lower = foldl (\<lambda>m (n, is_dir). if is_dir then m else m(to_lower n \<mapsto> n)) (\<lambda>_. None) entries in
          List.map_filter (\<lambda>name. let lower = to_lower (path_base name) in
              if \<not> contains_sub lower ''llama'' then None
              else map_option (\<lambda>actual. path_join [dir, actual]) (by_lower lower)) imports)"

text \<open>The library of \<^verbatim>\<open>symbol:library\<close>: what follows the last colon.\<close>

definition symbol_library :: "string \<Rightarrow> string option" where
  "symbol_library sy =
     (if CHR '':'' \<in> set sy then Some (rev (takeWhile (\<lambda>c. c \<noteq> CHR '':'') (rev sy))) else None)"

definition import_step :: "string list \<Rightarrow> string \<Rightarrow> string list" where
  "import_step imports sy =
     (case symbol_library sy of
        None \<Rightarrow> imports
      | Some lib \<Rightarrow> if to_lower lib \<in> to_lower ` set imports then imports else imports @ [lib])"

definition pe_llama_deps :: "probe_machine \<Rightarrow> string \<Rightarrow> string list" where
  "pe_llama_deps pm path =
     (case pm_pe_symbols pm path of
        None \<Rightarrow> []
      | Some symbols \<Rightarrow> resolve_sibling_llama_libs pm (path_dir path) (foldl import_step [] symbols))"

section \<open>The walk over the libraries\<close>

definition arch_probe_max_files :: nat where "arch_probe_max_files = 24"

definition llama_deps :: "probe_machine \<Rightarrow> string \<Rightarrow> string list" where
  "llama_deps pm path = (let deps = elf_llama_deps pm path in if deps = [] then pe_llama_deps pm path else deps)"

text \<open>The inner loop; the keys of \<^verbatim>\<open>seen\<close> are the files of \<open>out\<close>.\<close>

fun add_deps :: "string list \<Rightarrow> string list \<Rightarrow> string list" where
  "add_deps out [] = out"
| "add_deps out (d # ds) =
     (if d \<in> set out then add_deps out ds
      else let out' = out @ [d] in
           if length out' \<ge> arch_probe_max_files then out' else add_deps out' ds)"

function probe_walk :: "(string \<Rightarrow> string list) \<Rightarrow> nat \<Rightarrow> string list \<Rightarrow> string list" where
  "probe_walk deps i out =
     (if i < length out \<and> length out < arch_probe_max_files
      then probe_walk deps (Suc i) (add_deps out (deps (out ! i)))
      else out)"
  by pat_completeness auto

termination
  by (relation "measure (\<lambda>(deps, i, out). arch_probe_max_files - i)") auto

declare probe_walk.simps [simp del]

definition arch_probe_files :: "probe_machine \<Rightarrow> string \<Rightarrow> string list" where
  "arch_probe_files pm binary0 =
     (let binary = (case pm_resolve pm binary0 of Some r \<Rightarrow> if r = [] then binary0 else r | None \<Rightarrow> binary0) in
      probe_walk (llama_deps pm) 0 [binary])"

definition nul :: char where "nul = CHR 0x00"

definition arch_needle :: "string \<Rightarrow> string" where
  "arch_needle arch = nul # arch @ [nul]"

text \<open>The loop over the files: \<open>scanned\<close> is \<^verbatim>\<open>scannedAny\<close>.\<close>

fun probe_scan :: "(string \<Rightarrow> bool option) \<Rightarrow> bool \<Rightarrow> string list \<Rightarrow> bool \<times> bool" where
  "probe_scan has scanned [] = (False, scanned)"
| "probe_scan has scanned (f # fs) =
     (case has f of
        None \<Rightarrow> probe_scan has scanned fs
      | Some hit \<Rightarrow> if hit then (True, True) else probe_scan has True fs)"

definition backend_supports_arch :: "probe_machine \<Rightarrow> string \<Rightarrow> string \<Rightarrow> bool \<times> bool" where
  "backend_supports_arch pm binary arch0 =
     (let arch = to_lower (trim_space arch0) in
      if binary = [] \<or> length arch < 2 then (False, False)
      else probe_scan (\<lambda>f. file_has_literal pm f (arch_needle arch)) False (arch_probe_files pm binary))"

section \<open>The search is exact\<close>

lemma contains_sub_append: "contains_sub s t \<Longrightarrow> contains_sub (s @ u) t"
  by (force simp: contains_sub_iff)

lemma contains_sub_prepend: "contains_sub s t \<Longrightarrow> contains_sub (u @ s) t"
  by (metis contains_sub_iff append.assoc)

text \<open>Only the last \<open>length t - 1\<close> bytes of what was searched can take part in a later match.\<close>

lemma contains_carry:
  assumes "\<not> contains_sub w t" "t \<noteq> []"
  shows "contains_sub (w @ u) t \<longleftrightarrow> contains_sub (List.drop (length w - (length t - 1)) w @ u) t"
proof
  assume "contains_sub (w @ u) t"
  then obtain a b where ab: "w @ u = a @ t @ b" by (auto simp: contains_sub_iff)
  have "length w < length a + length t"
  proof (rule ccontr)
    assume "\<not> length w < length a + length t"
    then have "w = (a @ t) @ List.drop (length (a @ t)) w"
      using arg_cong [OF ab, of "take (length (a @ t))"] append_take_drop_id [of "length (a @ t)" w] by simp
    then have "\<exists>c. w = a @ t @ c" by (metis append.assoc)
    then show False using assms(1) by (auto simp: contains_sub_iff)
  qed
  then have "length w - (length t - 1) \<le> length a" using assms(2) by (cases t) auto
  then have "List.drop (length w - (length t - 1)) w @ u = List.drop (length w - (length t - 1)) a @ t @ b"
    using arg_cong [OF ab, of "List.drop (length w - (length t - 1))"] by simp
  then show "contains_sub (List.drop (length w - (length t - 1)) w @ u) t" by (auto simp: contains_sub_iff)
next
  assume "contains_sub (List.drop (length w - (length t - 1)) w @ u) t"
  from contains_sub_prepend [OF this, of "take (length w - (length t - 1)) w"] show "contains_sub (w @ u) t"
    unfolding append.assoc [symmetric] append_take_drop_id .
qed

lemma scan_chunks_exact:
  assumes "needle \<noteq> []" "\<not> contains_sub carry needle"
  shows "scan_chunks needle carry cs e =
    (if contains_sub (carry @ concat cs) needle then Some True
     else case e of ReadEof \<Rightarrow> Some False | ReadFailed \<Rightarrow> None)"
  using assms(2)
proof (induction cs arbitrary: carry)
  case (Cons c cs)
  let ?w = "carry @ c"
  show ?case
  proof (cases "c = [] \<or> contains_sub ?w needle")
    case True
    then show ?thesis using Cons contains_sub_append [of ?w needle "concat cs"] by auto
  next
    case False
    let ?k = "List.drop (length ?w - (length needle - 1)) ?w"
    have k: "(if length ?w > length needle - 1 then ?k else ?w) = ?k" by simp
    have step: "scan_chunks needle carry (c # cs) e = scan_chunks needle ?k cs e"
      using False by (simp only: scan_chunks.simps Let_def k) simp
    have "\<not> contains_sub ?k needle"
    proof
      assume "contains_sub ?k needle"
      then have "contains_sub (take (length ?w - (length needle - 1)) ?w @ ?k) needle" by (rule contains_sub_prepend)
      then show False using False unfolding append_take_drop_id by simp
    qed
    note IH = Cons.IH [OF this]
    have "contains_sub (carry @ concat (c # cs)) needle \<longleftrightarrow> contains_sub (?k @ concat cs) needle"
      using contains_carry [of ?w needle "concat cs"] False assms(1) by simp
    then show ?thesis unfolding step IH by simp
  qed
qed simp

section \<open>What the needle matches\<close>

text \<open>The standalone literals of a file: what stands between two NUL bytes.\<close>

definition literals :: "string \<Rightarrow> string list" where
  "literals content = butlast (tl (split_char nul content))"

lemma split_char_at: "split_char sep (x @ sep # y) = split_char sep x @ split_char sep y"
  by (induction x) (auto split: list.splits)

lemma join_split: "join_with [sep] (split_char sep s) = s"
proof (induction s)
  case (Cons c s)
  then show ?case by (cases "split_char sep s"; cases "tl (split_char sep s)") (auto split: list.splits)
qed simp

lemma join_with_append:
  "p \<noteq> [] \<Longrightarrow> q \<noteq> [] \<Longrightarrow> join_with d (p @ q) = join_with d p @ d @ join_with d q"
proof (induction p rule: induct_list012)
  case (2 x)
  then show ?case by (cases q) auto
qed auto

lemma contains_literal:
  assumes "nul \<notin> set a"
  shows "contains_sub content (arch_needle a) \<longleftrightarrow> a \<in> set (literals content)"
proof
  assume "contains_sub content (arch_needle a)"
  then obtain x y where "content = x @ nul # a @ nul # y" by (auto simp: contains_sub_iff arch_needle_def)
  then have s: "split_char nul content = split_char nul x @ a # split_char nul y"
    using split_char_append [OF assms] by (simp add: split_char_at)
  obtain p ps where p: "split_char nul x = p # ps" by (meson neq_Nil_conv split_char_nonempty)
  show "a \<in> set (literals content)" by (simp add: literals_def s p butlast_append)
next
  assume "a \<in> set (literals content)"
  then obtain p1 p2 where p: "literals content = p1 @ a # p2" by (meson split_list)
  obtain h t where h: "split_char nul content = h # t" by (meson neq_Nil_conv split_char_nonempty)
  then have "t \<noteq> []" "butlast t = p1 @ a # p2" using p by (auto simp: literals_def)
  then have t: "t = p1 @ a # p2 @ [last t]" by (metis append.assoc append_Cons append_butlast_last_id)
  have "content = join_with [nul] ((h # p1) @ (a # p2 @ [last t]))" using join_split [of nul content] h t by simp
  also have "\<dots> = join_with [nul] (h # p1) @ [nul] @ join_with [nul] ([a] @ (p2 @ [last t]))"
    by (subst join_with_append) simp_all
  also have "join_with [nul] ([a] @ (p2 @ [last t])) = a @ [nul] @ join_with [nul] (p2 @ [last t])"
    by (subst join_with_append) simp_all
  finally have "content = join_with [nul] (h # p1) @ arch_needle a @ join_with [nul] (p2 @ [last t])"
    by (simp add: arch_needle_def)
  then show "contains_sub content (arch_needle a)" by (metis contains_sub_iff)
qed

section \<open>The walk is bounded and closed\<close>

lemma add_deps_ok:
  assumes "distinct out" "length out < arch_probe_max_files"
  shows "distinct (add_deps out ds)" "length (add_deps out ds) \<le> arch_probe_max_files"
    "\<exists>new. add_deps out ds = out @ new \<and> set new \<subseteq> set ds"
    "length (add_deps out ds) < arch_probe_max_files \<Longrightarrow> set ds \<subseteq> set (add_deps out ds)"
proof -
  have "distinct (add_deps out ds) \<and> length (add_deps out ds) \<le> arch_probe_max_files \<and>
    (\<exists>new. add_deps out ds = out @ new \<and> set new \<subseteq> set ds) \<and>
    (length (add_deps out ds) < arch_probe_max_files \<longrightarrow> set ds \<subseteq> set (add_deps out ds))"
    using assms
  proof (induction ds arbitrary: out)
    case (Cons d ds)
    show ?case
    proof (cases "d \<in> set out")
      case True
      then show ?thesis using Cons.IH [OF Cons.prems] by auto
    next
      case False
      show ?thesis
      proof (cases "length (out @ [d]) \<ge> arch_probe_max_files")
        case True
        then show ?thesis using False Cons.prems by (simp add: Let_def)
      next
        case False': False
        then have "add_deps out (d # ds) = add_deps (out @ [d]) ds" using False by (simp add: Let_def)
        moreover have "distinct (out @ [d])" "length (out @ [d]) < arch_probe_max_files" using False False' Cons.prems by auto
        ultimately show ?thesis using Cons.IH [of "out @ [d]"] by auto
      qed
    qed
  qed simp
  then show "distinct (add_deps out ds)" "length (add_deps out ds) \<le> arch_probe_max_files"
    "\<exists>new. add_deps out ds = out @ new \<and> set new \<subseteq> set ds"
    "length (add_deps out ds) < arch_probe_max_files \<Longrightarrow> set ds \<subseteq> set (add_deps out ds)" by auto
qed

lemma probe_walk_ok:
  assumes "distinct out" "out \<noteq> []" "length out \<le> arch_probe_max_files" "i \<le> length out"
    "length out < arch_probe_max_files \<longrightarrow> (\<forall>j < i. set (deps (out ! j)) \<subseteq> set out)"
  shows "distinct (probe_walk deps i out) \<and> length (probe_walk deps i out) \<le> arch_probe_max_files \<and>
    hd (probe_walk deps i out) = hd out \<and>
    (length (probe_walk deps i out) < arch_probe_max_files \<longrightarrow>
       (\<forall>f \<in> set (probe_walk deps i out). set (deps f) \<subseteq> set (probe_walk deps i out)))"
  using assms
proof (induction deps i out rule: probe_walk.induct)
  case (1 deps i out)
  show ?case
  proof (cases "i < length out \<and> length out < arch_probe_max_files")
    case True
    let ?out = "add_deps out (deps (out ! i))"
    note a = add_deps_ok [OF "1.prems"(1) conjunct2 [OF True], of "deps (out ! i)"]
    obtain new where new: "?out = out @ new" using a(3) by blast
    have step: "probe_walk deps i out = probe_walk deps (Suc i) ?out"
      using True by (subst probe_walk.simps) simp
    have "length ?out < arch_probe_max_files \<longrightarrow> (\<forall>j < Suc i. set (deps (?out ! j)) \<subseteq> set ?out)"
      using a(4) "1.prems"(5) True new by (auto simp: nth_append less_Suc_eq)
    moreover have "hd ?out = hd out" "?out \<noteq> []" "Suc i \<le> length ?out" using new "1.prems"(2) True by auto
    ultimately show ?thesis using "1.IH" [OF True a(1)] a(2) unfolding step by simp
  next
    case False
    then have step: "probe_walk deps i out = out" by (subst probe_walk.simps) (rule if_not_P)
    have "set (deps f) \<subseteq> set out" if l: "length out < arch_probe_max_files" and m: "f \<in> set out" for f
    proof -
      obtain j where "j < length out" "f = out ! j" using m by (metis in_set_conv_nth)
      then show ?thesis using "1.prems"(4,5) False l by simp
    qed
    then show ?thesis unfolding step using "1.prems"(1-3) by blast
  qed
qed

lemma probe_scan_verdict:
  "probe_scan has scanned fs =
     (if \<exists>f \<in> set fs. has f = Some True then (True, True) else (False, scanned \<or> (\<exists>f \<in> set fs. has f \<noteq> None)))"
  by (induction fs arbitrary: scanned) (auto split: option.splits)

section \<open>Properties\<close>

text \<open>
  Streaming equals searching. However the reads cut a file into chunks, the streaming search with its
  carried suffix answers what a search of the whole content answers; a read error is reported unless the
  literal was already found.
\<close>

theorem literal_search_exact:
  assumes "pm_reads pm path = Some (chunks, e)" "needle \<noteq> []"
  shows "file_has_literal pm path needle =
    (if contains_sub (concat chunks) needle then Some True
     else case e of ReadEof \<Rightarrow> Some False | ReadFailed \<Rightarrow> None)"
proof -
  have "\<not> contains_sub [] needle" using assms(2) by (cases needle) auto
  then show ?thesis using scan_chunks_exact [OF assms(2), of "[]"] assms(1) by (simp add: file_has_literal_def)
qed

text \<open>
  The probe visits a bounded, closed set of libraries. The files probed are pairwise different, at
  most \<open>arch_probe_max_files\<close>, the resolved binary first; and when the bound was not reached
  every llama library that any of them loads is among them, whatever cycles the library graph has.
\<close>

theorem probe_files_bounded_closed:
  assumes "files = arch_probe_files pm binary"
  shows "distinct files \<and> length files \<le> arch_probe_max_files \<and>
    hd files = (case pm_resolve pm binary of Some r \<Rightarrow> if r = [] then binary else r | None \<Rightarrow> binary) \<and>
    (length files < arch_probe_max_files \<longrightarrow> (\<forall>f \<in> set files. set (llama_deps pm f) \<subseteq> set files))"
proof -
  let ?b = "case pm_resolve pm binary of Some r \<Rightarrow> if r = [] then binary else r | None \<Rightarrow> binary"
  have "files = probe_walk (llama_deps pm) 0 [?b]" by (simp add: assms arch_probe_files_def)
  then show ?thesis using probe_walk_ok [of "[?b]" 0 "llama_deps pm"] by (simp add: arch_probe_max_files_def)
qed

text \<open>
  C39: The answer has three values and means what it says. For an architecture name of at least two bytes
  the probe answers yes exactly when a probed file has the name as a literal of its own between two NUL
  bytes, not merely inside a path or a longer name; it claims to have probed exactly when it answers yes
  or read some file to its end; a file that cannot be read never counts against the backend.
\<close>

theorem arch_probe_verdict:
  assumes "arch = to_lower (trim_space a)" "2 \<le> length arch" "nul \<notin> set arch" "binary \<noteq> []"
    "files = arch_probe_files pm binary"
  shows "backend_supports_arch pm binary a = (supported, probed) \<longleftrightarrow>
    (supported \<longleftrightarrow> (\<exists>f \<in> set files. \<exists>chunks e. pm_reads pm f = Some (chunks, e) \<and> arch \<in> set (literals (concat chunks)))) \<and>
    (probed \<longleftrightarrow> supported \<or> (\<exists>f \<in> set files. \<exists>chunks. pm_reads pm f = Some (chunks, ReadEof)))"
proof -
  let ?has = "\<lambda>f. file_has_literal pm f (arch_needle arch)"
  have n: "arch_needle arch \<noteq> []" by (simp add: arch_needle_def)
  have none: "contains_sub [] (arch_needle arch) = False" by (simp add: arch_needle_def)
  have hit: "?has f = Some True \<longleftrightarrow> (\<exists>chunks e. pm_reads pm f = Some (chunks, e) \<and> arch \<in> set (literals (concat chunks)))" for f
    using scan_chunks_exact [OF n, of "[]"] none contains_literal [OF assms(3)]
    by (auto simp: file_has_literal_def split: option.splits read_end.splits)
  have any: "?has f \<noteq> None \<longleftrightarrow> ?has f = Some True \<or> (\<exists>chunks. pm_reads pm f = Some (chunks, ReadEof))" for f
    using scan_chunks_exact [OF n, of "[]"] none
    by (auto simp: file_has_literal_def split: option.splits read_end.splits)
  have "backend_supports_arch pm binary a = probe_scan ?has False files"
    using assms by (simp add: backend_supports_arch_def Let_def)
  then show ?thesis unfolding probe_scan_verdict using hit any by auto
qed

section \<open>Witnesses\<close>

definition demo_machine :: probe_machine where
  "demo_machine =
     \<lparr>pm_reads = (\<lambda>f. if f = ''/b/bin/s'' then Some ([[nul, CHR ''x'']], ReadFailed)
         else if f = ''/b/bin/libllama.so'' then Some ([''/la/'' @ [nul, CHR ''l''], CHR ''a'' # [nul]], ReadEof) else None),
      pm_resolve = (\<lambda>_. None),
      pm_elf = (\<lambda>f. if f = ''/b/bin/s'' then Some \<lparr>elf_needed = [''libc.so'', ''libllama.so''], elf_runpath = [''$ORIGIN''], elf_rpath = []\<rparr> else None),
      pm_pe_symbols = (\<lambda>_. None), pm_is_file = (\<lambda>f. f = ''/b/bin/libllama.so''), pm_entries = (\<lambda>_. None), pm_tree = (\<lambda>_. None)\<rparr>"

lemma literal_search_exact_witness:
  "file_has_literal demo_machine ''/b/bin/libllama.so'' (arch_needle ''la'') = Some True"
proof -
  have "pm_reads demo_machine ''/b/bin/libllama.so'' = Some ([''/la/'' @ [nul, CHR ''l''], CHR ''a'' # [nul]], ReadEof)" by code_simp
  moreover have "contains_sub (concat [''/la/'' @ [nul, CHR ''l''], CHR ''a'' # [nul]]) (arch_needle ''la'')" by code_simp
  ultimately show ?thesis using literal_search_exact [of demo_machine "''/b/bin/libllama.so''" _ _ "arch_needle ''la''"]
    by (simp add: arch_needle_def)
qed

lemma demo_files: "arch_probe_files demo_machine ''/b/bin/s'' = [''/b/bin/s'', ''/b/bin/libllama.so'']"
  by code_simp

lemma probe_files_bounded_closed_witness:
  "set (llama_deps demo_machine ''/b/bin/s'') \<subseteq> {''/b/bin/s'', ''/b/bin/libllama.so''}"
  using probe_files_bounded_closed [OF demo_files [symmetric]] by (simp add: arch_probe_max_files_def)

lemma arch_probe_verdict_witness:
  "backend_supports_arch demo_machine ''/b/bin/s'' '' LA'' = (True, True)"
proof -
  have a: "''la'' = to_lower (trim_space '' LA'')" by code_simp
  have "nul \<notin> set ''la''" by (simp add: nul_def)
  moreover have "pm_reads demo_machine ''/b/bin/libllama.so'' = Some ([''/la/'' @ [nul, CHR ''l''], CHR ''a'' # [nul]], ReadEof)" by code_simp
  moreover have "''la'' \<in> set (literals (concat [''/la/'' @ [nul, CHR ''l''], CHR ''a'' # [nul]]))" by code_simp
  ultimately show ?thesis
    using arch_probe_verdict [OF a _ _ _ demo_files [symmetric], of True True] by (auto simp del: concat.simps)
qed

end
