(* ===== verification/Backends.thy ===== *)
theory Backends
  imports Paths
begin

text \<open>
  Registered fork backends (\<^verbatim>\<open>go/pkg/backends/backends.go\<close>): the reviewed recipe
  catalog, the manifest and its mutations, architecture routing with the helper-only rule
  (\<^verbatim>\<open>archsupport.go\<close>), the KV correctness rules
  (\<^verbatim>\<open>archconstraints.go\<close>) and the search for the app home.

  The manifest file is what reading and decoding it yields; a mutation takes the outcomes of its file
  operations as arguments and returns its error and the manifest left on disk.
\<close>

section \<open>Backends and recipes\<close>

record backend_version =
  bv_path :: string
  bv_commit :: string
  bv_applied_patches :: "string list"
  bv_replaced_at :: string

record backend =
  be_tag :: string
  be_path :: string
  be_route_arch :: string
  be_helper_only :: bool
  be_git_url :: string
  be_branch :: string
  be_commit :: string
  be_applied_patches :: "string list"
  be_previous :: "backend_version option"

text \<open>A recipe; of its patches the names (the contents are embedded files).\<close>

record recipe =
  rc_name :: string
  rc_description :: string
  rc_tag :: string
  rc_git_url :: string
  rc_branch :: string
  rc_commit :: string
  rc_route_arch :: string
  rc_helper_only :: bool
  rc_accel :: string
  rc_patches :: "string list"

definition builtin_recipes :: "recipe list" where
  "builtin_recipes =
     [\<lparr>rc_name = ''nanbeige42'',
       rc_description = ''Upstream llama.cpp with native Nanbeige4.2 looped-transformer support'',
       rc_tag = ''nanbeige42'', rc_git_url = ''https://github.com/ggml-org/llama.cpp.git'', rc_branch = ''master'',
       rc_commit = ''b77d646751d01c0962bc203b6809e9d94f7d50b7'', rc_route_arch = ''nanbeige'', rc_helper_only = True,
       rc_accel = [], rc_patches = [''0001-accept-loop-count-gguf-schema.patch'']\<rparr>,
      \<lparr>rc_name = ''hy3'',
       rc_description = ''Tencent Hy3 / hy_v3 support with built-in MTP and its reviewed chat template'',
       rc_tag = ''hy3'', rc_git_url = ''https://github.com/noonr48/ik_llama-hy3.git'', rc_branch = ''hy3-support'',
       rc_commit = ''f46c95ee90d8c8200b0147c646b883405020b482'', rc_route_arch = ''hy_v3'', rc_helper_only = False,
       rc_accel = [], rc_patches = [''hy3/0001-fix-router-tensor-name'']\<rparr>,
      \<lparr>rc_name = ''minimax-m3'',
       rc_description = ''Preliminary MiniMax-M3 support with native structured tool-call parsing'',
       rc_tag = ''minimax-m3'', rc_git_url = ''https://github.com/danielhanchen/llama.cpp.git'', rc_branch = ''minimax-m3'',
       rc_commit = ''66f43aa655a07999c7746fe9ff5ede94835e921e'', rc_route_arch = ''minimax-m3'', rc_helper_only = False,
       rc_accel = [], rc_patches = []\<rparr>,
      \<lparr>rc_name = ''laguna'',
       rc_description = ''Poolside Laguna support including the DFlash drafter (poolside fork, not the upstream PR)'',
       rc_tag = ''laguna'', rc_git_url = ''https://github.com/poolsideai/llama.cpp.git'', rc_branch = ''laguna'',
       rc_commit = ''04b2b72cb54048ead292884adbe11f284e3ec950'', rc_route_arch = ''laguna'', rc_helper_only = False,
       rc_accel = [], rc_patches = [''laguna/0001-include-cmath-for-isfinite'']\<rparr>,
      \<lparr>rc_name = ''laguna-upstream-pr'',
       rc_description = ''Laguna target architecture from the open upstream llama.cpp PR (no DFlash drafter)'',
       rc_tag = ''laguna-upstream-pr'', rc_git_url = ''https://github.com/joerowell/llama.cpp.git'', rc_branch = ''add-laguna'',
       rc_commit = ''54f214a09b8c4e709357ae661a77925edb154f13'', rc_route_arch = ''laguna'', rc_helper_only = False,
       rc_accel = [], rc_patches = []\<rparr>]"

definition recipe_by_name :: "string \<Rightarrow> recipe option" where
  "recipe_by_name name0 =
     (let name = to_lower (trim_space name0) in
      List.find (\<lambda>r. to_lower (rc_name r) = name \<or> to_lower (rc_tag r) = name) builtin_recipes)"

definition apply_builtin_policy :: "backend \<Rightarrow> backend" where
  "apply_builtin_policy b =
     (case recipe_by_name (be_tag b) of
        Some r \<Rightarrow> if rc_helper_only r then b\<lparr>be_helper_only := True\<rparr> else b
      | None \<Rightarrow> b)"

definition is_helper_only :: "backend \<Rightarrow> bool" where
  "is_helper_only b = be_helper_only (apply_builtin_policy b)"

section \<open>The manifest\<close>

datatype manifest = ManifestMissing | ManifestUnreadable | ManifestCorrupt | ManifestDecoded "backend list"

datatype registry_error =
    DirectoryFailed | LockFailed | LockTimeout | ManifestReadFailed | ManifestDecodeFailed | SaveFailed | DirSyncFailed

definition load_manifest :: "manifest \<Rightarrow> registry_error + backend list" where
  "load_manifest m =
     (case m of
        ManifestDecoded bs \<Rightarrow> Inr bs
      | ManifestCorrupt \<Rightarrow> Inl ManifestDecodeFailed
      | _ \<Rightarrow> Inl ManifestReadFailed)"

definition load_backends :: "manifest \<Rightarrow> backend list" where
  "load_backends m = (case load_manifest m of Inl _ \<Rightarrow> [] | Inr bs \<Rightarrow> map apply_builtin_policy bs)"

definition load_manifest_for_mutation :: "manifest \<Rightarrow> registry_error + backend list" where
  "load_manifest_for_mutation m = (if m = ManifestMissing then Inr [] else load_manifest m)"

text \<open>
  The outcomes of one mutation: the directory, the lock, and how far the atomic save got. The last
  error of a save comes after the rename, so the new manifest is already there.
\<close>

datatype save_outcome = SaveBroken | SaveUnsynced | SaveComplete

record registry_io =
  io_mkdir_ok :: bool
  io_lock :: "registry_error option"
  io_save :: save_outcome

definition save_manifest_locked :: "save_outcome \<Rightarrow> manifest \<Rightarrow> backend list \<Rightarrow> registry_error option \<times> manifest" where
  "save_manifest_locked outcome old bs =
     (case outcome of
        SaveBroken \<Rightarrow> (Some SaveFailed, old)
      | SaveUnsynced \<Rightarrow> (Some DirSyncFailed, ManifestDecoded bs)
      | SaveComplete \<Rightarrow> (None, ManifestDecoded bs))"

text \<open>\<^verbatim>\<open>MkdirAll\<close> and \<^verbatim>\<open>acquireManifestLock\<close> before a mutation.\<close>

definition under_lock ::
  "registry_io \<Rightarrow> manifest \<Rightarrow> 'r \<Rightarrow> ('r \<times> registry_error option \<times> manifest) \<Rightarrow> 'r \<times> registry_error option \<times> manifest" where
  "under_lock io m failed result =
     (if \<not> io_mkdir_ok io then (failed, Some DirectoryFailed, m)
      else case io_lock io of Some e \<Rightarrow> (failed, Some e, m) | None \<Rightarrow> result)"

definition save_backends :: "registry_io \<Rightarrow> manifest \<Rightarrow> backend list \<Rightarrow> registry_error option \<times> manifest" where
  "save_backends io m bs = snd (under_lock io m () ((), save_manifest_locked (io_save io) m bs))"

fun replace_tag :: "backend \<Rightarrow> backend list \<Rightarrow> backend list option" where
  "replace_tag be [] = None"
| "replace_tag be (b # bs) =
     (if equal_fold (be_tag b) (be_tag be) then Some (be # bs) else map_option ((#) b) (replace_tag be bs))"

definition upsert_backend :: "registry_io \<Rightarrow> manifest \<Rightarrow> backend \<Rightarrow> registry_error option \<times> manifest" where
  "upsert_backend io m be =
     snd (under_lock io m ()
       ((), case load_manifest_for_mutation m of
              Inl e \<Rightarrow> (Some e, m)
            | Inr bs \<Rightarrow>
                save_manifest_locked (io_save io) m
                  (case replace_tag be bs of Some bs' \<Rightarrow> bs' | None \<Rightarrow> bs @ [be])))"

definition remove_backend :: "registry_io \<Rightarrow> manifest \<Rightarrow> string \<Rightarrow> bool \<times> registry_error option \<times> manifest" where
  "remove_backend io m tag =
     under_lock io m False
       (case load_manifest_for_mutation m of
          Inl e \<Rightarrow> (False, Some e, m)
        | Inr bs \<Rightarrow>
            let out = filter (\<lambda>b. \<not> equal_fold (be_tag b) tag) bs in
            if length out = length bs then (False, None, m)
            else (True, save_manifest_locked (io_save io) m out))"

text \<open>
  \<^verbatim>\<open>acquireManifestLock\<close>: one observation per round - the outcome of the exclusive create,
  whether a stale lock was seen (and removed), whether the deadline has passed. \<open>None\<close> while the
  loop goes on.
\<close>

datatype create_outcome = LockCreated | LockExists | LockOther

fun acquire_manifest_lock :: "(create_outcome \<times> bool \<times> bool) list \<Rightarrow> registry_error option option" where
  "acquire_manifest_lock [] = None"
| "acquire_manifest_lock ((c, stale, late) # rest) =
     (case c of
        LockCreated \<Rightarrow> Some None
      | LockOther \<Rightarrow> Some (Some LockFailed)
      | LockExists \<Rightarrow>
          if stale then acquire_manifest_lock rest
          else if late then Some (Some LockTimeout)
          else acquire_manifest_lock rest)"

section \<open>Lookups and routing\<close>

definition by_tag :: "manifest \<Rightarrow> string \<Rightarrow> backend option" where
  "by_tag m tag0 =
     (let tag = to_lower (trim_space tag0) in
      if tag = [] then None else List.find (\<lambda>b. to_lower (be_tag b) = tag) (load_backends m))"

definition backend_tags :: "manifest \<Rightarrow> string list" where
  "backend_tags m = map be_tag (load_backends m)"

text \<open>\<open>stat\<close> says which paths exist.\<close>

definition for_arch :: "(string \<Rightarrow> bool) \<Rightarrow> manifest \<Rightarrow> string \<Rightarrow> backend option" where
  "for_arch stat m arch0 =
     (let arch = to_lower (trim_space arch0) in
      if arch = [] then None
      else List.find (\<lambda>b. \<not> is_helper_only b \<and> to_lower (be_route_arch b) = arch \<and> stat (be_path b)) (load_backends m))"

definition registered_for_arch :: "manifest \<Rightarrow> string \<Rightarrow> backend list" where
  "registered_for_arch m arch0 =
     (let arch = to_lower (trim_space arch0) in
      if arch = [] then []
      else filter (\<lambda>b. \<not> is_helper_only b \<and> equal_fold (trim_space (be_route_arch b)) arch) (load_backends m))"

definition recipes_for_arch :: "string \<Rightarrow> recipe list" where
  "recipes_for_arch arch0 =
     (let arch = to_lower (trim_space arch0) in
      if arch = [] then []
      else filter (\<lambda>r. \<not> rc_helper_only r \<and> equal_fold (trim_space (rc_route_arch r)) arch) builtin_recipes)"

definition sole_helper_step :: "(string \<Rightarrow> bool) \<Rightarrow> string \<Rightarrow> backend option \<times> bool \<Rightarrow> backend \<Rightarrow> backend option \<times> bool" where
  "sole_helper_step stat arch st b =
     (let (helper, have_other) = st in
      if \<not> equal_fold (trim_space (be_route_arch b)) arch then st
      else if \<not> stat (be_path b) then st
      else if is_helper_only b then ((case helper of None \<Rightarrow> Some b | Some h \<Rightarrow> Some h), have_other)
      else (helper, True))"

definition sole_helper_for_arch :: "(string \<Rightarrow> bool) \<Rightarrow> manifest \<Rightarrow> string \<Rightarrow> backend option" where
  "sole_helper_for_arch stat m arch0 =
     (let arch = to_lower (trim_space arch0) in
      if arch = [] then None
      else let (helper, have_other) = foldl (sole_helper_step stat arch) (None, False) (load_backends m) in
           if have_other then None else helper)"

definition required_backend_for_arch :: "string \<Rightarrow> string" where
  "required_backend_for_arch arch =
     (if has_prefix (to_lower (trim_space arch)) ''minimax-m'' then ''ik_llama'' else [])"

section \<open>KV rules\<close>

record arch_kv_rule =
  kv_allowed :: "string list"
  kv_reason :: string

definition kv_rule_permits :: "arch_kv_rule \<Rightarrow> string \<Rightarrow> bool" where
  "kv_rule_permits rule t = (to_lower (trim_space t) \<in> set (kv_allowed rule))"

definition kv_rule_target :: "arch_kv_rule \<Rightarrow> string" where
  "kv_rule_target rule = (case kv_allowed rule of [] \<Rightarrow> [] | t # _ \<Rightarrow> t)"

definition arch_kv_rules :: "(string \<times> arch_kv_rule) list" where
  "arch_kv_rules =
     [(''deepseek4'', \<lparr>kv_allowed = [''f16'', ''bf16''],
        kv_reason = ''DeepSeek V4 ships FP8 attention weights that are already quantized; '' @
          ''requantizing the K-cache compounds the loss and the model degenerates into '' @
          ''repetition loops or '' @ [CHR 0x27] @ ''='' @ [CHR 0x27] @ ''-spam with no error from the backend''\<rparr>)]"

definition kv_rule_for_arch :: "string \<Rightarrow> arch_kv_rule option" where
  "kv_rule_for_arch arch =
     (case map_of arch_kv_rules (to_lower (trim_space arch)) of
        None \<Rightarrow> None
      | Some rule \<Rightarrow> if kv_allowed rule = [] then None else Some rule)"

section \<open>The app home\<close>

record home_machine =
  hm_is_file :: "string \<Rightarrow> bool"
  hm_entries :: "string \<Rightarrow> (string \<times> bool) list option"
  hm_home :: string
  hm_app_home :: string
  hm_exe :: "string option"
  hm_pointer :: "string option"

definition has_state :: "home_machine \<Rightarrow> string \<Rightarrow> bool" where
  "has_state hm dir =
     (dir \<noteq> [] \<and> list_ex (hm_is_file hm)
        [path_join [dir, ''.config'', ''backends.json''], path_join [dir, ''.config'', ''config''],
         path_join [dir, ''.config'', ''ggrun'', ''config'']])"

definition app_home_from_exe :: "home_machine \<Rightarrow> string \<Rightarrow> string" where
  "app_home_from_exe hm exe =
     (if exe = [] then []
      else let dir = path_dir exe in
        if has_state hm dir then dir
        else if (path_base dir = ''.bin'' \<or> path_base dir = ''bin'') \<and> has_state hm (path_dir dir) then path_dir dir
        else [])"

definition pointer_path :: "home_machine \<Rightarrow> string" where
  "pointer_path hm = (if hm_home hm = [] then [] else path_join [hm_home hm, ''.config'', ''ggrun'', ''apphome''])"

text \<open>\<open>hm_pointer\<close> is the content of the pointer file, when it can be read.\<close>

definition pointed_app_home :: "home_machine \<Rightarrow> string" where
  "pointed_app_home hm =
     (if pointer_path hm = [] then []
      else case hm_pointer hm of
          None \<Rightarrow> []
        | Some body \<Rightarrow> let dir = trim_space body in if has_state hm dir then dir else [])"

definition max_discovery_dirs :: int where "max_discovery_dirs = 400"

definition system_search_roots :: "string list" where
  "system_search_roots = [''/opt'', ''/srv'', ''/mnt'', ''/media'', ''/usr/local/share'']"

text \<open>
  The first loop of \<^verbatim>\<open>scanForState\<close> over the entries of one directory: a directory with
  state, or the end of the budget, or the subdirectories to descend into; with the budget left.
\<close>

datatype scan_result = ScanFound string | ScanExhausted | ScanSubdirs "string list"

fun scan_entries :: "home_machine \<Rightarrow> string \<Rightarrow> (string \<times> bool) list \<Rightarrow> string list \<Rightarrow> int \<Rightarrow> scan_result \<times> int" where
  "scan_entries hm root [] subdirs budget = (ScanSubdirs subdirs, budget)"
| "scan_entries hm root ((name, is_dir) # es) subdirs budget =
     (if \<not> is_dir \<or> has_prefix name ''.'' then scan_entries hm root es subdirs budget
      else if budget - 1 \<le> 0 then (ScanExhausted, budget - 1)
      else let dir = path_join [root, name] in
           if has_state hm dir then (ScanFound dir, budget - 1)
           else scan_entries hm root es (subdirs @ [dir]) (budget - 1))"

fun scan_for_state :: "home_machine \<Rightarrow> nat \<Rightarrow> string \<Rightarrow> int \<Rightarrow> string \<times> int"
  and scan_subdirs :: "home_machine \<Rightarrow> nat \<Rightarrow> string list \<Rightarrow> int \<Rightarrow> string \<times> int" where
  "scan_for_state hm 0 root budget = ([], budget)"
| "scan_for_state hm (Suc depth) root budget =
     (if budget \<le> 0 then ([], budget)
      else case hm_entries hm root of
          None \<Rightarrow> ([], budget)
        | Some es \<Rightarrow>
            (case scan_entries hm root es [] budget of
               (ScanFound dir, b) \<Rightarrow> (dir, b)
             | (ScanExhausted, b) \<Rightarrow> ([], b)
             | (ScanSubdirs dirs, b) \<Rightarrow> scan_subdirs hm depth dirs b))"
| "scan_subdirs hm depth [] budget = ([], budget)"
| "scan_subdirs hm depth (d # ds) budget =
     (let (found, b) = scan_for_state hm depth d budget in
      if found \<noteq> [] then (found, b) else scan_subdirs hm depth ds b)"

definition discover_app_home :: "home_machine \<Rightarrow> string" where
  "discover_app_home hm =
     (if hm_home hm = [] then []
      else
        case List.find (has_state hm) (map (\<lambda>n. path_join [hm_home hm, n]) [''ggrun'', ''.ggrun'', path_join [''.local'', ''share'', ''ggrun'']]) of
          Some dir \<Rightarrow> dir
        | None \<Rightarrow> fst (scan_subdirs hm 2 (hm_home hm # system_search_roots) max_discovery_dirs))"

text \<open>The app home, and the content the pointer file is given (when it is written).\<close>

definition record_app_home :: "home_machine \<Rightarrow> string \<Rightarrow> string option" where
  "record_app_home hm dir =
     (if pointer_path hm = [] \<or> dir = [] \<or> dir = hm_home hm \<or> \<not> has_state hm dir then None
      else Some (dir @ [CHR 0x0A]))"

definition app_home :: "home_machine \<Rightarrow> string \<times> string option" where
  "app_home hm =
     (let from_exe = (case hm_exe hm of None \<Rightarrow> [] | Some exe \<Rightarrow> app_home_from_exe hm exe);
          discovered = discover_app_home hm
      in
      if hm_app_home hm \<noteq> [] then (hm_app_home hm, None)
      else if from_exe \<noteq> [] then (from_exe, None)
      else if pointed_app_home hm \<noteq> [] then (pointed_app_home hm, None)
      else if discovered \<noteq> [] then (discovered, record_app_home hm discovered)
      else if hm_home hm \<noteq> [] then (hm_home hm, None)
      else (''.'', None))"

definition manifest_path :: "home_machine \<Rightarrow> string" where
  "manifest_path hm = path_join [fst (app_home hm), ''.config'', ''backends.json'']"

section \<open>Keyed stores\<close>

text \<open>
  The contract of a store of values that carry their key, and what it gives after a history of writes:
  the last write to a key decides.
\<close>

datatype ('k, 'v) store_write = WritePut 'v | WriteDel 'k

locale keyed_store =
  fixes key :: "'v \<Rightarrow> 'k"
    and lookup :: "'s \<Rightarrow> 'k \<Rightarrow> 'v option"
    and put :: "'v \<Rightarrow> 's \<Rightarrow> 's"
    and del :: "'k \<Rightarrow> 's \<Rightarrow> 's"
  assumes lookup_put: "lookup (put v s) k = (if k = key v then Some v else lookup s k)"
    and lookup_del: "lookup (del j s) k = (if k = j then None else lookup s k)"
begin

fun perform :: "('k, 'v) store_write \<Rightarrow> 's \<Rightarrow> 's" where
  "perform (WritePut v) s = put v s"
| "perform (WriteDel k) s = del k s"

fun touches :: "'k \<Rightarrow> ('k, 'v) store_write \<Rightarrow> bool" where
  "touches k (WritePut v) = (k = key v)"
| "touches k (WriteDel j) = (k = j)"

fun written :: "('k, 'v) store_write \<Rightarrow> 'v option" where
  "written (WritePut v) = Some v"
| "written (WriteDel k) = None"

lemma lookup_perform: "lookup (perform w s) k = (if touches k w then written w else lookup s k)"
  by (cases w) (simp_all add: lookup_put lookup_del)

lemma last_write_wins:
  "lookup (foldl (\<lambda>s w. perform w s) s ws) k =
     (case List.find (touches k) (rev ws) of Some w \<Rightarrow> written w | None \<Rightarrow> lookup s k)"
  by (induction ws rule: rev_induct) (simp_all add: lookup_perform)

end

section \<open>The registry is a keyed store\<close>

definition tag_key :: "backend \<Rightarrow> string" where
  "tag_key b = to_lower (be_tag b)"

definition find_tag :: "backend list \<Rightarrow> string \<Rightarrow> backend option" where
  "find_tag bs k = List.find (\<lambda>b. tag_key b = k) bs"

definition put_backend :: "backend \<Rightarrow> backend list \<Rightarrow> backend list" where
  "put_backend be bs = (case replace_tag be bs of Some bs' \<Rightarrow> bs' | None \<Rightarrow> bs @ [be])"

definition del_tag :: "string \<Rightarrow> backend list \<Rightarrow> backend list" where
  "del_tag k bs = filter (\<lambda>b. tag_key b \<noteq> k) bs"

lemma find_tag_simps [simp]:
  "find_tag [] k = None" "find_tag (b # bs) k = (if tag_key b = k then Some b else find_tag bs k)"
  by (simp_all add: find_tag_def)

lemma find_replace_tag:
  "case replace_tag be bs of
     None \<Rightarrow> find_tag bs (tag_key be) = None
   | Some bs' \<Rightarrow> find_tag bs' k = (if k = tag_key be then Some be else find_tag bs k)"
  by (induction bs) (auto simp: tag_key_def equal_fold_def split: option.splits)

interpretation registry: keyed_store tag_key find_tag put_backend del_tag
proof
  fix v s k
  have "find_tag (s @ [v]) k = (case find_tag s k of None \<Rightarrow> if tag_key v = k then Some v else None | Some b \<Rightarrow> Some b)"
    by (induction s) auto
  then show "find_tag (put_backend v s) k = (if k = tag_key v then Some v else find_tag s k)"
    using find_replace_tag [where be = v and bs = s and k = k] by (auto simp: put_backend_def split: option.splits)
next
  fix j s k
  show "find_tag (del_tag j s) k = (if k = j then None else find_tag s k)"
    by (induction s) (auto simp: del_tag_def)
qed

lemma policy_tag [simp]: "be_tag (apply_builtin_policy b) = be_tag b"
  by (simp add: apply_builtin_policy_def split: option.split)

lemma by_tag_find:
  "to_lower (trim_space t) \<noteq> [] \<Longrightarrow>
   by_tag (ManifestDecoded bs) t = map_option apply_builtin_policy (find_tag bs (to_lower (trim_space t)))"
  by (induction bs) (auto simp: by_tag_def load_backends_def load_manifest_def tag_key_def Let_def)

section \<open>Histories of mutations\<close>

datatype registry_op = OpUpsert backend | OpRemove string

fun registry_step :: "registry_io \<times> registry_op \<Rightarrow> manifest \<Rightarrow> manifest" where
  "registry_step (io, OpUpsert be) m = snd (upsert_backend io m be)"
| "registry_step (io, OpRemove tag) m = snd (snd (remove_backend io m tag))"

definition run_registry :: "(registry_io \<times> registry_op) list \<Rightarrow> manifest \<Rightarrow> manifest" where
  "run_registry steps m = foldl (\<lambda>m st. registry_step st m) m steps"

text \<open>A mutation takes effect when its save reached the rename.\<close>

definition effective :: "registry_io \<times> registry_op \<Rightarrow> bool" where
  "effective st \<longleftrightarrow> io_mkdir_ok (fst st) \<and> io_lock (fst st) = None \<and> io_save (fst st) \<noteq> SaveBroken"

fun op_write :: "registry_op \<Rightarrow> (string, backend) store_write" where
  "op_write (OpUpsert be) = WritePut be"
| "op_write (OpRemove tag) = WriteDel (to_lower tag)"

text \<open>The backends a readable manifest holds; a missing one holds none.\<close>

definition usable :: "manifest \<Rightarrow> bool" where
  "usable m \<longleftrightarrow> m = ManifestMissing \<or> (\<exists>bs. m = ManifestDecoded bs)"

definition held :: "manifest \<Rightarrow> backend list" where
  "held m = (case m of ManifestDecoded bs \<Rightarrow> bs | _ \<Rightarrow> [])"

lemma load_usable: "usable m \<Longrightarrow> load_manifest_for_mutation m = Inr (held m)"
  by (auto simp: usable_def held_def load_manifest_for_mutation_def load_manifest_def)

lemma by_tag_held:
  assumes "usable m" "to_lower (trim_space t) \<noteq> []"
  shows "by_tag m t = map_option apply_builtin_policy (find_tag (held m) (to_lower (trim_space t)))"
  using assms by_tag_find [OF assms(2)]
  by (auto simp: usable_def held_def by_tag_def load_backends_def load_manifest_def)

lemma del_tag_same: "length (filter (\<lambda>b. \<not> equal_fold (be_tag b) tag) bs) = length bs \<Longrightarrow> del_tag (to_lower tag) bs = bs"
proof -
  assume "length (filter (\<lambda>b. \<not> equal_fold (be_tag b) tag) bs) = length bs"
  then have "filter (\<lambda>b. \<not> equal_fold (be_tag b) tag) bs = bs" by (metis filter_id_conv length_filter_less nat_neq_iff)
  then show ?thesis by (simp add: del_tag_def tag_key_def equal_fold_def)
qed

lemma registry_step_held:
  assumes "usable m"
  shows "usable (registry_step st m) \<and>
    held (registry_step st m) = (if effective st then registry.perform (op_write (snd st)) (held m) else held m)"
proof -
  obtain io op where st: "st = (io, op)" by fastforce
  show ?thesis
  proof (cases op)
    case (OpUpsert be)
    then show ?thesis using assms load_usable [OF assms]
      by (auto simp: st upsert_backend_def under_lock_def effective_def save_manifest_locked_def usable_def held_def put_backend_def
          split: option.splits save_outcome.splits)
  next
    case (OpRemove tag)
    have "filter (\<lambda>b. \<not> equal_fold (be_tag b) tag) bs = del_tag (to_lower tag) bs" for bs
      by (simp add: del_tag_def tag_key_def equal_fold_def)
    then show ?thesis using OpRemove assms load_usable [OF assms] del_tag_same [of tag "held m"]
      by (auto simp: st remove_backend_def under_lock_def effective_def save_manifest_locked_def usable_def held_def Let_def
          split: option.splits save_outcome.splits)
  qed
qed

lemma run_registry_held:
  assumes "usable m"
  shows "usable (run_registry steps m) \<and>
    held (run_registry steps m) = foldl (\<lambda>s w. registry.perform w s) (held m) (map (op_write \<circ> snd) (filter effective steps))"
  using assms
proof (induction steps rule: rev_induct)
  case (snoc st steps)
  then show ?case using registry_step_held [of "run_registry steps m" st] by (simp add: run_registry_def)
qed (simp add: run_registry_def)

definition concerns :: "string \<Rightarrow> registry_op \<Rightarrow> bool" where
  "concerns k op = (case op of OpUpsert be \<Rightarrow> to_lower (be_tag be) = k | OpRemove tag \<Rightarrow> to_lower tag = k)"

lemma touches_concerns: "registry.touches k (op_write op) = concerns k op"
  by (cases op) (auto simp: concerns_def tag_key_def)

lemma find_filter: "List.find P (filter Q xs) = List.find (\<lambda>x. Q x \<and> P x) xs"
  by (induction xs) auto

lemma find_map_of: "List.find P (map f xs) = map_option f (List.find (P \<circ> f) xs)"
  by (induction xs) auto

section \<open>Routing and discovery\<close>

lemma policy_idem [simp]: "apply_builtin_policy (apply_builtin_policy b) = apply_builtin_policy b"
proof -
  have "recipe_by_name (be_tag (apply_builtin_policy b)) = recipe_by_name (be_tag b)" by simp
  then show ?thesis by (cases "recipe_by_name (be_tag b)") (auto simp: apply_builtin_policy_def)
qed

lemma find_is: "List.find P xs = Some x \<Longrightarrow> x \<in> set xs \<and> P x"
  by (induction xs) (auto split: if_splits)

lemma find_none: "List.find P xs = None \<longleftrightarrow> (\<forall>x \<in> set xs. \<not> P x)"
  by (induction xs) auto

definition serves :: "(string \<Rightarrow> bool) \<Rightarrow> string \<Rightarrow> backend \<Rightarrow> bool" where
  "serves stat arch b \<longleftrightarrow> equal_fold (trim_space (be_route_arch b)) arch \<and> stat (be_path b)"

lemma sole_helper_step_cases:
  "sole_helper_step stat arch (h, other) b =
     (if serves stat arch b \<and> is_helper_only b \<and> h = None then Some b else h,
      other \<or> serves stat arch b \<and> \<not> is_helper_only b)"
  by (auto simp: sole_helper_step_def serves_def split: option.split)

lemma sole_helper_fold:
  "foldl (sole_helper_step stat arch) (h0, other0) bs = (h, other) \<Longrightarrow>
   (other \<longleftrightarrow> other0 \<or> (\<exists>b \<in> set bs. serves stat arch b \<and> \<not> is_helper_only b)) \<and>
   (\<forall>b. h = Some b \<longrightarrow> h0 = Some b \<or> b \<in> set bs \<and> serves stat arch b \<and> is_helper_only b)"
proof (induction bs arbitrary: h0 other0)
  case (Cons b bs)
  then show ?case unfolding foldl.simps sole_helper_step_cases by (auto dest!: Cons.IH split: if_splits)
qed auto

lemma sole_helper_facts:
  assumes "sole_helper_for_arch stat m a = Some h"
  shows "is_helper_only h" "h \<in> set (load_backends m)" "stat (be_path h)"
    "\<forall>b \<in> set (load_backends m). equal_fold (trim_space (be_route_arch b)) (to_lower (trim_space a)) \<longrightarrow>
       stat (be_path b) \<longrightarrow> is_helper_only b"
proof -
  obtain h' other where f: "foldl (sole_helper_step stat (to_lower (trim_space a))) (None, False) (load_backends m) = (h', other)"
    by fastforce
  then have "\<not> other" "h' = Some h"
    using assms by (auto simp: sole_helper_for_arch_def Let_def split: if_splits)
  with sole_helper_fold [OF f, unfolded serves_def] show "is_helper_only h" "h \<in> set (load_backends m)" "stat (be_path h)"
    "\<forall>b \<in> set (load_backends m). equal_fold (trim_space (be_route_arch b)) (to_lower (trim_space a)) \<longrightarrow>
       stat (be_path b) \<longrightarrow> is_helper_only b" by auto
qed

lemma is_space_code: "is_space c \<longleftrightarrow> (of_char c :: nat) \<in> {32, 9, 10, 11, 12, 13}"
  unfolding is_space_def by (simp flip: of_char_eq_iff [where 'a = nat])

lemma is_space_lower [simp]: "is_space (to_lower_char c) = is_space c"
  unfolding is_space_code by (auto simp: to_lower_char_def Let_def of_char_of)

lemma trim_lower: "trim_space (to_lower s) = to_lower (trim_space s)"
  by (simp add: trim_space_def trim_left_def trim_right_def to_lower_def dropWhile_map rev_map comp_def)

lemma scan_entries_ok:
  "scan_entries hm root es subdirs budget = (r, b) \<Longrightarrow> 0 < budget \<Longrightarrow> b \<le> budget \<and>
     (case r of ScanFound d \<Rightarrow> has_state hm d \<and> 0 < b | ScanExhausted \<Rightarrow> b = 0
      | ScanSubdirs ds \<Rightarrow> 0 < b \<and> int (length ds) + b = int (length subdirs) + budget)"
proof (induction es arbitrary: subdirs budget)
  case (Cons e es)
  obtain name is_dir where e: "e = (name, is_dir)" by fastforce
  let ?dir = "path_join [root, name]"
  consider "\<not> is_dir \<or> has_prefix name ''.''" | "is_dir" "\<not> has_prefix name ''.''" "budget - 1 \<le> 0"
    | "is_dir" "\<not> has_prefix name ''.''" "0 < budget - 1" "has_state hm ?dir"
    | "is_dir" "\<not> has_prefix name ''.''" "0 < budget - 1" "\<not> has_state hm ?dir" by linarith
  then show ?case
  proof cases
    case 1
    then show ?thesis using Cons e by auto
  next
    case 4
    then have "scan_entries hm root es (subdirs @ [?dir]) (budget - 1) = (r, b)" using Cons.prems(1) e by simp
    from Cons.IH [OF this 4(3)] show ?thesis by (auto split: scan_result.splits)
  qed (use Cons.prems e in \<open>auto simp: Let_def\<close>)
qed auto

lemma scan_for_state_ok:
  "0 \<le> budget \<Longrightarrow> scan_for_state hm depth root budget = (d, b) \<Longrightarrow> 0 \<le> b \<and> b \<le> budget \<and> (d \<noteq> [] \<longrightarrow> has_state hm d)"
  "0 \<le> budget \<Longrightarrow> scan_subdirs hm depth dirs budget = (d, b) \<Longrightarrow> 0 \<le> b \<and> b \<le> budget \<and> (d \<noteq> [] \<longrightarrow> has_state hm d)"
proof (induction hm depth root budget and hm depth dirs budget arbitrary: d b and d b
    rule: scan_for_state_scan_subdirs.induct)
  case (2 hm depth root budget)
  show ?case
  proof (cases "budget \<le> 0")
    case False
    show ?thesis
    proof (cases "hm_entries hm root")
      case (Some es)
      obtain r b' where r: "scan_entries hm root es [] budget = (r, b')" by fastforce
      note ok = scan_entries_ok [OF r]
      have e: "scan_for_state hm (Suc depth) root budget =
          (case r of ScanFound dir \<Rightarrow> (dir, b') | ScanExhausted \<Rightarrow> ([], b') | ScanSubdirs dirs \<Rightarrow> scan_subdirs hm depth dirs b')"
        using False Some r by simp
      show ?thesis
      proof (cases r)
        case (ScanSubdirs dirs)
        then have sub: "scan_subdirs hm depth dirs b' = (d, b)" using "2.prems"(2) e by simp
        have b: "0 \<le> b'" "b' \<le> budget" using ok False ScanSubdirs by simp_all
        from "2.IH" [OF False Some r [symmetric] ScanSubdirs b(1) sub] b(2) show ?thesis by simp
      next
        case (ScanFound dir)
        then show ?thesis using "2.prems"(2) e ok False by simp
      next
        case ScanExhausted
        then show ?thesis using "2.prems"(2) e ok False by simp
      qed
    qed (use "2.prems" False in auto)
  qed (use "2.prems" in auto)
next
  case (4 hm depth e ds budget)
  obtain f b' where f: "scan_for_state hm depth e budget = (f, b')" by fastforce
  show ?case using "4.IH"(1) [OF _ f] "4.IH"(2) [OF f [symmetric] refl] "4.prems" f by (auto split: if_splits)
qed auto

section \<open>Properties\<close>

text \<open>
  C40: The last write wins. After any history of registrations and removals, each with its own file
  outcomes, looking a tag up gives what the last effective mutation of that tag left - the registered
  backend under the reviewed policy, or nothing after a removal - and the earlier answer when none was
  effective: a mutation whose lock or save failed, and every mutation of another tag, changes nothing
  for it.
\<close>

theorem registry_last_write_wins:
  assumes "usable m" "k = to_lower (trim_space t)" "k \<noteq> []"
  shows "by_tag (run_registry steps m) t =
    (case List.find (\<lambda>st. effective st \<and> concerns k (snd st)) (rev steps) of
       Some (io, OpUpsert be) \<Rightarrow> Some (apply_builtin_policy be)
     | Some (io, OpRemove tag) \<Rightarrow> None
     | None \<Rightarrow> by_tag m t)"
proof -
  let ?ws = "map (op_write \<circ> snd) (filter effective steps)"
  have "List.find (registry.touches k) (rev ?ws) =
      map_option (op_write \<circ> snd) (List.find (\<lambda>st. effective st \<and> concerns k (snd st)) (rev steps))"
    unfolding rev_map rev_filter find_map_of find_filter by (simp add: comp_def touches_concerns)
  moreover have "by_tag (run_registry steps m) t =
      map_option apply_builtin_policy (find_tag (foldl (\<lambda>s w. registry.perform w s) (held m) ?ws) k)"
    using by_tag_held [of "run_registry steps m" t] run_registry_held [OF assms(1), of steps] assms(2,3) by simp
  ultimately show ?thesis
    using by_tag_held [OF assms(1), of t] assms(2,3)
    by (auto simp: registry.last_write_wins split: option.split registry_op.split)
qed

text \<open>
  Helper builds stay isolated. No architecture routes a main-model launch to a helper-only backend,
  also when an old manifest does not record the restriction; and the helper that serves an architecture
  by exception is one only when it exists, is a helper, and no installed other backend serves it.
\<close>

theorem helper_backends_isolated:
  shows "(for_arch stat m a = Some b \<longrightarrow> \<not> is_helper_only b \<and> stat (be_path b) \<and> b \<in> set (load_backends m)) \<and>
    (\<forall>b \<in> set (registered_for_arch m a). \<not> is_helper_only b) \<and>
    (recipe_by_name (be_tag b) = Some r \<and> rc_helper_only r \<longrightarrow> is_helper_only b) \<and>
    (sole_helper_for_arch stat m a = Some h \<longrightarrow>
       is_helper_only h \<and> stat (be_path h) \<and> for_arch stat m a = None \<and>
       (\<forall>b \<in> set (registered_for_arch m a). \<not> stat (be_path b)))"
proof (intro conjI impI)
  assume h: "sole_helper_for_arch stat m a = Some h"
  note f = sole_helper_facts [OF h]
  show "is_helper_only h" "stat (be_path h)" using f by simp_all
  show "\<forall>b \<in> set (registered_for_arch m a). \<not> stat (be_path b)"
    using f(4) by (auto simp: registered_for_arch_def Let_def split: if_splits)
  show "for_arch stat m a = None"
  proof (rule ccontr)
    assume "for_arch stat m a \<noteq> None"
    then obtain b where "b \<in> set (load_backends m)" "\<not> is_helper_only b" "stat (be_path b)"
      "to_lower (be_route_arch b) = to_lower (trim_space a)"
      by (auto simp: for_arch_def Let_def dest!: find_is split: if_splits)
    moreover from this(4) have "equal_fold (trim_space (be_route_arch b)) (to_lower (trim_space a))"
      unfolding equal_fold_def by (metis to_lower_idem trim_lower trim_space_idem)
    ultimately show False using f(4) by blast
  qed
qed (auto simp: for_arch_def registered_for_arch_def is_helper_only_def apply_builtin_policy_def Let_def dest!: find_is split: if_splits)

section \<open>Witnesses\<close>

definition demo_backend :: "string \<Rightarrow> string \<Rightarrow> backend" where
  "demo_backend tag arch =
     \<lparr>be_tag = tag, be_path = ''/b'' , be_route_arch = arch, be_helper_only = False, be_git_url = [], be_branch = [],
      be_commit = [], be_applied_patches = [], be_previous = None\<rparr>"

definition demo_io :: "save_outcome \<Rightarrow> registry_io" where
  "demo_io s = \<lparr>io_mkdir_ok = True, io_lock = None, io_save = s\<rparr>"

lemma registry_last_write_wins_witness:
  "by_tag (run_registry [(demo_io SaveComplete, OpUpsert (demo_backend ''Fork'' ''laguna'')),
     (demo_io SaveBroken, OpRemove ''fork'')] ManifestMissing) '' FORK '' = Some (demo_backend ''Fork'' ''laguna'')"
proof -
  have k: "''fork'' = to_lower (trim_space '' FORK '')" by code_simp
  have f: "List.find (\<lambda>st. effective st \<and> concerns ''fork'' (snd st))
      (rev [(demo_io SaveComplete, OpUpsert (demo_backend ''Fork'' ''laguna'')), (demo_io SaveBroken, OpRemove ''fork'')]) =
      Some (demo_io SaveComplete, OpUpsert (demo_backend ''Fork'' ''laguna''))" by code_simp
  have "apply_builtin_policy (demo_backend ''Fork'' ''laguna'') = demo_backend ''Fork'' ''laguna''" by code_simp
  then show ?thesis
    using registry_last_write_wins [OF _ k, of ManifestMissing] f by (simp add: usable_def)
qed

lemma helper_backends_isolated_witness:
  "sole_helper_for_arch (\<lambda>_. True) (ManifestDecoded [demo_backend ''nanbeige42'' ''nanbeige'']) ''nanbeige'' \<noteq> None \<and>
   for_arch (\<lambda>_. True) (ManifestDecoded [demo_backend ''nanbeige42'' ''nanbeige'']) ''nanbeige'' = None"
proof -
  let ?m = "ManifestDecoded [demo_backend ''nanbeige42'' ''nanbeige'']"
  have "sole_helper_for_arch (\<lambda>_. True) ?m ''nanbeige'' \<noteq> None" by code_simp
  then obtain h where h: "sole_helper_for_arch (\<lambda>_. True) ?m ''nanbeige'' = Some h" by blast
  from helper_backends_isolated [of "\<lambda>_. True" ?m "''nanbeige''" h "hd builtin_recipes" h] h show ?thesis by simp
qed

end
