(* ===== verification/HostMemory.thy ===== *)
theory HostMemory
  imports KvLayers LayerSplit SparseLookup
begin

text \<open>
  Memory outside the weights (\<^verbatim>\<open>go/pkg/placement/placement.go\<close>,
  \<^verbatim>\<open>promptcache.go\<close>): the cold estimate of a compute graph, the host footprint of a plan,
  context checkpoints, the prompt cache budget, the choice of a placement kind and the guard that refuses
  a plan that does not fit.

  What the probe caches hold is an argument: a measured compute buffer, the CUDA overhead planned per
  device, a measured host overhead. A \<^verbatim>\<open>float64\<close> is its exact rational value.
\<close>

definition min_cram_mb :: int where "min_cram_mb = 512"
definition cram_quantum_mb :: int where "cram_quantum_mb = 512"
definition hybrid_checkpoint_reserve_mb :: int where "hybrid_checkpoint_reserve_mb = 128"
definition hybrid_checkpoint_minimum :: int where "hybrid_checkpoint_minimum = 4"
definition hybrid_checkpoint_maximum :: int where "hybrid_checkpoint_maximum = 16"
definition min_reuse_checkpoints :: int where "min_reuse_checkpoints = 2"
definition checkpoint_min_step_floor :: int where "checkpoint_min_step_floor = 512"

section \<open>Loader behaviour\<close>

datatype mmap_capability = MMapUnknown | MMapFileBacked | MMapAnonymous

definition normalize_mmap_capability :: "string \<Rightarrow> mmap_capability" where
  "normalize_mmap_capability v =
     (let t = to_lower (trim_space v) in
      if t = ''file-backed'' then MMapFileBacked
      else if t = ''anonymous'' then MMapAnonymous
      else MMapUnknown)"

record host_options =
  ho_mmap_capability :: string
  ho_mmap_evidence :: string
  ho_backend_tag :: string
  ho_backend_identity :: string
  ho_no_mmap :: bool
  ho_force_mmap :: bool
  ho_cpu_mode :: bool
  ho_require_measured :: bool
  ho_host_growth_reserve_mb :: int
  ho_cache_ram_mb :: int
  ho_max_checkpoints_set :: bool
  ho_max_checkpoints :: int
  ho_checkpoint_reuse :: bool

definition uses_anonymous_cpu_experts :: "string \<Rightarrow> bool" where
  "uses_anonymous_cpu_experts tag \<longleftrightarrow>
     (let t = to_lower (trim_space tag) in
      t = ''ik'' \<or> t = ''ik_llama'' \<or> contains_sub t ''ik_llama'' \<or> t = ''hy3'')"

definition effective_mmap_capability :: "host_options \<Rightarrow> mmap_capability" where
  "effective_mmap_capability opts =
     (if ho_mmap_capability opts \<noteq> [] then normalize_mmap_capability (ho_mmap_capability opts)
      else if uses_anonymous_cpu_experts (ho_backend_tag opts) then MMapAnonymous
      else MMapFileBacked)"

definition mmap_can_page_cpu_experts :: "host_options \<Rightarrow> bool" where
  "mmap_can_page_cpu_experts opts \<longleftrightarrow> effective_mmap_capability opts = MMapFileBacked"

datatype mmap_ineligibility = AnonymousExperts string | UnknownPageability string string | NotEligible

definition mmap_cpu_expert_ineligibility :: "host_options \<Rightarrow> mmap_ineligibility" where
  "mmap_cpu_expert_ineligibility opts =
     (let i = trim_space (ho_backend_identity opts);
          j = (if i = [] then trim_space (ho_backend_tag opts) else i);
          ident = (if j = [] then ''selected backend'' else j);
          reason = trim_space (ho_mmap_evidence opts)
      in
      case effective_mmap_capability opts of
        MMapAnonymous \<Rightarrow> AnonymousExperts ident
      | MMapUnknown \<Rightarrow>
          UnknownPageability ident
            (if reason = [] then ''the exact loader has no proven file-backed CPU-expert capability'' else reason)
      | MMapFileBacked \<Rightarrow> NotEligible)"

section \<open>Batches and checkpoints\<close>

record host_strategy = lookup_strategy +
  hs_measured_checkpoint_mb :: rat
  hs_measured_entry_mb :: rat
  hs_measured_bytes_per_token :: rat
  hs_typical_tokens :: int
  hs_context_allocation_mb :: int
  hs_reclaimable_weights_mb :: int
  hs_mmproj_size_mb :: int
  hs_swa_full :: bool

definition checkpoint_min_step :: "model_profile option \<Rightarrow> int \<Rightarrow> int" where
  "checkpoint_min_step mo ubatch0 =
     (case mo of
        None \<Rightarrow> 0
      | Some m \<Rightarrow>
          if m_sliding_window m > 0 then
            let ubatch = (if ubatch0 \<le> 0 then 512 else ubatch0);
                step0 = m_sliding_window m + ubatch;
                step = step0 - go_mod step0 256
            in if step < checkpoint_min_step_floor then checkpoint_min_step_floor else step
          else if is_recurrent_or_hybrid mo then checkpoint_min_step_floor
          else 0)"

definition normalize_batch_sizes ::
  "host_strategy \<Rightarrow> model_profile option \<Rightarrow> bool \<Rightarrow> bool \<Rightarrow> host_strategy \<times> bool" where
  "normalize_batch_sizes s mo batch_explicit ubatch_explicit =
     (if pl_batch_size s > 0 \<and> pl_ubatch_size s > pl_batch_size s then
        (if ubatch_explicit \<and> \<not> batch_explicit then (s\<lparr>pl_batch_size := pl_ubatch_size s\<rparr>, True)
         else (s\<lparr>pl_ubatch_size := pl_batch_size s,
                 la_checkpoint_min_step := checkpoint_min_step mo (pl_batch_size s)\<rparr>, True))
      else (s, False))"

definition hybrid_checkpoint_mb :: "model_profile option \<Rightarrow> rat \<Rightarrow> int" where
  "hybrid_checkpoint_mb mo measured =
     max hybrid_checkpoint_reserve_mb (max \<lceil>recurrent_state_mib_per_slot mo\<rceil> \<lceil>measured\<rceil>)"

definition per_checkpoint_mb :: "model_profile \<Rightarrow> int \<Rightarrow> int \<Rightarrow> rat option \<Rightarrow> int" where
  "per_checkpoint_mb m kv ctx measured =
     (let a = (if m_sliding_window m > 0 \<and> kv > 0 \<and> ctx > 0
               then (let p = go_div (kv * (2 * m_sliding_window m)) ctx in if p < 20 then 20 else p) else 0);
          b = (if is_recurrent_or_hybrid (Some m) then max a (hybrid_checkpoint_mb (Some m) 0) else a)
      in case measured of
           Some c \<Rightarrow> if c > 0 \<and> \<lceil>c\<rceil> > b then \<lceil>c\<rceil> else b
         | None \<Rightarrow> b)"

definition checkpoint_footprint_mb ::
  "model_profile option \<Rightarrow> int \<Rightarrow> int \<Rightarrow> int \<Rightarrow> int \<Rightarrow> rat option \<Rightarrow> int" where
  "checkpoint_footprint_mb mo max_checkpoints slots kv ctx measured =
     (case mo of
        None \<Rightarrow> 0
      | Some m \<Rightarrow>
          if m_sliding_window m \<le> 0 \<and> \<not> is_recurrent_or_hybrid mo then 0
          else
            let n = (if max_checkpoints \<le> 0 \<or> max_checkpoints > 16 then 16 else max_checkpoints);
                sl = (if slots < 1 then 1 else slots);
                per = per_checkpoint_mb m kv ctx measured
            in if per \<le> 0 then 0
               else (if n * per > 16 * 1024 then 16 * 1024 else n * per) * sl)"

section \<open>Host overhead\<close>

definition host_page_and_activation_mb :: "model_profile \<Rightarrow> int \<Rightarrow> int \<Rightarrow> int" where
  "host_page_and_activation_mb m ubatch total_mb =
     (let ffn0 = (if m_num_experts m > 0 \<and> m_expert_used_count m > 0 \<and> m_expert_ff m > 0
                  then m_expert_used_count m * m_expert_ff m +
                       (if m_expert_shared_ff m > 0 then m_expert_shared_ff m else 0)
                  else m_feed_forward_length m);
          ffn = (if m_kv_lora_rank m > 0 then ffn0 + (m_kv_lora_rank m + m_q_lora_rank m) else ffn0);
          act = go_div (ubatch * (m_embedding_length m + ffn) * 4 * 2) 1048576
      in go_div total_mb 500 + (if act < 64 then 64 else act))"

definition ram_runtime_overhead_mb :: "model_profile \<Rightarrow> int \<Rightarrow> int \<Rightarrow> int" where
  "ram_runtime_overhead_mb m ubatch total_mb = 1024 + 2048 + host_page_and_activation_mb m ubatch total_mb"

definition cpu_only_runtime_overhead_mb :: "model_profile \<Rightarrow> int \<Rightarrow> int \<Rightarrow> int" where
  "cpu_only_runtime_overhead_mb m ubatch total_mb =
     (let graph = (if m_vocab_size m > 0
                   then \<lceil>of_int ((if ubatch \<le> 0 then 512 else ubatch) * m_vocab_size m * 4) / (1048576 :: rat)\<rceil>
                   else 2048)
      in 512 + graph + host_page_and_activation_mb m (if m_vocab_size m > 0 \<and> ubatch \<le> 0 then 512 else ubatch) total_mb)"

text \<open>\<open>measured\<close> is the host overhead of the system probe, when there is one.\<close>

definition planned_ram_runtime_overhead_mb ::
  "int option \<Rightarrow> capabilities option \<Rightarrow> model_profile \<Rightarrow> int \<Rightarrow> int \<Rightarrow> host_options \<Rightarrow> int" where
  "planned_ram_runtime_overhead_mb measured caps m ubatch total_mb opts =
     (if ho_require_measured opts then
        (case (caps, measured) of (Some _, Some h) \<Rightarrow> if h > 0 then h else 0 | _ \<Rightarrow> 0)
      else if ho_cpu_mode opts \<or> (case caps of None \<Rightarrow> True | Some c \<Rightarrow> c_gpus c = [])
      then cpu_only_runtime_overhead_mb m ubatch total_mb
      else ram_runtime_overhead_mb m ubatch total_mb)"

definition host_footprint_for_cache :: "int \<Rightarrow> int \<Rightarrow> bool \<Rightarrow> host_options \<Rightarrow> int" where
  "host_footprint_for_cache resident working_set mmap opts =
     (let f = (if mmap \<and> mmap_can_page_cpu_experts opts then working_set else resident) in
      if f < 0 then 0 else f)"

definition resident_host_footprint_mb ::
  "model_profile option \<Rightarrow> int \<Rightarrow> int \<Rightarrow> int \<Rightarrow> int \<Rightarrow> int \<Rightarrow> int \<Rightarrow> rat \<Rightarrow> int" where
  "resident_host_footprint_mb mo ubatch total_mb cpu_kv max_checkpoints slots ctx measured =
     (case mo of
        None \<Rightarrow> 0
      | Some m \<Rightarrow>
          let f = ram_runtime_overhead_mb m ubatch total_mb + bytes_to_mib_ceil (m_token_embd_bytes m) +
                  (if cpu_kv < 0 then 0 else cpu_kv) +
                  checkpoint_footprint_mb mo max_checkpoints slots cpu_kv ctx (Some measured)
          in if f < 0 then 0 else f)"

text \<open>
  \<^verbatim>\<open>cachedMoEHostMemoryFits\<close>: whether a cached MoE plan still fits the host, its mmap
  decision and the footprint charged. \<open>measured\<close> as above.
\<close>

record moe_host_verdict =
  mv_fits :: bool
  mv_mmap :: bool
  mv_mmap_required :: bool
  mv_footprint :: int

definition cpu_expert_mb :: "model_profile \<Rightarrow> cache_entry \<Rightarrow> int" where
  "cpu_expert_mb m cache =
     (let l0 = m_num_layers m - m_leading_dense m;
          layers = (if l0 \<le> 0 then m_num_layers m else l0);
          start = m_num_layers m - layers
      in sum_routed_layer_mb (fst (moe_layer_memory_costs (Some m) start layers)) (layers - ce_n_cpu_moe cache))"

definition working_set_mb ::
  "int option \<Rightarrow> capabilities \<Rightarrow> model_profile \<Rightarrow> host_strategy \<Rightarrow> cache_entry \<Rightarrow> int \<Rightarrow> int \<Rightarrow> host_options \<Rightarrow> int" where
  "working_set_mb measured caps m s cache total_mb kv opts =
     planned_ram_runtime_overhead_mb measured (Some caps) m (ce_ubatch_size cache) total_mb opts +
     (if \<not> ce_kv_unified cache \<and> s_kv_placement s = ''cpu'' then kv else 0) +
     bytes_to_mib_ceil (m_token_embd_bytes m) +
     checkpoint_footprint_mb (Some m) 0 (s_parallel s) kv (s_context_size s) (Some (hs_measured_checkpoint_mb s))"

definition cached_moe_host_memory_fits ::
  "int option \<Rightarrow> capabilities \<Rightarrow> model_profile \<Rightarrow> host_strategy \<Rightarrow> cache_entry \<Rightarrow> int \<Rightarrow> int \<Rightarrow> host_options \<Rightarrow>
     moe_host_verdict \<times> host_strategy" where
  "cached_moe_host_memory_fits measured caps m s cache total_mb kv opts =
     (let experts = cpu_expert_mb m cache;
          working = working_set_mb measured caps m s cache total_mb kv opts;
          resident = experts + working;
          mmap = (if ho_no_mmap opts then False else if ho_force_mmap opts then True else ce_mmap cache);
          free = ram_free_mb (c_ram caps)
      in
      (if resident \<le> free then
         \<lparr>mv_fits = True, mv_mmap = mmap, mv_mmap_required = False,
          mv_footprint = host_footprint_for_cache resident working mmap opts\<rparr>
       else if \<not> mmap \<or> \<not> mmap_can_page_cpu_experts opts then
         \<lparr>mv_fits = False, mv_mmap = mmap, mv_mmap_required = False, mv_footprint = 0\<rparr>
       else if working > free then
         \<lparr>mv_fits = False, mv_mmap = mmap, mv_mmap_required = False, mv_footprint = 0\<rparr>
       else
         \<lparr>mv_fits = True, mv_mmap = True, mv_mmap_required = True,
          mv_footprint = host_footprint_for_cache resident working True opts\<rparr>,
       s\<lparr>hs_reclaimable_weights_mb := experts\<rparr>))"

section \<open>Compute graphs\<close>

definition first_launch_compute_buf_mb_parallel :: "model_profile option \<Rightarrow> int \<Rightarrow> int \<Rightarrow> int" where
  "first_launch_compute_buf_mb_parallel mo ubatch par =
     (let est = (case mo of
           None \<Rightarrow> ubatch * 4
         | Some m \<Rightarrow>
             if m_hidden_size m > 0 \<and> m_num_layers m > 0 then
               let c0 = (if equal_fold (m_model_arch m) ''deepseek4'' \<and> m_expert_used_count m > 0
                         then max 42 (of_int (m_expert_used_count m) * 128) else (42 :: rat));
                   c = (if m_measured_compute_coefficient m > 0 then m_measured_compute_coefficient m else c0);
                   e = go_trunc (of_int ubatch * (of_int (m_hidden_size m) * of_int (m_num_layers m) * c / 1000000))
               in if par > 1 then ceil_div_int e par else e
             else ubatch * 4)
      in if est < compute_floor_mb then compute_floor_mb else est)"

definition first_launch_compute_buf_mb :: "model_profile option \<Rightarrow> int \<Rightarrow> int" where
  "first_launch_compute_buf_mb mo ubatch = first_launch_compute_buf_mb_parallel mo ubatch 1"

definition first_launch_compute_buf_mb_at_context :: "model_profile option \<Rightarrow> int \<Rightarrow> int \<Rightarrow> int \<Rightarrow> int" where
  "first_launch_compute_buf_mb_at_context mo ubatch par ctx =
     (let est = first_launch_compute_buf_mb_parallel mo ubatch par in
      case mo of
        None \<Rightarrow> est
      | Some m \<Rightarrow>
          if ctx \<le> 0 then est
          else if \<not> equal_fold (m_model_arch m) ''deepseek4'' \<and> m_measured_compute_coefficient m \<le> 0 then est
          else if est \<le> compute_floor_mb then est
          else
            let scaled = compute_floor_mb + go_div ((est - compute_floor_mb) * ctx) 1048576 in
            if scaled < compute_floor_mb then compute_floor_mb
            else if scaled > max_int then max_int
            else scaled)"

definition model_aware_headroom :: "model_profile option \<Rightarrow> int" where
  "model_aware_headroom mo = first_launch_compute_buf_mb mo 512 + 1024"

definition planned_model_aware_headroom :: "model_profile option \<Rightarrow> host_options \<Rightarrow> int" where
  "planned_model_aware_headroom mo opts = (if ho_require_measured opts then 0 else model_aware_headroom mo)"

text \<open>The compute buffer charged per device; \<open>probe\<close> is the measured one, if positive.\<close>

definition planned_compute_buf_mb :: "host_options \<Rightarrow> int option \<Rightarrow> int" where
  "planned_compute_buf_mb opts probe =
     (case probe of
        Some b \<Rightarrow> if b > 0 then b else if ho_require_measured opts then 0 else compute_floor_mb
      | None \<Rightarrow> if ho_require_measured opts then 0 else compute_floor_mb)"

section \<open>The kind of placement\<close>

definition best_free_vram :: "gpu list \<Rightarrow> int" where
  "best_free_vram gpus = foldl (\<lambda>b g. if vram_free_mb g > b then vram_free_mb g else b) 0 gpus"

definition dense_multi_gpu_fit :: "capabilities \<Rightarrow> model_profile option \<Rightarrow> int \<Rightarrow> int \<Rightarrow> int \<Rightarrow> int \<Rightarrow> bool" where
  "dense_multi_gpu_fit caps mo total_mb kv cuda compute =
     (case mo of
        None \<Rightarrow> False
      | Some _ \<Rightarrow>
          c_gpus caps \<noteq> [] \<and>
          total_mb + (cuda + compute) * int (length (c_gpus caps)) + kv \<le> total_vram_free caps)"

definition choose_strategy ::
  "int \<Rightarrow> int option \<Rightarrow> capabilities \<Rightarrow> model_profile \<Rightarrow> host_strategy \<Rightarrow> int \<Rightarrow> int \<Rightarrow> host_options \<Rightarrow> strategy_type" where
  "choose_strategy cuda probe caps m s total_mb kv opts =
     (if ho_cpu_mode opts \<or> c_gpus caps = [] then CPUOnly
      else
        let compute = planned_compute_buf_mb opts probe in
        if total_mb + cuda + compute + kv \<le> best_free_vram (c_gpus caps) then SingleGPU
        else if \<not> m_is_moe m then
          (if dense_multi_gpu_fit caps (Some m) total_mb kv cuda compute then MultiGPUDense else DenseCPUOffload)
        else
          let moe = max compute
                (first_launch_compute_buf_mb_at_context (Some m) (pl_ubatch_size s) (s_parallel s) (s_context_size s)) in
          if dense_multi_gpu_fit caps (Some m) total_mb kv cuda moe then MultiGPUDense else MoEOffload)"

definition context_rungs :: "int list" where
  "context_rungs = [4194304, 2097152, 1048576, 524288, 262144, 131072, 65536, 32768]"

definition lower_context_rungs :: "int \<Rightarrow> int list" where
  "lower_context_rungs ctx = filter (\<lambda>r. r < ctx) context_rungs"

text \<open>
  \<^verbatim>\<open>maybeReduceDenseAutoContext\<close>: \<open>rung_kv\<close> is the KV allocation at a context,
  \<open>prompt\<close> the user's answer to host offload (\<open>None\<close> when nobody is asked). The result is the
  strategy (none when the user declined), its KV size and whether the context was reduced.
\<close>

definition reduce_step ::
  "(int \<Rightarrow> int) \<Rightarrow> (int \<Rightarrow> bool) \<Rightarrow> (int \<times> int) \<Rightarrow> int \<Rightarrow> (int \<times> int)" where
  "reduce_step rung_kv fits best rung = (if fits rung then (rung, rung_kv rung) else best)"

definition maybe_reduce_dense_auto_context ::
  "int \<Rightarrow> int option \<Rightarrow> (int \<Rightarrow> int) \<Rightarrow> bool option \<Rightarrow> int \<Rightarrow> host_strategy \<Rightarrow> capabilities \<Rightarrow> model_profile \<Rightarrow> int \<Rightarrow> int \<Rightarrow>
     host_options \<Rightarrow> host_strategy option \<times> int \<times> bool" where
  "maybe_reduce_dense_auto_context cuda probe rung_kv prompt requested_ctx s caps m total_mb kv opts =
     (if m_is_moe m \<or> c_gpus caps = [] \<or> ho_cpu_mode opts \<or> requested_ctx > 0 then (Some s, kv, False)
      else
        let fits = (\<lambda>r. dense_multi_gpu_fit caps (Some m) total_mb (rung_kv r) cuda (planned_compute_buf_mb opts probe));
            (best, best_kv) = foldl (reduce_step rung_kv fits) (0, 0) (lower_context_rungs (s_context_size s))
        in if best > 0 then (Some (s\<lparr>s_context_size := best\<rparr>), best_kv, True)
           else if prompt = Some False then (None, kv, False)
           else (Some s, kv, False))"

section \<open>The memory guard\<close>

datatype memory_error = DoesNotFit strategy_type int int int

text \<open>Needed, available and the largest safe context the message advertises (zero for none).\<close>

definition overhead_gpus :: "strategy_type \<Rightarrow> capabilities \<Rightarrow> int" where
  "overhead_gpus t caps = (if t = CPUOnly then 0 else if t = SingleGPU then 1 else int (length (c_gpus caps)))"

definition memory_pool :: "strategy_type \<Rightarrow> capabilities \<Rightarrow> int" where
  "memory_pool t caps =
     (case t of
        SingleGPU \<Rightarrow> best_free_vram (c_gpus caps)
      | MultiGPUDense \<Rightarrow> total_vram_free caps
      | CPUOnly \<Rightarrow> ram_free_mb (c_ram caps)
      | DenseCPUOffload \<Rightarrow> total_vram_free caps + ram_free_mb (c_ram caps)
      | MoEOffload \<Rightarrow> 0)"

definition guard_ram_overhead ::
  "int option \<Rightarrow> capabilities \<Rightarrow> model_profile \<Rightarrow> host_strategy \<Rightarrow> int \<Rightarrow> int \<Rightarrow> host_options \<Rightarrow> int" where
  "guard_ram_overhead measured caps m s total_mb kv opts =
     (if s_type s = CPUOnly \<or> s_type s = DenseCPUOffload then
        let growth0 = checkpoint_footprint_mb (Some m) (la_max_checkpoints s) (s_parallel s) kv (s_context_size s)
              (Some (hs_measured_checkpoint_mb s));
            growth = (if s_type s = CPUOnly \<and> hs_reclaimable_weights_mb s \<le> 0 \<and> ho_host_growth_reserve_mb opts > growth0
                      then ho_host_growth_reserve_mb opts else growth0)
        in planned_ram_runtime_overhead_mb measured (Some caps) m (pl_ubatch_size s) total_mb opts + growth
      else 0)"

definition check_memory_or_die ::
  "int \<Rightarrow> int option \<Rightarrow> int option \<Rightarrow> capabilities \<Rightarrow> model_profile \<Rightarrow> host_strategy \<Rightarrow> int \<Rightarrow> int \<Rightarrow> host_options \<Rightarrow>
     memory_error option" where
  "check_memory_or_die cuda probe measured caps m s total_mb kv opts =
     (let compute = planned_compute_buf_mb opts probe;
          overhead = total_mb + (cuda + compute) * overhead_gpus (s_type s) caps;
          ram = guard_ram_overhead measured caps m s total_mb kv opts;
          needed = overhead + kv + ram;
          pool = memory_pool (s_type s) caps
      in
      if needed > pool then
        let max_kv = (let k = pool - overhead - ram in if k < 0 then 0 else k);
            max_ctx = (if kv > 0 then go_div (max_kv * s_context_size s) kv else 0)
        in Some (DoesNotFit (s_type s) needed pool max_ctx)
      else None)"

text \<open>\<^verbatim>\<open>StrategyVRAMHeadroomMB\<close>; \<open>kv_of\<close> is \<^verbatim>\<open>computeKVTotalMB\<close> for this strategy.\<close>

definition strategy_vram_headroom_mb :: "int \<Rightarrow> capabilities \<Rightarrow> model_profile \<Rightarrow> host_strategy \<Rightarrow> int" where
  "strategy_vram_headroom_mb cuda caps m s =
     (let total0 = m_total_size_mb m + hs_mmproj_size_mb s;
          total_mb = (if total0 \<le> 0 then go_div (go_div (m_size_bytes m) 1024) 1024 else total0);
          kv = (if hs_context_allocation_mb s \<le> 0
                then compute_kv_total_mb m (s_context_size s) (s_kv_type s) (hs_swa_full s)
                else hs_context_allocation_mb s)
      in case s_type s of
           SingleGPU \<Rightarrow>
             (case List.find (\<lambda>g. g_index g = la_main_gpu s) (c_gpus caps) of
                Some g \<Rightarrow> max 0 (vram_free_mb g - (total_mb + cuda + compute_floor_mb + kv))
              | None \<Rightarrow> 0)
         | MultiGPUDense \<Rightarrow>
             max 0 (total_vram_free caps - (total_mb + (cuda + compute_floor_mb) * int (length (c_gpus caps)) + kv))
         | _ \<Rightarrow> 0)"

section \<open>The prompt cache\<close>

definition prompt_cache_budget_mb :: "rat \<Rightarrow> int \<Rightarrow> int \<Rightarrow> int" where
  "prompt_cache_budget_mb bytes_per_token prompt_tokens slots =
     (if bytes_per_token \<le> 0 \<or> prompt_tokens \<le> 0 then 0
      else go_trunc (bytes_per_token * of_int prompt_tokens / (1024 * 1024) *
        of_int ((if slots < 1 then 1 else slots) + 1)))"

definition measured_prompt_cache_budget_mb :: "host_strategy \<Rightarrow> int \<Rightarrow> int" where
  "measured_prompt_cache_budget_mb s slots0 =
     (let slots = (if slots0 < 1 then 1 else slots0) in
      if hs_measured_entry_mb s > 0 then go_trunc (hs_measured_entry_mb s * of_int (slots + 1))
      else prompt_cache_budget_mb (hs_measured_bytes_per_token s) (hs_typical_tokens s) slots)"

definition ram_after_load :: "capabilities \<Rightarrow> host_strategy \<Rightarrow> int \<Rightarrow> int" where
  "ram_after_load caps s total_mb =
     (let r = (if lk_host_footprint_mb s > 0 then ram_free_mb (c_ram caps) - lk_host_footprint_mb s
               else ram_free_mb (c_ram caps) - (let c = total_mb - total_vram caps in if c < 0 then 0 else c))
      in if r < 0 then 0 else r)"

text \<open>The budget before it is bounded: the tenth of the rest, the KV of a slot, the measured need.\<close>

definition wanted_cram :: "int \<Rightarrow> host_strategy \<Rightarrow> int \<Rightarrow> int \<Rightarrow> int" where
  "wanted_cram rest s slots kv =
     (let c0 = go_div rest 10;
          c1 = (if kv > c0 then kv else c0);
          measured = measured_prompt_cache_budget_mb s slots
      in if measured > c1
         then (let rem = go_mod measured cram_quantum_mb in
               if rem \<noteq> 0 then measured + (cram_quantum_mb - rem) else measured)
         else c1)"

definition bounded_cram :: "int \<Rightarrow> int \<Rightarrow> int" where
  "bounded_cram rest wanted =
     (let budget = go_div (rest * 2) 3;
          c = (if wanted > budget then budget else wanted);
          q = c - go_mod c cram_quantum_mb
      in if q < min_cram_mb then 0 else q)"

definition slots_of :: "host_strategy \<Rightarrow> int" where
  "slots_of s = (if s_parallel s < 1 then 1 else s_parallel s)"

definition compute_cram :: "capabilities \<Rightarrow> model_profile \<Rightarrow> host_strategy \<Rightarrow> int \<Rightarrow> int \<Rightarrow> int \<times> int" where
  "compute_cram caps m s total_mb kv =
     (let rest = ram_after_load caps s total_mb;
          slots = slots_of s;
          cram = bounded_cram rest (wanted_cram rest s slots kv);
          multi = (if length (c_gpus caps) > 1 \<and> s_type s \<noteq> CPUOnly then
                     (if cram < min_cram_mb then 0
                      else let c = go_div cram 200 in if c < 2 then 2 else if c > 16 then 16 else c)
                   else -1)
      in (cram,
          if la_has_ssm s then
            let headroom = (let h = rest - cram in if h < 0 then 0 else h);
                capacity = go_div headroom (slots * hybrid_checkpoint_mb (Some m) (hs_measured_checkpoint_mb s))
            in if capacity \<ge> hybrid_checkpoint_minimum
               then (if capacity > hybrid_checkpoint_maximum then hybrid_checkpoint_maximum else capacity) else 0
          else multi))"

definition apply_runtime_cache_policy ::
  "model_profile \<Rightarrow> host_strategy \<Rightarrow> capabilities \<Rightarrow> int \<Rightarrow> int \<Rightarrow> host_options \<Rightarrow> host_strategy" where
  "apply_runtime_cache_policy m s caps total_mb kv opts =
     (let (cram0, n0) = compute_cram caps m s total_mb kv;
          cram = (if ho_cache_ram_mb opts > 0 then ho_cache_ram_mb opts else cram0);
          n = (if ho_max_checkpoints_set opts then ho_max_checkpoints opts
               else if ho_checkpoint_reuse opts \<and> n0 = 0 then min_reuse_checkpoints
               else n0)
      in s\<lparr>la_cram := cram, la_max_checkpoints := n, la_checkpoint_min_step := checkpoint_min_step (Some m) (pl_ubatch_size s)\<rparr>)"

record prompt_cache_observation =
  po_bytes_per_token :: rat
  po_largest_entry_mb :: rat
  po_prompts :: int
  po_limit_mb :: rat
  po_skipped :: int
  po_evicted :: int
  po_largest_checkpoint_mb :: rat

definition strategy_checkpoints_mb :: "model_profile \<Rightarrow> host_strategy \<Rightarrow> int" where
  "strategy_checkpoints_mb m s =
     checkpoint_footprint_mb (Some m) (la_max_checkpoints s) (s_parallel s) (hs_context_allocation_mb s) (s_context_size s)
       (Some (hs_measured_checkpoint_mb s))"

definition apply_measured_checkpoint_observation ::
  "model_profile \<Rightarrow> host_strategy \<Rightarrow> prompt_cache_observation \<Rightarrow> host_strategy \<times> int \<times> int \<times> bool" where
  "apply_measured_checkpoint_observation m s obs =
     (if po_largest_checkpoint_mb obs \<le> 0 then (s, 0, 0, False)
      else
        let before = strategy_checkpoints_mb m s in
        if po_largest_checkpoint_mb obs \<le> hs_measured_checkpoint_mb s then (s, before, before, False)
        else
          let s1 = s\<lparr>hs_measured_checkpoint_mb := po_largest_checkpoint_mb obs\<rparr>;
              after = strategy_checkpoints_mb m s1
          in if after \<le> before then (s1, before, after, False)
             else (if lk_host_footprint_mb s > 0
                   then s1\<lparr>lk_host_footprint_mb := lk_host_footprint_mb s + (after - before)\<rparr> else s1,
                   before, after, True))"

definition largest_routed_expert_layer_mb :: "model_profile option \<Rightarrow> int" where
  "largest_routed_expert_layer_mb mo =
     (case mo of
        None \<Rightarrow> 0
      | Some m \<Rightarrow>
          let layers = (if m_routed_expert_layer_bytes m = [] then m_expert_layer_bytes m else m_routed_expert_layer_bytes m);
              b = foldl max 0 layers
          in if b \<le> 0 then 0 else go_div (b + 1048576 - 1) 1048576)"

section \<open>Batches\<close>

lemma normalize_batch_ok:
  assumes "normalize_batch_sizes s mo be ue = (s', changed)" "0 < pl_batch_size s"
  shows "pl_ubatch_size s' \<le> pl_batch_size s'" "changed \<longleftrightarrow> pl_batch_size s < pl_ubatch_size s"
    "normalize_batch_sizes s' mo be ue = (s', False)"
  using assms by (auto simp: normalize_batch_sizes_def Let_def split: if_splits)

section \<open>Footprints\<close>

lemma hybrid_checkpoint_positive: "hybrid_checkpoint_reserve_mb \<le> hybrid_checkpoint_mb mo c" "0 < hybrid_checkpoint_mb mo c"
  by (simp_all add: hybrid_checkpoint_mb_def hybrid_checkpoint_reserve_mb_def)

lemma per_checkpoint_mono:
  "0 \<le> c \<Longrightarrow> c \<le> c' \<Longrightarrow> per_checkpoint_mb m kv ctx (Some c) \<le> per_checkpoint_mb m kv ctx (Some c')"
  using ceiling_mono [of c c'] by (auto simp: per_checkpoint_mb_def Let_def)

lemma checkpoint_footprint_nonneg: "0 \<le> checkpoint_footprint_mb mo n slots kv ctx c"
  by (auto simp: checkpoint_footprint_mb_def Let_def split: option.split)

text \<open>One slot is bounded by 16 GiB, so the reserve is bounded by the slots.\<close>

lemma checkpoint_footprint_bounded: "checkpoint_footprint_mb mo n slots kv ctx c \<le> 16384 * max 1 slots"
proof -
  have sl: "(if slots < 1 then 1 else slots) = max 1 slots" by simp
  have b: "(if x > 16 * 1024 then 16 * 1024 else x) * max 1 slots \<le> 16384 * max 1 slots" for x :: int
    by (rule mult_right_mono) simp_all
  have z: "0 \<le> 16384 * max 1 slots" by simp
  show ?thesis
  proof (cases mo)
    case (Some m)
    then show ?thesis unfolding checkpoint_footprint_mb_def Let_def sl using b z by (simp only: option.case if_split) simp
  qed (use z in \<open>simp add: checkpoint_footprint_mb_def\<close>)
qed

lemma sum_routed_nonneg: "\<forall>c \<in> set cs. 0 \<le> ml_routed c \<Longrightarrow> 0 \<le> sum_routed_layer_mb cs k"
proof -
  have f: "foldl (\<lambda>t c. t + ml_routed c) a xs = a + sum_list (map ml_routed xs)" for a xs
    by (induction xs arbitrary: a) simp_all
  assume "\<forall>c \<in> set cs. 0 \<le> ml_routed c"
  then have "\<forall>c \<in> set (drop (nat k) cs). 0 \<le> ml_routed c" using in_set_dropD by fast
  then show ?thesis by (simp add: sum_routed_layer_mb_def f) (auto intro!: sum_list_nonneg)
qed

lemma mib_ceil_nonneg: "0 \<le> bytes_to_mib_ceil n"
  by (simp add: bytes_to_mib_ceil_def pos_imp_zdiv_nonneg_iff)

lemma cpu_expert_nonneg: "0 \<le> cpu_expert_mb m cache"
proof -
  have "\<forall>c \<in> set (fst (moe_layer_memory_costs (Some m) st n)). 0 \<le> ml_routed c" for st n
    by (auto simp: moe_layer_memory_costs_def Let_def exact_layer_cost_def mib_ceil_nonneg ceil_div_int_nonneg split: if_splits)
  then show ?thesis by (simp add: cpu_expert_mb_def Let_def sum_routed_nonneg)
qed

section \<open>The prompt cache budget\<close>

lemma ram_after_load_nonneg: "0 \<le> ram_after_load caps s total_mb"
  by (simp add: ram_after_load_def Let_def)

lemma wanted_nonneg:
  assumes "0 \<le> rest"
  shows "0 \<le> wanted_cram rest s slots kv"
proof -
  have "0 \<le> go_mod x 512" "go_mod x 512 < 512" if "0 \<le> x" for x using that by simp_all
  then show ?thesis using assms
    by (auto simp: wanted_cram_def Let_def cram_quantum_mb_def intro: order_trans)
qed

lemma bounded_cram_ok:
  assumes "0 \<le> rest" "0 \<le> wanted"
  shows "0 \<le> bounded_cram rest wanted" "3 * bounded_cram rest wanted \<le> 2 * rest" "512 dvd bounded_cram rest wanted"
    "bounded_cram rest wanted = 0 \<or> min_cram_mb \<le> bounded_cram rest wanted"
proof -
  define c where "c = (if wanted > rest * 2 div 3 then rest * 2 div 3 else wanted)"
  have c: "0 \<le> c" "3 * c \<le> 2 * rest" using assms by (auto simp: c_def)
  have b: "bounded_cram rest wanted = (let q = c - c mod 512 in if q < 512 then 0 else q)"
    using assms c(1) by (simp add: bounded_cram_def c_def cram_quantum_mb_def min_cram_mb_def Let_def)
  have q: "0 \<le> c - c mod 512" "3 * (c - c mod 512) \<le> 2 * rest" "512 dvd (c - c mod 512)"
    using c pos_mod_sign [of 512 c] div_mult_mod_eq [of c 512] by (simp_all add: minus_mod_eq_mult_div)
  then show "0 \<le> bounded_cram rest wanted" "3 * bounded_cram rest wanted \<le> 2 * rest" "512 dvd bounded_cram rest wanted"
    "bounded_cram rest wanted = 0 \<or> min_cram_mb \<le> bounded_cram rest wanted"
    using assms(1) by (simp_all add: b Let_def min_cram_mb_def)
qed

lemma compute_cram_ok:
  assumes "compute_cram caps m s total_mb kv = (cram, n)"
  shows "0 \<le> cram" "3 * cram \<le> 2 * ram_after_load caps s total_mb" "512 dvd cram" "-1 \<le> n" "n \<le> 16"
    "la_has_ssm s \<Longrightarrow> 0 \<le> n \<and> cram + n * (slots_of s * hybrid_checkpoint_mb (Some m) (hs_measured_checkpoint_mb s)) \<le> ram_after_load caps s total_mb"
proof -
  let ?rest = "ram_after_load caps s total_mb"
  let ?per = "slots_of s * hybrid_checkpoint_mb (Some m) (hs_measured_checkpoint_mb s)"
  have r: "0 \<le> ?rest" by (rule ram_after_load_nonneg)
  have c: "cram = bounded_cram ?rest (wanted_cram ?rest s (slots_of s) kv)" using assms by (simp add: compute_cram_def Let_def)
  note ok = bounded_cram_ok [OF r wanted_nonneg [OF r], of s "slots_of s" kv, folded c]
  show "0 \<le> cram" "3 * cram \<le> 2 * ?rest" "512 dvd cram" using ok by simp_all
  have pos: "0 < ?per" using hybrid_checkpoint_positive(2) by (simp add: slots_of_def)
  have "0 \<le> (?rest - cram) div ?per" using ok(2) r pos by (simp add: pos_imp_zdiv_nonneg_iff)
  then show "-1 \<le> n" "n \<le> 16"
    using assms ok(1,2) r pos by (auto simp: compute_cram_def Let_def hybrid_checkpoint_maximum_def hybrid_checkpoint_minimum_def split: if_splits)
  assume ssm: "la_has_ssm s"
  let ?cap = "(?rest - cram) div ?per"
  have h: "cram \<le> ?rest" using ok(2) r by simp
  have n: "n = (if ?cap \<ge> 4 then min ?cap 16 else 0)"
    using assms ssm c h pos by (auto simp: compute_cram_def Let_def hybrid_checkpoint_maximum_def hybrid_checkpoint_minimum_def)
  have cap: "?cap * ?per \<le> ?rest - cram" using div_mult_mod_eq [of "?rest - cram" ?per] pos_mod_sign [OF pos, of "?rest - cram"] by linarith
  have n0: "0 \<le> n" using n by simp
  have "n * ?per \<le> ?rest - cram"
  proof (cases "n = 0")
    case True
    then show ?thesis using h by simp
  next
    case False
    then have "n \<le> ?cap" using n by (auto split: if_splits)
    then have "n * ?per \<le> ?cap * ?per" using pos by (intro mult_right_mono) simp_all
    with cap show ?thesis by linarith
  qed
  with n0 show "0 \<le> n \<and> cram + n * ?per \<le> ?rest" by linarith
qed

section \<open>The memory guard\<close>

lemma go_div_bounds: "0 \<le> a \<Longrightarrow> 0 < b \<Longrightarrow> go_div a b * b \<le> a"
  using div_mult_mod_eq [of a b] pos_mod_sign [of b a] unfolding go_div_nonneg by linarith

lemma planned_buf_nonneg: "0 \<le> planned_compute_buf_mb opts probe"
  by (simp add: planned_compute_buf_mb_def compute_floor_mb_def split: option.split)

section \<open>The reduction of an automatic context\<close>

lemma reduce_fold:
  "foldl (reduce_step rung_kv fits) best rs =
     (case List.find fits (rev rs) of Some r \<Rightarrow> (r, rung_kv r) | None \<Rightarrow> best)"
proof (induction rs rule: rev_induct)
  case (snoc r rs)
  then show ?case by (simp add: reduce_step_def)
qed simp

lemma find_rev_descending:
  fixes r :: int
  assumes "sorted_wrt (>) rs" "List.find P (rev rs) = Some r"
  shows "r \<in> set rs \<and> P r \<and> (\<forall>x \<in> set rs. P x \<longrightarrow> r \<le> x)"
  using assms
proof (induction rs rule: rev_induct)
  case (snoc y rs)
  show ?case
  proof (cases "P y")
    case True
    then show ?thesis using snoc.prems by (auto simp: sorted_wrt_append)
  next
    case False
    then show ?thesis using snoc by (auto simp: sorted_wrt_append)
  qed
qed simp

lemma rungs_descending: "sorted_wrt (>) (lower_context_rungs ctx)"
  by (simp add: lower_context_rungs_def context_rungs_def sorted_wrt_filter)

section \<open>Properties\<close>

text \<open>
  C30: The prompt cache leaves the plan its memory. The derived cache budget is a multiple of the quantum,
  never more than two thirds of what the plan leaves free; and when the plan's host footprint fits, the
  footprint, the cache and - for a recurrent model - all the checkpoints of all the slots together still
  fit the free host memory.
\<close>

theorem prompt_cache_fits_host:
  assumes "compute_cram caps m s total_mb kv = (cram, n)"
    "0 < lk_host_footprint_mb s" "lk_host_footprint_mb s \<le> ram_free_mb (c_ram caps)"
  shows "0 \<le> cram \<and> cram_quantum_mb dvd cram \<and> -1 \<le> n \<and> n \<le> 16 \<and>
    3 * cram \<le> 2 * (ram_free_mb (c_ram caps) - lk_host_footprint_mb s) \<and>
    lk_host_footprint_mb s + cram +
      (if la_has_ssm s then n * (slots_of s * hybrid_checkpoint_mb (Some m) (hs_measured_checkpoint_mb s)) else 0)
      \<le> ram_free_mb (c_ram caps)"
proof -
  have "ram_after_load caps s total_mb = ram_free_mb (c_ram caps) - lk_host_footprint_mb s"
    using assms(2,3) by (simp add: ram_after_load_def)
  with compute_cram_ok [OF assms(1)] show ?thesis by (auto simp: cram_quantum_mb_def)
qed

text \<open>
  C31: A cached expert plan is accepted only if it fits. When the check of a cached plan says it fits,
  the footprint it charges is within the free host memory; it requires mmap only where the loader's
  expert pages are file-backed and the user did not forbid mmap, and then the resident plan really did
  not fit.
\<close>

theorem cached_plan_fits_host:
  assumes "cached_moe_host_memory_fits measured caps m s cache total_mb kv opts = (v, s')" "mv_fits v"
    "0 \<le> ram_free_mb (c_ram caps)"
  shows "mv_footprint v \<le> ram_free_mb (c_ram caps) \<and> 0 \<le> mv_footprint v \<and>
    (mv_mmap_required v \<longrightarrow> mv_mmap v \<and> mmap_can_page_cpu_experts opts \<and> \<not> ho_no_mmap opts \<and>
       ram_free_mb (c_ram caps) < cpu_expert_mb m cache + working_set_mb measured caps m s cache total_mb kv opts)"
  using assms cpu_expert_nonneg [of m cache]
  by (auto simp: cached_moe_host_memory_fits_def host_footprint_for_cache_def Let_def split: if_splits)

text \<open>
  C32: Strategy selection and memory guard agree. A placement the selection puts entirely on the devices
  - one device, or the whole set - passes the memory guard under the same measurements, so no plan is
  chosen as fitting and then refused.
\<close>

theorem resident_choice_passes_guard:
  assumes "choose_strategy cuda probe caps m s total_mb kv opts = t" "t = SingleGPU \<or> t = MultiGPUDense"
  shows "check_memory_or_die cuda probe measured caps m (s\<lparr>s_type := t\<rparr>) total_mb kv opts = None"
proof -
  let ?c = "planned_compute_buf_mb opts probe" and ?n = "int (length (c_gpus caps))"
  have g: "guard_ram_overhead measured caps m (s\<lparr>s_type := t\<rparr>) total_mb kv opts = 0"
    using assms(2) by (auto simp: guard_ram_overhead_def)
  show ?thesis
  proof (cases "t = SingleGPU")
    case True
    then have "total_mb + cuda + ?c + kv \<le> best_free_vram (c_gpus caps)"
      using assms(1) by (auto simp: choose_strategy_def Let_def split: if_splits)
    then show ?thesis using True g
      by (simp add: check_memory_or_die_def Let_def overhead_gpus_def memory_pool_def)
  next
    case False
    then have t: "t = MultiGPUDense" using assms(2) by simp
    let ?m = "max ?c (first_launch_compute_buf_mb_at_context (Some m) (pl_ubatch_size s) (s_parallel s) (s_context_size s))"
    have "\<exists>c \<in> {?c, ?m}. total_mb + (cuda + c) * ?n + kv \<le> total_vram_free caps"
      using assms(1) unfolding t by (auto simp: choose_strategy_def dense_multi_gpu_fit_def Let_def split: if_splits)
    then obtain c where m: "c \<in> {?c, ?m}" and c2: "total_mb + (cuda + c) * ?n + kv \<le> total_vram_free caps" by blast
    from m have "?c \<le> c" by auto
    note c = this c2
    have "(cuda + ?c) * ?n \<le> (cuda + c) * ?n" using c(1) by (intro mult_right_mono) simp_all
    then have "total_mb + (cuda + ?c) * ?n + kv \<le> total_vram_free caps" using c(2) by linarith
    then show ?thesis using t g
      by (simp add: check_memory_or_die_def Let_def overhead_gpus_def memory_pool_def)
  qed
qed

text \<open>
  The advice of the guard is safe. When a plan is refused and the message advertises a context, that
  context is shorter than the requested one and its share of the KV cache fits beside everything else
  the plan needs.
\<close>

theorem guard_advice_fits:
  assumes "check_memory_or_die cuda probe measured caps m s total_mb kv opts = Some (DoesNotFit t needed pool ctx)"
    "0 < ctx" "0 < s_context_size s"
  shows "pool < needed \<and> ctx < s_context_size s \<and>
    (needed - kv) * s_context_size s + kv * ctx \<le> pool * s_context_size s"
proof -
  let ?ctx = "s_context_size s"
  define rest where "rest = pool - (needed - kv)"
  define mk where "mk = (if rest < 0 then 0 else rest)"
  have n: "pool < needed" and c: "ctx = (if kv > 0 then go_div (mk * ?ctx) kv else 0)"
    using assms(1) unfolding mk_def rest_def
    by (simp_all add: check_memory_or_die_def Let_def split: if_splits) (auto simp: algebra_simps)
  have kv: "0 < kv" using c assms(2) by (auto split: if_splits)
  have mk: "0 \<le> mk" "0 \<le> mk * ?ctx" using assms(3) by (simp_all add: mk_def)
  have b: "ctx * kv \<le> mk * ?ctx" using go_div_bounds [OF mk(2) kv] c kv by simp
  have "0 < mk"
  proof (rule ccontr)
    assume "\<not> 0 < mk"
    then have "ctx * kv \<le> 0" using b mk(1) by simp
    moreover have "0 < ctx * kv" using assms(2) kv by simp
    ultimately show False by linarith
  qed
  then have r: "mk = rest" by (auto simp: mk_def split: if_splits)
  then have "mk < kv" using n by (simp add: rest_def)
  then have "mk * ?ctx < kv * ?ctx" using assms(3) by simp
  then have "ctx * kv < ?ctx * kv" using b by (simp add: mult.commute)
  then have "ctx < ?ctx" using kv by simp
  moreover have "(needed - kv) * ?ctx + kv * ctx \<le> pool * ?ctx"
    using b r by (simp add: rest_def algebra_simps)
  ultimately show ?thesis using n by blast
qed

text \<open>
  The reduction of an automatic context takes the smallest rung that fits. A dense model brought
  back onto the devices gets a context no longer than every rung that would have fitted.
\<close>

theorem dense_reduction_takes_smallest_rung:
  assumes "maybe_reduce_dense_auto_context cuda probe rung_kv prompt req s caps m total_mb kv opts = (Some s', kv', True)"
    "r \<in> set (lower_context_rungs (s_context_size s))"
    "dense_multi_gpu_fit caps (Some m) total_mb (rung_kv r) cuda (planned_compute_buf_mb opts probe)"
  shows "s_context_size s' \<le> r \<and>
    dense_multi_gpu_fit caps (Some m) total_mb kv' cuda (planned_compute_buf_mb opts probe)"
proof -
  let ?fits = "\<lambda>r. dense_multi_gpu_fit caps (Some m) total_mb (rung_kv r) cuda (planned_compute_buf_mb opts probe)"
  let ?rs = "lower_context_rungs (s_context_size s)"
  obtain b where b: "List.find ?fits (rev ?rs) = Some b" "s' = s\<lparr>s_context_size := b\<rparr>" "kv' = rung_kv b"
    using assms(1)
    by (auto simp: maybe_reduce_dense_auto_context_def Let_def reduce_fold split: if_splits option.splits)
  then show ?thesis using find_rev_descending [OF rungs_descending b(1)] assms(2,3) by simp
qed

section \<open>Witnesses\<close>

definition demo_host_strategy :: host_strategy where
  "demo_host_strategy = lookup_strategy.extend demo_lookup_strategy (host_strategy.fields 0 0 0 0 0 0 0 False)"

definition demo_host_options :: host_options where
  "demo_host_options =
     \<lparr>ho_mmap_capability = ''file-backed'', ho_mmap_evidence = [], ho_backend_tag = ''cuda'', ho_backend_identity = [],
      ho_no_mmap = False, ho_force_mmap = True, ho_cpu_mode = False, ho_require_measured = True,
      ho_host_growth_reserve_mb = 0, ho_cache_ram_mb = 0, ho_max_checkpoints_set = False, ho_max_checkpoints = 0,
      ho_checkpoint_reuse = False\<rparr>"

definition demo_device :: "int \<Rightarrow> gpu" where
  "demo_device mb =
     \<lparr>g_index = 0, g_name = [], vram_total_mb = mb, vram_used_mb = 0, vram_reserved_mb = 0, g_driver = [], pci_gen = 0,
      pci_lanes = 0, bandwidth_mbps = 0, bandwidth_source = [], mem_clock_mhz = 0, mem_bandwidth_mbps = 0, pci_bus_id = [],
      compute_cap = []\<rparr>"

definition demo_host :: "int list \<Rightarrow> int \<Rightarrow> capabilities" where
  "demo_host devices ram =
     \<lparr>c_os = [], c_arch = [], c_gpus = map demo_device devices, c_ram = \<lparr>ram_total_mb = ram, ram_free_mb = ram\<rparr>,
      c_cpu = \<lparr>cpu_model = [], cpu_cores = 1, cpu_threads = 1, cpu_flags = [], physical_ids = []\<rparr>, c_backends = [],
      host_memory_bandwidth_mbps = 0, host_memory_bandwidth_source = []\<rparr>"

lemmas demo_defs = demo_host_strategy_def demo_lookup_strategy_def demo_strategy_def launch_strategy.defs lookup_strategy.defs host_strategy.defs
  demo_host_def demo_device_def demo_host_options_def

lemma demo_fields [simp]:
  "lk_host_footprint_mb demo_host_strategy = 5" "la_has_ssm demo_host_strategy = False" "s_parallel demo_host_strategy = 0"
  "s_context_size demo_host_strategy = 8" "s_kv_placement demo_host_strategy = ''auto''" "s_type demo_host_strategy = MultiGPUDense"
  "pl_ubatch_size demo_host_strategy = 2" "hs_measured_checkpoint_mb demo_host_strategy = 0"
  "hs_measured_entry_mb demo_host_strategy = 0" "hs_measured_bytes_per_token demo_host_strategy = 0"
  by (simp_all add: demo_defs)

lemma demo_vram [simp]: "vram_free_mb (demo_device n) = (if n < 0 then 0 else n)"
  by (simp add: demo_device_def vram_free_mb_def)

lemma demo_host_parts [simp]:
  "c_gpus (demo_host ds ram) = map demo_device ds" "ram_free_mb (c_ram (demo_host ds ram)) = ram"
  by (simp_all add: demo_host_def)

lemma prompt_cache_fits_host_witness:
  "let (cram, n) = compute_cram (demo_host [1, 1] 3005) empty_profile demo_host_strategy 100 2000 in cram = 1536 \<and> 5 + cram \<le> 3005"
proof -
  obtain cram n where c: "compute_cram (demo_host [1, 1] 3005) empty_profile demo_host_strategy 100 2000 = (cram, n)"
    by (cases "compute_cram (demo_host [1, 1] 3005) empty_profile demo_host_strategy 100 2000") auto
  have "ram_after_load (demo_host [1, 1] 3005) demo_host_strategy 100 = 3000" by (simp add: ram_after_load_def)
  moreover have "measured_prompt_cache_budget_mb demo_host_strategy k = 0" for k
    by (simp add: measured_prompt_cache_budget_mb_def prompt_cache_budget_mb_def)
  ultimately have v: "cram = 1536"
    using c by (simp add: compute_cram_def wanted_cram_def) (simp add: bounded_cram_def cram_quantum_mb_def min_cram_mb_def Let_def)
  show ?thesis using prompt_cache_fits_host [OF c] c v by simp
qed

lemma cached_plan_fits_host_witness:
  "mv_footprint (fst (cached_moe_host_memory_fits None (demo_host [1] 10) empty_profile demo_host_strategy empty_entry 0 0 demo_host_options)) \<le> 10"
proof -
  let ?r = "cached_moe_host_memory_fits None (demo_host [1] 10) empty_profile demo_host_strategy empty_entry 0 0 demo_host_options"
  have "cpu_expert_mb empty_profile empty_entry = 0" by code_simp
  moreover have "working_set_mb None (demo_host [1] 10) empty_profile demo_host_strategy empty_entry 0 0 demo_host_options = 0"
    by (simp add: working_set_mb_def planned_ram_runtime_overhead_mb_def demo_host_options_def empty_entry_def
        checkpoint_footprint_mb_def is_recurrent_or_hybrid_def has_ssm_layout_def empty_profile_def equal_fold_def to_lower_def bytes_to_mib_ceil_def)
  ultimately have f: "mv_fits (fst ?r)" by (simp add: cached_moe_host_memory_fits_def Let_def)
  have p: "?r = (fst ?r, snd ?r)" by simp
  from cached_plan_fits_host [OF p f] show ?thesis by simp
qed

lemma resident_choice_passes_guard_witness:
  "check_memory_or_die 1 None None (demo_host [100, 50] 10) empty_profile (demo_host_strategy\<lparr>s_type := MultiGPUDense\<rparr>) 120 20 demo_host_options = None"
proof -
  have "choose_strategy 1 None (demo_host [100, 50] 10) empty_profile demo_host_strategy 120 20 demo_host_options = MultiGPUDense"
    by (simp add: choose_strategy_def demo_host_options_def planned_compute_buf_mb_def best_free_vram_def dense_multi_gpu_fit_def
        total_vram_free_def empty_profile_def)
  from resident_choice_passes_guard [OF this] show ?thesis by simp
qed

lemma guard_advice_fits_witness:
  "\<exists>needed pool ctx. check_memory_or_die 1 None None (demo_host [100, 50] 10) empty_profile demo_host_strategy 120 40 demo_host_options =
     Some (DoesNotFit MultiGPUDense needed pool ctx) \<and> ctx < 8"
proof -
  have c: "check_memory_or_die 1 None None (demo_host [100, 50] 10) empty_profile demo_host_strategy 120 40 demo_host_options =
      Some (DoesNotFit MultiGPUDense 162 150 5)"
    by (simp add: check_memory_or_die_def demo_host_options_def planned_compute_buf_mb_def overhead_gpus_def memory_pool_def
        guard_ram_overhead_def total_vram_free_def)
  from guard_advice_fits [OF c] c show ?thesis by simp
qed

lemma dense_reduction_takes_smallest_rung_witness:
  "\<exists>s' kv'. maybe_reduce_dense_auto_context 0 None (\<lambda>r. r div 32768) None 0 (demo_host_strategy\<lparr>s_context_size := 262144\<rparr>) (demo_host [4] 0)
     empty_profile 1 8 demo_host_options = (Some s', kv', True) \<and> s_context_size s' = 32768 \<and> s_context_size s' \<le> 65536"
proof -
  let ?s = "demo_host_strategy\<lparr>s_context_size := 262144\<rparr>"
  have r: "lower_context_rungs 262144 = [131072, 65536, 32768]" by (simp add: lower_context_rungs_def context_rungs_def)
  have m: "maybe_reduce_dense_auto_context 0 None (\<lambda>r. r div 32768) None 0 ?s (demo_host [4] 0) empty_profile 1 8 demo_host_options =
      (Some (?s\<lparr>s_context_size := 32768\<rparr>), 1, True)"
    by (simp add: maybe_reduce_dense_auto_context_def r reduce_step_def dense_multi_gpu_fit_def planned_compute_buf_mb_def
        demo_host_options_def total_vram_free_def empty_profile_def)
  have "dense_multi_gpu_fit (demo_host [4] 0) (Some empty_profile) 1 (65536 div 32768) 0 (planned_compute_buf_mb demo_host_options None)"
    by (simp add: dense_multi_gpu_fit_def planned_compute_buf_mb_def demo_host_options_def total_vram_free_def)
  from dense_reduction_takes_smallest_rung [OF m _ this] m show ?thesis by (simp add: r)
qed

end
