(* ===== verification/AutoContext.thy ===== *)
theory AutoContext
  imports HostMemory ContextSearch
begin

text \<open>
  Automatic sizing of the context window (\<^verbatim>\<open>go/pkg/placement/placement.go\<close>): the largest window one
  device or all devices hold beside the weights, the price of spreading a model over several devices,
  where the KV cache goes and which of the windows the planner takes.

  The overhead measured by the system probe is an argument (\<open>probe\<close>, none when no probe file exists).
  A \<^verbatim>\<open>float64\<close> is its exact rational value.
\<close>

record context_options =
  xo_host :: host_options
  xo_kv_quality :: string
  xo_swa_full :: bool
  xo_context_size :: int
  xo_kv_placement :: string
  xo_batch_size :: int
  xo_ubatch_size :: int
  xo_batch_explicit :: bool
  xo_ubatch_explicit :: bool

section \<open>Overheads\<close>

definition measured_cuda_overhead_mb :: "int option \<Rightarrow> int" where
  "measured_cuda_overhead_mb probe = (case probe of Some mb \<Rightarrow> if mb > 0 then mb else 0 | None \<Rightarrow> 0)"

definition per_gpu_vram_overhead_mb :: "int option \<Rightarrow> int \<Rightarrow> int" where
  "per_gpu_vram_overhead_mb probe ubatch = measured_cuda_overhead_mb probe + first_launch_compute_buf_mb None ubatch"

definition planned_per_gpu_vram_overhead_mb :: "int option \<Rightarrow> int \<Rightarrow> host_options \<Rightarrow> int" where
  "planned_per_gpu_vram_overhead_mb probe ubatch opts =
     (if ho_require_measured opts then measured_cuda_overhead_mb probe
      else per_gpu_vram_overhead_mb probe ubatch)"

section \<open>The price of spreading a model\<close>

text \<open>
  The loop over the devices, fastest memory first: it returns what is left to place, the time to read
  the weights and the number of devices used. \<open>capacity\<close> and \<open>bw\<close> are read from the device.
\<close>

fun spread_fill :: "(nat \<Rightarrow> int) \<Rightarrow> (nat \<Rightarrow> int) \<Rightarrow> int \<Rightarrow> int \<Rightarrow> nat list \<Rightarrow> int \<times> rat \<times> nat \<Rightarrow> int \<times> rat \<times> nat" where
  "spread_fill capacity bw weights combined [] st = st"
| "spread_fill capacity bw weights combined (gi # order) (remaining, time, placed) =
     (if remaining \<le> 0 then (remaining, time, placed)
      else if capacity gi \<le> 0 then spread_fill capacity bw weights combined order (remaining, time, placed)
      else
        let take_mb = (if capacity gi > remaining then remaining else capacity gi);
            share = of_int take_mb / of_int combined
        in spread_fill capacity bw weights combined order
             (remaining - take_mb, time + share * of_int weights / of_int (bw gi), Suc placed))"

definition spread_decode_cost_ratio :: "capabilities option \<Rightarrow> int \<Rightarrow> int \<Rightarrow> int \<Rightarrow> rat" where
  "spread_decode_cost_ratio co weights combined overhead =
     (case co of
        None \<Rightarrow> 1
      | Some caps \<Rightarrow>
          let gpus = c_gpus caps in
          if length gpus < 2 \<or> weights \<le> 0 \<or> combined \<le> 0 \<or> \<not> dense_mem_bandwidth_known gpus then 1
          else
            let order = order_gpus_by_memory_bandwidth gpus;
                fastest = gpus ! hd order
            in if mem_bandwidth_mbps fastest \<le> 0 then 1
               else if vram_free_mb fastest - overhead < weights then 1
               else
                 let (remaining, spread, placed) =
                       spread_fill (\<lambda>gi. vram_free_mb (gpus ! gi) - overhead) (\<lambda>gi. mem_bandwidth_mbps (gpus ! gi))
                         weights combined order (combined, 0, 0)
                 in if remaining > 0 \<or> spread \<le> 0 \<or> placed < 2 then 1
                    else
                      let single = of_int weights / of_int (mem_bandwidth_mbps fastest)
                      in if single \<le> 0 then 1 else spread / single)"

definition context_gain_outweighs_spread ::
  "capabilities option \<Rightarrow> int \<Rightarrow> int \<Rightarrow> int \<Rightarrow> int \<Rightarrow> int \<Rightarrow> int \<Rightarrow> bool" where
  "context_gain_outweighs_spread co weights overhead single_ctx single_kv multi_ctx multi_kv =
     (if single_ctx \<le> 0 \<or> multi_ctx \<le> single_ctx then False
      else
        let cost = spread_decode_cost_ratio co weights (weights + multi_kv) overhead in
        if cost \<le> 1 then True else of_int multi_ctx / of_int single_ctx > cost)"

section \<open>The largest window a budget holds\<close>

definition max_context_for_budget :: "int \<Rightarrow> int" where
  "max_context_for_budget cap =
     (if cap < context_minimum then 0
      else
        let ctx = go_div cap context_granularity * context_granularity
        in if ctx < context_minimum then 0 else ctx)"

text \<open>
  The loop over the KV types is the same in \<^verbatim>\<open>computeAutoContextSizeSingleGPU\<close> and
  \<^verbatim>\<open>computeAutoContextSize\<close>; \<^verbatim>\<open>computeAutoContextSizeKVPlacement\<close> rounds to a rung instead.
\<close>

definition kv_capped_context :: "model_profile \<Rightarrow> bool \<Rightarrow> int \<Rightarrow> string \<Rightarrow> int option" where
  "kv_capped_context m swa_full budget kv_type =
     (let ref_ctx = 32768;
          ref_kv = compute_kv_total_mb m ref_ctx kv_type swa_full
      in if ref_kv \<le> 0 then None
         else
           let per_token = of_int ref_kv * 1048576 / of_int ref_ctx :: rat;
               raw = go_trunc (of_int budget * 1048576 / per_token)
           in Some (if m_ctx_train m > 0 \<and> m_ctx_train m < raw then m_ctx_train m else raw))"

fun first_fitting_window :: "(int \<Rightarrow> int) \<Rightarrow> (string \<Rightarrow> int option) \<Rightarrow> string list \<Rightarrow> (int \<times> string) option" where
  "first_fitting_window round_down cap [] = None"
| "first_fitting_window round_down cap (kv # kvs) =
     (case cap kv of
        None \<Rightarrow> first_fitting_window round_down cap kvs
      | Some c \<Rightarrow>
          if round_down c > 0 then Some (round_down c, kv) else first_fitting_window round_down cap kvs)"

definition window_for_budget ::
  "model_profile \<Rightarrow> string \<Rightarrow> context_options \<Rightarrow> (int \<Rightarrow> int) \<Rightarrow> int \<Rightarrow> int \<times> string" where
  "window_for_budget m preferred opts round_down budget =
     (case first_fitting_window round_down (kv_capped_context m (xo_swa_full opts) budget)
             (kv_types_for_auto_context (Some m) preferred (xo_kv_quality opts)) of
        Some r \<Rightarrow> r
      | None \<Rightarrow> (32768, fallback_kv_type (Some m) preferred (xo_kv_quality opts)))"

definition auto_context_single_gpu ::
  "capabilities \<Rightarrow> model_profile \<Rightarrow> int \<Rightarrow> string \<Rightarrow> context_options \<Rightarrow> int \<times> string" where
  "auto_context_single_gpu caps m total_mb preferred opts =
     (let best = foldl (\<lambda>b g. if vram_total_mb g > b then vram_total_mb g else b) 0 (c_gpus caps);
          hw = best + 4096;
          fixed = total_mb + planned_model_aware_headroom (Some m) (xo_host opts)
      in if hw \<le> fixed then (32768, preferred)
         else if hw - fixed \<le> 0 then (32768, preferred)
         else window_for_budget m preferred opts max_context_for_budget (hw - fixed))"

definition auto_context ::
  "int option \<Rightarrow> capabilities \<Rightarrow> model_profile \<Rightarrow> int \<Rightarrow> string \<Rightarrow> context_options \<Rightarrow> int \<times> string" where
  "auto_context probe caps m total_mb preferred opts =
     (let free = total_vram_free caps;
          hw = (if free > 0 then free else ram_free_mb (c_ram caps));
          headroom = planned_model_aware_headroom (Some m) (xo_host opts);
          gpu_overhead = planned_per_gpu_vram_overhead_mb probe 0 (xo_host opts) * int (length (c_gpus caps));
          overhead = (if c_gpus caps \<noteq> [] \<and> gpu_overhead < headroom then gpu_overhead else headroom);
          fixed = total_mb + overhead
      in if hw \<le> fixed then (32768, preferred)
         else if hw - fixed \<le> 0 then (32768, preferred)
         else window_for_budget m preferred opts max_context_for_budget (hw - fixed))"

definition auto_context_fit_vram ::
  "int option \<Rightarrow> capabilities option \<Rightarrow> model_profile option \<Rightarrow> int \<Rightarrow> string \<Rightarrow> context_options \<Rightarrow> int \<times> string" where
  "auto_context_fit_vram probe co mo total_mb kv_type opts =
     (case (co, mo) of
        (Some caps, Some m) \<Rightarrow>
          if c_gpus caps = [] then (0, kv_type)
          else
            let t1 = (if total_mb \<le> 0 then m_total_size_mb m else total_mb);
                t2 = (if t1 \<le> 0 then go_div (go_div (m_size_bytes m) 1024) 1024 else t1)
            in if t2 \<le> 0 then (0, kv_type) else auto_context probe caps m t2 kv_type opts
      | _ \<Rightarrow> (0, kv_type))"

section \<open>Where the KV cache goes\<close>

definition resolve_auto_kv_placement :: "capabilities \<Rightarrow> model_profile \<Rightarrow> int \<Rightarrow> int \<Rightarrow> int \<Rightarrow> string" where
  "resolve_auto_kv_placement caps m total_mb kv overhead =
     (if total_mb + kv + overhead \<le> total_vram_free caps then ''gpu''
      else if m_is_moe m then (if equal_fold (m_model_arch m) ''deepseek4'' then ''gpu'' else ''cpu'')
      else ''gpu'')"

definition window_rungs :: "int list" where
  "window_rungs = [32768, 65536, 131072, 262144, 524288, 1048576, 2097152, 4194304]"

definition highest_rung :: "int \<Rightarrow> int" where
  "highest_rung cap = foldl (\<lambda>best c. if c \<le> cap then c else best) 0 window_rungs"

definition rung_or_none :: "int \<Rightarrow> int" where
  "rung_or_none cap = (if highest_rung cap \<ge> 32768 then highest_rung cap else 0)"

definition gpu_resident_mb :: "model_profile \<Rightarrow> int \<Rightarrow> int" where
  "gpu_resident_mb m total_mb =
     (let ne = bytes_to_mib_ceil (m_non_expert_bytes m); te = bytes_to_mib_ceil (m_token_embd_bytes m) in
      if m_is_moe m \<and> ne > 0 then (if te > 0 \<and> te < ne then ne - te else ne) else total_mb)"

definition kv_placement_budget ::
  "int option \<Rightarrow> int option \<Rightarrow> capabilities \<Rightarrow> model_profile \<Rightarrow> int \<Rightarrow> string \<Rightarrow> context_options \<Rightarrow> int" where
  "kv_placement_budget probe host_probe caps m total_mb placement opts =
     (let free = total_vram_free caps;
          overhead = planned_per_gpu_vram_overhead_mb probe 0 (xo_host opts) * int (length (c_gpus caps))
      in if placement = ''cpu'' then
           let in_ram = (if total_mb - free < 0 then 0 else total_mb - free)
           in ram_free_mb (c_ram caps) - in_ram -
                planned_ram_runtime_overhead_mb host_probe (Some caps) m 0 total_mb (xo_host opts)
         else free - gpu_resident_mb m total_mb - overhead)"

definition auto_context_kv_placement ::
  "int option \<Rightarrow> int option \<Rightarrow> capabilities \<Rightarrow> model_profile \<Rightarrow> int \<Rightarrow> string \<Rightarrow> string \<Rightarrow> context_options \<Rightarrow> int \<times> string" where
  "auto_context_kv_placement probe host_probe caps m total_mb preferred placement opts =
     (let budget = kv_placement_budget probe host_probe caps m total_mb placement opts
      in if budget \<le> 0 then (32768, preferred)
         else window_for_budget m preferred opts rung_or_none budget)"

section \<open>Which window the planner takes\<close>

definition default_context_size :: "model_profile \<Rightarrow> int" where
  "default_context_size m = (if m_context_size m > 0 \<and> m_context_size m < 32768 then m_context_size m else 32768)"

definition default_flash_attention :: "string \<Rightarrow> bool" where
  "default_flash_attention kv_placement \<longleftrightarrow> kv_placement \<noteq> ''cpu''"

text \<open>
  The context, KV type and KV placement of the planner before any context search:
  \<open>resolve_initial_placement\<close> is the up-front resolution of an automatic KV placement,
  \<open>choose_auto_window\<close> the block that sizes the context when the user gave none.
\<close>

definition resolve_initial_placement ::
  "int option \<Rightarrow> capabilities \<Rightarrow> model_profile \<Rightarrow> int \<Rightarrow> string \<Rightarrow> int \<Rightarrow> context_options \<Rightarrow> string" where
  "resolve_initial_placement probe caps m total_mb kv_type ctx opts =
     (let p = xo_kv_placement opts in
      if p = ''auto'' \<or> p = [] then
        (if ho_cpu_mode (xo_host opts) \<or> c_gpus caps = [] then ''cpu''
         else resolve_auto_kv_placement caps m total_mb (compute_kv_total_mb m ctx kv_type (xo_swa_full opts))
                (planned_per_gpu_vram_overhead_mb probe 0 (xo_host opts) * int (length (c_gpus caps))))
      else p)"

definition single_window_fits :: "capabilities \<Rightarrow> model_profile \<Rightarrow> int \<Rightarrow> int \<Rightarrow> bool \<Rightarrow> int \<times> string \<Rightarrow> bool" where
  "single_window_fits caps m total_mb overhead swa_full w \<longleftrightarrow>
     total_mb + overhead + compute_kv_total_mb m (fst w) (snd w) swa_full \<le> best_free_vram (c_gpus caps) \<and>
     fst w \<ge> 32768"

definition multi_window_fits :: "capabilities \<Rightarrow> model_profile \<Rightarrow> int \<Rightarrow> int \<Rightarrow> bool \<Rightarrow> int \<times> string \<Rightarrow> bool" where
  "multi_window_fits caps m total_mb overhead swa_full w \<longleftrightarrow>
     total_mb + overhead * int (length (c_gpus caps)) + compute_kv_total_mb m (fst w) (snd w) swa_full
       \<le> total_vram_free caps \<and> fst w \<ge> 32768"

definition choose_auto_window ::
  "int option \<Rightarrow> int option \<Rightarrow> capabilities \<Rightarrow> model_profile \<Rightarrow> int \<Rightarrow> int \<Rightarrow> string \<Rightarrow> string \<Rightarrow> context_options \<Rightarrow>
     (int \<times> string) \<times> string" where
  "choose_auto_window probe host_probe caps m total_mb ctx kv_type placement opts =
     (if xo_context_size opts > 0 then ((ctx, kv_type), placement)
      else if ho_cpu_mode (xo_host opts) \<or> c_gpus caps = [] then
        (auto_context probe (caps\<lparr>c_gpus := []\<rparr>) m total_mb kv_type opts, placement)
      else
        let overhead = planned_per_gpu_vram_overhead_mb probe 0 (xo_host opts);
            swa = xo_swa_full opts;
            single = auto_context_single_gpu caps m total_mb kv_type opts;
            multi = auto_context probe caps m total_mb kv_type opts;
            single_kv = compute_kv_total_mb m (fst single) (snd single) swa;
            multi_kv = compute_kv_total_mb m (fst multi) (snd multi) swa;
            single_fits = single_window_fits caps m total_mb overhead swa single;
            multi_fits = multi_window_fits caps m total_mb overhead swa multi
        in if multi_fits \<and> fst multi > fst single \<and>
              (\<not> single_fits \<or>
               context_gain_outweighs_spread (Some caps) total_mb overhead (fst single) single_kv (fst multi) multi_kv)
           then (multi, placement)
           else if single_fits then (single, placement)
           else if multi_fits then (multi, placement)
           else
             let p = (if placement = ''auto'' \<or> placement = []
                      then resolve_auto_kv_placement caps m total_mb (compute_kv_total_mb m ctx kv_type swa)
                             (overhead * int (length (c_gpus caps)))
                      else placement)
             in (auto_context_kv_placement probe host_probe caps m total_mb kv_type p opts, p))"

text \<open>The batch tier: the largest pair whose graph fits beside model, overhead and KV on one device.\<close>

definition batch_tier :: "capabilities \<Rightarrow> model_profile \<Rightarrow> int \<Rightarrow> int \<Rightarrow> int \<Rightarrow> host_options \<Rightarrow> int \<times> int" where
  "batch_tier caps m total_mb cuda kv opts =
     (let base = total_mb + cuda + kv;
          c1024 = (if ho_require_measured opts then 0 else first_launch_compute_buf_mb (Some m) 1024);
          c512 = (if ho_require_measured opts then 0 else first_launch_compute_buf_mb (Some m) 512);
          best = best_free_vram (c_gpus caps)
      in if base + c1024 \<le> best then (8192, 1024)
         else if base + c512 \<le> best then (4096, 512)
         else (2048, 512))"


section \<open>Lemmas\<close>

lemma max_context_eq:
  "max_context_for_budget cap = (if cap < 32768 then 0 else cap div 1024 * 1024)"
proof (cases "cap < 32768")
  case False
  then have "32 \<le> cap div 1024" using zdiv_mono1 [of 32768 cap 1024] by simp
  with False show ?thesis
    by (simp add: max_context_for_budget_def context_minimum_def context_granularity_def go_div_nonneg Let_def)
qed (simp add: max_context_for_budget_def context_minimum_def)

text \<open>
  \<open>window_fits\<close> is the specification: a window of whole granules, at least the minimum, whose
  linear KV price stays within the budget and which the model was trained for.
\<close>

definition window_fits :: "model_profile \<Rightarrow> bool \<Rightarrow> int \<Rightarrow> string \<Rightarrow> int \<Rightarrow> bool" where
  "window_fits m swa_full budget kv_type c \<longleftrightarrow>
     (let price = compute_kv_total_mb m 32768 kv_type swa_full in
      0 < price \<and> 1024 dvd c \<and> 32768 \<le> c \<and> c * price \<le> budget * 32768 \<and>
      (0 < m_ctx_train m \<longrightarrow> c \<le> m_ctx_train m))"

lemma kv_capped_bound:
  assumes "kv_capped_context m swa budget kv = Some cap" "0 < budget"
  shows "0 < compute_kv_total_mb m 32768 kv swa \<and>
    (c \<le> cap \<longleftrightarrow> c * compute_kv_total_mb m 32768 kv swa \<le> budget * 32768 \<and> (0 < m_ctx_train m \<longrightarrow> c \<le> m_ctx_train m))"
proof -
  let ?p = "compute_kv_total_mb m 32768 kv swa"
  from assms(1) have p: "0 < ?p" by (auto simp: kv_capped_context_def Let_def split: if_splits)
  let ?q = "of_int budget * 1048576 / (of_int ?p * 1048576 / of_int 32768) :: rat"
  have q: "?q = of_int (budget * 32768) / of_int ?p" using p by (simp add: field_simps)
  then have "0 \<le> ?q" using p assms(2) by simp
  then have t: "go_trunc ?q = \<lfloor>?q\<rfloor>" by (simp add: go_trunc_def)
  have "c \<le> go_trunc ?q \<longleftrightarrow> of_int c \<le> ?q" by (simp only: t le_floor_iff)
  also have "\<dots> \<longleftrightarrow> of_int (c * ?p) \<le> (of_int (budget * 32768) :: rat)"
    unfolding q using p by (simp add: pos_le_divide_eq)
  finally have "c \<le> go_trunc ?q \<longleftrightarrow> c * ?p \<le> budget * 32768" by (simp only: of_int_le_iff)
  with assms(1) p show ?thesis by (auto simp: kv_capped_context_def Let_def split: if_splits)
qed

lemma round_down_fits:
  assumes "kv_capped_context m swa budget kv = Some cap" "0 < budget"
  shows "window_fits m swa budget kv c \<longleftrightarrow> 1024 dvd c \<and> 32768 \<le> c \<and> c \<le> max_context_for_budget cap"
proof -
  note b = kv_capped_bound [OF assms, of c]
  have "c \<le> cap \<longleftrightarrow> c \<le> cap div 1024 * 1024" if "1024 dvd c"
  proof -
    from that obtain k where k: "c = 1024 * k" ..
    have "k \<le> cap div 1024" if "c \<le> cap" using zdiv_mono1 [OF that, of 1024] k by simp
    moreover have "cap div 1024 * 1024 \<le> cap" by simp
    ultimately show ?thesis using k by linarith
  qed
  then show ?thesis using b unfolding window_fits_def Let_def max_context_eq by (auto split: if_splits)
qed

lemma first_fitting_window_spec:
  assumes "0 < budget"
  shows "first_fitting_window max_context_for_budget (kv_capped_context m swa budget) kvs =
    (case find (\<lambda>kv. \<exists>c. window_fits m swa budget kv c) kvs of
       None \<Rightarrow> None
     | Some kv \<Rightarrow> Some (GREATEST c. window_fits m swa budget kv c, kv))"
proof (induction kvs)
  case (Cons kv kvs)
  show ?case
  proof (cases "kv_capped_context m swa budget kv")
    case None
    then have "\<not> window_fits m swa budget kv c" for c
      by (auto simp: kv_capped_context_def window_fits_def Let_def split: if_splits)
    then have n: "Ex (window_fits m swa budget kv) = False" by blast
    show ?thesis using None Cons by (simp add: n)
  next
    case (Some cap)
    note w = round_down_fits [OF Some assms]
    show ?thesis
    proof (cases "0 < max_context_for_budget cap")
      case True
      then have m: "1024 dvd max_context_for_budget cap \<and> 32768 \<le> max_context_for_budget cap"
      proof -
        have "32 \<le> cap div 1024" if "32768 \<le> cap" using zdiv_mono1 [OF that, of 1024] by simp
        with True show ?thesis by (auto simp: max_context_eq split: if_splits)
      qed
      then have "window_fits m swa budget kv (max_context_for_budget cap)" using w by simp
      moreover from this have "(GREATEST c. window_fits m swa budget kv c) = max_context_for_budget cap"
        by (rule Greatest_equality) (simp add: w)
      ultimately show ?thesis using Some True by auto
    next
      case False
      then have n: "Ex (window_fits m swa budget kv) = False" using w by force
      show ?thesis using Some False Cons by (simp add: n)
    qed
  qed
qed simp

text \<open>
  C24: The automatic window is the largest one the budget holds. For a positive budget the sizing loop
  returns the first KV type of the candidate order for which some window fits, with the greatest such
  window: a multiple of 1024, at least 32768, no longer than the training context, whose KV price
  (linear in the context) stays within the budget. When no type admits a window the result is the
  minimum window with the fallback type.
\<close>

theorem auto_window_is_greatest:
  assumes "0 < budget"
  shows "window_for_budget m preferred opts max_context_for_budget budget =
    (case find (\<lambda>kv. \<exists>c. window_fits m (xo_swa_full opts) budget kv c)
            (kv_types_for_auto_context (Some m) preferred (xo_kv_quality opts)) of
       Some kv \<Rightarrow> (GREATEST c. window_fits m (xo_swa_full opts) budget kv c, kv)
     | None \<Rightarrow> (32768, fallback_kv_type (Some m) preferred (xo_kv_quality opts)))"
  using assms by (simp add: window_for_budget_def first_fitting_window_spec split: option.splits)

section \<open>Spreading never reads faster than the fastest device\<close>

lemma spread_fill_bounds:
  assumes "spread_fill capacity bw weights combined order (r0, t0, p0) = (r, t, p)" "0 < combined" "0 < weights"
    "\<forall>gi \<in> set order. lo \<le> bw gi \<and> bw gi \<le> hi" "0 < lo" "0 \<le> r0"
  shows "0 \<le> r \<and> of_int (r0 - r) * of_int weights / (of_int combined * of_int hi) \<le> t - t0 \<and>
    t - t0 \<le> of_int (r0 - r) * of_int weights / (of_int combined * of_int lo :: rat)"
  using assms
proof (induction order arbitrary: r0 t0 p0)
  case (Cons gi order)
  show ?case
  proof (cases "r0 \<le> 0 \<or> capacity gi \<le> 0")
    case True
    then show ?thesis using Cons by (cases "r0 \<le> 0") auto
  next
    case False
    define k where "k = (if capacity gi > r0 then r0 else capacity gi)"
    define d where "d = of_int k / of_int combined * of_int weights / (of_int (bw gi) :: rat)"
    have k: "0 < k" "k \<le> r0" using False by (auto simp: k_def)
    have "spread_fill capacity bw weights combined order (r0 - k, t0 + d, Suc p0) = (r, t, p)"
      using Cons.prems(1) False by (simp add: k_def d_def Let_def)
    from Cons.IH [OF this] Cons.prems k
    have IH: "0 \<le> r" "of_int (r0 - k - r) * of_int weights / (of_int combined * of_int hi) \<le> t - (t0 + d)"
      "t - (t0 + d) \<le> of_int (r0 - k - r) * of_int weights / (of_int combined * of_int lo :: rat)" by auto
    have bw: "0 < bw gi" "lo \<le> bw gi" "bw gi \<le> hi" using Cons.prems(4,5) by auto
    have kw: "0 \<le> (of_int k * of_int weights / of_int combined :: rat)" using k Cons.prems(2,3) by simp
    have "of_int k * of_int weights / (of_int combined * of_int hi) \<le> d" "d \<le> of_int k * of_int weights / (of_int combined * of_int lo :: rat)"
      using divide_left_mono [OF _ kw, of "of_int (bw gi)" "of_int hi"] divide_left_mono [OF _ kw, of "of_int lo" "of_int (bw gi)"]
        bw Cons.prems(5) by (auto simp: d_def)
    moreover have "of_int (r0 - r) * of_int weights / (of_int combined * x) =
        of_int k * of_int weights / (of_int combined * x) + of_int (r0 - k - r) * of_int weights / (of_int combined * x)" for x :: rat
      by (simp add: add_divide_distrib [symmetric] algebra_simps)
    ultimately show ?thesis using IH by (intro conjI; simp only:; linarith)
  qed
qed auto

lemma set_memory_order [simp]: "set (order_gpus_by_memory_bandwidth gpus) = {0..<length gpus}"
  by (simp add: order_gpus_by_memory_bandwidth_def)

lemma hd_memory_order_fastest:
  assumes "i < length gpus"
  shows "hd (order_gpus_by_memory_bandwidth gpus) < length gpus \<and>
    mem_bandwidth_mbps (gpus ! i) \<le> mem_bandwidth_mbps (gpus ! hd (order_gpus_by_memory_bandwidth gpus))"
proof -
  let ?f = "\<lambda>i. let g = gpus ! i in (- mem_bandwidth_mbps g, - vram_total_mb g, g_index g)"
  let ?o = "order_gpus_by_memory_bandwidth gpus"
  have i: "i \<in> set ?o" using assms by simp
  then obtain h t where o: "?o = h # t" by (cases ?o) auto
  have "sorted (map ?f ?o)" by (simp add: order_gpus_by_memory_bandwidth_def)
  with o i have "?f h \<le> ?f i" by auto
  moreover have "h < length gpus" using set_memory_order [of gpus] o by auto
  ultimately show ?thesis using o by (auto simp: Let_def less_eq_prod_def)
qed

text \<open>
  Spreading is never cheaper than one device. The decode cost ratio the planner weighs a larger
  window against is at least 1, and it never exceeds the ratio of the fastest to the slowest memory: no
  split of the weights, whatever the capacities, is estimated faster than the fastest device alone or
  slower than all of them on the slowest one.
\<close>

theorem spread_cost_bounds:
  "1 \<le> spread_decode_cost_ratio co weights combined overhead \<and>
   (spread_decode_cost_ratio co weights combined overhead = 1 \<or>
    (\<exists>caps. co = Some caps \<and> (\<exists>fast \<in> set (c_gpus caps). \<exists>slow \<in> set (c_gpus caps). 0 < mem_bandwidth_mbps slow \<and>
       spread_decode_cost_ratio co weights combined overhead \<le> of_int (mem_bandwidth_mbps fast) / of_int (mem_bandwidth_mbps slow))))"
proof (cases "spread_decode_cost_ratio co weights combined overhead = 1")
  case False
  then obtain caps where co: "co = Some caps" by (cases co) (auto simp: spread_decode_cost_ratio_def)
  define gpus where "gpus = c_gpus caps"
  let ?bw = "\<lambda>gi. mem_bandwidth_mbps (gpus ! gi)" let ?o = "order_gpus_by_memory_bandwidth gpus"
  define hi where "hi = ?bw (hd ?o)"
  define lo where "lo = Min (mem_bandwidth_mbps ` set gpus)"
  obtain r t p where f: "spread_fill (\<lambda>gi. vram_free_mb (gpus ! gi) - overhead) ?bw weights combined ?o (combined, 0, 0) = (r, t, p)"
    by (rule prod_cases3)
  from False have n: "2 \<le> length gpus" "0 < weights" "0 < combined" "dense_mem_bandwidth_known gpus" "r \<le> 0"
    and v: "spread_decode_cost_ratio co weights combined overhead = t / (of_int weights / of_int hi)"
    using f by (auto simp: spread_decode_cost_ratio_def co gpus_def [symmetric] hi_def Let_def split: if_splits)
  have ne: "set gpus \<noteq> {}" using n(1) by auto
  have pos: "\<forall>g \<in> set gpus. 0 < mem_bandwidth_mbps g" using n(4) by (simp add: dense_mem_bandwidth_known_def list_all_iff)
  have lo: "0 < lo" "\<forall>g \<in> set gpus. lo \<le> mem_bandwidth_mbps g" using ne pos by (auto simp: lo_def)
  have hd: "hd ?o < length gpus" "\<forall>i < length gpus. ?bw i \<le> hi"
    using hd_memory_order_fastest [of 0 gpus] hd_memory_order_fastest [of _ gpus] n(1) by (force simp: hi_def)+
  then have hi: "0 < hi" using pos by (simp add: hi_def)
  have "\<forall>gi \<in> set ?o. lo \<le> ?bw gi \<and> ?bw gi \<le> hi" using lo(2) hd(2) by simp
  from spread_fill_bounds [OF f n(3,2) this lo(1)] n(3,5)
  have t: "of_int weights / of_int hi \<le> t" "t \<le> of_int weights / of_int lo" by auto
  have r: "1 \<le> spread_decode_cost_ratio co weights combined overhead"
    "spread_decode_cost_ratio co weights combined overhead \<le> of_int hi / of_int lo"
    unfolding v using t hi lo(1) n(2) by (auto simp: field_simps)
  have "lo \<in> mem_bandwidth_mbps ` set gpus" unfolding lo_def using ne by (intro Min_in) auto
  then obtain slow where slow: "slow \<in> set gpus" "lo = mem_bandwidth_mbps slow" by auto
  have "gpus ! hd ?o \<in> set gpus" using hd(1) by simp
  then have "\<exists>fast \<in> set gpus. \<exists>slow \<in> set gpus. 0 < mem_bandwidth_mbps slow \<and>
      spread_decode_cost_ratio co weights combined overhead \<le> of_int (mem_bandwidth_mbps fast) / of_int (mem_bandwidth_mbps slow)"
    using slow r(2) lo(1) unfolding hi_def by blast
  with r(1) co show ?thesis unfolding gpus_def by blast
qed simp

section \<open>The chosen window is resident\<close>

text \<open>
  The planner prefers a window that is resident. When one of the two candidate windows (one device,
  all devices) fits beside the weights, the window taken fits one device or all devices with its own KV
  type, the KV placement is left alone, and it is no shorter than the shorter candidate; when it is
  longer than a fitting single-device window, the gain in context exceeds the estimated slowdown.
\<close>

theorem auto_window_resident:
  fixes overhead :: int
  assumes "choose_auto_window probe host_probe caps m total_mb ctx0 kv0 placement opts = ((ctx, kv), p)"
    "xo_context_size opts \<le> 0" "c_gpus caps \<noteq> []" "\<not> ho_cpu_mode (xo_host opts)"
  defines "overhead \<equiv> planned_per_gpu_vram_overhead_mb probe 0 (xo_host opts)"
    and "single \<equiv> auto_context_single_gpu caps m total_mb kv0 opts"
    and "multi \<equiv> auto_context probe caps m total_mb kv0 opts"
  assumes "single_window_fits caps m total_mb overhead (xo_swa_full opts) single \<or>
    multi_window_fits caps m total_mb overhead (xo_swa_full opts) multi"
  shows "p = placement \<and>
    (single_window_fits caps m total_mb overhead (xo_swa_full opts) (ctx, kv) \<or>
     multi_window_fits caps m total_mb overhead (xo_swa_full opts) (ctx, kv)) \<and>
    min (fst single) (fst multi) \<le> ctx \<and>
    (single_window_fits caps m total_mb overhead (xo_swa_full opts) single \<and> fst single < ctx \<longrightarrow>
     (let cost = spread_decode_cost_ratio (Some caps) total_mb
                   (total_mb + compute_kv_total_mb m ctx kv (xo_swa_full opts)) overhead
      in cost \<le> 1 \<or> cost * of_int (fst single) < of_int ctx))"
proof -
  let ?sf = "single_window_fits caps m total_mb overhead (xo_swa_full opts) single"
  let ?mf = "multi_window_fits caps m total_mb overhead (xo_swa_full opts) multi"
  let ?g = "context_gain_outweighs_spread (Some caps) total_mb overhead (fst single)
    (compute_kv_total_mb m (fst single) (snd single) (xo_swa_full opts)) (fst multi)
    (compute_kv_total_mb m (fst multi) (snd multi) (xo_swa_full opts))"
  have eq: "choose_auto_window probe host_probe caps m total_mb ctx0 kv0 placement opts =
     (if ?mf \<and> fst single < fst multi \<and> (\<not> ?sf \<or> ?g) then (multi, placement)
      else if ?sf then (single, placement) else (multi, placement))"
    using assms(2-4,8) by (auto simp: choose_auto_window_def Let_def overhead_def single_def multi_def)
  show ?thesis
  proof (cases "?mf \<and> fst single < fst multi \<and> (\<not> ?sf \<or> ?g)")
    case True
    then have m: "multi = (ctx, kv)" "p = placement" using eq assms(1) by auto
    have "?sf \<Longrightarrow> ?g" using True by blast
    then have "?sf \<Longrightarrow> 0 < fst single \<and> (let cost = spread_decode_cost_ratio (Some caps) total_mb
                   (total_mb + compute_kv_total_mb m ctx kv (xo_swa_full opts)) overhead
      in cost \<le> 1 \<or> cost < of_int ctx / of_int (fst single))"
      by (auto simp: context_gain_outweighs_spread_def Let_def m split: if_splits)
    with True m show ?thesis by (auto simp: Let_def pos_less_divide_eq)
  next
    case False
    then have s: "(if ?sf then single else multi) = (ctx, kv)" "p = placement" using eq assms(1) by (auto split: if_splits)
    with assms(8) show ?thesis by (cases "?sf") auto
  qed
qed

section \<open>Witnesses\<close>

definition demo_context_options :: context_options where
  "demo_context_options =
     \<lparr>xo_host = demo_host_options, xo_kv_quality = [], xo_swa_full = False, xo_context_size = 0,
      xo_kv_placement = ''auto'', xo_batch_size = 0, xo_ubatch_size = 0, xo_batch_explicit = False, xo_ubatch_explicit = False\<rparr>"

lemma demo_option_parts:
  "xo_host demo_context_options = demo_host_options" "xo_swa_full demo_context_options = False"
  "xo_context_size demo_context_options = 0" "xo_kv_quality demo_context_options = []"
  "\<not> ho_cpu_mode demo_host_options"
  by (simp_all add: demo_context_options_def demo_host_options_def)

definition demo_priced_model :: model_profile where
  "demo_priced_model = empty_profile\<lparr>m_num_layers := 4, m_measured_kv_bytes_per_tok := [(''q8_0'', 3200)]\<rparr>"

lemma demo_price: "compute_kv_total_mb demo_priced_model 32768 ''q8_0'' False = 100"
  by code_simp

lemma demo_types: "kv_types_for_auto_context (Some demo_priced_model) ''q8_0'' [] = [''q8_0'', ''q4_0'']"
  by code_simp

theorem auto_window_is_greatest_witness:
  "window_for_budget demo_priced_model ''q8_0'' demo_context_options max_context_for_budget 200 = (65536, ''q8_0'') \<and>
   (GREATEST c. window_fits demo_priced_model False 200 ''q8_0'' c) = 65536"
proof -
  have t: "m_ctx_train demo_priced_model = 0" by (simp add: demo_priced_model_def empty_profile_def)
  have w: "window_for_budget demo_priced_model ''q8_0'' demo_context_options max_context_for_budget 200 = (65536, ''q8_0'')"
    by (simp add: window_for_budget_def demo_context_options_def demo_types kv_capped_context_def demo_price t go_trunc_def
        max_context_eq Let_def)
  have "window_fits demo_priced_model False 200 ''q8_0'' 65536" by (simp add: window_fits_def demo_price t)
  then have "Ex (window_fits demo_priced_model False 200 ''q8_0'')" by blast
  with auto_window_is_greatest [of 200 demo_priced_model "''q8_0''" demo_context_options] w
  show ?thesis by (simp add: demo_types demo_context_options_def)
qed

theorem auto_window_resident_witness:
  "choose_auto_window None None (demo_host [400, 200] 0) demo_priced_model 100 32768 ''q8_0'' ''gpu'' demo_context_options =
     ((163840, ''q8_0''), ''gpu'') \<and>
   multi_window_fits (demo_host [400, 200] 0) demo_priced_model 100 0 False (163840, ''q8_0'')"
proof -
  have c: "choose_auto_window None None (demo_host [400, 200] 0) demo_priced_model 100 32768 ''q8_0'' ''gpu'' demo_context_options =
     ((163840, ''q8_0''), ''gpu'')" by code_simp
  have o: "planned_per_gpu_vram_overhead_mb None 0 demo_host_options = 0" by code_simp
  have s: "\<not> single_window_fits (demo_host [400, 200] 0) demo_priced_model 100 0 False (163840, ''q8_0'')" by code_simp
  have m: "multi_window_fits (demo_host [400, 200] 0) demo_priced_model 100 0 False
      (auto_context None (demo_host [400, 200] 0) demo_priced_model 100 ''q8_0'' demo_context_options)" by code_simp
  note r = auto_window_resident [OF c, unfolded demo_option_parts o, OF _ _ _ disjI2 [OF m]]
  have "single_window_fits (demo_host [400, 200] 0) demo_priced_model 100 0 False (163840, ''q8_0'') \<or>
      multi_window_fits (demo_host [400, 200] 0) demo_priced_model 100 0 False (163840, ''q8_0'')"
    by (rule r [THEN conjunct2, THEN conjunct1]) (simp_all add: demo_option_parts)
  with c s show ?thesis by blast
qed

end
