(* ===== verification/MoeBuilder.thy ===== *)
theory MoeBuilder
  imports HostMemory IkLayerSplit OverrideTensor
begin

text \<open>
  The expert offload builder \<^verbatim>\<open>buildMoEOffload\<close> (\<^verbatim>\<open>go/pkg/placement/placement.go\<close>): what every device
  is charged before experts, the tensor split and the devices it drops, the packing of whole expert
  layers, the ceilings on CPU layers, the mmap decision and the resulting strategy.

  What the probe files hold is an argument (\<open>moe_evidence\<close>): overheads and measured buffers by device
  index, where a missing map entry is 0. Trace output is left out.
\<close>

record moe_probe =
  mp_compute :: int
  mp_compute_by_gpu :: "int \<Rightarrow> int"
  mp_growth_by_gpu :: "int \<Rightarrow> int option"

record moe_evidence =
  me_cuda_overhead :: "(int \<times> int) list"
  me_probe :: "moe_probe option"
  me_related_growth :: "int \<Rightarrow> int"
  me_newer_growth :: "int \<Rightarrow> int"
  me_allocation :: "(int \<times> string) option"
  me_host_overhead :: "int option"

record build_options =
  bo_host :: host_options
  bo_lookup :: lookup_options
  bo_placement_policy :: string
  bo_split_owner :: "int option"
  bo_swa_full :: bool
  bo_auto_candidate :: bool
  bo_ubatch_explicit :: bool

record ledger_entry =
  le_gpu :: int
  le_free_mb :: int
  le_fixed_mb :: int
  le_room_mb :: int
  le_expert_layers :: int
  le_stranded_mb :: int
  le_expert_only :: bool

record built_strategy = host_strategy +
  bs_placement_policy :: string
  bs_vram_ledger :: "ledger_entry list"
  bs_gpu_layers :: int

datatype ceiling_label = PageCache | StrictNoMMap | ResidentRam | ResidentRamBecause mmap_ineligibility

datatype moe_error =
    NoLayerCount
  | OwnerNotSelected int
  | NoFreeVram
  | CpuCeiling int int int ceiling_label int int int
  | PagingRefused lookup_refusal
  | ResidentOnly int int mmap_ineligibility

section \<open>The model's weights\<close>

record moe_weights =
  mw_expert :: int
  mw_non_expert :: int
  mw_token_embd :: int
  mw_output :: int
  mw_shexp :: int

definition moe_layer_span :: "model_profile \<Rightarrow> int \<times> int" where
  "moe_layer_span m =
     (let start = (if m_leading_dense m < 0 \<or> m_leading_dense m \<ge> m_num_layers m then 0 else m_leading_dense m);
          count = m_num_layers m - start
      in if count \<le> 0 then (0, m_num_layers m) else (start, count))"

definition moe_weights_of :: "model_profile \<Rightarrow> int \<Rightarrow> moe_weights" where
  "moe_weights_of m total_mb =
     (let e0 = bytes_to_mib_ceil (m_expert_bytes m);
          e = (if e0 \<le> 0 then go_div (total_mb * 90) 100 else e0);
          n0 = bytes_to_mib_ceil (m_non_expert_bytes m);
          n1 = (if n0 \<le> 0 then total_mb - e else n0);
          n2 = (if n1 < 0 then 0 else n1);
          te0 = bytes_to_mib_ceil (m_token_embd_bytes m);
          te = (if te0 > 0 \<and> te0 < n2 then te0 else 0);
          n3 = n2 - te;
          out0 = bytes_to_mib_ceil (m_output_bytes m);
          out = (if out0 > 0 \<and> out0 < n3 then out0 else 0);
          sh0 = bytes_to_mib_ceil (m_shexp_bytes m);
          sh = (if sh0 < 0 \<or> sh0 \<ge> e then 0 else sh0)
      in \<lparr>mw_expert = e, mw_non_expert = n3 - out, mw_token_embd = te, mw_output = out, mw_shexp = sh\<rparr>)"

definition moe_builder_costs :: "model_profile \<Rightarrow> moe_weights \<Rightarrow> int \<Rightarrow> int \<Rightarrow> moe_layer_memory list \<times> bool" where
  "moe_builder_costs m w start count =
     (let (costs, exact) = moe_layer_memory_costs (Some m) start count in
      if costs \<noteq> [] \<and> whole_layer_mb (hd costs) = 0
      then (replicate (length costs)
              \<lparr>ml_routed = ceil_div_int (mw_expert w - mw_shexp w) count,
               ml_shared = ceil_div_int (mw_shexp w) count,
               ml_aux = ceil_div_int (bytes_to_mib_ceil (m_expert_aux_bytes m)) count\<rparr>, exact)
      else (costs, exact))"

definition largest_layer_mb :: "moe_layer_memory list \<Rightarrow> int" where
  "largest_layer_mb costs =
     (let v = foldl (\<lambda>b c. if whole_layer_mb c > b then whole_layer_mb c else b) 0 costs in if v \<le> 0 then 1 else v)"

definition expert_cpu_per_layer_mb :: "moe_weights \<Rightarrow> moe_layer_memory list \<Rightarrow> int \<Rightarrow> int" where
  "expert_cpu_per_layer_mb w costs count =
     (let v = ceil_div_int (mw_expert w - mw_shexp w) count in if v \<le> 0 then largest_layer_mb costs else v)"

definition non_expert_per_layer_mb :: "model_profile \<Rightarrow> moe_weights \<Rightarrow> int" where
  "non_expert_per_layer_mb m w =
     (let v = ceil_div_int (if mw_non_expert w < 0 then 0 else mw_non_expert w) (m_num_layers m) in if v \<le> 0 then 1 else v)"

section \<open>The fixed charge of a device\<close>

definition probed_compute :: "moe_probe option \<Rightarrow> int \<Rightarrow> int \<Rightarrow> int" where
  "probed_compute pc idx cold =
     (case pc of
        None \<Rightarrow> cold
      | Some p \<Rightarrow> if mp_compute_by_gpu p idx > 0 then mp_compute_by_gpu p idx
                  else if mp_compute p > 0 then mp_compute p else cold)"

definition expert_only_compute :: "moe_probe option \<Rightarrow> int \<Rightarrow> int \<Rightarrow> bool \<Rightarrow> int" where
  "expert_only_compute pc idx cold measured_only =
     (let this = (case pc of Some p \<Rightarrow> mp_compute_by_gpu p idx | None \<Rightarrow> 0);
          aggregate = (case pc of Some p \<Rightarrow> if mp_compute p > cold then mp_compute p else cold | None \<Rightarrow> cold)
      in if this > 0 then this
         else if measured_only then 0 else expert_only_compute_reserve_mb aggregate this)"

definition runtime_growth :: "moe_evidence \<Rightarrow> int \<Rightarrow> int" where
  "runtime_growth ev idx =
     (case (case me_probe ev of Some p \<Rightarrow> mp_growth_by_gpu p idx | None \<Rightarrow> None) of
        None \<Rightarrow> me_related_growth ev idx
      | Some g \<Rightarrow> if me_newer_growth ev idx > g then me_newer_growth ev idx else g)"

definition device_fixed_mb :: "moe_evidence \<Rightarrow> build_options \<Rightarrow> model_profile \<Rightarrow> built_strategy \<Rightarrow> gpu \<Rightarrow> int \<times> int" where
  "device_fixed_mb ev opts m s g =
     (let idx = g_index g;
          cold = first_launch_compute_buf_mb_at_context (Some m) (pl_ubatch_size s) (s_parallel s) (s_context_size s);
          measured_only = ho_require_measured (bo_host opts);
          base = (case map_of (me_cuda_overhead ev) idx of Some mb \<Rightarrow> mb | None \<Rightarrow> 0) + runtime_growth ev idx
      in (base + probed_compute (me_probe ev) idx (if measured_only then 0 else cold),
          base + expert_only_compute (me_probe ev) idx cold measured_only))"

section \<open>The tensor split\<close>

definition kv_shape_for_strategy :: "built_strategy \<Rightarrow> bool \<Rightarrow> kv_cache_shape" where
  "kv_shape_for_strategy s swa_full =
     \<lparr>sh_context = s_context_size s, sh_ubatch = pl_ubatch_size s, sh_slots = s_parallel s, sh_unified = False,
      sh_swa_full = (swa_full \<or> hs_swa_full s), sh_kv_type = s_kv_type s,
      sh_v_transposed = equal_fold (s_kv_placement s) ''cpu'',
      sh_mtp = (case la_draft s of Some d \<Rightarrow> dr_type d = DraftMTP | None \<Rightarrow> False)\<rparr>"

definition observed_allocation_evidence :: "string \<Rightarrow> bool" where
  "observed_allocation_evidence e \<longleftrightarrow>
     e \<in> {''live-allocated'', ''guarded-allocated'', ''allocation-verified'', ''backend-measured''}"

definition gpu_kv_total_mb :: "moe_evidence \<Rightarrow> built_strategy \<Rightarrow> int \<Rightarrow> int" where
  "gpu_kv_total_mb ev s kv =
     (if s_kv_placement s = ''cpu'' then 0
      else case me_allocation ev of
        Some (mb, e) \<Rightarrow> if mb > 0 \<and> observed_allocation_evidence e then mb else kv
      | None \<Rightarrow> kv)"

text \<open>
  \<^verbatim>\<open>nonExpertChargeMB\<close>: exact bytes when the header lists every layer, shares of the totals otherwise.
\<close>

definition layers_on :: "int list \<Rightarrow> int \<Rightarrow> int list" where
  "layers_on devices gi = map int (filter (\<lambda>l. devices ! l = gi) [0..<length devices])"

record moe_geometry =
  mg_start :: int
  mg_count :: int
  mg_weights :: moe_weights
  mg_costs :: "moe_layer_memory list"
  mg_exact :: bool

definition moe_geometry_of :: "model_profile \<Rightarrow> int \<Rightarrow> moe_geometry" where
  "moe_geometry_of m total_mb =
     (let (start, count) = moe_layer_span m;
          w = moe_weights_of m total_mb;
          (costs, exact) = moe_builder_costs m w start count
      in \<lparr>mg_start = start, mg_count = count, mg_weights = w, mg_costs = costs, mg_exact = exact\<rparr>)"

definition exact_layer_charge :: "model_profile \<Rightarrow> moe_geometry \<Rightarrow> int \<Rightarrow> int" where
  "exact_layer_charge m geo layer =
     layer_bytes_mib_ceil (m_non_expert_layer_bytes m) layer +
     (if layer \<ge> mg_start geo
      then ml_shared (mg_costs geo ! nat (layer - mg_start geo)) + ml_aux (mg_costs geo ! nat (layer - mg_start geo))
      else 0)"

definition global_weight_bytes :: "model_profile \<Rightarrow> int" where
  "global_weight_bytes m =
     (let g = m_non_expert_bytes m - m_token_embd_bytes m - m_output_bytes m - m_expert_aux_bytes m -
                sum_list (m_non_expert_layer_bytes m)
      in if g < 0 then 0 else g)"

definition non_expert_charge_mb ::
  "model_profile \<Rightarrow> moe_geometry \<Rightarrow> int list \<Rightarrow> int list \<Rightarrow> int \<Rightarrow> nat \<Rightarrow> int" where
  "non_expert_charge_mb m geo devices owned out gi =
     (let w = mg_weights geo in
      if mg_exact geo \<and> int (length (m_non_expert_layer_bytes m)) \<ge> m_num_layers m then
        foldl (\<lambda>t l. t + exact_layer_charge m geo l) 0 (layers_on devices (int gi)) +
        (if int gi = out then mw_output w + bytes_to_mib_ceil (global_weight_bytes m) else 0)
      else
        let per_layer = f64 (of_int (mw_non_expert w) / of_int (m_num_layers m));
            per_shexp = (if mg_count geo > 0 then f64 (of_int (mw_shexp w) / of_int (mg_count geo)) else 0);
            owned_moe = length (filter (\<lambda>l. l \<ge> mg_start geo) (layers_on devices (int gi)));
            charge = f64 (f64 (of_int (owned ! gi) * per_layer) + f64 (of_nat owned_moe * per_shexp));
            with_output = (if int gi = out then f64 (charge + of_int (mw_output w)) else charge)
        in go_trunc (f64 (with_output + f64 (999 / 1000))))"

definition raw_split :: "gpu list \<Rightarrow> int list \<Rightarrow> string \<Rightarrow> bool list \<Rightarrow> rat list option" where
  "raw_split gpus fixed policy used =
     (let weigh = (\<lambda>i. f64 (of_int (vram_free_mb (gpus ! i) - fixed ! i) * gpu_placement_weight (gpus ! i) policy));
          weighted = foldl (\<lambda>t i. if used ! i then f64 (t + weigh i) else t) 0 [0..<length gpus]
      in if weighted \<le> 0 then None
         else Some (map (\<lambda>i. if used ! i then f64 (weigh i / weighted) else 0) [0..<length gpus]))"

text \<open>
  The loop that drops every device whose charge exceeds its free memory and splits again. It ends
  because a further round needs a device to have been dropped.
\<close>

definition keep_used :: "(rat list \<Rightarrow> nat \<Rightarrow> bool) \<Rightarrow> rat list \<Rightarrow> bool list \<Rightarrow> bool list" where
  "keep_used over split used = map (\<lambda>i. used ! i \<and> \<not> over split i) [0..<length used]"

lemma keep_used_fewer:
  assumes "keep_used over split used \<noteq> used"
  shows "length (filter id (keep_used over split used)) < length (filter id used)"
proof -
  have le: "length (filter id (map (\<lambda>i. us ! i \<and> \<not> P i) [0..<length us])) \<le> length (filter id us) \<and>
      (map (\<lambda>i. us ! i \<and> \<not> P i) [0..<length us] \<noteq> us \<longrightarrow>
       length (filter id (map (\<lambda>i. us ! i \<and> \<not> P i) [0..<length us])) < length (filter id us))" for us P
  proof (induction us arbitrary: P)
    case (Cons u us)
    have "map (\<lambda>i. (u # us) ! i \<and> \<not> P i) [0..<length (u # us)] =
        (u \<and> \<not> P 0) # map (\<lambda>i. us ! i \<and> \<not> P (Suc i)) [0..<length us]"
      by (simp add: map_Suc_upt [symmetric] del: upt_Suc) (simp add: upt_conv_Cons map_Suc_upt [symmetric] comp_def del: upt_Suc map_Suc_upt)
    then show ?case using Cons.IH [of "\<lambda>i. P (Suc i)"] by (auto simp: less_Suc_eq_le)
  qed simp
  show ?thesis using le [of used "over split"] assms by (simp add: keep_used_def)
qed

function split_loop :: "(bool list \<Rightarrow> rat list option) \<Rightarrow> (rat list \<Rightarrow> nat \<Rightarrow> bool) \<Rightarrow> bool list \<Rightarrow> (rat list \<times> bool list) option" where
  "split_loop weigh over used =
     (case weigh used of
        None \<Rightarrow> None
      | Some split \<Rightarrow>
          if keep_used over split used = used then Some (split, used)
          else split_loop weigh over (keep_used over split used))"
  by pat_completeness auto
termination by (relation "measure (\<lambda>(_, _, used). length (filter id used))") (auto simp: keep_used_fewer)

declare split_loop.simps [simp del]

definition owner_charge_mb ::
  "(rat \<Rightarrow> rat) \<Rightarrow> model_profile \<Rightarrow> moe_geometry \<Rightarrow> kv_cache_shape \<Rightarrow> int \<Rightarrow> gpu list \<Rightarrow> int list \<Rightarrow> rat list \<Rightarrow> nat \<Rightarrow> int" where
  "owner_charge_mb f32 m geo sh gpu_kv gpus fixed split i =
     (let (devices, out) = backend_layer_device_assignments f32 (Some m) sh split;
          (owned, _) = backend_layer_ownership f32 (Some m) sh split
      in fixed ! i + non_expert_charge_mb m geo devices owned out i +
         kv_layer_share_mb (Some m) sh gpu_kv split devices owned (int i))"

definition retrofit_expert_only :: "gpu list \<Rightarrow> int list \<Rightarrow> int \<Rightarrow> bool list \<Rightarrow> rat list \<Rightarrow> bool list \<Rightarrow> bool list" where
  "retrofit_expert_only gpus eo_fixed per_layer used split eo =
     map (\<lambda>i. eo ! i \<or>
        (\<not> used ! i \<and> \<not> split ! i > 0 \<and> i < length eo_fixed \<and> vram_free_mb (gpus ! i) - eo_fixed ! i \<ge> per_layer))
       [0..<length gpus]"

section \<open>Packing whole expert layers\<close>

definition expert_room_mb ::
  "build_options \<Rightarrow> gpu list \<Rightarrow> int list \<Rightarrow> int list \<Rightarrow> bool list \<Rightarrow> rat list \<Rightarrow> (nat \<Rightarrow> int) \<Rightarrow> nat \<Rightarrow> int" where
  "expert_room_mb opts gpus fixed eo_fixed eo split owner_charge i =
     (if \<not> split ! i > 0 \<and> \<not> eo ! i then 0
      else
        let free = vram_free_mb (gpus ! i);
            eo_charge = (if \<not> ho_require_measured (bo_host opts) \<and> eo_fixed ! i < compute_floor_mb
                         then compute_floor_mb else eo_fixed ! i);
            room = (if eo ! i then free - eo_charge else free - owner_charge i)
        in if room < 0 then 0 else room)"

text \<open>
  The remaining layers are given with the device that owns each (\<open>-1\<close> when none does). \<open>take_layers\<close> is
  the inner loop for one device, \<open>pack_layers\<close> the loop over the devices in placement order.
\<close>

type_synonym owned_layer = "moe_layer_memory \<times> int"

definition pin_charge :: "nat \<Rightarrow> owned_layer \<Rightarrow> int" where
  "pin_charge gi l = (if snd l = int gi then ml_routed (fst l) else whole_layer_mb (fst l))"

definition pin_room :: "nat \<Rightarrow> owned_layer \<Rightarrow> int list \<Rightarrow> int list" where
  "pin_room gi l room =
     (let r = room[gi := room ! gi - pin_charge gi l]; owner = snd l in
      if 0 \<le> owner \<and> owner < int (length room) \<and> owner \<noteq> int gi
      then r[nat owner := r ! nat owner + (ml_shared (fst l) + ml_aux (fst l))] else r)"

fun take_layers :: "nat \<Rightarrow> owned_layer list \<Rightarrow> int list \<Rightarrow> int list \<times> int \<times> owned_layer list" where
  "take_layers gi [] room = (room, 0, [])"
| "take_layers gi (l # ls) room =
     (if room ! gi < pin_charge gi l then (room, 0, l # ls)
      else let (room', n, rest) = take_layers gi ls (pin_room gi l room) in (room', n + 1, rest))"

fun pack_layers :: "nat list \<Rightarrow> owned_layer list \<Rightarrow> int list \<Rightarrow> int list \<Rightarrow> int list \<times> int list \<times> owned_layer list" where
  "pack_layers [] ls room per_gpu = (room, per_gpu, ls)"
| "pack_layers (gi # order) ls room per_gpu =
     (let (room', n, rest) = take_layers gi ls room
      in pack_layers order rest room' (per_gpu[gi := per_gpu ! gi + n]))"

definition owned_layers_of :: "moe_geometry \<Rightarrow> int list \<Rightarrow> owned_layer list" where
  "owned_layers_of geo devices =
     map (\<lambda>i. (mg_costs geo ! i,
              let l = mg_start geo + int i in
              if 0 \<le> l \<and> l < int (length devices) then devices ! nat l else - 1))
       [0..<length (mg_costs geo)]"

section \<open>Host memory\<close>

fun strict_cpu_layers :: "int \<Rightarrow> int \<Rightarrow> moe_layer_memory list \<Rightarrow> int" where
  "strict_cpu_layers budget used_mb [] = 0"
| "strict_cpu_layers budget used_mb (c # cs) =
     (if used_mb + ml_routed c > budget then 0 else 1 + strict_cpu_layers budget (used_mb + ml_routed c) cs)"

text \<open>The host memory terms of a plan: runtime overhead, CPU KV, embeddings, checkpoints and what is free.\<close>

record host_terms =
  ht_runtime :: int
  ht_cpu_kv :: int
  ht_embd :: int
  ht_checkpoint :: int
  ht_free :: int

definition moe_host_terms ::
  "moe_evidence \<Rightarrow> build_options \<Rightarrow> capabilities \<Rightarrow> model_profile \<Rightarrow> built_strategy \<Rightarrow> moe_weights \<Rightarrow> int \<Rightarrow> int \<Rightarrow> host_terms" where
  "moe_host_terms ev opts caps m s w total_mb kv =
     (let placement = (if s_kv_placement s = ''auto'' then ''gpu'' else s_kv_placement s) in
      \<lparr>ht_runtime = planned_ram_runtime_overhead_mb (me_host_overhead ev) (Some caps) m (pl_ubatch_size s) total_mb (bo_host opts),
       ht_cpu_kv = (if placement = ''cpu'' then kv else 0),
       ht_embd = mw_token_embd w,
       ht_checkpoint = checkpoint_footprint_mb (Some m) 0 (s_parallel s) kv (s_context_size s) (Some (hs_measured_checkpoint_mb s)),
       ht_free = ram_free_mb (c_ram caps)\<rparr>)"

definition strict_budget :: "host_terms \<Rightarrow> int" where
  "strict_budget h =
     (let b = ht_free h - ht_runtime h - ht_cpu_kv h - ht_embd h in if b < 0 then 0 else b)"

definition working_floor :: "host_terms \<Rightarrow> int" where
  "working_floor h = ht_runtime h + ht_cpu_kv h + ht_embd h + ht_checkpoint h"

text \<open>The ceiling on CPU layers and the label in the message; \<open>cpu\<close> are the layers not placed on a device.\<close>

definition cpu_layer_ceiling :: "host_options \<Rightarrow> host_terms \<Rightarrow> moe_layer_memory list \<Rightarrow> int \<times> ceiling_label" where
  "cpu_layer_ceiling opts h cpu =
     (let strict = strict_cpu_layers (strict_budget h) 0 cpu;
          reclaimable = mmap_can_page_cpu_experts opts;
          paged = (if reclaimable \<and> ht_free h \<ge> working_floor h then int (length cpu) else 0)
      in if strict < int (length cpu) \<and> \<not> ho_no_mmap opts \<and> paged > strict then (paged, PageCache)
         else (strict,
               if ho_no_mmap opts then StrictNoMMap
               else if \<not> reclaimable then ResidentRamBecause (mmap_cpu_expert_ineligibility opts) else ResidentRam))"

text \<open>The mmap decision: the error, or whether to map and whether mapping is required.\<close>

definition moe_mmap_decision ::
  "build_options \<Rightarrow> model_profile \<Rightarrow> host_terms \<Rightarrow> int \<Rightarrow> bool \<Rightarrow> bool \<Rightarrow> moe_error + bool \<times> bool" where
  "moe_mmap_decision opts m h experts mmap required =
     (let needed = experts + working_floor h; reclaimable = mmap_can_page_cpu_experts (bo_host opts) in
      if ho_no_mmap (bo_host opts) then Inr (False, required)
      else if needed > ht_free h then
        (case sparse_lookup_expert_paging_error (Some m) (bo_lookup opts) needed (ht_free h) of
           Some r \<Rightarrow> Inl (PagingRefused r)
         | None \<Rightarrow>
             if reclaimable \<and> ht_free h \<ge> working_floor h then Inr (True, True)
             else if \<not> reclaimable then Inl (ResidentOnly needed (ht_free h) (mmap_cpu_expert_ineligibility (bo_host opts)))
             else Inr (mmap, required))
      else if ho_force_mmap (bo_host opts) then Inr (True, required)
      else Inr (False, required))"

section \<open>The ledger\<close>

definition ledger_of ::
  "gpu list \<Rightarrow> int list \<Rightarrow> int list \<Rightarrow> bool list \<Rightarrow> int list \<Rightarrow> int list \<Rightarrow> moe_layer_memory list \<Rightarrow> nat \<Rightarrow> ledger_entry" where
  "ledger_of gpus fixed eo_fixed eo room per_gpu costs gi =
     (let spent0 = foldl (\<lambda>t c. t + whole_layer_mb c) 0 (take (nat (per_gpu ! gi)) costs);
          spent = (if per_gpu ! gi > 0 \<and> largest_layer_mb costs > 0 then per_gpu ! gi * largest_layer_mb costs else spent0);
          stranded = room ! gi - spent
      in \<lparr>le_gpu = g_index (gpus ! gi), le_free_mb = vram_free_mb (gpus ! gi),
          le_fixed_mb = (if eo ! gi then eo_fixed ! gi else fixed ! gi), le_room_mb = room ! gi,
          le_expert_layers = per_gpu ! gi, le_stranded_mb = (if stranded < 0 then 0 else stranded), le_expert_only = eo ! gi\<rparr>)"

section \<open>The builder\<close>

text \<open>
  \<open>moe_layout\<close> is the device side of the plan: split, classification, rooms before packing, the layers
  in order with their owners, and what packing left.
\<close>

record moe_layout =
  mo_split :: "rat list"
  mo_expert_only :: "bool list"
  mo_room0 :: "int list"
  mo_layers :: "owned_layer list"
  mo_room :: "int list"
  mo_per_gpu :: "int list"
  mo_rest :: "owned_layer list"

definition gpu_ordinal :: "gpu list \<Rightarrow> int \<Rightarrow> nat option" where
  "gpu_ordinal gpus idx = find (\<lambda>i. g_index (gpus ! i) = idx) [0..<length gpus]"

definition moe_layout_of ::
  "(rat \<Rightarrow> rat) \<Rightarrow> moe_evidence \<Rightarrow> build_options \<Rightarrow> gpu list \<Rightarrow> model_profile \<Rightarrow> built_strategy \<Rightarrow> moe_geometry \<Rightarrow> int \<Rightarrow>
     nat option \<Rightarrow> moe_layout option" where
  "moe_layout_of f32 ev opts gpus m s geo kv forced =
     (let policy = normalize_placement_policy (bo_placement_policy opts);
          order = order_gpus_for_placement gpus policy;
          fixed = map (fst \<circ> device_fixed_mb ev opts m s) gpus;
          eo_fixed = map (snd \<circ> device_fixed_mb ev opts m s) gpus;
          per_layer = largest_layer_mb (mg_costs geo);
          eo0 = expert_only_slow_gpus gpus fixed eo_fixed per_layer (non_expert_per_layer_mb m (mg_weights geo));
          eo1 = (case forced of None \<Rightarrow> eo0 | Some i \<Rightarrow> map (\<lambda>j. j \<noteq> i) [0..<length eo0]);
          gpu_kv = gpu_kv_total_mb ev s kv;
          sh = kv_shape_for_strategy s (bo_swa_full opts);
          charge = owner_charge_mb f32 m geo sh gpu_kv gpus fixed;
          used0 = map (\<lambda>i. \<not> eo1 ! i \<and> vram_free_mb (gpus ! i) > fixed ! i) [0..<length gpus]
      in case split_loop (\<lambda>used. map_option normalize_split (raw_split gpus fixed policy used))
                (\<lambda>split i. charge split i > vram_free_mb (gpus ! i)) used0 of
           None \<Rightarrow> None
         | Some (split, used) \<Rightarrow>
             let eo = retrofit_expert_only gpus eo_fixed per_layer used split eo1;
                 in_order = (\<lambda>i. if i \<in> set order then expert_room_mb opts gpus fixed eo_fixed eo split (charge split) i else 0);
                 room0 = map in_order [0..<length gpus];
                 layers = owned_layers_of geo (fst (backend_layer_device_assignments f32 (Some m) sh split));
                 (room, per_gpu, rest) = pack_layers order layers room0 (replicate (length gpus) 0)
             in Some \<lparr>mo_split = split, mo_expert_only = eo, mo_room0 = room0, mo_layers = layers, mo_room = room,
                      mo_per_gpu = per_gpu, mo_rest = rest\<rparr>)"

definition enable_automatic_sub_pins :: bool where "enable_automatic_sub_pins = False"

definition moe_sub_pins ::
  "moe_evidence \<Rightarrow> gpu list \<Rightarrow> nat list \<Rightarrow> moe_geometry \<Rightarrow> moe_layout \<Rightarrow> sub_expert_pin list \<times> int" where
  "moe_sub_pins ev gpus order geo lay =
     (if enable_automatic_sub_pins \<and> has_measured_cuda_overhead (me_cuda_overhead ev) gpus (mo_split lay) then
        let chunk = go_div (2 * expert_cpu_per_layer_mb (mg_weights geo) (mg_costs geo) (mg_count geo)) 3;
            remainder = map (\<lambda>i. if mo_expert_only lay ! i \<or> mo_room lay ! i < 0 then 0 else mo_room lay ! i) [0..<length gpus];
            on_gpu = mg_count geo - int (length (mo_rest lay));
            (pins, moved) = pack_gate_up_chunks remainder (map int order) chunk (mg_start geo + on_gpu) (int (length (mo_rest lay)))
        in (map (\<lambda>p. \<lparr>sp_layer = cp_layer p, sp_gi = nat (cp_gi p)\<rparr>) pins, moved)
      else ([], 0))"

definition ceiling_error :: "moe_geometry \<Rightarrow> moe_layout \<Rightarrow> int \<Rightarrow> ceiling_label \<Rightarrow> moe_error" where
  "ceiling_error geo lay cap label =
     (let short = drop (nat cap) (map fst (mo_rest lay)) in
      CpuCeiling (mg_count geo) (mg_count geo - int (length (mo_rest lay))) cap label (int (length (mo_rest lay)) - cap)
        (foldl (\<lambda>t c. t + whole_layer_mb c) 0 short) (foldl (\<lambda>t c. t + ml_routed c) 0 short))"

definition cpu_expert_resident_mb :: "moe_geometry \<Rightarrow> moe_layout \<Rightarrow> int \<Rightarrow> int" where
  "cpu_expert_resident_mb geo lay moved =
     (let v = sum_routed_layer_mb (mg_costs geo) (mg_count geo - int (length (mo_rest lay))) - moved in if v < 0 then 0 else v)"

definition with_moe_plan ::
  "built_strategy \<Rightarrow> int \<Rightarrow> bool \<Rightarrow> bool \<Rightarrow> int \<Rightarrow> ledger_entry list \<Rightarrow> string \<Rightarrow> int \<Rightarrow> built_strategy" where
  "with_moe_plan s experts mmap required footprint ledger ot cpu_layers =
     s\<lparr>hs_reclaimable_weights_mb := experts, pl_mmap := mmap, s_mmap_required := required, lk_host_footprint_mb := footprint,
       bs_vram_ledger := ledger, pl_ot_string := ot, pl_n_cpu_moe := (if cpu_layers > 0 then cpu_layers else pl_n_cpu_moe s)\<rparr>"

definition finish_moe_plan ::
  "moe_evidence \<Rightarrow> build_options \<Rightarrow> capabilities \<Rightarrow> model_profile \<Rightarrow> built_strategy \<Rightarrow> moe_geometry \<Rightarrow> moe_layout \<Rightarrow> host_terms \<Rightarrow>
     moe_error + built_strategy" where
  "finish_moe_plan ev opts caps m s geo lay h =
     (let gpus = c_gpus caps;
          order = order_gpus_for_placement gpus (normalize_placement_policy (bo_placement_policy opts));
          fixed = map (fst \<circ> device_fixed_mb ev opts m s) gpus;
          eo_fixed = map (snd \<circ> device_fixed_mb ev opts m s) gpus;
          cpu_layers = int (length (mo_rest lay));
          (cap, label) = cpu_layer_ceiling (bo_host opts) h (map fst (mo_rest lay))
      in if cap < cpu_layers then Inl (ceiling_error geo lay cap label)
         else
           let (pins, moved) = moe_sub_pins ev gpus order geo lay;
               experts = cpu_expert_resident_mb geo lay moved
           in case moe_mmap_decision opts m h experts (pl_mmap s) (s_mmap_required s) of
                Inl e \<Rightarrow> Inl e
              | Inr (mmap, required) \<Rightarrow>
                  Inr (with_moe_plan s experts mmap required
                         (host_footprint_for_cache (experts + working_floor h) (working_floor h) mmap (bo_host opts))
                         (map (ledger_of gpus fixed eo_fixed (mo_expert_only lay) (mo_room lay) (mo_per_gpu lay) (mg_costs geo)) order)
                         (build_ot_string_with_sub_pins (mo_per_gpu lay) pins gpus order (mg_start geo) (ho_backend_tag (bo_host opts)))
                         cpu_layers))"

definition build_cpu_only ::
  "int option \<Rightarrow> built_strategy \<Rightarrow> capabilities \<Rightarrow> model_profile \<Rightarrow> int \<Rightarrow> int \<Rightarrow> host_options \<Rightarrow> built_strategy" where
  "build_cpu_only measured s caps m total_mb kv opts =
     s\<lparr>bs_gpu_layers := 0, pl_mmap := \<not> ho_no_mmap opts, pl_batch_size := 512, pl_ubatch_size := 256,
       lk_host_footprint_mb := total_mb + max 0 kv + planned_ram_runtime_overhead_mb measured (Some caps) m 256 total_mb opts\<rparr>"

definition build_moe_layout ::
  "(rat \<Rightarrow> rat) \<Rightarrow> moe_evidence \<Rightarrow> build_options \<Rightarrow> capabilities \<Rightarrow> model_profile \<Rightarrow> built_strategy \<Rightarrow> int \<Rightarrow> int \<Rightarrow> nat option \<Rightarrow>
     moe_error + built_strategy" where
  "build_moe_layout f32 ev opts caps m s0 total_mb kv forced =
     (let gpus = c_gpus caps;
          s1 = (if length gpus > 1 then s0\<lparr>pl_split_mode := ''layer''\<rparr> else s0);
          geo = moe_geometry_of m total_mb
      in case moe_layout_of f32 ev opts gpus m s1 geo kv forced of
           None \<Rightarrow> Inl NoFreeVram
         | Some lay \<Rightarrow>
             let s2 = (if length gpus > 1 then s1\<lparr>pl_tensor_split := mo_split lay\<rparr> else s1)
             in finish_moe_plan ev opts caps m s2 geo lay (moe_host_terms ev opts caps m s2 (mg_weights geo) total_mb kv))"

definition build_moe_offload ::
  "(rat \<Rightarrow> rat) \<Rightarrow> moe_evidence \<Rightarrow> built_strategy \<Rightarrow> capabilities \<Rightarrow> model_profile \<Rightarrow> int \<Rightarrow> int \<Rightarrow> build_options \<Rightarrow>
     moe_error + built_strategy" where
  "build_moe_offload f32 ev s caps m total_mb kv opts =
     (let gpus = c_gpus caps;
          policy = normalize_placement_policy (bo_placement_policy opts);
          order = order_gpus_for_placement gpus policy
      in
      if gpus = [] then Inr (build_cpu_only (me_host_overhead ev) s caps m total_mb kv (bo_host opts))
      else if m_num_layers m \<le> 0 then Inl NoLayerCount
      else
        let forced = (case bo_split_owner opts of None \<Rightarrow> None | Some idx \<Rightarrow> gpu_ordinal gpus idx) in
        case bo_split_owner opts of
          Some idx \<Rightarrow> if forced = None then Inl (OwnerNotSelected idx) else
            build_moe_layout f32 ev opts caps m
              (s\<lparr>bs_placement_policy := ''owner-'' @ itoa idx, la_main_gpu := idx\<rparr>) total_mb kv forced
        | None \<Rightarrow>
            build_moe_layout f32 ev opts caps m
              (s\<lparr>bs_placement_policy := policy, la_main_gpu := g_index (gpus ! hd order)\<rparr>) total_mb kv None)"

section \<open>Packing stays within the room\<close>

text \<open>
  The device of every pinned layer, in layer order: the ranges the override string names. \<open>placed_mb\<close> is
  the net memory the pins move onto a device: what is pinned there, less the shared and router tensors of
  its own layers that moved to another device.
\<close>

definition pin_devices :: "nat list \<Rightarrow> int list \<Rightarrow> nat list" where
  "pin_devices order per_gpu = concat (map (\<lambda>gi. replicate (nat (per_gpu ! gi)) gi) order)"

definition placed_mb :: "nat \<Rightarrow> (nat \<times> owned_layer) list \<Rightarrow> int" where
  "placed_mb d pins =
     (\<Sum>(gi, l)\<leftarrow>pins. (if gi = d then pin_charge gi l else 0) -
        (if snd l = int d \<and> gi \<noteq> d then ml_shared (fst l) + ml_aux (fst l) else 0))"

definition layer_costs_nonneg :: "owned_layer list \<Rightarrow> bool" where
  "layer_costs_nonneg ls \<longleftrightarrow> (\<forall>l \<in> set ls. 0 \<le> ml_routed (fst l) \<and> 0 \<le> ml_shared (fst l) \<and> 0 \<le> ml_aux (fst l))"

lemma placed_append: "placed_mb d (ps @ qs) = placed_mb d ps + placed_mb d qs"
  by (simp add: placed_mb_def)

lemma pin_room_length [simp]: "length (pin_room gi l room) = length room"
  by (simp add: pin_room_def Let_def)

lemma pin_room_nth:
  assumes "gi < length room" "d < length room"
  shows "pin_room gi l room ! d = room ! d - placed_mb d [(gi, l)]"
  using assms by (auto simp: pin_room_def placed_mb_def nth_list_update Let_def)

lemma take_layers_spec:
  assumes "take_layers gi ls room = (room', n, rest)" "gi < length room" "\<forall>d < length room. 0 \<le> room ! d" "layer_costs_nonneg ls"
  shows "0 \<le> n \<and> ls = take (nat n) ls @ rest \<and> length room' = length room \<and> int (length ls) = n + int (length rest) \<and>
    (\<forall>d < length room. 0 \<le> room' ! d \<and> room' ! d = room ! d - placed_mb d (zip (replicate (nat n) gi) ls))"
  using assms
proof (induction gi ls room arbitrary: room' n rest rule: take_layers.induct)
  case (1 gi room)
  then show ?case by (simp add: placed_mb_def)
next
  case (2 gi l ls room)
  show ?case
  proof (cases "room ! gi < pin_charge gi l")
    case True
    with 2 show ?thesis by (simp add: placed_mb_def)
  next
    case False
    obtain k where t: "take_layers gi ls (pin_room gi l room) = (room', k, rest)" and n: "n = k + 1"
      using 2(2) False by (auto split: prod.splits)
    have nn: "0 \<le> pin_room gi l room ! d" if "d < length room" for d
      using 2(3-5) False that by (auto simp: pin_room_def Let_def nth_list_update layer_costs_nonneg_def)
    have "layer_costs_nonneg ls" using 2(5) by (simp add: layer_costs_nonneg_def)
    from 2(1) [OF False t _ _ this] 2(3) nn
    have IH: "0 \<le> k" "ls = take (nat k) ls @ rest" "length room' = length room" "int (length ls) = k + int (length rest)"
      "\<forall>d < length room. 0 \<le> room' ! d \<and> room' ! d = pin_room gi l room ! d - placed_mb d (zip (replicate (nat k) gi) ls)" by auto
    have r: "nat n = Suc (nat k)" using n IH(1) by simp
    have "placed_mb d (zip (replicate (nat n) gi) (l # ls)) = placed_mb d [(gi, l)] + placed_mb d (zip (replicate (nat k) gi) ls)" for d
      by (simp add: r placed_mb_def)
    moreover have "l # ls = take (nat n) (l # ls) @ rest" using IH(2) by (simp add: r)
    moreover have "\<forall>d < length room. pin_room gi l room ! d = room ! d - placed_mb d [(gi, l)]"
      using 2(3) by (simp add: pin_room_nth)
    ultimately show ?thesis using IH n by auto
  qed
qed

lemma pack_layers_per_gpu:
  assumes "pack_layers order ls room per = (room', per', rest)" "j \<notin> set order"
  shows "per' ! j = per ! j"
  using assms by (induction order arbitrary: ls room per) (auto split: prod.splits)

lemma pack_layers_spec:
  assumes "pack_layers order ls room per = (room', per', rest)" "distinct order" "set order \<subseteq> {..<length room}"
    "length per = length room" "\<forall>gi \<in> set order. per ! gi = 0"
    "\<forall>d < length room. 0 \<le> room ! d" "layer_costs_nonneg ls"
  shows "ls = take (length (pin_devices order per')) ls @ rest \<and> length room' = length room \<and> length per' = length per \<and>
    length ls = length (pin_devices order per') + length rest \<and>
    (\<forall>gi \<in> set order. 0 \<le> per' ! gi) \<and>
    (\<forall>d < length room. 0 \<le> room' ! d \<and> room' ! d = room ! d - placed_mb d (zip (pin_devices order per') ls))"
  using assms
proof (induction order arbitrary: ls room per)
  case Nil
  then show ?case by (simp add: pin_devices_def placed_mb_def)
next
  case (Cons gi order)
  obtain r1 n rest1 where t: "take_layers gi ls room = (r1, n, rest1)" by (rule prod_cases3)
  let ?per = "per[gi := per ! gi + n]"
  from Cons.prems(1) t have p: "pack_layers order rest1 r1 ?per = (room', per', rest)" by simp
  have gi: "gi < length room" using Cons.prems(3) by simp
  from take_layers_spec [OF t gi Cons.prems(6,7)]
  have T: "0 \<le> n" "ls = take (nat n) ls @ rest1" "length r1 = length room" "int (length ls) = n + int (length rest1)"
    "\<forall>d < length room. 0 \<le> r1 ! d \<and> r1 ! d = room ! d - placed_mb d (zip (replicate (nat n) gi) ls)" by auto
  have "layer_costs_nonneg rest1"
    using Cons.prems(7) T(2) by (metis Un_iff layer_costs_nonneg_def set_append)
  moreover have "\<forall>i \<in> set order. ?per ! i = 0"
    using Cons.prems(2,5) by (metis distinct.simps(2) list.set_intros(2) nth_list_update_neq)
  moreover have "\<forall>d < length r1. 0 \<le> r1 ! d" unfolding T(3) using T(5) by blast
  ultimately have IH: "rest1 = take (length (pin_devices order per')) rest1 @ rest" "length room' = length room" "length per' = length per"
    "length rest1 = length (pin_devices order per') + length rest" "\<forall>gi \<in> set order. 0 \<le> per' ! gi"
    "\<forall>d < length room. 0 \<le> room' ! d \<and> room' ! d = r1 ! d - placed_mb d (zip (pin_devices order per') rest1)"
    using Cons.IH [OF p] Cons.prems(2-4) T(3) by auto
  have n: "per' ! gi = n" using pack_layers_per_gpu [OF p, of gi] Cons.prems(2,4,5) gi by simp
  then have pd: "pin_devices (gi # order) per' = replicate (nat n) gi @ pin_devices order per'" by (simp add: pin_devices_def)
  have len: "length (take (nat n) ls) = nat n" using T(1,4) by simp
  have z: "zip (pin_devices (gi # order) per') ls = zip (replicate (nat n) gi) ls @ zip (pin_devices order per') rest1"
  proof -
    have "zip (pin_devices (gi # order) per') (take (nat n) ls @ rest1) =
        zip (replicate (nat n) gi) (take (nat n) ls) @ zip (pin_devices order per') rest1"
      using len by (simp add: pd)
    moreover have "zip (replicate (nat n) gi) (take (nat n) ls) = zip (replicate (nat n) gi) (take (nat n) ls @ rest1)"
      using len by (simp add: zip_append2)
    ultimately show ?thesis using T(2) by metis
  qed
  have "ls = take (length (pin_devices (gi # order) per')) ls @ rest"
  proof -
    have "take (nat n + k) (take (nat n) ls @ rest1) = take (nat n) ls @ take k rest1" for k using len by simp
    then show ?thesis using IH(1) T(2) pd by (metis append_assoc length_append length_replicate)
  qed
  moreover have "length ls = nat n + length (pin_devices order per') + length rest" using T(1,4) IH(4) by linarith
  moreover have "\<forall>d < length room. 0 \<le> room' ! d \<and> room' ! d = room ! d -
      placed_mb d (zip (replicate (nat n) gi) ls @ zip (pin_devices order per') rest1)"
    using IH(6) T(5) by (auto simp: placed_append)
  then have "\<forall>d < length room. 0 \<le> room' ! d \<and> room' ! d = room ! d - placed_mb d (zip (pin_devices (gi # order) per') ls)"
    unfolding z .
  moreover have "length per' = length per" "\<forall>g \<in> set (gi # order). 0 \<le> per' ! g" using IH(3,5) T(1) n by auto
  ultimately show ?case using IH(2) by (simp only: pd length_append length_replicate)
qed

section \<open>The layout\<close>

lemma order_for_placement [simp]:
  "set (order_gpus_for_placement gpus policy) = {..<length gpus}" "distinct (order_gpus_for_placement gpus policy)"
  by (auto simp: order_gpus_for_placement_def order_gpus_by_memory_bandwidth_def Let_def)

lemma split_loop_stable:
  assumes "split_loop weigh over used0 = Some (split, used)"
  shows "weigh used = Some split \<and> length used = length used0 \<and> (\<forall>i < length used. used ! i \<longrightarrow> used0 ! i \<and> \<not> over split i)"
  using assms
proof (induction weigh over used0 rule: split_loop.induct)
  case (1 weigh over used0)
  from 1(2) obtain sp where w: "weigh used0 = Some sp" by (auto simp: split_loop.simps [of weigh over used0] split: option.splits)
  show ?case
  proof (cases "keep_used over sp used0 = used0")
    case True
    with 1(2) w have "split = sp" "used = used0" by (auto simp: split_loop.simps [of weigh over used0])
    moreover have "\<forall>i < length used0. keep_used over sp used0 ! i = (used0 ! i \<and> \<not> over sp i)" by (simp add: keep_used_def)
    ultimately show ?thesis using w True by auto
  next
    case False
    with 1(2) w have "split_loop weigh over (keep_used over sp used0) = Some (split, used)"
      by (simp add: split_loop.simps [of weigh over used0])
    with 1(1) [OF w False] show ?thesis by (auto simp: keep_used_def)
  qed
qed

lemma normalize_split_zero:
  assumes "i < length split" "split ! i = 0"
  shows "normalize_split split ! i = 0"
proof -
  have "\<lfloor>1 / 2 :: rat\<rfloor> = 0" by linarith
  then show ?thesis using assms by (simp add: normalize_split_def go_round_def Let_def)
qed

lemma raw_split_used:
  assumes "raw_split gpus fixed policy used = Some raw"
  shows "length raw = length gpus \<and> (\<forall>i < length gpus. \<not> used ! i \<longrightarrow> raw ! i = 0)"
  using assms by (auto simp: raw_split_def Let_def split: if_splits)

lemma builder_costs_nonneg:
  assumes "(costs, ex) = moe_builder_costs m w start count" "c \<in> set costs"
  shows "0 \<le> ml_routed c \<and> 0 \<le> ml_shared c \<and> 0 \<le> ml_aux c"
proof -
  have "\<forall>c \<in> set (fst (moe_layer_memory_costs (Some m) start count)). 0 \<le> ml_routed c \<and> 0 \<le> ml_shared c \<and> 0 \<le> ml_aux c"
    by (auto simp: moe_layer_memory_costs_def Let_def exact_layer_cost_def layer_bytes_mib_ceil_def mib_ceil_nonneg)
  then show ?thesis using assms
    by (auto simp: moe_builder_costs_def split: prod.splits if_splits)
qed

lemma owned_layers_nonneg: "layer_costs_nonneg (owned_layers_of (moe_geometry_of m total_mb) devices)"
proof -
  obtain start count where sp: "moe_layer_span m = (start, count)" by (cases "moe_layer_span m")
  obtain costs ex where c: "moe_builder_costs m (moe_weights_of m total_mb) start count = (costs, ex)"
    by (cases "moe_builder_costs m (moe_weights_of m total_mb) start count")
  have "mg_costs (moe_geometry_of m total_mb) = costs" by (simp add: moe_geometry_of_def sp c Let_def)
  then show ?thesis using builder_costs_nonneg [OF c [symmetric]] by (auto simp: layer_costs_nonneg_def owned_layers_of_def)
qed

lemma moe_layout_parts:
  assumes "moe_layout_of f32 ev opts gpus m s geo kv forced = Some lay"
  obtains used raw where
    "mo_split lay = normalize_split raw" "raw_split gpus (map (fst \<circ> device_fixed_mb ev opts m s) gpus)
       (normalize_placement_policy (bo_placement_policy opts)) used = Some raw"
    "\<forall>i < length gpus. used ! i \<longrightarrow> \<not> mo_expert_only lay ! i \<and>
       owner_charge_mb f32 m geo (kv_shape_for_strategy s (bo_swa_full opts)) (gpu_kv_total_mb ev s kv) gpus
         (map (fst \<circ> device_fixed_mb ev opts m s) gpus) (mo_split lay) i \<le> vram_free_mb (gpus ! i)"
    "mo_room0 lay = map (expert_room_mb opts gpus (map (fst \<circ> device_fixed_mb ev opts m s) gpus)
       (map (snd \<circ> device_fixed_mb ev opts m s) gpus) (mo_expert_only lay) (mo_split lay)
       (owner_charge_mb f32 m geo (kv_shape_for_strategy s (bo_swa_full opts)) (gpu_kv_total_mb ev s kv) gpus
         (map (fst \<circ> device_fixed_mb ev opts m s) gpus) (mo_split lay))) [0..<length gpus]"
    "mo_layers lay = owned_layers_of geo
       (fst (backend_layer_device_assignments f32 (Some m) (kv_shape_for_strategy s (bo_swa_full opts)) (mo_split lay)))"
    "pack_layers (order_gpus_for_placement gpus (normalize_placement_policy (bo_placement_policy opts))) (mo_layers lay)
       (mo_room0 lay) (replicate (length gpus) 0) = (mo_room lay, mo_per_gpu lay, mo_rest lay)"
proof -
  define policy where "policy = normalize_placement_policy (bo_placement_policy opts)"
  define fixed where "fixed = map (fst \<circ> device_fixed_mb ev opts m s) gpus"
  define eo_fixed where "eo_fixed = map (snd \<circ> device_fixed_mb ev opts m s) gpus"
  define per_layer where "per_layer = largest_layer_mb (mg_costs geo)"
  define eo0 where "eo0 = expert_only_slow_gpus gpus fixed eo_fixed per_layer (non_expert_per_layer_mb m (mg_weights geo))"
  define eo1 where "eo1 = (case forced of None \<Rightarrow> eo0 | Some i \<Rightarrow> map (\<lambda>j. j \<noteq> i) [0..<length eo0])"
  define charge where "charge = owner_charge_mb f32 m geo (kv_shape_for_strategy s (bo_swa_full opts)) (gpu_kv_total_mb ev s kv) gpus fixed"
  define used0 where "used0 = map (\<lambda>i. \<not> eo1 ! i \<and> vram_free_mb (gpus ! i) > fixed ! i) [0..<length gpus]"
  note ds = policy_def fixed_def eo_fixed_def per_layer_def eo0_def eo1_def charge_def used0_def
  let ?weigh = "\<lambda>used. map_option normalize_split (raw_split gpus fixed policy used)"
  let ?over = "\<lambda>split i. charge split i > vram_free_mb (gpus ! i)"
  from assms obtain split used where l: "split_loop ?weigh ?over used0 = Some (split, used)"
    unfolding moe_layout_of_def Let_def ds by (auto split: option.splits)
  define eo where "eo = retrofit_expert_only gpus eo_fixed per_layer used split eo1"
  define room0 where "room0 = map (\<lambda>i. if i \<in> set (order_gpus_for_placement gpus policy)
      then expert_room_mb opts gpus fixed eo_fixed eo split (charge split) i else 0) [0..<length gpus]"
  have r0: "room0 = map (expert_room_mb opts gpus fixed eo_fixed eo split (charge split)) [0..<length gpus]"
    by (simp add: room0_def)
  from assms l obtain room per rest where
    lay: "lay = \<lparr>mo_split = split, mo_expert_only = eo, mo_room0 = room0,
       mo_layers = owned_layers_of geo (fst (backend_layer_device_assignments f32 (Some m) (kv_shape_for_strategy s (bo_swa_full opts)) split)),
       mo_room = room, mo_per_gpu = per, mo_rest = rest\<rparr>"
    and p: "pack_layers (order_gpus_for_placement gpus policy)
       (owned_layers_of geo (fst (backend_layer_device_assignments f32 (Some m) (kv_shape_for_strategy s (bo_swa_full opts)) split)))
       room0 (replicate (length gpus) 0) = (room, per, rest)"
    unfolding moe_layout_of_def Let_def ds [symmetric]
    by (auto simp: eo_def [symmetric] room0_def [symmetric] simp del: order_for_placement cong del: if_weak_cong split: prod.splits)
  from split_loop_stable [OF l] obtain raw where
    raw: "raw_split gpus fixed policy used = Some raw" "split = normalize_split raw"
    and u: "length used = length gpus" "\<forall>i < length used. used ! i \<longrightarrow> used0 ! i \<and> \<not> ?over split i"
    by (auto simp: used0_def)
  have "\<forall>i < length gpus. used ! i \<longrightarrow> \<not> eo ! i \<and> charge split i \<le> vram_free_mb (gpus ! i)"
    using u by (auto simp: eo_def retrofit_expert_only_def used0_def)
  with raw lay p show thesis
    by (intro that [of raw used]) (simp_all add: ds [symmetric] r0)
qed

lemma moe_layout_packed:
  assumes "moe_layout_of f32 ev opts gpus m s (moe_geometry_of m total_mb) kv forced = Some lay"
  defines "pins \<equiv> pin_devices (order_gpus_for_placement gpus (normalize_placement_policy (bo_placement_policy opts))) (mo_per_gpu lay)"
  shows "mo_layers lay = take (length pins) (mo_layers lay) @ mo_rest lay"
    "length (mo_layers lay) = length pins + length (mo_rest lay)"
    "d < length gpus \<Longrightarrow> 0 \<le> mo_room lay ! d \<and> mo_room lay ! d = mo_room0 lay ! d - placed_mb d (zip pins (mo_layers lay))"
proof -
  let ?order = "order_gpus_for_placement gpus (normalize_placement_policy (bo_placement_policy opts))"
  obtain charge where P: "mo_room0 lay = map (expert_room_mb opts gpus (map (fst \<circ> device_fixed_mb ev opts m s) gpus)
       (map (snd \<circ> device_fixed_mb ev opts m s) gpus) (mo_expert_only lay) (mo_split lay) charge) [0..<length gpus]"
    "layer_costs_nonneg (mo_layers lay)"
    "pack_layers ?order (mo_layers lay) (mo_room0 lay) (replicate (length gpus) 0) = (mo_room lay, mo_per_gpu lay, mo_rest lay)"
    using moe_layout_parts [OF assms(1)] owned_layers_nonneg by metis
  have len: "length (mo_room0 lay) = length gpus" using P(1) by simp
  have nn: "\<forall>i < length (mo_room0 lay). 0 \<le> mo_room0 lay ! i" unfolding P(1) by (simp add: expert_room_mb_def Let_def)
  note S = pack_layers_spec [OF P(3) _ _ _ _ nn P(2)]
  show "mo_layers lay = take (length pins) (mo_layers lay) @ mo_rest lay" "length (mo_layers lay) = length pins + length (mo_rest lay)"
    "d < length gpus \<Longrightarrow> 0 \<le> mo_room lay ! d \<and> mo_room lay ! d = mo_room0 lay ! d - placed_mb d (zip pins (mo_layers lay))"
    using S len by (auto simp: pins_def)
qed


text \<open>
  C19: The ledger subtracts the experts twice. The entry documents \<^verbatim>\<open>RoomMB\<close> as the budget experts were packed
  into and \<^verbatim>\<open>StrandedMB\<close> as what that budget could not spend. Packing has already taken the pins out of the room,
  so the entry of a device holds its budget less the pins as the room, and takes the layers off again for the
  stranded memory.
\<close>

theorem ledger_subtracts_experts_twice:
  fixes fixed eo_fixed :: "int list"
  assumes "moe_layout_of f32 ev opts gpus m s (moe_geometry_of m total_mb) kv forced = Some lay" "d < length gpus"
    "0 < mo_per_gpu lay ! d"
  defines "order \<equiv> order_gpus_for_placement gpus (normalize_placement_policy (bo_placement_policy opts))"
    and "entry \<equiv> ledger_of gpus fixed eo_fixed (mo_expert_only lay) (mo_room lay) (mo_per_gpu lay)
           (mg_costs (moe_geometry_of m total_mb)) d"
  defines "placed \<equiv> placed_mb d (zip (pin_devices order (mo_per_gpu lay)) (mo_layers lay))"
  shows "le_room_mb entry = mo_room0 lay ! d - placed \<and>
    le_stranded_mb entry =
      max 0 (mo_room0 lay ! d - placed - mo_per_gpu lay ! d * largest_layer_mb (mg_costs (moe_geometry_of m total_mb)))"
proof -
  have "mo_room lay ! d = mo_room0 lay ! d - placed"
    using moe_layout_packed(3) [OF assms(1,2)] by (simp add: placed_def order_def)
  moreover have "0 < largest_layer_mb cs" for cs by (simp add: largest_layer_mb_def Let_def)
  ultimately show ?thesis using assms(3) by (simp add: entry_def ledger_of_def Let_def max_def)
qed

section \<open>Host memory of an accepted plan\<close>

lemma strict_cpu_layers_all:
  assumes "int (length cs) \<le> strict_cpu_layers b u cs" "u \<le> b"
  shows "u + (\<Sum>c\<leftarrow>cs. ml_routed c) \<le> b"
  using assms
proof (induction cs arbitrary: u)
  case (Cons c cs)
  show ?case
  proof (cases "u + ml_routed c > b")
    case True
    with Cons.prems show ?thesis by simp
  next
    case False
    with Cons.IH [of "u + ml_routed c"] Cons.prems show ?thesis by (simp add: algebra_simps)
  qed
qed simp

lemma geometry_count:
  assumes "0 < m_num_layers m"
  shows "int (length (mg_costs (moe_geometry_of m total_mb))) = mg_count (moe_geometry_of m total_mb)"
proof -
  obtain start count where sp: "moe_layer_span m = (start, count)" by (cases "moe_layer_span m")
  then have pos: "0 < count" using assms by (auto simp: moe_layer_span_def Let_def split: if_splits)
  obtain costs ex where c: "moe_builder_costs m (moe_weights_of m total_mb) start count = (costs, ex)"
    by (cases "moe_builder_costs m (moe_weights_of m total_mb) start count")
  have "length costs = nat count"
    using c pos by (auto simp: moe_builder_costs_def moe_layer_memory_costs_def Let_def split: prod.splits if_splits)
  with pos show ?thesis by (simp add: moe_geometry_of_def sp c Let_def)
qed

lemma cpu_experts_are_rest:
  assumes "moe_layout_of f32 ev opts gpus m s (moe_geometry_of m total_mb) kv forced = Some lay" "0 < m_num_layers m"
  shows "sum_routed_layer_mb (mg_costs (moe_geometry_of m total_mb)) (mg_count (moe_geometry_of m total_mb) - int (length (mo_rest lay))) =
    (\<Sum>c\<leftarrow>map fst (mo_rest lay). ml_routed c)"
proof -
  let ?geo = "moe_geometry_of m total_mb"
  obtain devices where l: "mo_layers lay = owned_layers_of ?geo devices"
    by (rule moe_layout_parts [OF assms(1)]) auto
  define k where "k = length (mo_layers lay) - length (mo_rest lay)"
  have k: "mo_rest lay = drop k (mo_layers lay)"
    using moe_layout_packed(1,2) [OF assms(1)] k_def
    by (metis add_diff_cancel_right' append_take_drop_id same_append_eq)
  have ml: "map fst (mo_layers lay) = mg_costs ?geo" unfolding l by (simp add: owned_layers_of_def comp_def map_nth)
  then have "length (mo_layers lay) = length (mg_costs ?geo)" by (metis length_map)
  moreover have "length (mo_rest lay) \<le> length (mo_layers lay)" using k by simp
  ultimately have "nat (mg_count ?geo - int (length (mo_rest lay))) = k"
    using geometry_count [OF assms(2), of total_mb] k_def by linarith
  moreover have "map fst (mo_rest lay) = drop k (mg_costs ?geo)" unfolding k ml [symmetric] by (simp add: drop_map)
  ultimately show ?thesis by (simp add: sum_routed_layer_mb_def foldl_add_sum)
qed

lemma with_moe_plan_fields [simp]:
  "s_mmap_required (with_moe_plan s experts mmap required footprint ledger ot n) = required"
  "lk_host_footprint_mb (with_moe_plan s experts mmap required footprint ledger ot n) = footprint"
  "pl_ot_string (with_moe_plan s experts mmap required footprint ledger ot n) = ot"
  "pl_n_cpu_moe (with_moe_plan s experts mmap required footprint ledger ot n) = (if n > 0 then n else pl_n_cpu_moe s)"
  by (simp_all add: with_moe_plan_def)

lemma mmap_decision_cases:
  assumes "moe_mmap_decision opts m h experts mmap0 required0 = Inr (mmap, required)"
  shows "(ho_no_mmap (bo_host opts) \<and> required = required0) \<or>
    (\<not> ho_no_mmap (bo_host opts) \<and> mmap \<and> mmap_can_page_cpu_experts (bo_host opts) \<and> working_floor h \<le> ht_free h) \<or>
    (\<not> ho_no_mmap (bo_host opts) \<and> ht_free h < working_floor h \<and> required = required0) \<or>
    (\<not> ho_no_mmap (bo_host opts) \<and> experts + working_floor h \<le> ht_free h \<and> required = required0)"
  using assms by (auto simp: moe_mmap_decision_def Let_def split: if_splits option.splits)

lemma host_footprint_bounds:
  assumes "0 \<le> experts"
  shows "host_footprint_for_cache (experts + w) w mmap opts \<le> max 0 (experts + w)"
    "max 0 w \<le> host_footprint_for_cache (experts + w) w mmap opts"
    "mmap \<Longrightarrow> mmap_can_page_cpu_experts opts \<Longrightarrow> host_footprint_for_cache (experts + w) w mmap opts = max 0 w"
  using assms by (auto simp: host_footprint_for_cache_def Let_def max_def)

text \<open>A ceiling that admits every CPU layer does so within the strict budget or because the experts can be paged.\<close>

lemma ceiling_admits:
  assumes "cpu_layer_ceiling o' h cpu = (cap, label)" "int (length cpu) \<le> cap"
  shows "max 0 (\<Sum>c\<leftarrow>cpu. ml_routed c) \<le> strict_budget h \<or>
    (mmap_can_page_cpu_experts o' \<and> working_floor h \<le> ht_free h \<and> \<not> ho_no_mmap o')"
proof -
  have "max 0 (\<Sum>c\<leftarrow>cpu. ml_routed c) \<le> strict_budget h" if "cap = strict_cpu_layers (strict_budget h) 0 cpu"
  proof -
    have "0 \<le> strict_budget h" by (simp add: strict_budget_def Let_def)
    then show ?thesis using strict_cpu_layers_all [of cpu "strict_budget h" 0] assms(2) that by simp
  qed
  then show ?thesis using assms by (auto simp: cpu_layer_ceiling_def Let_def split: if_splits)
qed

lemma finish_moe_plan_parts:
  assumes "finish_moe_plan ev opts caps m s geo lay h = Inr s'"
  obtains cap label mmap required ledger ot n where
    "cpu_layer_ceiling (bo_host opts) h (map fst (mo_rest lay)) = (cap, label)" "int (length (mo_rest lay)) \<le> cap"
    "moe_mmap_decision opts m h (cpu_expert_resident_mb geo lay 0) (pl_mmap s) (s_mmap_required s) = Inr (mmap, required)"
    "s' = with_moe_plan s (cpu_expert_resident_mb geo lay 0) mmap required
       (host_footprint_for_cache (cpu_expert_resident_mb geo lay 0 + working_floor h) (working_floor h) mmap (bo_host opts)) ledger ot n"
proof -
  obtain cap label where cap: "cpu_layer_ceiling (bo_host opts) h (map fst (mo_rest lay)) = (cap, label)"
    by (cases "cpu_layer_ceiling (bo_host opts) h (map fst (mo_rest lay))")
  have pins: "moe_sub_pins ev gp order geo lay = ([], 0)" for gp order
    by (simp add: moe_sub_pins_def enable_automatic_sub_pins_def)
  note eq = assms [unfolded finish_moe_plan_def Let_def cap pins prod.case]
  have c: "\<not> cap < int (length (mo_rest lay))" using eq by (rule contrapos_pn) simp
  note eq' = eq [unfolded if_not_P [OF c]]
  show thesis
  proof (cases "moe_mmap_decision opts m h (cpu_expert_resident_mb geo lay 0) (pl_mmap s) (s_mmap_required s)")
    case (Inr r)
    obtain mmap required where r: "r = (mmap, required)" by (cases r)
    show thesis using that [OF cap _ Inr [unfolded r]] eq' [unfolded Inr r sum.case prod.case] c
      by (metis linorder_not_less sum.inject(2))
  qed (use eq' in simp)
qed

text \<open>
  C18: What an accepted expert plan charges the host, against the free memory the terms hold. When the memory
  that cannot be paged (runtime, CPU KV, embeddings, checkpoints) fits and mapping is allowed, the planned host
  footprint fits. When runtime, CPU KV and embeddings fit, the overshoot is at most the checkpoint reserve,
  which the strict ceiling leaves out. When those three alone exceed the free memory, a plan is accepted only
  with no expert byte on the host, and its footprint is the whole floor: nothing refuses it, so its overshoot has
  no bound. Mapping becomes required only for a loader whose CPU experts can be paged and only when the part that
  cannot be paged fits.
\<close>

theorem moe_plan_host_bound:
  assumes "moe_layout_of f32 ev opts gpus m s0 (moe_geometry_of m total_mb) kv forced = Some lay" "0 < m_num_layers m"
    "finish_moe_plan ev opts caps m s (moe_geometry_of m total_mb) lay h = Inr s'" "0 \<le> ht_free h"
  shows "(working_floor h \<le> ht_free h \<and> \<not> ho_no_mmap (bo_host opts) \<longrightarrow> lk_host_footprint_mb s' \<le> ht_free h) \<and>
    (ht_runtime h + ht_cpu_kv h + ht_embd h \<le> ht_free h \<longrightarrow>
       lk_host_footprint_mb s' \<le> ht_free h + max 0 (ht_checkpoint h)) \<and>
    (ht_free h < ht_runtime h + ht_cpu_kv h + ht_embd h \<and> 0 \<le> ht_checkpoint h \<longrightarrow>
       cpu_expert_resident_mb (moe_geometry_of m total_mb) lay 0 = 0 \<and> lk_host_footprint_mb s' = working_floor h) \<and>
    (s_mmap_required s' \<and> \<not> s_mmap_required s \<longrightarrow>
       mmap_can_page_cpu_experts (bo_host opts) \<and> working_floor h \<le> ht_free h)"
proof -
  define experts where "experts = cpu_expert_resident_mb (moe_geometry_of m total_mb) lay 0"
  let ?cpu = "map fst (mo_rest lay)" let ?o = "bo_host opts"
  have e: "experts = max 0 (\<Sum>c\<leftarrow>?cpu. ml_routed c)"
    by (simp add: experts_def cpu_expert_resident_mb_def cpu_experts_are_rest [OF assms(1,2)] Let_def max_def)
  obtain cap label mmap required ledger ot n where cap: "cpu_layer_ceiling ?o h ?cpu = (cap, label)"
    and c: "int (length ?cpu) \<le> cap"
    and d: "moe_mmap_decision opts m h experts (pl_mmap s) (s_mmap_required s) = Inr (mmap, required)"
    and sd: "s' = with_moe_plan s experts mmap required
       (host_footprint_for_cache (experts + working_floor h) (working_floor h) mmap ?o) ledger ot n"
    using finish_moe_plan_parts [OF assms(3)] unfolding experts_def length_map by metis
  have s': "s_mmap_required s' = required"
    "lk_host_footprint_mb s' = host_footprint_for_cache (experts + working_floor h) (working_floor h) mmap ?o"
    unfolding sd by simp_all
  have nn: "0 \<le> experts" by (simp add: e)
  note cases = ceiling_admits [OF cap c, folded e]
  note dc = mmap_decision_cases [OF d]
  define F where "F = host_footprint_for_cache (experts + working_floor h) (working_floor h) mmap ?o"
  have F: "F \<le> max 0 (experts + working_floor h)" "max 0 (working_floor h) \<le> F"
    "mmap \<and> mmap_can_page_cpu_experts ?o \<longrightarrow> F = max 0 (working_floor h)"
    using host_footprint_bounds [OF nn, where w = "working_floor h" and mmap = mmap and opts = ?o] by (auto simp: F_def)
  have fits: "F \<le> ht_free h" if w: "working_floor h \<le> ht_free h" "\<not> ho_no_mmap ?o"
  proof (cases "mmap \<and> mmap_can_page_cpu_experts ?o")
    case True
    with F(3) w assms(4) show ?thesis by simp
  next
    case False
    with dc w have "experts + working_floor h \<le> ht_free h" by linarith
    with F(1) assms(4) show ?thesis by simp
  qed
  moreover have "F \<le> ht_free h + max 0 (ht_checkpoint h)" if b: "ht_runtime h + ht_cpu_kv h + ht_embd h \<le> ht_free h"
  proof (cases "experts \<le> strict_budget h")
    case True
    then have "experts + working_floor h \<le> ht_free h + max 0 (ht_checkpoint h)"
      using b by (auto simp: strict_budget_def working_floor_def Let_def split: if_splits)
    with F(1) assms(4) show ?thesis by linarith
  next
    case False
    with cases fits show ?thesis by linarith
  qed
  moreover have "experts = 0 \<and> F = working_floor h"
    if b: "ht_free h < ht_runtime h + ht_cpu_kv h + ht_embd h" "0 \<le> ht_checkpoint h"
  proof -
    have "ht_free h < working_floor h" using b by (simp add: working_floor_def)
    moreover have "strict_budget h = 0" using b by (simp add: strict_budget_def)
    ultimately show ?thesis using cases nn F(1,2) assms(4) by auto
  qed
  moreover have "required \<and> \<not> s_mmap_required s \<longrightarrow> mmap_can_page_cpu_experts ?o \<and> working_floor h \<le> ht_free h"
    using dc by blast
  ultimately show ?thesis unfolding s' F_def experts_def by blast
qed

section \<open>Witnesses\<close>

definition demo_moe_model :: model_profile where
  "demo_moe_model = empty_profile\<lparr>m_num_layers := 3, m_is_moe := True, m_expert_bytes := 300 * 1048576,
     m_shexp_bytes := 30 * 1048576, m_non_expert_bytes := 90 * 1048576\<rparr>"

definition demo_evidence :: moe_evidence where
  "demo_evidence = \<lparr>me_cuda_overhead = [(0, 20), (1, 20)], me_probe = None, me_related_growth = (\<lambda>_. 0), me_newer_growth = (\<lambda>_. 0),
     me_allocation = None, me_host_overhead = Some 10\<rparr>"

definition demo_build_options :: build_options where
  "demo_build_options = \<lparr>bo_host = demo_host_options,
     bo_lookup = \<lparr>lo_capability = [], lo_evidence = [], lo_flag = [], lo_lazy = [], lo_policy = NoPolicy, lo_force_mmap = False,
       lo_backend_identity = [], lo_backend_tag = []\<rparr>,
     bo_placement_policy = [], bo_split_owner = None, bo_swa_full = False, bo_auto_candidate = False, bo_ubatch_explicit = False\<rparr>"

definition demo_built :: built_strategy where
  "demo_built = host_strategy.extend demo_host_strategy (built_strategy.fields [] [] 999)"

definition demo_gpus :: "gpu list" where
  "demo_gpus = [demo_device 240, (demo_device 240)\<lparr>g_index := 1\<rparr>]"

definition demo_layer :: "int \<Rightarrow> owned_layer" where
  "demo_layer d = (\<lparr>ml_routed = 90, ml_shared = 10, ml_aux = 0\<rparr>, d)"

definition demo_layout :: moe_layout where
  "demo_layout = \<lparr>mo_split = [1 / 2, 1 / 2], mo_expert_only = [False, False], mo_room0 = [140, 180],
     mo_layers = [demo_layer 0, demo_layer 0, demo_layer 1], mo_room = [60, 80], mo_per_gpu = [1, 1], mo_rest = [demo_layer 1]\<rparr>"

definition demo_terms :: host_terms where
  "demo_terms = \<lparr>ht_runtime = 10, ht_cpu_kv = 0, ht_embd = 0, ht_checkpoint = 0, ht_free = 200\<rparr>"

text \<open>The layout is evaluated in the steps of the builder: charges, the split loop, the rooms and the packing.\<close>

definition demo_geometry :: moe_geometry where
  "demo_geometry = moe_geometry_of demo_moe_model 390"

definition demo_shape :: kv_cache_shape where
  "demo_shape = kv_shape_for_strategy demo_built False"

definition demo_charge :: "rat list \<Rightarrow> nat \<Rightarrow> int" where
  "demo_charge = owner_charge_mb id demo_moe_model demo_geometry demo_shape (gpu_kv_total_mb demo_evidence demo_built 0)
     demo_gpus [20, 20]"

lemma demo_assignments:
  "backend_layer_device_assignments id (Some demo_moe_model) demo_shape [1 / 2, 1 / 2] = ([0, 0, 1], 1)"
  "backend_layer_ownership id (Some demo_moe_model) demo_shape [1 / 2, 1 / 2] = ([2, 1], 1)"
  by code_simp+

lemma demo_no_kv:
  "kv_layer_share_mb (Some demo_moe_model) demo_shape (gpu_kv_total_mb demo_evidence demo_built 0) [1 / 2, 1 / 2] [0, 0, 1] [2, 1] d = 0"
  by code_simp

lemma demo_charges: "demo_charge [1 / 2, 1 / 2] 0 = 100" "demo_charge [1 / 2, 1 / 2] (Suc 0) = 60"
  unfolding demo_charge_def owner_charge_mb_def demo_assignments prod.case Let_def demo_no_kv by code_simp+

lemma demo_free: "length demo_gpus = 2" "vram_free_mb (demo_gpus ! 0) = 240" "vram_free_mb (demo_gpus ! Suc 0) = 240"
  by code_simp+

lemma demo_raw:
  "map_option normalize_split (raw_split demo_gpus [20, 20] ''link'' [True, True]) = Some [1 / 2, 1 / 2]"
  by code_simp

lemma demo_split_loop:
  "split_loop (\<lambda>used. map_option normalize_split (raw_split demo_gpus [20, 20] ''link'' used))
     (\<lambda>split i. vram_free_mb (demo_gpus ! i) < demo_charge split i) [True, True] = Some ([1 / 2, 1 / 2], [True, True])"
  by (subst split_loop.simps) (simp add: demo_raw keep_used_def upt_rec demo_charges demo_free nth_Cons')

lemma demo_fixed:
  "map (fst \<circ> device_fixed_mb demo_evidence demo_build_options demo_moe_model demo_built) demo_gpus = [20, 20]"
  "map (snd \<circ> device_fixed_mb demo_evidence demo_build_options demo_moe_model demo_built) demo_gpus = [20, 20]"
  by code_simp+

lemma demo_order:
  "normalize_placement_policy (bo_placement_policy demo_build_options) = ''link''"
  "order_gpus_for_placement demo_gpus ''link'' = [0, 1]"
  by code_simp+

lemma demo_expert_only:
  "largest_layer_mb (mg_costs demo_geometry) = 100"
  "expert_only_slow_gpus demo_gpus [20, 20] [20, 20] 100 (non_expert_per_layer_mb demo_moe_model (mg_weights demo_geometry)) =
     [False, False]"
  by code_simp+

lemma demo_rooms:
  "retrofit_expert_only demo_gpus [20, 20] 100 [True, True] [1 / 2, 1 / 2] [False, False] = [False, False]"
  "expert_room_mb demo_build_options demo_gpus [20, 20] [20, 20] [False, False] [1 / 2, 1 / 2] (demo_charge [1 / 2, 1 / 2]) 0 = 140"
  "expert_room_mb demo_build_options demo_gpus [20, 20] [20, 20] [False, False] [1 / 2, 1 / 2] (demo_charge [1 / 2, 1 / 2]) (Suc 0) = 180"
  by (simp_all add: retrofit_expert_only_def expert_room_mb_def upt_rec demo_free demo_charges nth_Cons' Let_def)

lemma demo_packing:
  "owned_layers_of demo_geometry [0, 0, 1] = [demo_layer 0, demo_layer 0, demo_layer 1]"
  "pack_layers [0, 1] [demo_layer 0, demo_layer 0, demo_layer 1] [140, 180] [0, 0] = ([60, 80], [1, 1], [demo_layer 1])"
  by code_simp+

lemma demo_layout_eq:
  "moe_layout_of id demo_evidence demo_build_options demo_gpus demo_moe_model demo_built (moe_geometry_of demo_moe_model 390) 0 None =
     Some demo_layout"
proof -
  have swa: "bo_swa_full demo_build_options = False" by (simp add: demo_build_options_def)
  have used: "map (\<lambda>i. \<not> [False, False] ! i \<and> [20, 20] ! i < vram_free_mb (demo_gpus ! i)) [0..<length demo_gpus] = [True, True]"
    by (simp add: demo_free upt_rec nth_Cons')
  have room: "map (\<lambda>i. if i \<in> set [0, 1] then expert_room_mb demo_build_options demo_gpus [20, 20] [20, 20] [False, False] [1 / 2, 1 / 2]
      (demo_charge [1 / 2, 1 / 2]) i else 0) [0..<length demo_gpus] = [140, 180]"
    using demo_rooms by (simp add: demo_free upt_rec)
  have zero: "replicate (length demo_gpus) 0 = [0, 0 :: int]" by (simp add: demo_free eval_nat_numeral)
  show ?thesis
    unfolding moe_layout_of_def swa demo_geometry_def [symmetric] demo_shape_def [symmetric] demo_fixed demo_order demo_expert_only
      demo_charge_def [symmetric] Let_def option.case used demo_split_loop prod.case demo_rooms(1) room demo_assignments fst_conv
      demo_packing zero
    by (simp add: demo_layout_def)
qed


theorem ledger_subtracts_experts_twice_witness:
  "le_room_mb (ledger_of demo_gpus [20, 20] [20, 20] [False, False] [60, 80] [1, 1] (mg_costs (moe_geometry_of demo_moe_model 390)) 0) = 140 - 80 \<and>
   le_stranded_mb (ledger_of demo_gpus [20, 20] [20, 20] [False, False] [60, 80] [1, 1] (mg_costs (moe_geometry_of demo_moe_model 390)) 0) = 0"
proof -
  have "order_gpus_for_placement demo_gpus (normalize_placement_policy (bo_placement_policy demo_build_options)) = [0, 1]" by code_simp
  moreover have "placed_mb 0 (zip (pin_devices [0, 1] (mo_per_gpu demo_layout)) (mo_layers demo_layout)) = 80" by code_simp
  moreover have "largest_layer_mb (mg_costs (moe_geometry_of demo_moe_model 390)) = 100" by code_simp
  moreover have "0 < length demo_gpus" "0 < mo_per_gpu demo_layout ! 0" by (simp_all add: demo_gpus_def demo_layout_def)
  note ledger_subtracts_experts_twice [OF demo_layout_eq this, of "[20, 20]" "[20, 20]"]
  ultimately show ?thesis by (simp add: demo_layout_def)
qed

theorem moe_plan_host_bound_witness:
  "\<exists>s'. finish_moe_plan demo_evidence demo_build_options ((demo_host [] 200)\<lparr>c_gpus := demo_gpus\<rparr>) demo_moe_model demo_built
     (moe_geometry_of demo_moe_model 390) demo_layout demo_terms = Inr s' \<and> lk_host_footprint_mb s' \<le> 200"
proof -
  let ?r = "finish_moe_plan demo_evidence demo_build_options ((demo_host [] 200)\<lparr>c_gpus := demo_gpus\<rparr>) demo_moe_model demo_built
     (moe_geometry_of demo_moe_model 390) demo_layout demo_terms"
  have "\<not> isl ?r" by code_simp
  then obtain s' where r: "?r = Inr s'" by (cases ?r) auto
  have "0 < m_num_layers demo_moe_model" "0 \<le> ht_free demo_terms" by code_simp+
  from moe_plan_host_bound [OF demo_layout_eq this(1) r this(2)] r show ?thesis by (simp add: demo_terms_def)
qed

end
