(* ===== verification/HostExec.thy ===== *)
theory HostExec
  imports HostMemory
begin

text \<open>
  Where expert weights kept in host memory run (\<^verbatim>\<open>go/pkg/placement/hostexec.go\<close>): the policy of the
  backend, the price of streaming experts to a device during prefill and the larger micro-batches worth
  measuring. A \<^verbatim>\<open>float64\<close> is its exact rational value; \<open>lg\<close> stands for \<^verbatim>\<open>math.Log2\<close>.
\<close>

section \<open>The policy\<close>

datatype host_exec_mode = ExecUnknown | ExecCpu | ExecStaged

datatype host_exec_evidence =
    NoOpOffload | NoGpuBackend | NotReviewed string | NotAdvertised | OpOffload bool int | MinBatchEnv string

record host_exec =
  he_mode :: host_exec_mode
  he_min_batch :: int
  he_staging_gpu :: int
  he_confidence :: string
  he_evidence :: "host_exec_evidence option"

record exec_options =
  eo_host_weight_offload :: string
  eo_backend_tag :: string
  eo_backend_help :: string
  eo_min_batch_env :: "string option"

definition mainline_cuda_min_batch :: int where "mainline_cuda_min_batch = 32"

definition staged_at :: "host_exec \<Rightarrow> int \<Rightarrow> bool" where
  "staged_at h batch \<longleftrightarrow> he_mode h = ExecStaged \<and> batch \<ge> he_min_batch h"

fun c_atoi_digits :: "int \<Rightarrow> string \<Rightarrow> int" where
  "c_atoi_digits n [] = n"
| "c_atoi_digits n (c # cs) =
     (if \<not> is_digit c \<or> n > 2 ^ 30 then n else c_atoi_digits (n * 10 + int (digit_val c)) cs)"

definition c_space :: "char \<Rightarrow> bool" where
  "c_space c \<longleftrightarrow> c \<in> {CHR '' '', CHR 0x09, CHR 0x0A, CHR 0x0D, CHR 0x0B, CHR 0x0C}"

definition c_atoi :: "string \<Rightarrow> int" where
  "c_atoi s =
     (case dropWhile c_space s of
        [] \<Rightarrow> 0
      | c # cs \<Rightarrow>
          if c = CHR ''-'' then - c_atoi_digits 0 cs
          else if c = CHR ''+'' then c_atoi_digits 0 cs
          else c_atoi_digits 0 (c # cs))"

definition resolve_host_expert_execution :: "capabilities option \<Rightarrow> exec_options \<Rightarrow> host_exec" where
  "resolve_host_expert_execution co opts =
     (let out = \<lparr>he_mode = ExecUnknown, he_min_batch = 0, he_staging_gpu = - 1, he_confidence = ''unknown'', he_evidence = None\<rparr>;
          offload = to_lower (trim_space (eo_host_weight_offload opts));
          dialect = to_lower (eo_backend_tag opts)
      in
      if offload = ''off'' then out\<lparr>he_mode := ExecCpu, he_confidence := ''effective-setting'', he_evidence := Some NoOpOffload\<rparr>
      else
        case co of
          None \<Rightarrow> out\<lparr>he_mode := ExecCpu, he_confidence := ''effective-setting'', he_evidence := Some NoGpuBackend\<rparr>
        | Some caps \<Rightarrow>
            if c_gpus caps = [] then out\<lparr>he_mode := ExecCpu, he_confidence := ''effective-setting'', he_evidence := Some NoGpuBackend\<rparr>
            else if dialect \<noteq> [] \<and> dialect \<noteq> ''llama'' then out\<lparr>he_evidence := Some (NotReviewed dialect)\<rparr>
            else if \<not> contains_sub (eo_backend_help opts) ''--no-op-offload'' \<and> \<not> contains_sub (eo_backend_help opts) ''--op-offload''
            then out\<lparr>he_evidence := Some NotAdvertised\<rparr>
            else
              let staged = out\<lparr>he_mode := ExecStaged, he_staging_gpu := g_index (hd (c_gpus caps)),
                               he_min_batch := mainline_cuda_min_batch, he_confidence := ''family-default'',
                               he_evidence := Some (OpOffload (offload = ''on'') mainline_cuda_min_batch)\<rparr>
              in case eo_min_batch_env opts of
                   None \<Rightarrow> staged
                 | Some env \<Rightarrow> staged\<lparr>he_min_batch := c_atoi env, he_evidence := Some (MinBatchEnv env)\<rparr>)"

section \<open>The price\<close>

definition moe_expert_touch_fraction :: "model_profile option \<Rightarrow> int \<Rightarrow> rat" where
  "moe_expert_touch_fraction mo count =
     (case mo of
        None \<Rightarrow> 1
      | Some m \<Rightarrow>
          if m_num_experts m \<le> 0 \<or> m_expert_used_count m \<le> 0 then 1
          else
            let per_token = of_int (min (m_expert_used_count m) (m_num_experts m)) / of_int (m_num_experts m)
            in 1 - (1 - per_token) ^ nat (max 1 count))"

definition ubatch_prefill_gain :: "(rat \<Rightarrow> rat) \<Rightarrow> int \<Rightarrow> rat" where
  "ubatch_prefill_gain lg ubatch = max 1 (min (7 / 2) (1 + 28 / 100 * lg (of_int (max 32 ubatch) / 32)))"

definition staging_link :: "capabilities \<Rightarrow> host_exec \<Rightarrow> int" where
  "staging_link caps h =
     foldl (\<lambda>link g. if g_index g = he_staging_gpu h then bandwidth_mbps g else link) 0 (c_gpus caps)"

definition staged_expert_transfer :: "capabilities option \<Rightarrow> host_exec \<Rightarrow> rat \<Rightarrow> rat \<Rightarrow> int \<Rightarrow> (rat \<times> int) option" where
  "staged_expert_transfer co h stored_mb touch ubatch =
     (case co of
        None \<Rightarrow> None
      | Some caps \<Rightarrow>
          if ubatch \<le> 0 \<or> stored_mb \<le> 0 then None
          else
            let link = staging_link caps h; host = host_memory_bandwidth_mbps caps;
                rate = (if host > 0 \<and> host < link then host else link)
            in if link \<le> 0 then None
               else Some (stored_mb * touch / (of_int ubatch * of_int rate), rate))"

definition host_expert_agent_cost ::
  "(rat \<Rightarrow> rat) \<Rightarrow> capabilities option \<Rightarrow> model_profile option \<Rightarrow> host_exec \<Rightarrow> int \<Rightarrow> int \<Rightarrow> rat option" where
  "host_expert_agent_cost lg co mo h ubatch cpu_layers =
     (case (co, mo) of
        (Some caps, Some m) \<Rightarrow>
          if host_memory_bandwidth_mbps caps \<le> 0 \<or> ubatch \<le> 0 then None
          else
            let layers = snd (moe_layer_range mo);
                routed = of_int (bytes_to_mib_ceil (m_expert_bytes m - m_shexp_bytes m)) :: rat
            in if layers \<le> 0 \<or> routed \<le> 0 then None
               else
                 let cpu_mb = routed * of_int (min (max 0 cpu_layers) layers) / of_int layers;
                     bw = of_int (host_memory_bandwidth_mbps caps);
                     decode = cpu_mb * moe_expert_touch_fraction mo 1 / bw;
                     touch = moe_expert_touch_fraction mo ubatch
                 in if staged_at h ubatch then
                      (case staged_expert_transfer co h cpu_mb touch ubatch of
                         None \<Rightarrow> None
                       | Some (per_token, _) \<Rightarrow> Some (58 / 100 * per_token + 42 / 100 * decode))
                    else Some (58 / 100 * (cpu_mb * touch / bw / ubatch_prefill_gain lg ubatch) + 42 / 100 * decode)
      | _ \<Rightarrow> None)"

definition exported_host_expert_agent_cost ::
  "(rat \<Rightarrow> rat) \<Rightarrow> capabilities option \<Rightarrow> model_profile option \<Rightarrow> exec_options \<Rightarrow> int \<Rightarrow> int \<Rightarrow> rat option" where
  "exported_host_expert_agent_cost lg co mo opts ubatch cpu_layers =
     (let h = resolve_host_expert_execution co opts in
      if \<not> staged_at h ubatch then None else host_expert_agent_cost lg co mo h ubatch cpu_layers)"

section \<open>Larger micro-batches worth measuring\<close>

definition keeps_weights_on_host :: "host_strategy \<Rightarrow> bool" where
  "keeps_weights_on_host s \<longleftrightarrow> (s_type s = MoEOffload \<and> pl_n_cpu_moe s > 0) \<or> s_type s = DenseCPUOffload"

text \<open>The loop over the powers of two; every round prepends, so the largest comes first.\<close>

function raise_rungs :: "int \<Rightarrow> int \<Rightarrow> int \<Rightarrow> int list" where
  "raise_rungs ub limit current =
     (if ub \<le> 0 \<or> ub > limit then []
      else raise_rungs (ub * 2) limit current @ (if ub > current then [ub] else []))"
  by pat_completeness auto
termination by (relation "measure (\<lambda>(ub, limit, _). nat (limit + 1 - ub))") auto

declare raise_rungs.simps [simp del]

text \<open>\<open>explicit\<close> and \<open>tuned\<close>: the user fixed the micro-batch, or the plan is already tuned.\<close>

definition staged_prefill_raise_candidates ::
  "capabilities option \<Rightarrow> exec_options \<Rightarrow> bool \<Rightarrow> bool \<Rightarrow> host_strategy option \<Rightarrow> int list" where
  "staged_prefill_raise_candidates co opts explicit tuned so =
     (case so of
        None \<Rightarrow> []
      | Some s \<Rightarrow>
          if \<not> keeps_weights_on_host s \<or> explicit \<or> s_parallel s > 1 \<or> tuned \<or>
             (case la_draft s of Some d \<Rightarrow> dr_type d \<noteq> DraftNone | None \<Rightarrow> False) then []
          else if \<not> staged_at (resolve_host_expert_execution co opts) (max 1 (pl_ubatch_size s)) then []
          else raise_rungs 1 (pl_batch_size s) (pl_ubatch_size s))"

definition with_ubatch :: "host_strategy \<Rightarrow> model_profile option \<Rightarrow> int \<Rightarrow> host_strategy" where
  "with_ubatch s mo ub =
     s\<lparr>pl_ubatch_size := ub, pl_batch_size := (if pl_batch_size s < ub then ub else pl_batch_size s),
       la_checkpoint_min_step := checkpoint_min_step mo ub, hs_context_allocation_mb := 0\<rparr>"

section \<open>A larger micro-batch never costs more per token\<close>

lemma power_average_antitone:
  fixes q :: rat
  assumes "0 \<le> q" "q \<le> 1" "0 < a" "a \<le> b"
  shows "(1 - q ^ b) / of_nat b \<le> (1 - q ^ a) / of_nat a"
proof -
  have one: "(1 - q ^ Suc n) / of_nat (Suc n) \<le> (1 - q ^ n) / of_nat n" if "0 < n" for n
  proof -
    have "of_nat n * q ^ n \<le> (\<Sum>i<n. q ^ i)"
    proof -
      have "(\<Sum>i<n. q ^ n) \<le> (\<Sum>i<n. q ^ i)" using assms(1,2) by (intro sum_mono power_decreasing) auto
      then show ?thesis by simp
    qed
    then have "(1 - q) * (of_nat n * q ^ n) \<le> (1 - q) * (\<Sum>i<n. q ^ i)" using assms(2) by (intro mult_left_mono) auto
    also have "\<dots> = 1 - q ^ n" by (simp add: one_diff_power_eq)
    finally have "of_nat n * (1 - q ^ Suc n) \<le> of_nat (Suc n) * (1 - q ^ n)" by (simp add: algebra_simps)
    with that show ?thesis by (simp add: divide_le_eq le_divide_eq pos_divide_le_eq mult.commute)
  qed
  from assms(4) show ?thesis
  proof (induction b rule: dec_induct)
    case (step n)
    have "0 < n" using assms(3) step(1) by simp
    from order_trans [OF one [OF this] step(3)] show ?case .
  qed simp
qed

lemma touch_per_token_antitone:
  assumes "0 < a" "a \<le> b"
  shows "moe_expert_touch_fraction mo b / of_int b \<le> moe_expert_touch_fraction mo a / of_int a"
proof (cases "\<exists>m. mo = Some m \<and> \<not> (m_num_experts m \<le> 0 \<or> m_expert_used_count m \<le> 0)")
  case True
  then obtain m where m: "mo = Some m" "0 < m_num_experts m" "0 < m_expert_used_count m" by auto
  define q :: rat where "q = 1 - of_int (min (m_expert_used_count m) (m_num_experts m)) / of_int (m_num_experts m)"
  have "0 \<le> q" "q \<le> 1" using m by (auto simp: q_def divide_le_eq)
  moreover have "moe_expert_touch_fraction mo c = 1 - q ^ nat c" if "0 < c" for c
    using m that by (simp add: moe_expert_touch_fraction_def q_def Let_def max_def)
  ultimately show ?thesis
    using power_average_antitone [of q "nat a" "nat b"] assms by (simp add: of_nat_nat)
next
  case False
  then have "moe_expert_touch_fraction mo c = 1" for c by (auto simp: moe_expert_touch_fraction_def split: option.splits)
  with assms show ?thesis by (simp add: divide_le_eq le_divide_eq field_simps)
qed

text \<open>
  Staging has no knee. With the same experts on the host, the same devices and the same rates, the price of
  streaming experts per prompt token never rises when the micro-batch grows, whatever the routing model's expert
  counts: the fraction of experts a batch touches grows more slowly than the batch.
\<close>

theorem staged_transfer_antitone:
  assumes "staged_expert_transfer co h stored (moe_expert_touch_fraction mo a) a = Some (cost_a, rate_a)"
    "staged_expert_transfer co h stored (moe_expert_touch_fraction mo b) b = Some (cost_b, rate_b)" "a \<le> b"
  shows "cost_b \<le> cost_a \<and> rate_b = rate_a"
proof -
  from assms(1) obtain caps where co: "co = Some caps" by (cases co) (auto simp: staged_expert_transfer_def)
  define rate where "rate = (if 0 < host_memory_bandwidth_mbps caps \<and> host_memory_bandwidth_mbps caps < staging_link caps h
    then host_memory_bandwidth_mbps caps else staging_link caps h)"
  from assms(1,2) have r: "0 < a" "0 < stored" "0 < rate" "rate_a = rate" "rate_b = rate"
    and a: "cost_a = stored * moe_expert_touch_fraction mo a / (of_int a * of_int rate)"
    and b: "cost_b = stored * moe_expert_touch_fraction mo b / (of_int b * of_int rate)"
    by (auto simp: staged_expert_transfer_def co rate_def Let_def split: if_splits)
  have "stored / of_int rate * (moe_expert_touch_fraction mo b / of_int b) \<le>
      stored / of_int rate * (moe_expert_touch_fraction mo a / of_int a)"
    using touch_per_token_antitone [OF r(1) assms(3)] r(2,3) by (intro mult_left_mono) auto
  then show ?thesis using r by (simp add: a b mult.commute)
qed

lemma set_raise_rungs:
  assumes "0 < ub"
  shows "x \<in> set (raise_rungs ub limit current) \<longleftrightarrow> (\<exists>k. x = ub * 2 ^ k) \<and> current < x \<and> x \<le> limit"
  using assms
proof (induction ub limit current rule: raise_rungs.induct)
  case (1 ub limit current)
  show ?case
  proof (cases "ub > limit")
    case True
    have "ub \<le> ub * 2 ^ k" for k :: nat using 1(2) by simp
    then have "\<not> ub * 2 ^ k \<le> limit" for k :: nat using True by (meson leD order_less_le_trans)
    with True 1(2) show ?thesis by (subst raise_rungs.simps) auto
  next
    case False
    have k: "(\<exists>k. x = ub * 2 ^ k) \<longleftrightarrow> x = ub \<or> (\<exists>k. x = ub * 2 * 2 ^ k)"
      by (metis mult.assoc mult_1_right not0_implies_Suc power_0 power_Suc)
    from False 1 show ?thesis by (subst raise_rungs.simps) (auto simp: k)
  qed
qed

text \<open>
  The micro-batches proposed for a staged plan are exactly the powers of two above the current one up to the
  logical batch, and nothing is proposed unless the plan keeps weights on the host, is not fixed or tuned, serves
  one slot without a draft model and is staged at its current micro-batch.
\<close>

theorem raise_candidates_exact:
  "ub \<in> set (staged_prefill_raise_candidates co opts explicit tuned (Some s)) \<longleftrightarrow>
     keeps_weights_on_host s \<and> \<not> explicit \<and> \<not> tuned \<and> s_parallel s \<le> 1 \<and>
     (case la_draft s of Some d \<Rightarrow> dr_type d = DraftNone | None \<Rightarrow> True) \<and>
     staged_at (resolve_host_expert_execution co opts) (max 1 (pl_ubatch_size s)) \<and>
     (\<exists>k. ub = 2 ^ k) \<and> pl_ubatch_size s < ub \<and> ub \<le> pl_batch_size s"
  by (auto simp: staged_prefill_raise_candidates_def set_raise_rungs split: option.splits)

section \<open>Witness\<close>

definition demo_exec :: host_exec where
  "demo_exec = \<lparr>he_mode = ExecStaged, he_min_batch = 32, he_staging_gpu = 0, he_confidence = [], he_evidence = None\<rparr>"

definition demo_linked :: capabilities where
  "demo_linked = (demo_host [] 100)\<lparr>c_gpus := [(demo_device 100)\<lparr>bandwidth_mbps := 1000\<rparr>]\<rparr>"

theorem staged_transfer_antitone_witness:
  "\<exists>ca cb r. staged_expert_transfer (Some demo_linked) demo_exec 100 (moe_expert_touch_fraction None 64) 64 = Some (ca, r) \<and>
     staged_expert_transfer (Some demo_linked) demo_exec 100 (moe_expert_touch_fraction None 256) 256 = Some (cb, r) \<and> cb \<le> ca"
proof -
  have l: "staging_link demo_linked demo_exec = 1000" by code_simp
  have h: "host_memory_bandwidth_mbps demo_linked = 0" by code_simp
  have a: "staged_expert_transfer (Some demo_linked) demo_exec 100 (moe_expert_touch_fraction None 64) 64 = Some (100 * 1 / (64 * 1000), 1000)"
    and b: "staged_expert_transfer (Some demo_linked) demo_exec 100 (moe_expert_touch_fraction None 256) 256 = Some (100 * 1 / (256 * 1000), 1000)"
    by (simp_all add: staged_expert_transfer_def l h moe_expert_touch_fraction_def)
  have "100 * 1 / (256 * 1000) \<le> (100 * 1 / (64 * 1000) :: rat)" using staged_transfer_antitone [OF a b] by simp
  with a b show ?thesis by blast
qed

end
