(* ===== verification/Builders.thy ===== *)
theory Builders
  imports MoeBuilder HostExec
begin

text \<open>
  The remaining builders of \<^verbatim>\<open>go/pkg/placement/placement.go\<close> and the retries around the expert builder: one
  device, all devices, a dense model with host layers, the micro-batch ladder and the lowered context.

  Measured buffers are arguments, as in the expert builder. \<open>balanced\<close> is the split of \<^verbatim>\<open>denseBalancedSplit\<close>,
  which weighs links by a logarithm.
\<close>

section \<open>Dense builders\<close>

datatype dense_error = RequiresGpu | NoLongerFits int | LayerCountPanic | OverfullDevice "rat list" nat

definition planned_compute :: "build_options \<Rightarrow> moe_probe option \<Rightarrow> int" where
  "planned_compute opts pc = planned_compute_buf_mb (bo_host opts) (map_option mp_compute pc)"

definition build_single_gpu ::
  "int \<Rightarrow> moe_probe option \<Rightarrow> built_strategy \<Rightarrow> capabilities \<Rightarrow> model_profile \<Rightarrow> int \<Rightarrow> int \<Rightarrow> build_options \<Rightarrow> dense_error + built_strategy" where
  "build_single_gpu cuda pc s caps m total_mb kv opts =
     (let policy = normalize_placement_policy (bo_placement_policy opts);
          order = order_gpus_for_placement (c_gpus caps) policy;
          needed = total_mb + cuda + planned_compute opts pc + kv
      in if order = [] then Inl RequiresGpu
         else case find (\<lambda>i. vram_free_mb (c_gpus caps ! i) \<ge> needed) order of
           None \<Rightarrow> Inl (NoLongerFits needed)
         | Some i \<Rightarrow>
             Inr (s\<lparr>bs_placement_policy := policy, la_main_gpu := g_index (c_gpus caps ! i),
                    lk_host_footprint_mb :=
                      resident_host_footprint_mb (Some m) (pl_ubatch_size s) total_mb 0 (la_max_checkpoints s) (s_parallel s)
                        (s_context_size s) (hs_measured_checkpoint_mb s)\<rparr>))"

definition dense_compute_for :: "build_options \<Rightarrow> moe_probe option \<Rightarrow> model_profile \<Rightarrow> built_strategy \<Rightarrow> int \<Rightarrow> int" where
  "dense_compute_for opts pc m s idx =
     (let base = planned_compute opts pc;
          cold = first_launch_compute_buf_mb_at_context (Some m) (pl_ubatch_size s) (s_parallel s) (s_context_size s);
          b = (if m_is_moe m \<and> pc = None \<and> \<not> ho_require_measured (bo_host opts) \<and> cold > base then cold else base)
      in probed_compute pc idx b)"

definition dense_measured_for :: "build_options \<Rightarrow> moe_probe option \<Rightarrow> model_profile \<Rightarrow> built_strategy \<Rightarrow> int \<Rightarrow> int" where
  "dense_measured_for opts pc m s idx =
     (if bo_auto_candidate opts then dense_compute_for opts pc m s idx
      else case pc of
        None \<Rightarrow> 0
      | Some p \<Rightarrow> if mp_compute_by_gpu p idx > 0 then mp_compute_by_gpu p idx else max 0 (mp_compute p))"

definition kv_per_layer_mb :: "model_profile \<Rightarrow> int \<Rightarrow> int" where
  "kv_per_layer_mb m kv = (let v = go_div kv (m_num_layers m) in if v < 1 \<and> kv > 0 then 1 else v)"

definition with_dense_split :: "built_strategy \<Rightarrow> rat list \<Rightarrow> int \<Rightarrow> built_strategy" where
  "with_dense_split s split footprint =
     s\<lparr>pl_tensor_split := split, pl_split_mode := ''layer'', lk_host_footprint_mb := footprint\<rparr>"

definition build_multi_gpu_dense ::
  "(rat \<Rightarrow> rat) \<Rightarrow> (int list \<Rightarrow> rat list) \<Rightarrow> int \<Rightarrow> moe_probe option \<Rightarrow> built_strategy \<Rightarrow> capabilities \<Rightarrow> model_profile \<Rightarrow> int \<Rightarrow> int \<Rightarrow>
     build_options \<Rightarrow> dense_error + built_strategy" where
  "build_multi_gpu_dense f32 balanced cuda pc s caps m total_mb kv opts =
     (if m_num_layers m = 0 then Inl LayerCountPanic
      else
        let gpus = c_gpus caps;
            compute = dense_compute_for opts pc m s;
            reserve = kv_reserve_by_bandwidth kv gpus (seq_range (length gpus)) (kv_per_layer_mb m kv);
            intent = (if dense_mem_bandwidth_known gpus
                      then dense_fill_fastest_first_split gpus cuda compute (hs_mmproj_size_mb s) total_mb kv
                      else balanced reserve);
            cpu_kv = (if s_kv_placement s = ''cpu'' then kv else 0);
            footprint = resident_host_footprint_mb (Some m) (pl_ubatch_size s) total_mb cpu_kv (la_max_checkpoints s)
                          (s_parallel s) (s_context_size s) (hs_measured_checkpoint_mb s)
        in if \<not> m_byte_weighted_layer_split m then Inr (with_dense_split s intent footprint)
           else case ik_dense_split f32 m (kv_shape_for_strategy s (bo_swa_full opts)) (kv - cpu_kv) intent
                       (ik_dense_devices gpus (hs_mmproj_size_mb s) cuda compute (dense_measured_for opts pc m s)) of
                  IkUnavailable \<Rightarrow> Inr (with_dense_split s intent footprint)
                | IkOver split d \<Rightarrow> Inl (OverfullDevice split d)
                | IkSplit split \<Rightarrow> Inr (with_dense_split s split footprint))"

text \<open>The share of each device: effective free memory times the link, or free memory alone when no device has any.\<close>

definition offload_split :: "gpu list \<Rightarrow> int \<Rightarrow> int list \<Rightarrow> rat list" where
  "offload_split gpus overhead reserve =
     (let effective = (\<lambda>gi. let e = vram_free_mb (gpus ! gi) - (overhead + reserve ! gi) in if e < 0 then 0 else e);
          weight = (\<lambda>gi. f64 (of_int (effective gi) * gpu_split_weight (gpus ! gi)));
          order = order_gpus_by_bandwidth gpus;
          weighted = foldl (\<lambda>t gi. f64 (t + weight gi)) 0 order;
          free = foldl (\<lambda>t g. t + vram_free_mb g) 0 gpus;
          shares = (if weighted > 0 then map (\<lambda>gi. (gi, f64 (weight gi / weighted))) order
                    else if free > 0 then map (\<lambda>gi. (gi, f64 (of_int (vram_free_mb (gpus ! gi)) / of_int free))) order
                    else [])
      in normalize_split (assign_shares (length gpus) shares))"

definition build_dense_cpu_offload ::
  "int \<Rightarrow> moe_probe option \<Rightarrow> built_strategy \<Rightarrow> capabilities \<Rightarrow> model_profile \<Rightarrow> int \<Rightarrow> int \<Rightarrow> build_options \<Rightarrow> dense_error + built_strategy" where
  "build_dense_cpu_offload cuda pc s caps m total_mb kv opts =
     (if la_supports_fit s then Inr (s\<lparr>pl_tensor_split := [], pl_split_mode := [], pl_mmap := False\<rparr>)
      else if length (c_gpus caps) > 1 then
        (if m_num_layers m = 0 then Inl LayerCountPanic
         else
           let gpus = c_gpus caps;
               reserve = kv_reserve_by_bandwidth kv gpus [] (kv_per_layer_mb m kv)
           in Inr (s\<lparr>pl_tensor_split := offload_split gpus (cuda + planned_compute opts pc) reserve,
                     pl_split_mode := ''layer'', pl_mmap := False\<rparr>))
      else Inr (s\<lparr>pl_mmap := False\<rparr>))"

section \<open>The micro-batch ladder\<close>

definition num_gpus_excluded :: "built_strategy option \<Rightarrow> gpu list \<Rightarrow> int \<Rightarrow> int" where
  "num_gpus_excluded so gpus layers =
     (case so of
        None \<Rightarrow> 0
      | Some s \<Rightarrow>
          if length gpus \<le> 1 \<or> length (pl_tensor_split s) \<noteq> length gpus then 0
          else int (length (filter (\<lambda>i. \<not> ot_string_uses_device (pl_ot_string s) (g_index (gpus ! i)) \<and>
                                       (layers \<le> 0 \<or> pl_tensor_split s ! i * of_int layers < 1)) [0..<length gpus])))"

definition ladder_candidate :: "built_strategy \<Rightarrow> int \<Rightarrow> built_strategy" where
  "ladder_candidate base ub =
     base\<lparr>pl_ubatch_size := ub, pl_batch_size := (if pl_batch_size base < ub then ub else pl_batch_size base)\<rparr>"

text \<open>
  \<open>plan\<close> builds a candidate (with the evidence scoped to it), \<open>cost\<close> prices it by micro-batch and CPU
  layers. \<open>collect_rungs\<close> gathers the priced plans; it is \<open>None\<close> when a price is unknown.
\<close>

type_synonym rung = "built_strategy \<times> rat"

fun collect_rungs ::
  "(built_strategy \<Rightarrow> moe_error + built_strategy) \<Rightarrow> (int \<Rightarrow> int \<Rightarrow> rat option) \<Rightarrow> built_strategy \<Rightarrow> int list \<Rightarrow> rung list option" where
  "collect_rungs plan cost base [] = Some []"
| "collect_rungs plan cost base (ub # ubs) =
     (if ub \<ge> pl_ubatch_size base then collect_rungs plan cost base ubs
      else case plan (ladder_candidate base ub) of
        Inl _ \<Rightarrow> collect_rungs plan cost base ubs
      | Inr s \<Rightarrow>
          (case cost (pl_ubatch_size s) (pl_n_cpu_moe s) of
             None \<Rightarrow> None
           | Some c \<Rightarrow> map_option ((#) (s, c)) (collect_rungs plan cost base ubs)))"

definition cheaper_rung :: "rung \<Rightarrow> rung \<Rightarrow> rung" where
  "cheaper_rung best r = (if snd r < snd best * (98 / 100) then r else best)"

definition cost_ranked_moe_ubatch ::
  "host_exec \<Rightarrow> (int \<Rightarrow> int \<Rightarrow> rat option) \<Rightarrow> (built_strategy \<Rightarrow> moe_error + built_strategy) \<Rightarrow> built_strategy \<Rightarrow>
     moe_error + built_strategy \<Rightarrow> (moe_error + built_strategy) option" where
  "cost_ranked_moe_ubatch h cost plan base r =
     (if s_parallel base > 1 \<or> \<not> staged_at h (min (pl_ubatch_size base) (last ubatch_fit_ladder)) then None
      else
        let own = (case r of
                     Inl _ \<Rightarrow> Some []
                   | Inr s \<Rightarrow> map_option (\<lambda>c. [(s, c)]) (cost (pl_ubatch_size s) (pl_n_cpu_moe s)))
        in case own of
             None \<Rightarrow> None
           | Some first \<Rightarrow>
               (case collect_rungs plan cost base ubatch_fit_ladder of
                  None \<Rightarrow> None
                | Some rungs \<Rightarrow>
                    (case first @ rungs of
                       [] \<Rightarrow> Some r
                     | f # rest \<Rightarrow> Some (Inr (fst (foldl cheaper_rung f rest))))))"

fun residency_ladder ::
  "(built_strategy \<Rightarrow> moe_error + built_strategy) \<Rightarrow> (built_strategy \<Rightarrow> int) \<Rightarrow> int \<Rightarrow> built_strategy \<Rightarrow> int list \<Rightarrow>
     moe_error + built_strategy \<Rightarrow> int \<Rightarrow> int \<Rightarrow> moe_error + built_strategy" where
  "residency_ladder plan excluded count base [] best best_n best_excl = best"
| "residency_ladder plan excluded count base (ub # ubs) best best_n best_excl =
     (if ub \<ge> pl_ubatch_size base then residency_ladder plan excluded count base ubs best best_n best_excl
      else case plan (ladder_candidate base ub) of
        Inl _ \<Rightarrow> residency_ladder plan excluded count base ubs best best_n best_excl
      | Inr s \<Rightarrow>
          if pl_n_cpu_moe s < count then Inr s
          else if pl_n_cpu_moe s \<ge> best_n \<and> excluded s \<ge> best_excl
          then residency_ladder plan excluded count base ubs best best_n best_excl
          else residency_ladder plan excluded count base ubs (Inr s) (pl_n_cpu_moe s) (excluded s))"

definition maximize_moe_gpu_fit ::
  "host_exec \<Rightarrow> (int \<Rightarrow> int \<Rightarrow> rat option) \<Rightarrow> (built_strategy \<Rightarrow> moe_error + built_strategy) \<Rightarrow> gpu list \<Rightarrow> model_profile \<Rightarrow>
     build_options \<Rightarrow> built_strategy \<Rightarrow> moe_error + built_strategy \<Rightarrow> moe_error + built_strategy" where
  "maximize_moe_gpu_fit h cost plan gpus m opts base r =
     (let count = snd (moe_layer_range (Some m));
          excluded = (\<lambda>s. num_gpus_excluded (Some s) gpus (m_num_layers m))
      in
      if bo_ubatch_explicit opts then r
      else if count \<le> 0 then r
      else if (case r of Inr s \<Rightarrow> pl_n_cpu_moe s \<le> go_trunc (of_int count * (1 / 4)) | Inl _ \<Rightarrow> False) then r
      else case cost_ranked_moe_ubatch h cost plan base r of
        Some ranked \<Rightarrow> ranked
      | None \<Rightarrow>
          residency_ladder plan excluded count base ubatch_fit_ladder r
            (case r of Inr s \<Rightarrow> pl_n_cpu_moe s | Inl _ \<Rightarrow> count + 1)
            (case r of Inr s \<Rightarrow> excluded s | Inl _ \<Rightarrow> 0))"

text \<open>The lowered context: the first rung below whose plan, after the ladder, exists.\<close>

fun first_lower_context :: "(int \<Rightarrow> moe_error + built_strategy) \<Rightarrow> int list \<Rightarrow> (int \<times> built_strategy) option" where
  "first_lower_context attempt [] = None"
| "first_lower_context attempt (ctx # ctxs) =
     (case attempt ctx of Inr s \<Rightarrow> Some (ctx, s) | Inl _ \<Rightarrow> first_lower_context attempt ctxs)"

definition retry_moe_with_lower_context ::
  "host_exec \<Rightarrow> (int \<Rightarrow> int \<Rightarrow> rat option) \<Rightarrow> (built_strategy \<Rightarrow> moe_error + built_strategy) \<Rightarrow> gpu list \<Rightarrow> model_profile \<Rightarrow>
     build_options \<Rightarrow> built_strategy \<Rightarrow> moe_error \<Rightarrow> moe_error + (int \<times> built_strategy)" where
  "retry_moe_with_lower_context h cost plan gpus m opts base e =
     (if s_context_size base \<le> 32768 then Inl e
      else
        let attempt = (\<lambda>ctx. let cand = base\<lparr>s_context_size := ctx\<rparr>
                             in maximize_moe_gpu_fit h cost plan gpus m opts cand (plan cand))
        in case first_lower_context attempt (lower_context_rungs (s_context_size base)) of
             None \<Rightarrow> Inl e
           | Some r \<Rightarrow> Inr r)"

section \<open>What the ladder returns\<close>

text \<open>A plan of the ladder: built at a rung below the base micro-batch.\<close>

definition ladder_plan :: "(built_strategy \<Rightarrow> moe_error + built_strategy) \<Rightarrow> built_strategy \<Rightarrow> built_strategy \<Rightarrow> bool" where
  "ladder_plan plan base s \<longleftrightarrow>
     (\<exists>ub \<in> set ubatch_fit_ladder. ub < pl_ubatch_size base \<and> plan (ladder_candidate base ub) = Inr s)"

lemma collect_rungs_members:
  assumes "collect_rungs plan cost base ubs = Some rungs"
  shows "(s, c) \<in> set rungs \<longleftrightarrow>
    (\<exists>ub \<in> set ubs. ub < pl_ubatch_size base \<and> plan (ladder_candidate base ub) = Inr s \<and>
       cost (pl_ubatch_size s) (pl_n_cpu_moe s) = Some c)"
  using assms
proof (induction ubs arbitrary: rungs)
  case (Cons ub ubs)
  show ?case
  proof (cases "pl_ubatch_size base \<le> ub")
    case True
    with Cons show ?thesis by auto
  next
    case False
    with Cons show ?thesis by (cases "plan (ladder_candidate base ub)") (auto split: option.splits)
  qed
qed simp

lemma priced_rung:
  assumes "collect_rungs plan cost base ubs = Some rungs" "ub \<in> set ubs" "ub < pl_ubatch_size base"
    "plan (ladder_candidate base ub) = Inr s"
  shows "\<exists>c. (s, c) \<in> set rungs"
  using assms
proof (induction ubs arbitrary: rungs)
  case (Cons u ubs)
  then show ?case by (cases "plan (ladder_candidate base u)") (auto split: if_splits option.splits)
qed simp

lemma cheapest_rung:
  assumes "\<forall>r \<in> set (f # rest). 0 \<le> snd r"
  shows "foldl cheaper_rung f rest \<in> set (f # rest) \<and>
    snd (foldl cheaper_rung f rest) \<le> snd f \<and>
    (\<forall>r \<in> set (f # rest). 98 / 100 * snd (foldl cheaper_rung f rest) \<le> snd r)"
  using assms
proof (induction rest arbitrary: f)
  case (Cons r rest)
  let ?b = "cheaper_rung f r" let ?z = "foldl cheaper_rung ?b rest"
  have b: "?b \<in> {f, r}" "snd ?b \<le> snd f" "98 / 100 * snd ?b \<le> snd r"
    using Cons.prems by (auto simp: cheaper_rung_def)
  have "\<forall>x \<in> set (?b # rest). 0 \<le> snd x" using Cons.prems b(1) by auto
  note IH = Cons.IH [OF this]
  have "98 / 100 * snd ?z \<le> 98 / 100 * snd ?b" using IH by simp
  with b(3) have "98 / 100 * snd ?z \<le> snd r" by linarith
  moreover have "98 / 100 * snd ?z \<le> snd f" using IH b(2) Cons.prems by force
  moreover have "snd ?z \<le> snd f" using IH b(2) by linarith
  moreover have "?z \<in> set (f # r # rest)" using IH b(1) by auto
  ultimately show ?case using IH by simp
qed simp

text \<open>
  C20: The priced ladder is near optimal. When every plan has a price and some plan exists, the ladder returns a
  plan whose price is within two percent of the cheapest among the base plan and the rungs that fit, and no dearer
  than the base plan; the plan it returns is the base plan or one the builder produced at a smaller rung.
\<close>

theorem ubatch_ladder_near_optimal:
  assumes "cost_ranked_moe_ubatch h cost plan base r = Some (Inr s)" "\<forall>ub n c. cost ub n = Some c \<longrightarrow> 0 \<le> c"
  shows "(r = Inr s \<or> ladder_plan plan base s) \<and>
    (\<exists>c. cost (pl_ubatch_size s) (pl_n_cpu_moe s) = Some c \<and>
       (\<forall>s'. r = Inr s' \<or> ladder_plan plan base s' \<longrightarrow>
          (\<exists>c'. cost (pl_ubatch_size s') (pl_n_cpu_moe s') = Some c' \<and> 98 / 100 * c \<le> c' \<and> (r = Inr s' \<longrightarrow> c \<le> c'))))"
proof -
  define own where "own = (case r of Inl _ \<Rightarrow> Some []
    | Inr s \<Rightarrow> map_option (\<lambda>c. [(s, c)]) (cost (pl_ubatch_size s) (pl_n_cpu_moe s)))"
  from assms(1) obtain first rungs where o: "own = Some first" and R: "collect_rungs plan cost base ubatch_fit_ladder = Some rungs"
    and v: "(case first @ rungs of [] \<Rightarrow> Some r | f # rest \<Rightarrow> Some (Inr (fst (foldl cheaper_rung f rest)))) = Some (Inr s)"
    by (auto simp: cost_ranked_moe_ubatch_def Let_def own_def split: if_splits option.splits)
  have first: "(x, c) \<in> set first \<longleftrightarrow> r = Inr x \<and> cost (pl_ubatch_size x) (pl_n_cpu_moe x) = Some c" for x c
    using o by (auto simp: own_def split: sum.splits)
  have first1: "r = Inr x \<Longrightarrow> \<exists>c. first = [(x, c)]" for x using o by (auto simp: own_def split: sum.splits)
  have rungs: "(x, c) \<in> set rungs \<longleftrightarrow> ladder_plan plan base x \<and> cost (pl_ubatch_size x) (pl_n_cpu_moe x) = Some c" for x c
    using collect_rungs_members [OF R] by (auto simp: ladder_plan_def)
  have priced: "\<exists>c. (x, c) \<in> set (first @ rungs)" if "r = Inr x \<or> ladder_plan plan base x" for x
  proof (cases "r = Inr x")
    case True
    from first1 [OF this] show ?thesis by auto
  next
    case False
    with that priced_rung [OF R] show ?thesis by (fastforce simp: ladder_plan_def)
  qed
  show ?thesis
  proof (cases "first @ rungs")
    case Nil
    with v have "r = Inr s" by simp
    with priced [of s] Nil show ?thesis by simp
  next
    case (Cons f rest)
    let ?z = "foldl cheaper_rung f rest"
    have nn: "\<forall>x \<in> set (f # rest). 0 \<le> snd x" using assms(2) first rungs Cons by (metis Un_iff prod.collapse set_append)
    note C = cheapest_rung [OF nn]
    have z: "?z = (s, snd ?z)" using v Cons by (metis Inr_inject list.simps(5) option.inject prod.collapse)
    then have m: "(s, snd ?z) \<in> set (first @ rungs)" using C Cons by simp
    have "\<exists>c'. cost (pl_ubatch_size x) (pl_n_cpu_moe x) = Some c' \<and> 98 / 100 * snd ?z \<le> c' \<and> (r = Inr x \<longrightarrow> snd ?z \<le> c')"
      if x: "r = Inr x \<or> ladder_plan plan base x" for x
    proof -
      from priced [OF x] obtain c' where c': "(x, c') \<in> set (first @ rungs)" ..
      then have "98 / 100 * snd ?z \<le> c'" using C Cons by (metis snd_conv)
      moreover have "cost (pl_ubatch_size x) (pl_n_cpu_moe x) = Some c'" using c' first rungs by auto
      moreover have "snd ?z \<le> c'" if "r = Inr x"
      proof -
        from first1 [OF that] obtain c where "first = [(x, c)]" ..
        with Cons have "f = (x, c)" by simp
        then have "cost (pl_ubatch_size x) (pl_n_cpu_moe x) = Some c" using first \<open>first = [(x, c)]\<close> by auto
        with C \<open>f = (x, c)\<close> calculation(2) show ?thesis by simp
      qed
      ultimately show ?thesis by blast
    qed
    moreover have "r = Inr s \<or> ladder_plan plan base s" "cost (pl_ubatch_size s) (pl_n_cpu_moe s) = Some (snd ?z)"
      using m first rungs by auto
    ultimately show ?thesis by blast
  qed
qed

lemma residency_ladder_result:
  "residency_ladder plan excluded count base ubs best best_n best_excl = r \<Longrightarrow>
     (r = best \<or> (\<exists>ub \<in> set ubs. ub < pl_ubatch_size base \<and> (\<exists>s. plan (ladder_candidate base ub) = Inr s \<and> r = Inr s)))"
  by (induction plan excluded count base ubs best best_n best_excl rule: residency_ladder.induct)
    (auto split: if_splits sum.splits)

lemma residency_ladder_improves:
  "\<exists>ub \<in> set ubs. ub < pl_ubatch_size base \<and> (\<exists>s. plan (ladder_candidate base ub) = Inr s \<and> pl_n_cpu_moe s < count) \<Longrightarrow>
     \<exists>s. residency_ladder plan excluded count base ubs best best_n best_excl = Inr s"
proof (induction plan excluded count base ubs best best_n best_excl rule: residency_ladder.induct)
  case (2 plan excluded count base ub ubs best best_n best_excl)
  show ?case
  proof (cases "pl_ubatch_size base \<le> ub")
    case True
    with 2 show ?thesis by auto
  next
    case False
    show ?thesis
    proof (cases "plan (ladder_candidate base ub)")
      case (Inl e)
      with 2 False show ?thesis by auto
    next
      case (Inr s)
      with 2(3,4) [OF False Inr] 2(5) False show ?thesis by (cases "pl_n_cpu_moe s < count") auto
    qed
  qed
qed simp

lemma cost_ranked_source:
  assumes "cost_ranked_moe_ubatch h cost plan base r = Some r'"
  shows "(r' = r \<or> (\<exists>s. r' = Inr s \<and> ladder_plan plan base s)) \<and> (r' = r \<or> (\<exists>s. r' = Inr s))"
proof (cases r')
  case (Inl e)
  with assms have "r' = r" by (auto simp: cost_ranked_moe_ubatch_def Let_def split: if_splits option.splits list.splits)
  then show ?thesis by simp
next
  case (Inr s)
  then obtain own rungs where R: "collect_rungs plan cost base ubatch_fit_ladder = Some rungs"
    and own: "(case r of Inl _ \<Rightarrow> Some [] | Inr s \<Rightarrow> map_option (\<lambda>c. [(s, c)]) (cost (pl_ubatch_size s) (pl_n_cpu_moe s))) = Some own"
    and v: "(case own @ rungs of [] \<Rightarrow> Some r | f # rest \<Rightarrow> Some (Inr (fst (foldl cheaper_rung f rest)))) = Some (Inr s)"
    using assms by (auto simp: cost_ranked_moe_ubatch_def Let_def split: if_splits option.splits)
  show ?thesis
  proof (cases "own @ rungs")
    case Nil
    with v Inr show ?thesis by simp
  next
    case (Cons f rest)
    have "foldl cheaper_rung f rest \<in> set (f # rest)"
      by (induction rest arbitrary: f) (auto simp: cheaper_rung_def split: if_splits)
    with v Cons obtain c where "(s, c) \<in> set (own @ rungs)" by (metis Inr_inject list.simps(5) option.inject prod.collapse)
    then have "r = Inr s \<or> ladder_plan plan base s"
      using own collect_rungs_members [OF R] by (auto simp: ladder_plan_def split: sum.splits)
    with Inr show ?thesis by auto
  qed
qed

text \<open>
  C21: The micro-batch retry loses nothing. Its result is the result it was given or a plan the builder produced at a
  rung of the ladder below the base micro-batch: it never invents a plan, never turns a plan into an error, and
  never touches a micro-batch the user fixed. An error stays an error only if no rung the residency ladder tries
  keeps an expert layer on a device.
\<close>

theorem ubatch_retry_keeps_plans:
  "(maximize_moe_gpu_fit h cost plan gpus m opts base r = r \<or>
     (\<exists>s. maximize_moe_gpu_fit h cost plan gpus m opts base r = Inr s \<and> ladder_plan plan base s \<and> \<not> bo_ubatch_explicit opts)) \<and>
   (\<forall>e. maximize_moe_gpu_fit h cost plan gpus m opts base r = Inl e \<longrightarrow> r = Inl e \<and>
     (bo_ubatch_explicit opts \<or> snd (moe_layer_range (Some m)) \<le> 0 \<or> cost_ranked_moe_ubatch h cost plan base r \<noteq> None \<or>
      (\<forall>s. ladder_plan plan base s \<longrightarrow> snd (moe_layer_range (Some m)) \<le> pl_n_cpu_moe s)))"
proof (cases "bo_ubatch_explicit opts \<or> snd (moe_layer_range (Some m)) \<le> 0 \<or>
    (case r of Inr s \<Rightarrow> pl_n_cpu_moe s \<le> go_trunc (of_int (snd (moe_layer_range (Some m))) * (1 / 4)) | Inl _ \<Rightarrow> False)")
  case True
  then have "maximize_moe_gpu_fit h cost plan gpus m opts base r = r" by (auto simp: maximize_moe_gpu_fit_def Let_def)
  with True show ?thesis by auto
next
  case False
  let ?count = "snd (moe_layer_range (Some m))" let ?ex = "\<lambda>s. num_gpus_excluded (Some s) gpus (m_num_layers m)"
  show ?thesis
  proof (cases "cost_ranked_moe_ubatch h cost plan base r")
    case (Some r')
    then have "maximize_moe_gpu_fit h cost plan gpus m opts base r = r'" using False by (simp add: maximize_moe_gpu_fit_def Let_def)
    with cost_ranked_source [OF Some] Some False show ?thesis by auto
  next
    case None
    define n e where "n = (case r of Inr s \<Rightarrow> pl_n_cpu_moe s | Inl _ \<Rightarrow> ?count + 1)" and "e = (case r of Inr s \<Rightarrow> ?ex s | Inl _ \<Rightarrow> 0)"
    have v: "maximize_moe_gpu_fit h cost plan gpus m opts base r = residency_ladder plan ?ex ?count base ubatch_fit_ladder r n e"
      using False None by (simp add: maximize_moe_gpu_fit_def Let_def n_def e_def)
    have "residency_ladder plan ?ex ?count base ubatch_fit_ladder r n e = r \<or>
        (\<exists>s. residency_ladder plan ?ex ?count base ubatch_fit_ladder r n e = Inr s \<and> ladder_plan plan base s)"
      using residency_ladder_result [OF refl, of plan ?ex ?count base ubatch_fit_ladder r n e] by (auto simp: ladder_plan_def)
    moreover have "\<forall>s. ladder_plan plan base s \<longrightarrow> ?count \<le> pl_n_cpu_moe s"
      if "residency_ladder plan ?ex ?count base ubatch_fit_ladder r n e = Inl x" for x
      using residency_ladder_improves [of ubatch_fit_ladder base plan ?count ?ex r n e] that by (force simp: ladder_plan_def)
    ultimately show ?thesis using False by (auto simp: v)
  qed
qed

section \<open>Witnesses\<close>

definition demo_base :: built_strategy where
  "demo_base = demo_built\<lparr>pl_ubatch_size := 512, pl_batch_size := 512\<rparr>"

text \<open>A planner that fits from micro-batch 128 down, with one CPU layer less at 64.\<close>

definition demo_plan :: "built_strategy \<Rightarrow> moe_error + built_strategy" where
  "demo_plan s = (if pl_ubatch_size s > 128 then Inl NoFreeVram
                  else Inr (s\<lparr>pl_n_cpu_moe := (if pl_ubatch_size s = 64 then 2 else 3)\<rparr>))"

definition demo_rung_cost :: "int \<Rightarrow> int \<Rightarrow> rat option" where
  "demo_rung_cost ub n = Some (if ub \<ge> 128 then 100 else 99)"

lemma demo_base_fields [simp]: "pl_ubatch_size demo_base = 512" "pl_batch_size demo_base = 512" "s_parallel demo_base = 0"
  by (simp_all add: demo_base_def demo_built_def host_strategy.defs built_strategy.defs demo_defs)

lemma demo_candidate: "demo_plan (ladder_candidate demo_base ub) =
    (if ub > 128 then Inl NoFreeVram
     else Inr (ladder_candidate demo_base ub\<lparr>pl_n_cpu_moe := (if ub = 64 then 2 else 3)\<rparr>))"
  by (simp add: demo_plan_def ladder_candidate_def)

lemma ladder_candidate_ubatch [simp]: "pl_ubatch_size (ladder_candidate base ub) = ub"
  by (simp add: ladder_candidate_def)

theorem ubatch_ladder_near_optimal_witness:
  "cost_ranked_moe_ubatch demo_exec demo_rung_cost demo_plan demo_base (Inl NoFreeVram) =
     Some (Inr (ladder_candidate demo_base 128\<lparr>pl_n_cpu_moe := 3\<rparr>)) \<and>
   ladder_plan demo_plan demo_base (ladder_candidate demo_base 128\<lparr>pl_n_cpu_moe := 3\<rparr>)"
proof -
  have c: "cost_ranked_moe_ubatch demo_exec demo_rung_cost demo_plan demo_base (Inl NoFreeVram) =
     Some (Inr (ladder_candidate demo_base 128\<lparr>pl_n_cpu_moe := 3\<rparr>))"
    by (simp add: cost_ranked_moe_ubatch_def ubatch_fit_ladder_def staged_at_def demo_exec_def demo_candidate demo_rung_cost_def cheaper_rung_def)
  have "\<forall>ub n c. demo_rung_cost ub n = Some c \<longrightarrow> 0 \<le> c" by (auto simp: demo_rung_cost_def split: if_splits)
  from ubatch_ladder_near_optimal [OF c this] c show ?thesis by simp
qed

theorem ubatch_retry_keeps_plans_witness:
  "\<exists>s. maximize_moe_gpu_fit (demo_exec\<lparr>he_mode := ExecUnknown\<rparr>) demo_rung_cost demo_plan [] (demo_moe_model\<lparr>m_num_layers := 4\<rparr>) demo_build_options demo_base
     (Inl NoFreeVram) = Inr s \<and> ladder_plan demo_plan demo_base s"
proof -
  let ?r = "maximize_moe_gpu_fit (demo_exec\<lparr>he_mode := ExecUnknown\<rparr>) demo_rung_cost demo_plan [] (demo_moe_model\<lparr>m_num_layers := 4\<rparr>) demo_build_options
     demo_base (Inl NoFreeVram)"
  have "snd (moe_layer_range (Some (demo_moe_model\<lparr>m_num_layers := 4\<rparr>))) = 4" by code_simp
  moreover have "\<not> bo_ubatch_explicit demo_build_options" by (simp add: demo_build_options_def)
  moreover have "ladder_plan demo_plan demo_base (ladder_candidate demo_base 128\<lparr>pl_n_cpu_moe := 3\<rparr>)"
    by (auto simp: ladder_plan_def ubatch_fit_ladder_def demo_candidate intro!: bexI [of _ 128])
  moreover have "cost_ranked_moe_ubatch (demo_exec\<lparr>he_mode := ExecUnknown\<rparr>) demo_rung_cost demo_plan demo_base (Inl NoFreeVram) = None"
    by (simp add: cost_ranked_moe_ubatch_def staged_at_def)
  ultimately have "?r \<noteq> Inl e" for e
    using ubatch_retry_keeps_plans [of "demo_exec\<lparr>he_mode := ExecUnknown\<rparr>" demo_rung_cost demo_plan "[]" "demo_moe_model\<lparr>m_num_layers := 4\<rparr>"
        demo_build_options demo_base "Inl NoFreeVram"] by force
  then obtain s where "?r = Inr s" by (cases ?r) auto
  with ubatch_retry_keeps_plans [of "demo_exec\<lparr>he_mode := ExecUnknown\<rparr>" demo_rung_cost demo_plan "[]" "demo_moe_model\<lparr>m_num_layers := 4\<rparr>"
        demo_build_options demo_base "Inl NoFreeVram"] show ?thesis by auto
qed

end
