(* ===== verification/Verified.thy ===== *)
theory Verified
  imports AutoContext Paths
begin

text \<open>
  Verified serving configurations (\<^verbatim>\<open>go/pkg/placement/verified.go\<close>): the record of a launch that
  served, its inverse, the checks that refuse an old record, and the direct start of
  \<^verbatim>\<open>Compute\<close> that uses it. \<^verbatim>\<open>AllocationPlacementIdentity\<close>, the key under which measured
  memory is recognised, is here too: it is what a restored plan has to match.

  Decoded JSON and the outcomes of file operations are arguments; SHA-256 (over the parts of an identity)
  and \<^verbatim>\<open>FormatFloat\<close> are parameters. A draft and a tensor split are values, so copying them is
  the identity. The strategy has the fields the record, the command line and the identity read.
\<close>

section \<open>Data\<close>

definition verified_schema_version :: int where "verified_schema_version = 7"
definition calibration_schema_version :: int where "calibration_schema_version = 27"

record served_strategy = host_strategy +
  sv_kv_quality :: string
  sv_gpu_layers :: int
  sv_mmap_capability :: string
  sv_mmap_evidence :: string
  sv_batch_tuned :: bool
  sv_performance_tuned :: bool
  sv_use_cuda_graphs :: bool
  sv_no_jinja :: bool
  sv_cache_hit :: bool

record verified_config =
  vc_schema_version :: int
  vc_scope_key :: string
  vc_model_basename :: string
  vc_strategy_type :: strategy_type
  vc_gpu_assignments :: "gpu_assignment list"
  vc_ot_string :: string
  vc_n_cpu_moe :: int
  vc_tensor_split :: "rat list"
  vc_split_mode :: string
  vc_main_gpu :: int
  vc_context_size :: int
  vc_context_auto :: bool
  vc_context_fit_tier :: string
  vc_context_fit_rejected :: int
  vc_context_fit_evidence :: string
  vc_kv_placement :: string
  vc_kv_type :: string
  vc_kv_type_v :: string
  vc_batch_size :: int
  vc_ubatch_size :: int
  vc_batch_tuned :: bool
  vc_performance_tuned :: bool
  vc_evidence_schema :: int
  vc_parallel :: int
  vc_threads :: int
  vc_threads_batch :: int
  vc_mmap :: bool
  vc_mmap_required :: bool
  vc_mlock :: bool
  vc_mmap_capability :: string
  vc_mmap_evidence :: string
  vc_reclaimable_mb :: int
  vc_lookup_mb :: int
  vc_lookup_bytes :: int
  vc_lookup_policy :: lookup_policy
  vc_lookup_capability :: lookup_capability
  vc_lookup_flag :: string
  vc_flash_attention :: bool
  vc_swa_full :: bool
  vc_cram :: int
  vc_cram_set :: bool
  vc_max_checkpoints :: int
  vc_measured_checkpoint_mb :: rat
  vc_checkpoint_min_step :: int
  vc_use_cuda_graphs :: bool
  vc_host :: string
  vc_no_jinja :: bool
  vc_reasoning_off :: bool
  vc_has_ssm :: bool
  vc_is_moe :: bool
  vc_mmproj_path :: string
  vc_draft :: "draft_config option"
  vc_backend_tag :: string
  vc_backend_identity :: string
  vc_backend_path :: string
  vc_chat_template :: string
  vc_reviewer :: string
  vc_plan_free_vram :: "(int \<times> int) list"
  vc_host_footprint_mb :: int
  vc_measured_at :: string
  vc_kv_quality :: string

record replay_options =
  ro_host :: host_options
  ro_lookup :: lookup_options
  ro_auto_parallel :: bool
  ro_parallel :: int
  ro_batch_size :: int
  ro_ubatch_size :: int
  ro_batch_explicit :: bool
  ro_ubatch_explicit :: bool
  ro_threads :: int
  ro_address :: string
  ro_help :: string

section \<open>What the help text of a backend proves\<close>

definition backend_help_supports :: "string \<Rightarrow> string \<Rightarrow> bool" where
  "backend_help_supports help token \<longleftrightarrow> help \<noteq> [] \<and> token \<noteq> [] \<and> contains_sub (to_lower help) (to_lower token)"

definition backend_fit_takes_value :: "string \<Rightarrow> bool" where
  "backend_fit_takes_value help0 \<longleftrightarrow>
     (let help = to_lower help0 in
      contains_sub help ''--fit [on|off]'' \<or> contains_sub help ''--fit (on|off)'' \<or> contains_sub help ''--fit <on|off>'')"

definition flag_name_byte :: "char \<Rightarrow> bool" where
  "flag_name_byte c \<longleftrightarrow>
     c = CHR ''-'' \<or> c = CHR ''_'' \<or> is_digit c \<or> 97 \<le> (of_char c :: nat) \<and> (of_char c :: nat) \<le> 122"

text \<open>The search at every offset; \<open>prev\<close> is the byte before.\<close>

fun exact_flag_from :: "char option \<Rightarrow> string \<Rightarrow> string \<Rightarrow> bool" where
  "exact_flag_from prev [] flag = False"
| "exact_flag_from prev (c # s) flag =
     (has_prefix (c # s) flag \<and> (case prev of None \<Rightarrow> True | Some b \<Rightarrow> \<not> flag_name_byte b) \<and>
        (case drop (length flag) (c # s) of [] \<Rightarrow> True | b # _ \<Rightarrow> \<not> flag_name_byte b)
      \<or> exact_flag_from (Some c) s flag)"

definition backend_help_supports_exact_flag :: "string \<Rightarrow> string \<Rightarrow> bool" where
  "backend_help_supports_exact_flag help flag0 \<longleftrightarrow>
     (let flag = to_lower (trim_space flag0) in
      help \<noteq> [] \<and> flag \<noteq> [] \<and> exact_flag_from None (to_lower help) flag)"

definition backend_checkpoint_min_step_flag :: "string \<Rightarrow> string \<Rightarrow> string" where
  "backend_checkpoint_min_step_flag help tag =
     (if backend_help_supports help ''--checkpoint-min-step'' then ''--checkpoint-min-step''
      else if backend_help_supports help ''--ctx-checkpoints-interval'' then ''--ctx-checkpoints-interval''
      else if trim_space help \<noteq> [] then ''-''
      else default_min_step_flag tag)"

definition compact_cpu_range :: "int list \<Rightarrow> string" where
  "compact_cpu_range ids =
     (let uniq = sort (remdups (filter (\<lambda>i. 0 \<le> i) ids)) in
      if uniq = [] then []
      else if last uniq - hd uniq + 1 \<noteq> int (length uniq) then []
      else if length uniq = 1 then itoa (hd uniq)
      else itoa (hd uniq) @ ''-'' @ itoa (last uniq))"

definition configure_cpu_affinity :: "capabilities option \<Rightarrow> string \<Rightarrow> served_strategy \<Rightarrow> served_strategy" where
  "configure_cpu_affinity caps help s =
     (let range_ok = backend_help_supports_exact_flag help ''--cpu-range'';
          range = (case caps of Some c \<Rightarrow> if range_ok then compact_cpu_range (physical_ids (c_cpu c)) else [] | None \<Rightarrow> [])
      in s\<lparr>la_supports_cpu_range := range_ok,
           la_supports_cpu_range_batch := backend_help_supports_exact_flag help ''--cpu-range-batch'',
           la_supports_cpu_strict_batch := backend_help_supports_exact_flag help ''--cpu-strict-batch'',
           la_cpu_range := range,
           la_cpu_strict := (range \<noteq> [] \<and> backend_help_supports_exact_flag help ''--cpu-strict'')\<rparr>)"

text \<open>The dialect probes \<^verbatim>\<open>Compute\<close> and \<^verbatim>\<open>VerifiedToStrategy\<close> run on the same help text.\<close>

definition with_dialect :: "string \<Rightarrow> string \<Rightarrow> served_strategy \<Rightarrow> served_strategy" where
  "with_dialect help tag s =
     s\<lparr>la_supports_fit := backend_help_supports help ''-fit'',
       la_fit_takes_value := backend_fit_takes_value help,
       la_supports_kv_offload := backend_help_supports help ''--kv-offload'',
       la_supports_no_context_shift := backend_help_supports_exact_flag help ''--no-context-shift'',
       la_min_step_flag := backend_checkpoint_min_step_flag help tag\<rparr>"

section \<open>From a strategy to its record\<close>

definition kv_type_to_quality :: "string \<Rightarrow> string" where
  "kv_type_to_quality t =
     (if t = ''f16'' then ''high''
      else if t = ''q8_0'' then ''mid''
      else if t \<in> {''q4_0'', ''q4_1'', ''q5_0'', ''q5_1'', ''q6_k'', ''q8_1'', ''bf16''} then t
      else [])"

definition verified_kv_quality :: "verified_config \<Rightarrow> string" where
  "verified_kv_quality vc = (if vc_kv_quality vc \<noteq> [] then vc_kv_quality vc else kv_type_to_quality (vc_kv_type vc))"

definition verified_config_to_record ::
  "string \<Rightarrow> string \<Rightarrow> served_strategy \<Rightarrow> string \<Rightarrow> string \<Rightarrow> string \<Rightarrow> string \<Rightarrow> verified_config" where
  "verified_config_to_record scope_key basename s identity path template reviewer =
     \<lparr>vc_schema_version = verified_schema_version,
      vc_scope_key = scope_key,
      vc_model_basename = basename,
      vc_strategy_type = s_type s,
      vc_gpu_assignments = [],
      vc_ot_string = pl_ot_string s,
      vc_n_cpu_moe = pl_n_cpu_moe s,
      vc_tensor_split = pl_tensor_split s,
      vc_split_mode = pl_split_mode s,
      vc_main_gpu = la_main_gpu s,
      vc_context_size = s_context_size s,
      vc_context_auto = s_context_auto s,
      vc_context_fit_tier = s_context_fit_tier s,
      vc_context_fit_rejected = s_context_fit_rejected s,
      vc_context_fit_evidence = s_context_fit_evidence s,
      vc_kv_placement = s_kv_placement s,
      vc_kv_type = s_kv_type s,
      vc_kv_type_v = la_kv_type_v s,
      vc_batch_size = pl_batch_size s,
      vc_ubatch_size = pl_ubatch_size s,
      vc_batch_tuned = sv_batch_tuned s,
      vc_performance_tuned = sv_performance_tuned s,
      vc_evidence_schema = (if sv_performance_tuned s then calibration_schema_version else 0),
      vc_parallel = s_parallel s,
      vc_threads = la_threads s,
      vc_threads_batch = la_threads_batch s,
      vc_mmap = pl_mmap s,
      vc_mmap_required = s_mmap_required s,
      vc_mlock = la_mlock s,
      vc_mmap_capability = sv_mmap_capability s,
      vc_mmap_evidence = sv_mmap_evidence s,
      vc_reclaimable_mb = hs_reclaimable_weights_mb s,
      vc_lookup_mb = la_lookup_mb s,
      vc_lookup_bytes = lk_bytes s,
      vc_lookup_policy = la_lookup_policy s,
      vc_lookup_capability = lk_capability s,
      vc_lookup_flag = la_lookup_flag s,
      vc_flash_attention = la_flash_attention s,
      vc_swa_full = hs_swa_full s,
      vc_cram = la_cram s,
      vc_cram_set = True,
      vc_max_checkpoints = la_max_checkpoints s,
      vc_measured_checkpoint_mb = hs_measured_checkpoint_mb s,
      vc_checkpoint_min_step = la_checkpoint_min_step s,
      vc_use_cuda_graphs = sv_use_cuda_graphs s,
      vc_host = la_host s,
      vc_no_jinja = sv_no_jinja s,
      vc_reasoning_off = la_reasoning_off s,
      vc_has_ssm = la_has_ssm s,
      vc_is_moe = la_is_moe s,
      vc_mmproj_path = la_mmproj_path s,
      vc_draft = la_draft s,
      vc_backend_tag = la_backend_tag s,
      vc_backend_identity = identity,
      vc_backend_path = path,
      vc_chat_template = template,
      vc_reviewer = reviewer,
      vc_plan_free_vram = s_plan_free_vram s,
      vc_host_footprint_mb = lk_host_footprint_mb s,
      vc_measured_at = [],
      vc_kv_quality = sv_kv_quality s\<rparr>"

section \<open>Back to a strategy\<close>

definition recorded_strategy :: "verified_config \<Rightarrow> served_strategy" where
  "recorded_strategy vc =
     \<lparr>s_type = vc_strategy_type vc,
      s_context_size = vc_context_size vc,
      s_kv_placement = vc_kv_placement vc,
      s_kv_type = vc_kv_type vc,
      s_mmap_required = vc_mmap_required vc,
      s_parallel = 0,
      s_plan_free_vram = vc_plan_free_vram vc,
      s_verified_reused = False,
      s_context_auto = vc_context_auto vc,
      s_context_fit_tier = vc_context_fit_tier vc,
      s_context_fit_rejected = vc_context_fit_rejected vc,
      s_context_fit_evidence = vc_context_fit_evidence vc,
      pl_ot_string = vc_ot_string vc,
      pl_tensor_split = vc_tensor_split vc,
      pl_split_mode = vc_split_mode vc,
      pl_n_cpu_moe = vc_n_cpu_moe vc,
      pl_batch_size = vc_batch_size vc,
      pl_ubatch_size = vc_ubatch_size vc,
      pl_mmap = vc_mmap vc,
      pl_model_basename = vc_model_basename vc,
      la_host = vc_host vc,
      la_flash_attention = vc_flash_attention vc,
      la_kv_type_v = vc_kv_type_v vc,
      la_threads = vc_threads vc,
      la_threads_batch = vc_threads_batch vc,
      la_cpu_range = [],
      la_cpu_strict = False,
      la_supports_cpu_range = False,
      la_supports_cpu_range_batch = False,
      la_supports_cpu_strict_batch = False,
      la_supports_kv_offload = False,
      la_reasoning_off = vc_reasoning_off vc,
      la_has_ssm = vc_has_ssm vc,
      la_supports_no_context_shift = False,
      la_mmproj_path = vc_mmproj_path vc,
      la_supports_fit = False,
      la_fit_takes_value = False,
      la_main_gpu = vc_main_gpu vc,
      la_backend_tag = vc_backend_tag vc,
      la_mlock = vc_mlock vc,
      la_cram = vc_cram vc,
      la_max_checkpoints = vc_max_checkpoints vc,
      la_checkpoint_min_step = vc_checkpoint_min_step vc,
      la_min_step_flag = [],
      la_is_moe = vc_is_moe vc,
      la_draft = vc_draft vc,
      la_lookup_mb = vc_lookup_mb vc,
      la_lookup_flag = vc_lookup_flag vc,
      la_lookup_policy = vc_lookup_policy vc,
      lk_bytes = vc_lookup_bytes vc,
      lk_capability = vc_lookup_capability vc,
      lk_evidence = [],
      lk_ranges = [],
      lk_host_footprint_mb = vc_host_footprint_mb vc,
      hs_measured_checkpoint_mb = vc_measured_checkpoint_mb vc,
      hs_measured_entry_mb = 0,
      hs_measured_bytes_per_token = 0,
      hs_typical_tokens = 0,
      hs_context_allocation_mb = 0,
      hs_reclaimable_weights_mb = vc_reclaimable_mb vc,
      hs_mmproj_size_mb = 0,
      hs_swa_full = vc_swa_full vc,
      sv_kv_quality = verified_kv_quality vc,
      sv_gpu_layers = 999,
      sv_mmap_capability = vc_mmap_capability vc,
      sv_mmap_evidence = vc_mmap_evidence vc,
      sv_batch_tuned = vc_batch_tuned vc,
      sv_performance_tuned = vc_performance_tuned vc \<and> vc_evidence_schema vc = calibration_schema_version,
      sv_use_cuda_graphs = vc_use_cuda_graphs vc,
      sv_no_jinja = vc_no_jinja vc,
      sv_cache_hit = False\<rparr>"

text \<open>The knobs the request owns.\<close>

definition replay_parallel :: "verified_config \<Rightarrow> replay_options \<Rightarrow> int" where
  "replay_parallel vc opts =
     (if ro_auto_parallel opts \<and> vc_parallel vc > 0 then vc_parallel vc
      else if ro_parallel opts > 0 then ro_parallel opts
      else if vc_parallel vc > 0 then vc_parallel vc else 0)"

definition with_request :: "verified_config \<Rightarrow> replay_options \<Rightarrow> served_strategy \<Rightarrow> served_strategy" where
  "with_request vc opts s =
     s\<lparr>s_parallel := replay_parallel vc opts,
       pl_batch_size := (if ro_batch_size opts > 0 then ro_batch_size opts else vc_batch_size vc),
       pl_ubatch_size := (if ro_ubatch_size opts > 0 then ro_ubatch_size opts else vc_ubatch_size vc),
       la_threads := (if ro_threads opts > 0 then ro_threads opts else la_threads s),
       la_threads_batch := (if ro_threads opts > 0 then ro_threads opts else la_threads_batch s),
       la_host := (if ro_address opts \<noteq> [] then ro_address opts else la_host s),
       pl_mmap := (if ho_force_mmap (ro_host opts) then True
                   else if ho_no_mmap (ro_host opts) then False else pl_mmap s),
       sv_mmap_capability := (if ho_mmap_capability (ro_host opts) \<noteq> [] then ho_mmap_capability (ro_host opts)
                              else sv_mmap_capability s),
       sv_mmap_evidence := (if ho_mmap_capability (ro_host opts) \<noteq> [] then ho_mmap_evidence (ro_host opts)
                            else sv_mmap_evidence s)\<rparr>"

definition with_machine :: "capabilities option \<Rightarrow> served_strategy \<Rightarrow> served_strategy" where
  "with_machine caps s =
     (case caps of
        None \<Rightarrow> s
      | Some c \<Rightarrow>
          s\<lparr>la_threads := (if la_threads s \<le> 0 then cpu_cores (c_cpu c) else la_threads s),
            la_threads_batch := (if la_threads_batch s \<le> 0 then cpu_cores (c_cpu c) else la_threads_batch s)\<rparr>)"

definition local_host :: "served_strategy \<Rightarrow> served_strategy" where
  "local_host s = (if la_host s = [] then s\<lparr>la_host := ''127.0.0.1''\<rparr> else s)"

definition verified_to_strategy ::
  "verified_config \<Rightarrow> replay_options \<Rightarrow> capabilities option \<Rightarrow> served_strategy" where
  "verified_to_strategy vc opts caps =
     configure_cpu_affinity caps (ro_help opts)
       (with_machine caps (local_host
         (with_dialect (ro_help opts) (ho_backend_tag (ro_host opts))
           (with_request vc opts (recorded_strategy vc)))))"

section \<open>The store\<close>

datatype verified_error = VerifiedMissing | VerifiedUnreadable | VerifiedScopeMismatch

definition verified_config_path :: "string \<Rightarrow> string \<Rightarrow> string \<Rightarrow> string" where
  "verified_config_path home cache_dir scope_key =
     path_join [if cache_dir = [] then path_join [home, ''.cache'', ''ggrun''] else cache_dir,
       ''verified-configs'', ''verified-'' @ take 12 scope_key @ ''.json'']"

text \<open>What is written; \<open>now\<close> is the formatted clock.\<close>

definition saved_record :: "string \<Rightarrow> verified_config \<Rightarrow> verified_config" where
  "saved_record now vc =
     vc\<lparr>vc_schema_version := (if vc_schema_version vc = 0 then verified_schema_version else vc_schema_version vc),
        vc_measured_at := (if vc_measured_at vc = [] then now else vc_measured_at vc)\<rparr>"

definition load_verified_config :: "verified_error + verified_config \<Rightarrow> string \<Rightarrow> verified_error + verified_config" where
  "load_verified_config decoded scope_key =
     (case decoded of
        Inl e \<Rightarrow> Inl e
      | Inr vc \<Rightarrow>
          if vc_schema_version vc \<noteq> verified_schema_version \<or> vc_scope_key vc \<noteq> scope_key
          then Inl VerifiedScopeMismatch else Inr vc)"

text \<open>The device and the two readings the message names; the source takes any stale one of the map.\<close>

definition verified_config_stale :: "verified_config \<Rightarrow> capabilities option \<Rightarrow> (int \<times> int \<times> int) option" where
  "verified_config_stale vc caps =
     (case caps of
        None \<Rightarrow> None
      | Some c \<Rightarrow>
          first_some (\<lambda>(idx, planned).
            case List.find (\<lambda>g. g_index g = idx \<and> vram_free_mb g > planned + plan_free_vram_slack_mb) (c_gpus c) of
              None \<Rightarrow> None
            | Some g \<Rightarrow> Some (idx, vram_free_mb g, planned)) (vc_plan_free_vram vc))"

definition rebuild_ot_string :: "verified_config \<Rightarrow> int \<Rightarrow> string" where
  "rebuild_ot_string vc num_layers =
     (if vc_gpu_assignments vc = [] \<or> num_layers \<le> 0 then []
      else build_ot_string_from_assignments (vc_gpu_assignments vc) (vc_backend_tag vc))"

section \<open>The direct start\<close>

definition with_batches :: "served_strategy \<Rightarrow> host_strategy \<Rightarrow> served_strategy" where
  "with_batches s h =
     s\<lparr>pl_batch_size := pl_batch_size h, pl_ubatch_size := pl_ubatch_size h,
       la_checkpoint_min_step := la_checkpoint_min_step h\<rparr>"

definition with_caches :: "served_strategy \<Rightarrow> host_strategy \<Rightarrow> served_strategy" where
  "with_caches s h =
     s\<lparr>la_cram := la_cram h, la_max_checkpoints := la_max_checkpoints h,
       la_checkpoint_min_step := la_checkpoint_min_step h\<rparr>"

record prompt_probe =
  pp_entry_mb :: rat
  pp_bytes_per_token :: rat
  pp_checkpoint_mb :: rat

definition load_measured_prompt_cache :: "prompt_probe option \<Rightarrow> served_strategy \<Rightarrow> served_strategy" where
  "load_measured_prompt_cache probe s =
     (case probe of
        None \<Rightarrow> s
      | Some p \<Rightarrow>
          s\<lparr>hs_measured_entry_mb := (if pp_entry_mb p > 0 then pp_entry_mb p else hs_measured_entry_mb s),
            hs_measured_bytes_per_token :=
              (if pp_bytes_per_token p > 0 then pp_bytes_per_token p else hs_measured_bytes_per_token s),
            hs_measured_checkpoint_mb :=
              (if pp_checkpoint_mb p > 0 then pp_checkpoint_mb p else hs_measured_checkpoint_mb s)\<rparr>)"

text \<open>
  The branch of \<^verbatim>\<open>Compute\<close> that starts from a record: \<open>None\<close> to plan from measurements. The stored
  prompt-cache measurement is an argument that may depend on the strategy. \<open>usable\<close> is the condition
  on the skip options and the scope key.
\<close>

definition replay_strategy ::
  "model_profile \<Rightarrow> capabilities \<Rightarrow> replay_options \<Rightarrow> (served_strategy \<Rightarrow> prompt_probe option) \<Rightarrow> int \<Rightarrow> int
     \<Rightarrow> verified_config \<Rightarrow> served_strategy \<Rightarrow> served_strategy" where
  "replay_strategy m caps opts probe total_mb kv vc r0 =
     (let r1 = (if s_type r0 = MoEOffload \<and> pl_ot_string r0 = []
                then r0\<lparr>pl_ot_string := rebuild_ot_string vc (m_num_layers m)\<rparr> else r0);
          r2 = with_batches r1
                 (fst (normalize_batch_sizes (host_strategy.truncate r1) (Some m) (ro_batch_explicit opts) (ro_ubatch_explicit opts)));
          r3 = r2\<lparr>sv_cache_hit := True, s_verified_reused := True\<rparr>;
          r4 = load_measured_prompt_cache (probe r3) r3;
          r5 = (if la_cram r4 = 0 \<and> \<not> vc_cram_set vc then
                  with_caches r4 (apply_runtime_cache_policy m (host_strategy.truncate r4) caps total_mb kv (ro_host opts))
                else if ho_max_checkpoints_set (ro_host opts) then
                  r4\<lparr>la_max_checkpoints := ho_max_checkpoints (ro_host opts)\<rparr>
                else r4)
      in (local_host r5)\<lparr>la_flash_attention := default_flash_attention (s_kv_placement r5)\<rparr>)"

definition verified_replay ::
  "bool \<Rightarrow> verified_error + verified_config \<Rightarrow> string \<Rightarrow> model_profile \<Rightarrow> capabilities \<Rightarrow> replay_options
     \<Rightarrow> (served_strategy \<Rightarrow> prompt_probe option) \<Rightarrow> int \<Rightarrow> int \<Rightarrow> served_strategy option" where
  "verified_replay usable decoded scope_key m caps opts probe total_mb kv =
     (if \<not> usable \<or> scope_key = [] then None
      else case load_verified_config decoded scope_key of
          Inl e \<Rightarrow> None
        | Inr vc \<Rightarrow>
            if verified_config_stale vc (Some caps) \<noteq> None then None
            else
              let r = verified_to_strategy vc opts (Some caps) in
              if \<not> sparse_lookup_record_matches (Some (lookup_strategy.truncate r)) (Some m) (ro_lookup opts) then None
              else Some (replay_strategy m caps opts probe total_mb kv vc r))"

section \<open>The identity of a measured allocation\<close>

definition strategy_type_text :: "strategy_type \<Rightarrow> string" where
  "strategy_type_text t =
     (case t of CPUOnly \<Rightarrow> ''cpu_only'' | SingleGPU \<Rightarrow> ''single_gpu'' | MultiGPUDense \<Rightarrow> ''multi_gpu_dense''
      | DenseCPUOffload \<Rightarrow> ''dense_cpu_offload'' | MoEOffload \<Rightarrow> ''moe_offload'')"

definition go_bool :: "bool \<Rightarrow> string" where
  "go_bool b = (if b then ''true'' else ''false'')"

definition capability_text :: "lookup_capability \<Rightarrow> string" where
  "capability_text c =
     (case c of LookupUnknown \<Rightarrow> ''unknown'' | LookupFileBacked \<Rightarrow> ''file-backed'' | LookupAnonymous \<Rightarrow> ''anonymous'')"

definition draft_type_text :: "draft_type \<Rightarrow> string" where
  "draft_type_text t =
     (case t of DraftNone \<Rightarrow> ''none'' | DraftModel \<Rightarrow> ''draft_model'' | DraftEagle3 \<Rightarrow> ''eagle3''
      | DraftDFlash \<Rightarrow> ''dflash'' | DraftNgram \<Rightarrow> ''ngram'' | DraftMTP \<Rightarrow> ''mtp'')"

definition draft_identity_parts :: "(rat \<Rightarrow> string) \<Rightarrow> (string \<Rightarrow> string) \<Rightarrow> (draft_config \<Rightarrow> string) \<Rightarrow> draft_config \<Rightarrow> string list" where
  "draft_identity_parts fmt companion vram d =
     [draft_type_text (dr_type d), dr_backend_tag d, companion (dr_path d),
      itoa (dr_gpu d), itoa (dr_ctx_size d), dr_kv_type d,
      itoa (dr_threads d), dr_gpu_layers d, vram d,
      go_bool (dr_supports_ctx d), go_bool (dr_spec_autotune d),
      itoa (dr_max d), itoa (dr_min d), fmt (dr_p_split d),
      dr_spec_type d, go_bool (dr_mtp_flag d), itoa (dr_ngram_n d),
      itoa (dr_ngram_m d), itoa (dr_ngram_min_hits d)]"

text \<open>
  The parts that are hashed. \<open>fmt\<close> prints a share, \<open>companion\<close> is \<^verbatim>\<open>SpecCompanionIdentity\<close> (a
  hash of a file's name, size and time), \<open>vram\<close> the printed memory of a draft, which no modelled draft has.
\<close>

definition allocation_identity_parts ::
  "(rat \<Rightarrow> string) \<Rightarrow> (string \<Rightarrow> string) \<Rightarrow> (draft_config \<Rightarrow> string) \<Rightarrow> served_strategy \<Rightarrow> string list" where
  "allocation_identity_parts fmt companion vram s =
     [''allocation-v1'', strategy_type_text (s_type s), itoa (s_context_size s),
      itoa (s_parallel s), itoa (pl_batch_size s), itoa (pl_ubatch_size s),
      s_kv_placement s, sv_kv_quality s, s_kv_type s, la_kv_type_v s,
      itoa (sv_gpu_layers s), join_with '','' (map fmt (pl_tensor_split s)), pl_split_mode s,
      itoa (la_main_gpu s), itoa (pl_n_cpu_moe s), pl_ot_string s,
      go_bool (pl_mmap s), go_bool (s_mmap_required s), go_bool (la_mlock s),
      go_bool (la_flash_attention s), go_bool (hs_swa_full s), go_bool (sv_use_cuda_graphs s),
      itoa (la_cram s), itoa (la_max_checkpoints s), itoa (la_checkpoint_min_step s),
      companion (la_mmproj_path s), itoa (hs_mmproj_size_mb s), la_backend_tag s] @
     opt (la_lookup_mb s > 0)
       [''sparse-lookup'', itoa (la_lookup_mb s), policy_text (la_lookup_policy s),
        capability_text (lk_capability s), la_lookup_flag s] @
     (case la_draft s of None \<Rightarrow> [] | Some d \<Rightarrow> draft_identity_parts fmt companion vram d)"


section \<open>What a record keeps\<close>

text \<open>The strategy a record of \<open>s\<close> is restored to when the request agrees with \<open>s\<close>: these fields are not kept.\<close>

definition forget :: "replay_options \<Rightarrow> string \<Rightarrow> served_strategy \<Rightarrow> served_strategy" where
  "forget opts basename s =
     s\<lparr>pl_model_basename := basename, s_verified_reused := False, lk_evidence := [], lk_ranges := [],
       hs_measured_entry_mb := 0, hs_measured_bytes_per_token := 0, hs_typical_tokens := 0,
       hs_context_allocation_mb := 0, hs_mmproj_size_mb := 0, sv_gpu_layers := 999,
       sv_kv_quality := (if sv_kv_quality s \<noteq> [] then sv_kv_quality s else kv_type_to_quality (s_kv_type s)),
       sv_mmap_capability := (if ho_mmap_capability (ro_host opts) \<noteq> [] then ho_mmap_capability (ro_host opts)
                              else sv_mmap_capability s),
       sv_mmap_evidence := (if ho_mmap_capability (ro_host opts) \<noteq> [] then ho_mmap_evidence (ro_host opts)
                            else sv_mmap_evidence s),
       sv_cache_hit := False\<rparr>"

text \<open>\<open>s\<close> was planned for this backend on this machine, as \<^verbatim>\<open>Compute\<close> plans, and its batches are normalised.\<close>

definition planned_for :: "capabilities \<Rightarrow> replay_options \<Rightarrow> served_strategy \<Rightarrow> bool" where
  "planned_for caps opts s \<longleftrightarrow>
     with_dialect (ro_help opts) (ho_backend_tag (ro_host opts)) s = s \<and>
     configure_cpu_affinity (Some caps) (ro_help opts) s = s \<and>
     la_flash_attention s = default_flash_attention (s_kv_placement s) \<and>
     la_host s \<noteq> [] \<and> la_threads s > 0 \<and> la_threads_batch s > 0 \<and> s_parallel s \<ge> 0 \<and>
     (pl_batch_size s \<le> 0 \<or> pl_ubatch_size s \<le> pl_batch_size s)"

text \<open>What the request names explicitly is what \<open>s\<close> has.\<close>

definition request_agrees :: "replay_options \<Rightarrow> served_strategy \<Rightarrow> bool" where
  "request_agrees opts s \<longleftrightarrow>
     (ro_parallel opts \<le> 0 \<or> ro_parallel opts = s_parallel s \<or> ro_auto_parallel opts \<and> s_parallel s > 0) \<and>
     (ro_batch_size opts \<le> 0 \<or> ro_batch_size opts = pl_batch_size s) \<and>
     (ro_ubatch_size opts \<le> 0 \<or> ro_ubatch_size opts = pl_ubatch_size s) \<and>
     (ro_threads opts \<le> 0 \<or> ro_threads opts = la_threads s \<and> ro_threads opts = la_threads_batch s) \<and>
     (ro_address opts = [] \<or> ro_address opts = la_host s) \<and>
     (ho_force_mmap (ro_host opts) \<longrightarrow> pl_mmap s) \<and>
     (ho_no_mmap (ro_host opts) \<and> \<not> ho_force_mmap (ro_host opts) \<longrightarrow> \<not> pl_mmap s) \<and>
     (ho_max_checkpoints_set (ro_host opts) \<longrightarrow> la_max_checkpoints s = ho_max_checkpoints (ro_host opts))"

definition undialect :: "served_strategy \<Rightarrow> served_strategy" where
  "undialect s =
     s\<lparr>la_supports_fit := False, la_fit_takes_value := False, la_supports_kv_offload := False,
       la_supports_no_context_shift := False, la_min_step_flag := [],
       la_supports_cpu_range := False, la_supports_cpu_range_batch := False, la_supports_cpu_strict_batch := False,
       la_cpu_range := [], la_cpu_strict := False\<rparr>"


lemma record_fields [simp]:
  "vc_schema_version (verified_config_to_record key base s ident path template reviewer) = verified_schema_version"
  "vc_scope_key (verified_config_to_record key base s ident path template reviewer) = key"
  "vc_model_basename (verified_config_to_record key base s ident path template reviewer) = base"
  "vc_strategy_type (verified_config_to_record key base s ident path template reviewer) = s_type s"
  "vc_gpu_assignments (verified_config_to_record key base s ident path template reviewer) = []"
  "vc_ot_string (verified_config_to_record key base s ident path template reviewer) = pl_ot_string s"
  "vc_n_cpu_moe (verified_config_to_record key base s ident path template reviewer) = pl_n_cpu_moe s"
  "vc_tensor_split (verified_config_to_record key base s ident path template reviewer) = pl_tensor_split s"
  "vc_split_mode (verified_config_to_record key base s ident path template reviewer) = pl_split_mode s"
  "vc_main_gpu (verified_config_to_record key base s ident path template reviewer) = la_main_gpu s"
  "vc_context_size (verified_config_to_record key base s ident path template reviewer) = s_context_size s"
  "vc_context_auto (verified_config_to_record key base s ident path template reviewer) = s_context_auto s"
  "vc_context_fit_tier (verified_config_to_record key base s ident path template reviewer) = s_context_fit_tier s"
  "vc_context_fit_rejected (verified_config_to_record key base s ident path template reviewer) = s_context_fit_rejected s"
  "vc_context_fit_evidence (verified_config_to_record key base s ident path template reviewer) = s_context_fit_evidence s"
  "vc_kv_placement (verified_config_to_record key base s ident path template reviewer) = s_kv_placement s"
  "vc_kv_type (verified_config_to_record key base s ident path template reviewer) = s_kv_type s"
  "vc_kv_type_v (verified_config_to_record key base s ident path template reviewer) = la_kv_type_v s"
  "vc_batch_size (verified_config_to_record key base s ident path template reviewer) = pl_batch_size s"
  "vc_ubatch_size (verified_config_to_record key base s ident path template reviewer) = pl_ubatch_size s"
  "vc_batch_tuned (verified_config_to_record key base s ident path template reviewer) = sv_batch_tuned s"
  "vc_performance_tuned (verified_config_to_record key base s ident path template reviewer) = sv_performance_tuned s"
  "vc_evidence_schema (verified_config_to_record key base s ident path template reviewer) = (if sv_performance_tuned s then calibration_schema_version else 0)"
  "vc_parallel (verified_config_to_record key base s ident path template reviewer) = s_parallel s"
  "vc_threads (verified_config_to_record key base s ident path template reviewer) = la_threads s"
  "vc_threads_batch (verified_config_to_record key base s ident path template reviewer) = la_threads_batch s"
  "vc_mmap (verified_config_to_record key base s ident path template reviewer) = pl_mmap s"
  "vc_mmap_required (verified_config_to_record key base s ident path template reviewer) = s_mmap_required s"
  "vc_mlock (verified_config_to_record key base s ident path template reviewer) = la_mlock s"
  "vc_mmap_capability (verified_config_to_record key base s ident path template reviewer) = sv_mmap_capability s"
  "vc_mmap_evidence (verified_config_to_record key base s ident path template reviewer) = sv_mmap_evidence s"
  "vc_reclaimable_mb (verified_config_to_record key base s ident path template reviewer) = hs_reclaimable_weights_mb s"
  "vc_lookup_mb (verified_config_to_record key base s ident path template reviewer) = la_lookup_mb s"
  "vc_lookup_bytes (verified_config_to_record key base s ident path template reviewer) = lk_bytes s"
  "vc_lookup_policy (verified_config_to_record key base s ident path template reviewer) = la_lookup_policy s"
  "vc_lookup_capability (verified_config_to_record key base s ident path template reviewer) = lk_capability s"
  "vc_lookup_flag (verified_config_to_record key base s ident path template reviewer) = la_lookup_flag s"
  "vc_flash_attention (verified_config_to_record key base s ident path template reviewer) = la_flash_attention s"
  "vc_swa_full (verified_config_to_record key base s ident path template reviewer) = hs_swa_full s"
  "vc_cram (verified_config_to_record key base s ident path template reviewer) = la_cram s"
  "vc_cram_set (verified_config_to_record key base s ident path template reviewer) = True"
  "vc_max_checkpoints (verified_config_to_record key base s ident path template reviewer) = la_max_checkpoints s"
  "vc_measured_checkpoint_mb (verified_config_to_record key base s ident path template reviewer) = hs_measured_checkpoint_mb s"
  "vc_checkpoint_min_step (verified_config_to_record key base s ident path template reviewer) = la_checkpoint_min_step s"
  "vc_use_cuda_graphs (verified_config_to_record key base s ident path template reviewer) = sv_use_cuda_graphs s"
  "vc_host (verified_config_to_record key base s ident path template reviewer) = la_host s"
  "vc_no_jinja (verified_config_to_record key base s ident path template reviewer) = sv_no_jinja s"
  "vc_reasoning_off (verified_config_to_record key base s ident path template reviewer) = la_reasoning_off s"
  "vc_has_ssm (verified_config_to_record key base s ident path template reviewer) = la_has_ssm s"
  "vc_is_moe (verified_config_to_record key base s ident path template reviewer) = la_is_moe s"
  "vc_mmproj_path (verified_config_to_record key base s ident path template reviewer) = la_mmproj_path s"
  "vc_draft (verified_config_to_record key base s ident path template reviewer) = la_draft s"
  "vc_backend_tag (verified_config_to_record key base s ident path template reviewer) = la_backend_tag s"
  "vc_backend_identity (verified_config_to_record key base s ident path template reviewer) = ident"
  "vc_backend_path (verified_config_to_record key base s ident path template reviewer) = path"
  "vc_chat_template (verified_config_to_record key base s ident path template reviewer) = template"
  "vc_reviewer (verified_config_to_record key base s ident path template reviewer) = reviewer"
  "vc_plan_free_vram (verified_config_to_record key base s ident path template reviewer) = s_plan_free_vram s"
  "vc_host_footprint_mb (verified_config_to_record key base s ident path template reviewer) = lk_host_footprint_mb s"
  "vc_measured_at (verified_config_to_record key base s ident path template reviewer) = []"
  "vc_kv_quality (verified_config_to_record key base s ident path template reviewer) = sv_kv_quality s"
  by (simp_all add: verified_config_to_record_def)

lemma saved_fields [simp]:
  "vc_scope_key (saved_record now vc) = vc_scope_key vc"
  "vc_model_basename (saved_record now vc) = vc_model_basename vc"
  "vc_strategy_type (saved_record now vc) = vc_strategy_type vc"
  "vc_gpu_assignments (saved_record now vc) = vc_gpu_assignments vc"
  "vc_ot_string (saved_record now vc) = vc_ot_string vc"
  "vc_n_cpu_moe (saved_record now vc) = vc_n_cpu_moe vc"
  "vc_tensor_split (saved_record now vc) = vc_tensor_split vc"
  "vc_split_mode (saved_record now vc) = vc_split_mode vc"
  "vc_main_gpu (saved_record now vc) = vc_main_gpu vc"
  "vc_context_size (saved_record now vc) = vc_context_size vc"
  "vc_context_auto (saved_record now vc) = vc_context_auto vc"
  "vc_context_fit_tier (saved_record now vc) = vc_context_fit_tier vc"
  "vc_context_fit_rejected (saved_record now vc) = vc_context_fit_rejected vc"
  "vc_context_fit_evidence (saved_record now vc) = vc_context_fit_evidence vc"
  "vc_kv_placement (saved_record now vc) = vc_kv_placement vc"
  "vc_kv_type (saved_record now vc) = vc_kv_type vc"
  "vc_kv_type_v (saved_record now vc) = vc_kv_type_v vc"
  "vc_batch_size (saved_record now vc) = vc_batch_size vc"
  "vc_ubatch_size (saved_record now vc) = vc_ubatch_size vc"
  "vc_batch_tuned (saved_record now vc) = vc_batch_tuned vc"
  "vc_performance_tuned (saved_record now vc) = vc_performance_tuned vc"
  "vc_evidence_schema (saved_record now vc) = vc_evidence_schema vc"
  "vc_parallel (saved_record now vc) = vc_parallel vc"
  "vc_threads (saved_record now vc) = vc_threads vc"
  "vc_threads_batch (saved_record now vc) = vc_threads_batch vc"
  "vc_mmap (saved_record now vc) = vc_mmap vc"
  "vc_mmap_required (saved_record now vc) = vc_mmap_required vc"
  "vc_mlock (saved_record now vc) = vc_mlock vc"
  "vc_mmap_capability (saved_record now vc) = vc_mmap_capability vc"
  "vc_mmap_evidence (saved_record now vc) = vc_mmap_evidence vc"
  "vc_reclaimable_mb (saved_record now vc) = vc_reclaimable_mb vc"
  "vc_lookup_mb (saved_record now vc) = vc_lookup_mb vc"
  "vc_lookup_bytes (saved_record now vc) = vc_lookup_bytes vc"
  "vc_lookup_policy (saved_record now vc) = vc_lookup_policy vc"
  "vc_lookup_capability (saved_record now vc) = vc_lookup_capability vc"
  "vc_lookup_flag (saved_record now vc) = vc_lookup_flag vc"
  "vc_flash_attention (saved_record now vc) = vc_flash_attention vc"
  "vc_swa_full (saved_record now vc) = vc_swa_full vc"
  "vc_cram (saved_record now vc) = vc_cram vc"
  "vc_cram_set (saved_record now vc) = vc_cram_set vc"
  "vc_max_checkpoints (saved_record now vc) = vc_max_checkpoints vc"
  "vc_measured_checkpoint_mb (saved_record now vc) = vc_measured_checkpoint_mb vc"
  "vc_checkpoint_min_step (saved_record now vc) = vc_checkpoint_min_step vc"
  "vc_use_cuda_graphs (saved_record now vc) = vc_use_cuda_graphs vc"
  "vc_host (saved_record now vc) = vc_host vc"
  "vc_no_jinja (saved_record now vc) = vc_no_jinja vc"
  "vc_reasoning_off (saved_record now vc) = vc_reasoning_off vc"
  "vc_has_ssm (saved_record now vc) = vc_has_ssm vc"
  "vc_is_moe (saved_record now vc) = vc_is_moe vc"
  "vc_mmproj_path (saved_record now vc) = vc_mmproj_path vc"
  "vc_draft (saved_record now vc) = vc_draft vc"
  "vc_backend_tag (saved_record now vc) = vc_backend_tag vc"
  "vc_backend_identity (saved_record now vc) = vc_backend_identity vc"
  "vc_backend_path (saved_record now vc) = vc_backend_path vc"
  "vc_chat_template (saved_record now vc) = vc_chat_template vc"
  "vc_reviewer (saved_record now vc) = vc_reviewer vc"
  "vc_plan_free_vram (saved_record now vc) = vc_plan_free_vram vc"
  "vc_host_footprint_mb (saved_record now vc) = vc_host_footprint_mb vc"
  "vc_kv_quality (saved_record now vc) = vc_kv_quality vc"
  "vc_schema_version (saved_record now vc) = (if vc_schema_version vc = 0 then verified_schema_version else vc_schema_version vc)"
  by (simp_all add: saved_record_def)

lemma recorded_fields [simp]:
  "s_type (recorded_strategy vc) = vc_strategy_type vc"
  "s_context_size (recorded_strategy vc) = vc_context_size vc"
  "s_kv_placement (recorded_strategy vc) = vc_kv_placement vc"
  "s_kv_type (recorded_strategy vc) = vc_kv_type vc"
  "s_mmap_required (recorded_strategy vc) = vc_mmap_required vc"
  "s_parallel (recorded_strategy vc) = (0)"
  "s_plan_free_vram (recorded_strategy vc) = vc_plan_free_vram vc"
  "s_verified_reused (recorded_strategy vc) = (False)"
  "s_context_auto (recorded_strategy vc) = vc_context_auto vc"
  "s_context_fit_tier (recorded_strategy vc) = vc_context_fit_tier vc"
  "s_context_fit_rejected (recorded_strategy vc) = vc_context_fit_rejected vc"
  "s_context_fit_evidence (recorded_strategy vc) = vc_context_fit_evidence vc"
  "pl_ot_string (recorded_strategy vc) = vc_ot_string vc"
  "pl_tensor_split (recorded_strategy vc) = vc_tensor_split vc"
  "pl_split_mode (recorded_strategy vc) = vc_split_mode vc"
  "pl_n_cpu_moe (recorded_strategy vc) = vc_n_cpu_moe vc"
  "pl_batch_size (recorded_strategy vc) = vc_batch_size vc"
  "pl_ubatch_size (recorded_strategy vc) = vc_ubatch_size vc"
  "pl_mmap (recorded_strategy vc) = vc_mmap vc"
  "pl_model_basename (recorded_strategy vc) = vc_model_basename vc"
  "la_host (recorded_strategy vc) = vc_host vc"
  "la_flash_attention (recorded_strategy vc) = vc_flash_attention vc"
  "la_kv_type_v (recorded_strategy vc) = vc_kv_type_v vc"
  "la_threads (recorded_strategy vc) = vc_threads vc"
  "la_threads_batch (recorded_strategy vc) = vc_threads_batch vc"
  "la_cpu_range (recorded_strategy vc) = ([])"
  "la_cpu_strict (recorded_strategy vc) = (False)"
  "la_supports_cpu_range (recorded_strategy vc) = (False)"
  "la_supports_cpu_range_batch (recorded_strategy vc) = (False)"
  "la_supports_cpu_strict_batch (recorded_strategy vc) = (False)"
  "la_supports_kv_offload (recorded_strategy vc) = (False)"
  "la_reasoning_off (recorded_strategy vc) = vc_reasoning_off vc"
  "la_has_ssm (recorded_strategy vc) = vc_has_ssm vc"
  "la_supports_no_context_shift (recorded_strategy vc) = (False)"
  "la_mmproj_path (recorded_strategy vc) = vc_mmproj_path vc"
  "la_supports_fit (recorded_strategy vc) = (False)"
  "la_fit_takes_value (recorded_strategy vc) = (False)"
  "la_main_gpu (recorded_strategy vc) = vc_main_gpu vc"
  "la_backend_tag (recorded_strategy vc) = vc_backend_tag vc"
  "la_mlock (recorded_strategy vc) = vc_mlock vc"
  "la_cram (recorded_strategy vc) = vc_cram vc"
  "la_max_checkpoints (recorded_strategy vc) = vc_max_checkpoints vc"
  "la_checkpoint_min_step (recorded_strategy vc) = vc_checkpoint_min_step vc"
  "la_min_step_flag (recorded_strategy vc) = ([])"
  "la_is_moe (recorded_strategy vc) = vc_is_moe vc"
  "la_draft (recorded_strategy vc) = vc_draft vc"
  "la_lookup_mb (recorded_strategy vc) = vc_lookup_mb vc"
  "la_lookup_flag (recorded_strategy vc) = vc_lookup_flag vc"
  "la_lookup_policy (recorded_strategy vc) = vc_lookup_policy vc"
  "lk_bytes (recorded_strategy vc) = vc_lookup_bytes vc"
  "lk_capability (recorded_strategy vc) = vc_lookup_capability vc"
  "lk_evidence (recorded_strategy vc) = ([])"
  "lk_ranges (recorded_strategy vc) = ([])"
  "lk_host_footprint_mb (recorded_strategy vc) = vc_host_footprint_mb vc"
  "hs_measured_checkpoint_mb (recorded_strategy vc) = vc_measured_checkpoint_mb vc"
  "hs_measured_entry_mb (recorded_strategy vc) = (0)"
  "hs_measured_bytes_per_token (recorded_strategy vc) = (0)"
  "hs_typical_tokens (recorded_strategy vc) = (0)"
  "hs_context_allocation_mb (recorded_strategy vc) = (0)"
  "hs_reclaimable_weights_mb (recorded_strategy vc) = vc_reclaimable_mb vc"
  "hs_mmproj_size_mb (recorded_strategy vc) = (0)"
  "hs_swa_full (recorded_strategy vc) = vc_swa_full vc"
  "sv_kv_quality (recorded_strategy vc) = (verified_kv_quality vc)"
  "sv_gpu_layers (recorded_strategy vc) = (999)"
  "sv_mmap_capability (recorded_strategy vc) = vc_mmap_capability vc"
  "sv_mmap_evidence (recorded_strategy vc) = vc_mmap_evidence vc"
  "sv_batch_tuned (recorded_strategy vc) = vc_batch_tuned vc"
  "sv_performance_tuned (recorded_strategy vc) = (vc_performance_tuned vc \<and> vc_evidence_schema vc = calibration_schema_version)"
  "sv_use_cuda_graphs (recorded_strategy vc) = vc_use_cuda_graphs vc"
  "sv_no_jinja (recorded_strategy vc) = vc_no_jinja vc"
  "sv_cache_hit (recorded_strategy vc) = (False)"
  by (simp_all only: recorded_strategy_def served_strategy.select_convs host_strategy.select_convs lookup_strategy.select_convs
      launch_strategy.select_convs placed_strategy.select_convs plan_strategy.select_convs)

lemma with_request_record:
  assumes "request_agrees opts s" "s_parallel s \<ge> 0"
    and v: "vc = saved_record now (verified_config_to_record key base s ident path template reviewer)"
  shows "with_request vc opts (recorded_strategy vc) = undialect (forget opts base s)"
proof -
  have par: "replay_parallel vc opts = s_parallel s"
    using assms(1,2) by (auto simp: replay_parallel_def request_agrees_def v)
  have batch: "(if ro_batch_size opts > 0 then ro_batch_size opts else pl_batch_size s) = pl_batch_size s"
    and ubatch: "(if ro_ubatch_size opts > 0 then ro_ubatch_size opts else pl_ubatch_size s) = pl_ubatch_size s"
    and threads: "(if ro_threads opts > 0 then ro_threads opts else la_threads s) = la_threads s"
      "(if ro_threads opts > 0 then ro_threads opts else la_threads_batch s) = la_threads_batch s"
    and address: "(if ro_address opts \<noteq> [] then ro_address opts else la_host s) = la_host s"
    and mmap: "(if ho_force_mmap (ro_host opts) then True
                else if ho_no_mmap (ro_host opts) then False else pl_mmap s) = pl_mmap s"
    using assms(1) by (auto simp: request_agrees_def)
  have tuned: "(sv_performance_tuned s \<and>
      (if sv_performance_tuned s then calibration_schema_version else 0) = calibration_schema_version) = sv_performance_tuned s"
    by auto
  show ?thesis
    by (rule served_strategy.equality)
      (simp_all add: with_request_def undialect_def forget_def par [unfolded v] v batch ubatch threads address mmap tuned
        verified_kv_quality_def del: if_split cong: if_cong)
qed

lemma dialect_restored:
  assumes "planned_for caps opts s"
  shows "configure_cpu_affinity (Some caps) (ro_help opts)
      (with_machine (Some caps) (local_host
        (with_dialect (ro_help opts) (ho_backend_tag (ro_host opts)) (undialect (forget opts base s))))) =
    forget opts base s"
proof -
  let ?probe_text = "ro_help opts" and ?tag = "ho_backend_tag (ro_host opts)"
  have d: "with_dialect ?probe_text ?tag s = s" and a: "configure_cpu_affinity (Some caps) ?probe_text s = s"
    and h: "la_host s \<noteq> []" and t: "la_threads s > 0" "la_threads_batch s > 0"
    using assms by (auto simp: planned_for_def)
  have df: "la_supports_fit s = backend_help_supports ?probe_text ''-fit''"
    "la_fit_takes_value s = backend_fit_takes_value ?probe_text"
    "la_supports_kv_offload s = backend_help_supports ?probe_text ''--kv-offload''"
    "la_supports_no_context_shift s = backend_help_supports_exact_flag ?probe_text ''--no-context-shift''"
    "la_min_step_flag s = backend_checkpoint_min_step_flag ?probe_text ?tag"
    using arg_cong [OF d, of la_supports_fit] arg_cong [OF d, of la_fit_takes_value]
      arg_cong [OF d, of la_supports_kv_offload] arg_cong [OF d, of la_supports_no_context_shift]
      arg_cong [OF d, of la_min_step_flag]
    by (simp_all add: with_dialect_def)
  let ?range = "if backend_help_supports_exact_flag ?probe_text ''--cpu-range''
    then compact_cpu_range (physical_ids (c_cpu caps)) else []"
  have af: "la_supports_cpu_range s = backend_help_supports_exact_flag ?probe_text ''--cpu-range''"
    "la_supports_cpu_range_batch s = backend_help_supports_exact_flag ?probe_text ''--cpu-range-batch''"
    "la_supports_cpu_strict_batch s = backend_help_supports_exact_flag ?probe_text ''--cpu-strict-batch''"
    "la_cpu_range s = ?range"
    "la_cpu_strict s = (?range \<noteq> [] \<and> backend_help_supports_exact_flag ?probe_text ''--cpu-strict'')"
    using arg_cong [OF a, of la_supports_cpu_range] arg_cong [OF a, of la_supports_cpu_range_batch]
      arg_cong [OF a, of la_supports_cpu_strict_batch] arg_cong [OF a, of la_cpu_range] arg_cong [OF a, of la_cpu_strict]
    by (simp_all add: configure_cpu_affinity_def Let_def del: if_split)
  let ?u = "undialect (forget opts base s)"
  have f: "la_host (with_dialect ?probe_text ?tag ?u) = la_host s" "la_threads (with_dialect ?probe_text ?tag ?u) = la_threads s"
    "la_threads_batch (with_dialect ?probe_text ?tag ?u) = la_threads_batch s"
    by (simp_all add: with_dialect_def undialect_def forget_def)
  have l: "local_host (with_dialect ?probe_text ?tag ?u) = with_dialect ?probe_text ?tag ?u"
    using h by (simp add: local_host_def f)
  have m: "with_machine (Some caps) (with_dialect ?probe_text ?tag ?u) = with_dialect ?probe_text ?tag ?u"
    using t by (intro served_strategy.equality) (simp_all add: with_machine_def f)
  show ?thesis unfolding l m
    by (rule served_strategy.equality)
      (simp_all add: configure_cpu_affinity_def with_dialect_def undialect_def forget_def Let_def df af del: if_split)
qed

lemma record_restored:
  assumes "planned_for caps opts s" "request_agrees opts s"
    "vc = saved_record now (verified_config_to_record key base s ident path template reviewer)"
  shows "verified_to_strategy vc opts (Some caps) = forget opts base s"
proof -
  have "s_parallel s \<ge> 0" using assms(1) by (simp add: planned_for_def)
  then show ?thesis
    by (simp add: verified_to_strategy_def with_request_record [OF assms(2) _ assms(3)] dialect_restored [OF assms(1)])
qed

lemma forget_fields [simp]:
  "s_type (forget opts base s) = s_type s"
  "s_context_size (forget opts base s) = s_context_size s"
  "s_kv_placement (forget opts base s) = s_kv_placement s"
  "s_kv_type (forget opts base s) = s_kv_type s"
  "s_mmap_required (forget opts base s) = s_mmap_required s"
  "s_parallel (forget opts base s) = s_parallel s"
  "s_plan_free_vram (forget opts base s) = s_plan_free_vram s"
  "s_context_auto (forget opts base s) = s_context_auto s"
  "s_context_fit_tier (forget opts base s) = s_context_fit_tier s"
  "s_context_fit_rejected (forget opts base s) = s_context_fit_rejected s"
  "s_context_fit_evidence (forget opts base s) = s_context_fit_evidence s"
  "pl_ot_string (forget opts base s) = pl_ot_string s"
  "pl_tensor_split (forget opts base s) = pl_tensor_split s"
  "pl_split_mode (forget opts base s) = pl_split_mode s"
  "pl_n_cpu_moe (forget opts base s) = pl_n_cpu_moe s"
  "pl_batch_size (forget opts base s) = pl_batch_size s"
  "pl_ubatch_size (forget opts base s) = pl_ubatch_size s"
  "pl_mmap (forget opts base s) = pl_mmap s"
  "la_host (forget opts base s) = la_host s"
  "la_flash_attention (forget opts base s) = la_flash_attention s"
  "la_kv_type_v (forget opts base s) = la_kv_type_v s"
  "la_threads (forget opts base s) = la_threads s"
  "la_threads_batch (forget opts base s) = la_threads_batch s"
  "la_cpu_range (forget opts base s) = la_cpu_range s"
  "la_cpu_strict (forget opts base s) = la_cpu_strict s"
  "la_supports_cpu_range (forget opts base s) = la_supports_cpu_range s"
  "la_supports_cpu_range_batch (forget opts base s) = la_supports_cpu_range_batch s"
  "la_supports_cpu_strict_batch (forget opts base s) = la_supports_cpu_strict_batch s"
  "la_supports_kv_offload (forget opts base s) = la_supports_kv_offload s"
  "la_reasoning_off (forget opts base s) = la_reasoning_off s"
  "la_has_ssm (forget opts base s) = la_has_ssm s"
  "la_supports_no_context_shift (forget opts base s) = la_supports_no_context_shift s"
  "la_mmproj_path (forget opts base s) = la_mmproj_path s"
  "la_supports_fit (forget opts base s) = la_supports_fit s"
  "la_fit_takes_value (forget opts base s) = la_fit_takes_value s"
  "la_main_gpu (forget opts base s) = la_main_gpu s"
  "la_backend_tag (forget opts base s) = la_backend_tag s"
  "la_mlock (forget opts base s) = la_mlock s"
  "la_cram (forget opts base s) = la_cram s"
  "la_max_checkpoints (forget opts base s) = la_max_checkpoints s"
  "la_checkpoint_min_step (forget opts base s) = la_checkpoint_min_step s"
  "la_min_step_flag (forget opts base s) = la_min_step_flag s"
  "la_is_moe (forget opts base s) = la_is_moe s"
  "la_draft (forget opts base s) = la_draft s"
  "la_lookup_mb (forget opts base s) = la_lookup_mb s"
  "la_lookup_flag (forget opts base s) = la_lookup_flag s"
  "la_lookup_policy (forget opts base s) = la_lookup_policy s"
  "lk_bytes (forget opts base s) = lk_bytes s"
  "lk_capability (forget opts base s) = lk_capability s"
  "lk_host_footprint_mb (forget opts base s) = lk_host_footprint_mb s"
  "hs_measured_checkpoint_mb (forget opts base s) = hs_measured_checkpoint_mb s"
  "hs_reclaimable_weights_mb (forget opts base s) = hs_reclaimable_weights_mb s"
  "hs_swa_full (forget opts base s) = hs_swa_full s"
  "sv_batch_tuned (forget opts base s) = sv_batch_tuned s"
  "sv_performance_tuned (forget opts base s) = sv_performance_tuned s"
  "sv_use_cuda_graphs (forget opts base s) = sv_use_cuda_graphs s"
  "sv_no_jinja (forget opts base s) = sv_no_jinja s"
  by (simp_all add: forget_def)

lemma batches_kept: "with_batches s (host_strategy.truncate s) = s"
  by (rule served_strategy.equality) (simp_all add: with_batches_def host_strategy.defs)

text \<open>The direct start only adds what the prompt cache measured.\<close>

lemma replay_forget:
  assumes "planned_for caps opts s" "request_agrees opts s"
    "vc = saved_record now (verified_config_to_record key base s ident path template reviewer)"
  obtains e b c where "replay_strategy m caps opts probe total_mb kv vc (forget opts base s) =
    (forget opts base s)\<lparr>sv_cache_hit := True, s_verified_reused := True,
      hs_measured_entry_mb := e, hs_measured_bytes_per_token := b, hs_measured_checkpoint_mb := c\<rparr>"
proof -
  let ?r0 = "forget opts base s"
  have p: "pl_batch_size s \<le> 0 \<or> pl_ubatch_size s \<le> pl_batch_size s" "la_host s \<noteq> []"
      "la_flash_attention s = default_flash_attention (s_kv_placement s)"
    using assms(1) by (auto simp: planned_for_def)
  have "rebuild_ot_string vc (m_num_layers m) = []" by (simp add: rebuild_ot_string_def assms(3))
  then have 1: "(if s_type ?r0 = MoEOffload \<and> pl_ot_string ?r0 = []
      then ?r0\<lparr>pl_ot_string := rebuild_ot_string vc (m_num_layers m)\<rparr> else ?r0) = ?r0"
    by (auto intro!: served_strategy.equality)
  have "fst (normalize_batch_sizes (host_strategy.truncate ?r0) (Some m) x y) = host_strategy.truncate ?r0" for x y
    using p(1) by (auto simp: normalize_batch_sizes_def host_strategy.defs)
  then have 2: "with_batches ?r0 (fst (normalize_batch_sizes (host_strategy.truncate ?r0) (Some m)
      (ro_batch_explicit opts) (ro_ubatch_explicit opts))) = ?r0"
    by (simp add: batches_kept)
  define r3 where "r3 = ?r0\<lparr>sv_cache_hit := True, s_verified_reused := True\<rparr>"
  obtain e b c where 4: "load_measured_prompt_cache (probe r3) r3 =
      r3\<lparr>hs_measured_entry_mb := e, hs_measured_bytes_per_token := b, hs_measured_checkpoint_mb := c\<rparr>"
  proof (cases "probe r3")
    case None
    then show ?thesis
      by (intro that [where e = "hs_measured_entry_mb r3" and b = "hs_measured_bytes_per_token r3" and c = "hs_measured_checkpoint_mb r3"])
        (simp add: load_measured_prompt_cache_def)
  next
    case (Some x)
    then show ?thesis by (intro that) (simp add: load_measured_prompt_cache_def)
  qed
  define r4 where "r4 = r3\<lparr>hs_measured_entry_mb := e, hs_measured_bytes_per_token := b, hs_measured_checkpoint_mb := c\<rparr>"
  have f4: "la_max_checkpoints r4 = la_max_checkpoints s" "la_host r4 = la_host s" "s_kv_placement r4 = s_kv_placement s"
      "la_flash_attention r4 = la_flash_attention s"
    by (simp_all add: r4_def r3_def)
  have "ho_max_checkpoints_set (ro_host opts) \<longrightarrow> la_max_checkpoints r4 = ho_max_checkpoints (ro_host opts)"
    using assms(2) by (simp add: request_agrees_def f4)
  then have 5: "(if la_cram r4 = 0 \<and> \<not> vc_cram_set vc then
        with_caches r4 (apply_runtime_cache_policy m (host_strategy.truncate r4) caps total_mb kv (ro_host opts))
      else if ho_max_checkpoints_set (ro_host opts) then
        r4\<lparr>la_max_checkpoints := ho_max_checkpoints (ro_host opts)\<rparr>
      else r4) = r4"
    by (auto simp: assms(3) intro!: served_strategy.equality)
  have 6: "(local_host r4)\<lparr>la_flash_attention := default_flash_attention (s_kv_placement r4)\<rparr> = r4"
    using p by (intro served_strategy.equality) (simp_all add: local_host_def f4)
  have "replay_strategy m caps opts probe total_mb kv vc ?r0 = r4"
    by (simp only: replay_strategy_def Let_def 1 2 r3_def [symmetric] 4 r4_def [symmetric] 5 6)
  then show ?thesis by (intro that) (simp add: r4_def r3_def)
qed

section \<open>The command line and the identity of a restored plan\<close>

lemma find_case_None:
  "(case List.find P xs of None \<Rightarrow> None | Some x \<Rightarrow> Some (f x)) = None \<longleftrightarrow> (\<forall>x \<in> set xs. \<not> P x)"
proof -
  have "(\<forall>x \<in> set xs. \<not> P x) \<longleftrightarrow> List.find P xs = None" by (auto simp: find_None_iff)
  then show ?thesis by (simp split: option.split)
qed

lemma not_stale:
  "verified_config_stale vc (Some caps) = None \<longleftrightarrow>
    (\<forall>(i, planned) \<in> set (vc_plan_free_vram vc). \<forall>g \<in> set (c_gpus caps).
      g_index g = i \<longrightarrow> vram_free_mb g \<le> planned + plan_free_vram_slack_mb)"
  by (auto simp: verified_config_stale_def first_some_None find_case_None not_less)

lemma lookup_items_ignore: "sparse_lookup_items (s\<lparr>s_verified_reused := b\<rparr>) = sparse_lookup_items s"
  by (cases "la_lookup_policy s") (simp_all add: sparse_lookup_items_def)

lemma items_ignore:
  "strategy_args (s\<lparr>s_verified_reused := b\<rparr>) model port = strategy_args s model port"
  by (simp add: strategy_args_def strategy_items_def cpu_range_items_def offload_items_def checkpoint_items_def
      ik_items_def lookup_items_ignore v_cache_type_def)

definition launch_args :: "served_strategy \<Rightarrow> string \<Rightarrow> int \<Rightarrow> argv" where
  "launch_args s model port = strategy_args (launch_strategy.truncate s) model port"

lemma restored_args:
  assumes "base = pl_model_basename s"
  shows "launch_args ((forget opts base s)\<lparr>sv_cache_hit := True, s_verified_reused := True,
      hs_measured_entry_mb := e, hs_measured_bytes_per_token := b, hs_measured_checkpoint_mb := c\<rparr>) model port =
    launch_args s model port"
proof -
  have "launch_strategy.truncate ((forget opts base s)\<lparr>sv_cache_hit := True, s_verified_reused := True,
      hs_measured_entry_mb := e, hs_measured_bytes_per_token := b, hs_measured_checkpoint_mb := c\<rparr>) =
    (launch_strategy.truncate s)\<lparr>s_verified_reused := True\<rparr>"
    using assms by (simp add: forget_def launch_strategy.defs)
  then show ?thesis by (simp add: launch_args_def items_ignore)
qed

lemma replay_of_record:
  assumes "planned_for caps opts s" "request_agrees opts s"
    "vc = saved_record now (verified_config_to_record key base s ident path template reviewer)"
  shows "verified_replay usable (Inr vc) key m caps opts probe total_mb kv =
    (if usable \<and> key \<noteq> [] \<and>
        (\<forall>(i, planned) \<in> set (s_plan_free_vram s). \<forall>g \<in> set (c_gpus caps).
           g_index g = i \<longrightarrow> vram_free_mb g \<le> planned + plan_free_vram_slack_mb) \<and>
        (m_sparse_lookup_bytes m \<le> 0 \<or> la_lookup_policy s = lo_policy (ro_lookup opts) \<and>
           la_lookup_mb s = bytes_to_mib_ceil (m_sparse_lookup_bytes m))
     then Some (replay_strategy m caps opts probe total_mb kv vc (forget opts base s)) else None)"
proof -
  have st: "(verified_config_stale vc (Some caps) = None) = (\<forall>(i, planned) \<in> set (s_plan_free_vram s). \<forall>g \<in> set (c_gpus caps).
           g_index g = i \<longrightarrow> vram_free_mb g \<le> planned + plan_free_vram_slack_mb)"
    unfolding not_stale by (simp add: assms(3))
  have lk: "sparse_lookup_record_matches (Some (lookup_strategy.truncate (forget opts base s))) (Some m) (ro_lookup opts) =
      (m_sparse_lookup_bytes m \<le> 0 \<or> la_lookup_policy s = lo_policy (ro_lookup opts) \<and>
           la_lookup_mb s = bytes_to_mib_ceil (m_sparse_lookup_bytes m))"
    by (simp add: sparse_lookup_record_matches_def lookup_strategy.defs)
  have ld: "load_verified_config (Inr vc) key = Inr vc"
    by (simp add: load_verified_config_def assms(3) verified_schema_version_def)
  show ?thesis
    by (simp add: verified_replay_def ld record_restored [OF assms] st lk del: if_split split del: if_split cong: if_cong)
      auto
qed

section \<open>Properties\<close>


lemma itoa_inject [simp]: "itoa a = itoa b \<longleftrightarrow> a = b"
  by (metis atoi_parse_itoa option.inject)

text \<open>
  C36: A restored plan does not find its own measurements. The identity under which a measured allocation is
  recognised contains the memory of the vision projector and the number of layers asked of the devices;
  the record keeps neither. So the identity of the restored plan is that of the plan that served exactly
  when the projector has no size and the layers are the default.
\<close>

theorem restored_plan_identity:
  assumes "planned_for caps opts s" "request_agrees opts s" "sv_kv_quality s \<noteq> []"
    "verified_replay usable
      (Inr (saved_record now (verified_config_to_record key base s ident path template reviewer)))
      key m caps opts probe total_mb kv = Some r"
  shows "allocation_identity_parts fmt companion vram r = allocation_identity_parts fmt companion vram s \<longleftrightarrow>
    hs_mmproj_size_mb s = 0 \<and> sv_gpu_layers s = 999"
proof -
  let ?vc = "saved_record now (verified_config_to_record key base s ident path template reviewer)"
  obtain e b c where r: "replay_strategy m caps opts probe total_mb kv ?vc (forget opts base s) =
    (forget opts base s)\<lparr>sv_cache_hit := True, s_verified_reused := True,
      hs_measured_entry_mb := e, hs_measured_bytes_per_token := b, hs_measured_checkpoint_mb := c\<rparr>"
    by (rule replay_forget [OF assms(1,2) refl])
  have "r = (forget opts base s)\<lparr>sv_cache_hit := True, s_verified_reused := True,
      hs_measured_entry_mb := e, hs_measured_bytes_per_token := b, hs_measured_checkpoint_mb := c\<rparr>"
    using assms(4) unfolding replay_of_record [OF assms(1,2) refl] r by (simp split: if_splits)
  then show ?thesis using assms(3)
    by (auto simp: allocation_identity_parts_def) (simp_all add: forget_def)
qed

section \<open>Witnesses\<close>

definition demo_replay :: replay_options where
  "demo_replay =
     \<lparr>ro_host = demo_host_options, ro_lookup = demo_lookup_options, ro_auto_parallel = False, ro_parallel = 0,
      ro_batch_size = 0, ro_ubatch_size = 0, ro_batch_explicit = False, ro_ubatch_explicit = False,
      ro_threads = 0, ro_address = [], ro_help = ''--cpu-range M-N --fit [on|off]''\<rparr>"

definition demo_saved_plan :: served_strategy where
  "demo_saved_plan =
     (host_strategy.extend demo_host_strategy (served_strategy.fields ''mid'' 999 [] [] False False False False False))
       \<lparr>la_host := ''0.0.0.0'', pl_mmap := True, hs_mmproj_size_mb := 900\<rparr>"

definition demo_served :: served_strategy where
  "demo_served =
     configure_cpu_affinity (Some (demo_caps [demo_device 1000])) (ro_help demo_replay)
       (with_dialect (ro_help demo_replay) (ho_backend_tag (ro_host demo_replay)) demo_saved_plan)"

lemma demo_served_fields:
  "hs_mmproj_size_mb demo_served = 900" "sv_kv_quality demo_served = ''mid''" "s_plan_free_vram demo_served = [(0, 9)]"
  "pl_mmap demo_served" "la_host demo_served = ''0.0.0.0''" "la_threads demo_served = 3" "la_threads_batch demo_served = 3"
  "s_parallel demo_served = 0" "pl_batch_size demo_served = 4" "pl_ubatch_size demo_served = 2"
  "la_flash_attention demo_served" "s_kv_placement demo_served = ''auto''"
  by (simp_all add: demo_served_def configure_cpu_affinity_def with_dialect_def Let_def demo_saved_plan_def
      demo_host_strategy_def demo_lookup_strategy_def demo_strategy_def host_strategy.defs served_strategy.defs
      lookup_strategy.defs launch_strategy.defs)

lemma demo_planned: "planned_for (demo_caps [demo_device 1000]) demo_replay demo_served"
proof -
  have "with_dialect (ro_help demo_replay) (ho_backend_tag (ro_host demo_replay)) demo_served = demo_served"
    unfolding demo_served_def
    by (rule served_strategy.equality) (simp_all add: with_dialect_def configure_cpu_affinity_def Let_def)
  moreover have "configure_cpu_affinity (Some (demo_caps [demo_device 1000])) (ro_help demo_replay) demo_served = demo_served"
    unfolding demo_served_def
    by (rule served_strategy.equality) (simp_all add: with_dialect_def configure_cpu_affinity_def Let_def)
  ultimately show ?thesis by (simp add: planned_for_def demo_served_fields default_flash_attention_def)
qed

lemma demo_agrees: "request_agrees demo_replay demo_served"
  by (simp add: request_agrees_def demo_replay_def demo_served_fields demo_host_options_def)

lemma demo_replayed:
  "verified_replay True (Inr (saved_record [] (verified_config_to_record ''k'' base demo_served [] [] [] []))) ''k''
      empty_profile (demo_caps [demo_device 1000]) demo_replay probe 0 0 =
    Some (replay_strategy empty_profile (demo_caps [demo_device 1000]) demo_replay probe 0 0
      (saved_record [] (verified_config_to_record ''k'' base demo_served [] [] [] [])) (forget demo_replay base demo_served))"
  unfolding replay_of_record [OF demo_planned demo_agrees refl]
  by (simp add: demo_served_fields demo_caps_def demo_device_def vram_free_mb_def plan_free_vram_slack_mb_def empty_profile_def)


theorem restored_plan_identity_witness:
  "\<exists>r. verified_replay True (Inr (saved_record [] (verified_config_to_record ''k'' [] demo_served [] [] [] [])))
      ''k'' empty_profile (demo_caps [demo_device 1000]) demo_replay (\<lambda>_. None) 0 0 = Some r \<and>
    allocation_identity_parts (\<lambda>_. []) (\<lambda>_. []) (\<lambda>_. []) r \<noteq>
      allocation_identity_parts (\<lambda>_. []) (\<lambda>_. []) (\<lambda>_. []) demo_served"
proof -
  have q: "sv_kv_quality demo_served \<noteq> []" by (simp add: demo_served_fields)
  from restored_plan_identity [OF demo_planned demo_agrees q demo_replayed] demo_replayed show ?thesis
    by (metis demo_served_fields(1) zero_neq_numeral)
qed

end
