(* ===== verification/Settings.thy ===== *)
theory Settings
  imports GoText Paths
begin

text \<open>
  The settings of the program (\<^verbatim>\<open>go/pkg/config/config.go\<close>): parsing and validating one value, the
  file a configuration is saved to and loaded from, the environment over it, the provenance of every
  setting and the migration of the legacy file.

  The environment and the file system are functions. \<open>wide\<close> says what a quoted literal with an escape
  beyond ASCII decodes to, when the code accepts the decoded form.
\<close>

section \<open>The configuration\<close>

record app_config =
  cf_port :: int
  cf_ctx :: string
  cf_max_restarts :: int
  cf_keep_alive :: int
  cf_health_timeout :: int
  cf_model_dir :: string
  cf_cache_dir :: string
  cf_log_dir :: string
  cf_ram_budget :: string
  cf_ram_limit_percent :: int
  cf_vram_headroom :: string
  cf_ram_headroom :: string
  cf_cgroup_headroom_mb :: int
  cf_kv_placement :: string
  cf_kv_quality :: string
  cf_swa_full :: bool
  cf_assume_yes :: bool
  cf_allow_live_memory_probe :: bool
  cf_backend :: string
  cf_llama_server :: string
  cf_app_home :: string
  cf_tune_rounds :: int
  cf_vision :: bool
  cf_parallel :: int
  cf_host :: string
  cf_spec :: string
  cf_support_expert :: string
  cf_support_online :: bool
  cf_support_model :: string
  cf_sources :: "(string \<Rightarrow> string) option"

definition default_keys :: "string list" where
  "default_keys =
     [''PORT'', ''CTX_SIZE'', ''MAX_RESTARTS'', ''KEEP_ALIVE'', ''HEALTH_TIMEOUT'', ''MODEL_DIR'',
      ''CACHE_DIR'', ''LOG_DIR'', ''RAM_BUDGET'', ''RAM_LIMIT_PERCENT'', ''VRAM_HEADROOM'',
      ''RAM_HEADROOM'', ''CGROUP_HEADROOM_MB'', ''KV_PLACEMENT'', ''KV_QUALITY'', ''SWA_FULL'',
      ''ASSUME_YES'', ''ALLOW_LIVE_MEMORY_PROBE'', ''BACKEND'', ''LLAMA_SERVER'', ''APP_HOME'',
      ''TUNE_ROUNDS'', ''VISION'', ''PARALLEL'', ''HOST'', ''SPEC'', ''SUPPORT_EXPERT'',
      ''SUPPORT_ONLINE'', ''SUPPORT_MODEL'']"

definition default_sources :: "string \<Rightarrow> string" where
  "default_sources k = (if k \<in> set default_keys then ''default'' else [])"

definition default_config :: "string \<Rightarrow> app_config" where
  "default_config home =
     \<lparr>cf_port = 8081,
      cf_ctx = ''fit'',
      cf_max_restarts = 5,
      cf_keep_alive = 0,
      cf_health_timeout = 0,
      cf_model_dir = path_join [home, ''ai_models''],
      cf_cache_dir = path_join [home, ''.cache'', ''ggrun''],
      cf_log_dir = [],
      cf_ram_budget = [],
      cf_ram_limit_percent = 95,
      cf_vram_headroom = [],
      cf_ram_headroom = [],
      cf_cgroup_headroom_mb = 4096,
      cf_kv_placement = ''auto'',
      cf_kv_quality = ''auto'',
      cf_swa_full = False,
      cf_assume_yes = False,
      cf_allow_live_memory_probe = False,
      cf_backend = [],
      cf_llama_server = [],
      cf_app_home = [],
      cf_tune_rounds = 8,
      cf_vision = False,
      cf_parallel = 1,
      cf_host = ''127.0.0.1'',
      cf_spec = ''off'',
      cf_support_expert = ''auto'',
      cf_support_online = False,
      cf_support_model = [],
      cf_sources = Some default_sources\<rparr>"

section \<open>Values\<close>

datatype setting_error = BadPort | BadContext | BadCount | BadAmount | AmountTooLarge | BadPercent | BadSupport

definition parse_budget_mb_strict :: "string \<Rightarrow> setting_error + int" where
  "parse_budget_mb_strict text =
     (let s = trim_space (to_upper text) in
      if s = [] then Inr 0
      else
        let (mult, t) =
              (if has_suffix s ''G'' \<or> has_suffix s ''GB'' then (1024, trim_suffix (trim_suffix s ''GB'') ''G'')
               else if has_suffix s ''M'' \<or> has_suffix s ''MB'' then (1, trim_suffix (trim_suffix s ''MB'') ''M'')
               else (1, s))
        in case atoi (trim_space t) of
             None \<Rightarrow> Inl BadAmount
           | Some n \<Rightarrow>
               if n < 0 then Inl BadAmount
               else if n > max_int div mult then Inl AmountTooLarge else Inr (n * mult))"

definition parse_budget_mb :: "string \<Rightarrow> int" where
  "parse_budget_mb s = (case parse_budget_mb_strict s of Inl e \<Rightarrow> 0 | Inr mb \<Rightarrow> mb)"

definition parse_between :: "setting_error \<Rightarrow> int \<Rightarrow> int option \<Rightarrow> string \<Rightarrow> setting_error + int" where
  "parse_between err low high s =
     (case atoi (trim_space s) of
        None \<Rightarrow> Inl err
      | Some n \<Rightarrow> if n < low \<or> (case high of None \<Rightarrow> False | Some h \<Rightarrow> n > h) then Inl err else Inr n)"

definition parse_port :: "string \<Rightarrow> setting_error + int" where
  "parse_port = parse_between BadPort 1 (Some 65535)"

definition parse_ram_limit_percent :: "string \<Rightarrow> setting_error + int" where
  "parse_ram_limit_percent = parse_between BadPercent 1 (Some 100)"

definition parse_non_negative_int :: "string \<Rightarrow> setting_error + int" where
  "parse_non_negative_int = parse_between BadCount 0 None"

definition quotes :: string where "quotes = [CHR 0x22, CHR 0x27]"

definition normalize_ctx_value :: "string \<Rightarrow> setting_error + string" where
  "normalize_ctx_value text =
     (let s = trim_space (trim_chars quotes text); l = to_lower s in
      if l = [] \<or> l = ''fit'' \<or> l = ''auto'' then Inr ''fit''
      else if l = ''max'' \<or> l = ''native'' then Inr ''max''
      else case atoi s of
             None \<Rightarrow> Inl BadContext
           | Some n \<Rightarrow> if n \<le> 0 then Inl BadContext else Inr (itoa n))"

definition ctx_value :: "app_config option \<Rightarrow> string" where
  "ctx_value co =
     (case co of
        None \<Rightarrow> ''fit''
      | Some c \<Rightarrow> (case normalize_ctx_value (cf_ctx c) of Inl e \<Rightarrow> ''fit'' | Inr v \<Rightarrow> v))"

definition ctx_mode :: "app_config option \<Rightarrow> string" where
  "ctx_mode co = (let v = ctx_value co in if v = ''fit'' then ''fit'' else if v = ''max'' then ''max'' else ''manual'')"

definition parse_bool :: "string \<Rightarrow> bool" where
  "parse_bool text = (to_lower (trim_space text) \<in> {''1'', ''true'', ''yes'', ''on''})"

definition normalize_support_expert :: "string \<Rightarrow> setting_error + string" where
  "normalize_support_expert text =
     (let m = to_lower (trim_space text); mode = (if m = [] then ''auto'' else m) in
      if mode = ''off'' \<or> mode = ''auto'' \<or> mode = ''on'' then Inr mode else Inl BadSupport)"

definition is_control :: "char \<Rightarrow> bool" where
  "is_control c \<longleftrightarrow> of_char c < (32 :: nat) \<or> of_char c = (127 :: nat)"

definition unquote_config_value :: "(string \<Rightarrow> string option) \<Rightarrow> string \<Rightarrow> string" where
  "unquote_config_value wide raw =
     (let v = trim_space raw; plain = trim_chars quotes v in
      if length v \<ge> 2 \<and> hd v = CHR 0x22 \<and> last v = CHR 0x22 then
        (case unquote_body (butlast (tl v)) of
           Malformed \<Rightarrow> plain
         | Decoded s \<Rightarrow> if \<not> list_ex is_control s \<and> go_quote s = v then s else plain
         | Wide \<Rightarrow> (case wide v of None \<Rightarrow> plain | Some s \<Rightarrow> s))
      else plain)"

section \<open>Setting a value\<close>

definition mark_source :: "string \<Rightarrow> string \<Rightarrow> app_config \<Rightarrow> app_config" where
  "mark_source key source c =
     c\<lparr>cf_sources := Some ((case cf_sources c of None \<Rightarrow> default_sources | Some m \<Rightarrow> m)(key := source))\<rparr>"

definition checked :: "setting_error + 'a \<Rightarrow> ('a \<Rightarrow> app_config) \<Rightarrow> setting_error + app_config" where
  "checked r store = (case r of Inl e \<Rightarrow> Inl e | Inr v \<Rightarrow> Inr (store v))"

text \<open>The \<^verbatim>\<open>switch\<close> over the keys; \<open>None\<close> for a key it does not know.\<close>

definition assign_setting :: "string \<Rightarrow> string \<Rightarrow> app_config \<Rightarrow> (setting_error + app_config) option" where
  "assign_setting key v c =
     (if key = ''PORT'' then Some (checked (parse_port v) (\<lambda>n. c\<lparr>cf_port := n\<rparr>))
      else if key = ''CTX_SIZE'' then Some (checked (normalize_ctx_value v) (\<lambda>n. c\<lparr>cf_ctx := n\<rparr>))
      else if key = ''MAX_RESTARTS'' then Some (checked (parse_non_negative_int v) (\<lambda>n. c\<lparr>cf_max_restarts := n\<rparr>))
      else if key = ''KEEP_ALIVE'' then Some (checked (parse_non_negative_int v) (\<lambda>n. c\<lparr>cf_keep_alive := n\<rparr>))
      else if key = ''HEALTH_TIMEOUT'' then Some (checked (parse_non_negative_int v) (\<lambda>n. c\<lparr>cf_health_timeout := n\<rparr>))
      else if key = ''MODEL_DIR'' then Some (Inr (c\<lparr>cf_model_dir := v\<rparr>))
      else if key = ''CACHE_DIR'' then Some (Inr (c\<lparr>cf_cache_dir := v\<rparr>))
      else if key = ''LOG_DIR'' then Some (Inr (c\<lparr>cf_log_dir := v\<rparr>))
      else if key = ''RAM_BUDGET'' then Some (checked (parse_budget_mb_strict v) (\<lambda>_. c\<lparr>cf_ram_budget := v\<rparr>))
      else if key = ''RAM_LIMIT_PERCENT'' then Some (checked (parse_ram_limit_percent v) (\<lambda>n. c\<lparr>cf_ram_limit_percent := n\<rparr>))
      else if key = ''VRAM_HEADROOM'' then Some (checked (parse_budget_mb_strict v) (\<lambda>_. c\<lparr>cf_vram_headroom := v\<rparr>))
      else if key = ''RAM_HEADROOM'' then Some (checked (parse_budget_mb_strict v) (\<lambda>_. c\<lparr>cf_ram_headroom := v\<rparr>))
      else if key = ''CGROUP_HEADROOM_MB'' then Some (checked (parse_non_negative_int v) (\<lambda>n. c\<lparr>cf_cgroup_headroom_mb := n\<rparr>))
      else if key = ''KV_PLACEMENT'' then Some (Inr (c\<lparr>cf_kv_placement := v\<rparr>))
      else if key = ''KV_QUALITY'' then Some (Inr (c\<lparr>cf_kv_quality := v\<rparr>))
      else if key = ''SWA_FULL'' then Some (Inr (c\<lparr>cf_swa_full := parse_bool v\<rparr>))
      else if key = ''ASSUME_YES'' then Some (Inr (c\<lparr>cf_assume_yes := parse_bool v\<rparr>))
      else if key = ''ALLOW_LIVE_MEMORY_PROBE'' then Some (Inr (c\<lparr>cf_allow_live_memory_probe := parse_bool v\<rparr>))
      else if key = ''BACKEND'' then Some (Inr (c\<lparr>cf_backend := v\<rparr>))
      else if key = ''LLAMA_SERVER'' then Some (Inr (c\<lparr>cf_llama_server := v\<rparr>))
      else if key = ''APP_HOME'' then Some (Inr (c\<lparr>cf_app_home := v\<rparr>))
      else if key = ''TUNE_ROUNDS'' then Some (checked (parse_non_negative_int v) (\<lambda>n. c\<lparr>cf_tune_rounds := n\<rparr>))
      else if key = ''VISION'' then Some (Inr (c\<lparr>cf_vision := parse_bool v\<rparr>))
      else if key = ''PARALLEL'' then Some (checked (parse_non_negative_int v) (\<lambda>n. c\<lparr>cf_parallel := n\<rparr>))
      else if key = ''HOST'' then Some (Inr (c\<lparr>cf_host := v\<rparr>))
      else if key = ''SPEC'' then Some (Inr (c\<lparr>cf_spec := v\<rparr>))
      else if key = ''SUPPORT_EXPERT'' then Some (checked (normalize_support_expert v) (\<lambda>n. c\<lparr>cf_support_expert := n\<rparr>))
      else if key = ''SUPPORT_ONLINE'' then Some (Inr (c\<lparr>cf_support_online := parse_bool v\<rparr>))
      else if key = ''SUPPORT_MODEL'' then Some (Inr (c\<lparr>cf_support_model := v\<rparr>))
      else None)"

definition setting_key :: "string \<Rightarrow> string" where
  "setting_key key = trim_prefix (trim_space key) ''LLM_''"

definition with_sources :: "app_config \<Rightarrow> app_config" where
  "with_sources c = (case cf_sources c of None \<Rightarrow> c\<lparr>cf_sources := Some default_sources\<rparr> | Some m \<Rightarrow> c)"

definition set_config_value ::
  "(string \<Rightarrow> string option) \<Rightarrow> string \<Rightarrow> string \<Rightarrow> string \<Rightarrow> app_config \<Rightarrow> setting_error + app_config" where
  "set_config_value wide key0 raw source c0 =
     (let key = setting_key key0; c = with_sources c0 in
      case assign_setting key (unquote_config_value wide raw) c of
        None \<Rightarrow> Inr c
      | Some (Inl e) \<Rightarrow> Inl e
      | Some (Inr c') \<Rightarrow> Inr (mark_source key source c'))"

definition is_explicit :: "app_config option \<Rightarrow> string \<Rightarrow> bool" where
  "is_explicit co key0 =
     (case co of
        None \<Rightarrow> False
      | Some c \<Rightarrow>
          (case cf_sources c of
             None \<Rightarrow> False
           | Some m \<Rightarrow>
               let key = trim_prefix (to_upper (trim_space key0)) ''LLM_''; source = m key
               in source \<noteq> [] \<and> source \<noteq> ''default''))"

section \<open>Loading\<close>

datatype load_error = Unreadable | AtKey string setting_error | LineTooLong | SaveFailed load_error | WriteFailed

text \<open>\<^verbatim>\<open>bufio.Scanner\<close>: the lines before the first that does not fit its buffer, and whether none is left out.\<close>

definition max_line :: nat where "max_line = 65536"

definition drop_cr :: "string \<Rightarrow> string" where
  "drop_cr l = (if l \<noteq> [] \<and> last l = CHR 0x0D then butlast l else l)"

definition scan_lines :: "string \<Rightarrow> string list \<times> bool" where
  "scan_lines content =
     (let ls = split_char newline_char content
      in (map drop_cr (takeWhile (\<lambda>l. length l < max_line) ls), list_all (\<lambda>l. length l < max_line) ls))"

definition load_line :: "(string \<Rightarrow> string option) \<Rightarrow> string \<Rightarrow> app_config \<Rightarrow> load_error + app_config" where
  "load_line wide text c =
     (let line = trim_space text in
      if line = [] \<or> has_prefix line ''#'' then Inr c
      else case cut_char CHR ''='' line of
             None \<Rightarrow> Inr c
           | Some (k, raw) \<Rightarrow>
               (case set_config_value wide (trim_space k) raw ''file'' c of
                  Inl e \<Rightarrow> Inl (AtKey (trim_space k) e)
                | Inr c' \<Rightarrow> Inr c'))"

fun load_lines :: "(string \<Rightarrow> string option) \<Rightarrow> string list \<Rightarrow> app_config \<Rightarrow> load_error + app_config" where
  "load_lines wide [] c = Inr c"
| "load_lines wide (l # ls) c = (case load_line wide l c of Inl e \<Rightarrow> Inl e | Inr c' \<Rightarrow> load_lines wide ls c')"

definition load_file :: "(string \<Rightarrow> string option) \<Rightarrow> string option \<Rightarrow> app_config \<Rightarrow> load_error + app_config" where
  "load_file wide content c =
     (case content of
        None \<Rightarrow> Inl Unreadable
      | Some text \<Rightarrow>
          let (ls, complete) = scan_lines text in
          case load_lines wide ls c of
            Inl e \<Rightarrow> Inl e
          | Inr c' \<Rightarrow> if complete then Inr c' else Inl LineTooLong)"

text \<open>A Go map of the environment: the pairs in the order the map is iterated.\<close>

definition env_name :: "string \<Rightarrow> string" where
  "env_name k = (if k = ''LLAMA_SERVER'' then k else ''LLM_'' @ k)"

definition env_keys :: "string list" where
  "env_keys = map env_name default_keys"

definition snapshot_env :: "(string \<Rightarrow> string) \<Rightarrow> (string \<times> string) list" where
  "snapshot_env env = filter (\<lambda>(k, v). v \<noteq> []) (map (\<lambda>k. (k, env k)) env_keys)"

fun apply_env_snapshot ::
  "(string \<Rightarrow> string option) \<Rightarrow> (string \<times> string) list \<Rightarrow> app_config \<Rightarrow> load_error + app_config" where
  "apply_env_snapshot wide [] c = Inr c"
| "apply_env_snapshot wide ((k, v) # snap) c =
     (case set_config_value wide k v ''env'' c of
        Inl e \<Rightarrow> Inl (AtKey k e)
      | Inr c' \<Rightarrow> apply_env_snapshot wide snap c')"

section \<open>Saving\<close>

definition format_bool :: "bool \<Rightarrow> string" where
  "format_bool b = (if b then ''true'' else ''false'')"

fun first_error :: "(setting_error + 'a) list \<Rightarrow> setting_error option" where
  "first_error [] = None"
| "first_error (Inl e # rs) = Some e"
| "first_error (Inr _ # rs) = first_error rs"

definition bad_if :: "bool \<Rightarrow> setting_error + int" where
  "bad_if b = (if b then Inl BadCount else Inr 0)"

definition entry :: "string \<Rightarrow> string \<Rightarrow> string" where
  "entry key raw = key @ ''='' @ raw"

definition config_lines :: "app_config \<Rightarrow> string list" where
  "config_lines c =
     [''# ggrun configuration'',
      ''# Precedence: CLI flag > env var > this file > built-in default'',
      entry ''LLM_PORT'' (itoa (cf_port c)),
      entry ''LLM_CTX_SIZE'' (go_quote (ctx_value (Some c))),
      entry ''LLM_MAX_RESTARTS'' (itoa (cf_max_restarts c)),
      entry ''LLM_KEEP_ALIVE'' (itoa (cf_keep_alive c)),
      entry ''LLM_HEALTH_TIMEOUT'' (itoa (cf_health_timeout c)),
      entry ''LLM_MODEL_DIR'' (go_quote (cf_model_dir c)),
      entry ''LLM_CACHE_DIR'' (go_quote (cf_cache_dir c)),
      entry ''LLM_LOG_DIR'' (go_quote (cf_log_dir c)),
      entry ''LLM_RAM_BUDGET'' (go_quote (cf_ram_budget c)),
      entry ''LLM_RAM_LIMIT_PERCENT'' (itoa (cf_ram_limit_percent c)),
      entry ''LLM_VRAM_HEADROOM'' (go_quote (cf_vram_headroom c)),
      entry ''LLM_RAM_HEADROOM'' (go_quote (cf_ram_headroom c)),
      entry ''LLM_CGROUP_HEADROOM_MB'' (itoa (cf_cgroup_headroom_mb c)),
      entry ''LLM_KV_PLACEMENT'' (go_quote (cf_kv_placement c)),
      entry ''LLM_KV_QUALITY'' (go_quote (cf_kv_quality c)),
      entry ''LLM_SWA_FULL'' (format_bool (cf_swa_full c)),
      entry ''LLM_ASSUME_YES'' (format_bool (cf_assume_yes c)),
      entry ''LLM_ALLOW_LIVE_MEMORY_PROBE'' (format_bool (cf_allow_live_memory_probe c)),
      entry ''LLM_BACKEND'' (go_quote (cf_backend c)),
      entry ''LLAMA_SERVER'' (go_quote (cf_llama_server c)),
      entry ''LLM_APP_HOME'' (go_quote (cf_app_home c)),
      entry ''LLM_TUNE_ROUNDS'' (itoa (cf_tune_rounds c)),
      entry ''LLM_VISION'' (format_bool (cf_vision c)),
      entry ''LLM_PARALLEL'' (itoa (cf_parallel c)),
      entry ''LLM_HOST'' (go_quote (cf_host c)),
      entry ''LLM_SPEC'' (go_quote (cf_spec c)),
      entry ''LLM_SUPPORT_EXPERT'' (go_quote (cf_support_expert c)),
      entry ''LLM_SUPPORT_ONLINE'' (format_bool (cf_support_online c)),
      entry ''LLM_SUPPORT_MODEL'' (go_quote (cf_support_model c))]"

definition config_text :: "app_config \<Rightarrow> string" where
  "config_text c = join_with [newline_char] (config_lines c) @ [newline_char]"

text \<open>\<^verbatim>\<open>Save\<close> up to the write: the normalised configuration and the text of the file.\<close>

definition save_config :: "app_config \<Rightarrow> setting_error + app_config \<times> string" where
  "save_config c =
     (case parse_port (itoa (cf_port c)) of
        Inl e \<Rightarrow> Inl e
      | Inr _ \<Rightarrow>
     case normalize_ctx_value (cf_ctx c) of
        Inl e \<Rightarrow> Inl e
      | Inr ctx \<Rightarrow>
     case first_error (map parse_budget_mb_strict [cf_ram_budget c, cf_vram_headroom c, cf_ram_headroom c]) of
        Some e \<Rightarrow> Inl e
      | None \<Rightarrow>
     case first_error (map (\<lambda>n. bad_if (n < 0))
        [cf_cgroup_headroom_mb c, cf_max_restarts c, cf_keep_alive c, cf_health_timeout c, cf_tune_rounds c, cf_parallel c]) of
        Some e \<Rightarrow> Inl e
      | None \<Rightarrow>
     case parse_ram_limit_percent (itoa (cf_ram_limit_percent c)) of
        Inl e \<Rightarrow> Inl e
      | Inr _ \<Rightarrow>
     case normalize_support_expert (cf_support_expert c) of
        Inl e \<Rightarrow> Inl e
      | Inr mode \<Rightarrow>
          let c' = c\<lparr>cf_ctx := ctx, cf_support_expert := mode\<rparr> in Inr (c', config_text c'))"

section \<open>Files\<close>

definition config_path :: "(string \<Rightarrow> string) \<Rightarrow> string \<Rightarrow> (string \<Rightarrow> bool) \<Rightarrow> string" where
  "config_path env app_home file_exists =
     (if env ''LLM_CONFIG'' \<noteq> [] then env ''LLM_CONFIG''
      else
        let user_home = env ''HOME'';
            fallback = path_join [if user_home = [] then ''.'' else user_home, ''.config'', ''ggrun'', ''config'']
        in
        if app_home \<noteq> [] \<and> app_home \<noteq> user_home then
          (case List.find file_exists
             [path_join [app_home, ''.config'', ''config''], path_join [app_home, ''config'', ''config''],
              path_join [app_home, ''.config'', ''ggrun'', ''config'']] of
             Some f \<Rightarrow> f
           | None \<Rightarrow>
               if file_exists (path_join [app_home, ''.config'', ''backends.json''])
               then path_join [app_home, ''.config'', ''ggrun'', ''config'']
               else fallback)
        else fallback)"

type_synonym files = "string \<Rightarrow> string option option"

text \<open>
  A file is absent (\<open>None\<close>), unreadable (\<open>Some None\<close>) or has a content. The outcomes of the
  rename of the legacy file, of the write of \<^verbatim>\<open>Save\<close> and of the final backup are arguments; the backup's
  name carries the time.
\<close>

record migration_io =
  mi_rename :: bool
  mi_write :: bool
  mi_backup :: "string option"

definition migrate_legacy_config ::
  "(string \<Rightarrow> string option) \<Rightarrow> string \<Rightarrow> migration_io \<Rightarrow> string \<Rightarrow> files \<Rightarrow> load_error option \<times> files" where
  "migrate_legacy_config wide home io canonical fs =
     (let legacy = canonical @ ''.sh'' in
      if has_suffix canonical ''.sh'' \<or> fs legacy = None then (None, fs)
      else if fs canonical = None then
        (if mi_rename io then (None, fs(canonical := fs legacy, legacy := None)) else (Some WriteFailed, fs))
      else
        case load_file wide (the (fs canonical)) (default_config home) of
          Inl e \<Rightarrow> (Some e, fs)
        | Inr c1 \<Rightarrow>
        case load_file wide (the (fs legacy)) c1 of
          Inl e \<Rightarrow> (Some e, fs)
        | Inr c2 \<Rightarrow>
        case save_config c2 of
          Inl e \<Rightarrow> (Some (SaveFailed (AtKey [] e)), fs)
        | Inr (c3, text) \<Rightarrow>
            if \<not> mi_write io then (Some WriteFailed, fs)
            else
              let fs1 = fs(canonical := Some (Some text)) in
              (None, case mi_backup io of
                       None \<Rightarrow> fs1
                     | Some name \<Rightarrow> fs1(name := fs1 legacy, legacy := None)))"

definition load_persisted ::
  "(string \<Rightarrow> string option) \<Rightarrow> string \<Rightarrow> migration_io \<Rightarrow> string \<Rightarrow> files \<Rightarrow> (load_error + app_config) \<times> files" where
  "load_persisted wide home io path fs =
     (case migrate_legacy_config wide home io path fs of
        (Some e, fs') \<Rightarrow> (Inl e, fs')
      | (None, fs') \<Rightarrow>
          (case fs' path of
             None \<Rightarrow> (Inr (default_config home), fs')
           | Some content \<Rightarrow> (load_file wide content (default_config home), fs')))"

definition load_config ::
  "(string \<Rightarrow> string option) \<Rightarrow> (string \<Rightarrow> string) \<Rightarrow> string \<Rightarrow> migration_io \<Rightarrow> string \<Rightarrow> files
     \<Rightarrow> (load_error + app_config) \<times> files" where
  "load_config wide env home io path fs =
     (case load_persisted wide home io path fs of
        (Inl e, fs') \<Rightarrow> (Inl e, fs')
      | (Inr c, fs') \<Rightarrow> (apply_env_snapshot wide (snapshot_env env) c, fs'))"


section \<open>One line of the file\<close>

lemma trim_chars_none:
  assumes "\<forall>c \<in> set s. c \<notin> set cs"
  shows "trim_chars cs s = s"
proof -
  have "dropWhile (\<lambda>c. c \<in> set cs) t = t" if "set t \<subseteq> set s" for t
    using assms that by (cases t) auto
  then show ?thesis by (simp add: trim_chars_def)
qed

lemma space_dquote [simp]: "\<not> is_space (CHR 0x22)"
  by (simp add: is_space_def)

lemma go_quote_ends: "go_quote s \<noteq> []" "hd (go_quote s) = CHR 0x22" "last (go_quote s) = CHR 0x22"
  by (simp_all add: go_quote_def dquote_def)

lemma unquote_config_quoted [simp]:
  assumes "list_all plain_char s"
  shows "unquote_config_value wide (go_quote s) = s"
proof -
  have t: "trim_space (go_quote s) = go_quote s"
    by (rule trim_space_ident) (simp add: go_quote_ends)
  have b: "butlast (tl (go_quote s)) = concat (map quote_char s)"
    by (simp add: go_quote_def dquote_def butlast_append)
  have l: "length (go_quote s) \<ge> 2" by (simp add: go_quote_def dquote_def)
  have c: "\<not> list_ex is_control s"
    using assms by (auto simp: list_ex_iff list_all_iff is_control_def plain_char_def)
  show ?thesis
    by (simp add: unquote_config_value_def t b c l go_quote_ends unquote_quoted [OF assms])
qed

definition bare_text :: "string \<Rightarrow> bool" where
  "bare_text s \<longleftrightarrow> s \<noteq> [] \<and> list_all (\<lambda>c. plain_char c \<and> \<not> is_space c \<and> c \<notin> set quotes) s"

lemma bare_trim:
  assumes "bare_text s"
  shows "trim_space s = s"
  by (rule trim_space_ident) (use assms in \<open>auto simp: bare_text_def list_all_iff\<close>)

lemma unquote_config_bare [simp]:
  assumes "bare_text s"
  shows "unquote_config_value wide s = s"
proof -
  have q: "trim_chars quotes s = s"
    by (rule trim_chars_none) (use assms in \<open>auto simp: bare_text_def list_all_iff\<close>)
  have "hd s \<noteq> CHR 0x22"
    using assms hd_in_set [of s] by (auto simp: bare_text_def list_all_iff quotes_def)
  then show ?thesis by (simp add: unquote_config_value_def bare_trim [OF assms] q)
qed

lemma bare_text_itoa [simp]: "bare_text (itoa n)"
proof -
  have "plain_char c \<and> \<not> is_space c \<and> c \<notin> set quotes" if "c \<in> set (itoa n)" for c
    using set_itoa_chars [OF that]
    by (auto simp: is_digit_def plain_char_def is_space_def quotes_def)
  then show ?thesis by (simp add: bare_text_def list_all_iff)
qed

lemma bare_format_bool [simp]: "bare_text (format_bool b)"
proof (cases b)
  case True
  have "bare_text ''true''" by code_simp
  with True show ?thesis by (simp add: format_bool_def)
next
  case False
  have "bare_text ''false''" by code_simp
  with False show ?thesis by (simp add: format_bool_def)
qed

lemma parse_format_bool [simp]: "parse_bool (format_bool b) = b"
proof (cases b)
  case True
  have "parse_bool ''true''" by code_simp
  with True show ?thesis by (simp add: format_bool_def)
next
  case False
  have "\<not> parse_bool ''false''" by code_simp
  with False show ?thesis by (simp add: format_bool_def)
qed

definition key_text :: "string \<Rightarrow> bool" where
  "key_text k \<longleftrightarrow> k \<noteq> [] \<and> length k \<le> 100 \<and> list_all (\<lambda>c. \<not> is_space c \<and> c \<noteq> CHR ''='' \<and> c \<noteq> CHR ''#'') k"

definition raw_text :: "string \<Rightarrow> bool" where
  "raw_text raw \<longleftrightarrow> raw \<noteq> [] \<and> \<not> is_space (last raw)"

lemma raw_texts [simp]: "raw_text (go_quote s)" "raw_text (itoa n)" "raw_text (format_bool b)"
  using bare_text_itoa [of n] bare_format_bool [of b]
  by (auto simp: raw_text_def go_quote_ends bare_text_def list_all_iff)

lemma load_entry:
  assumes "key_text k" "raw_text raw"
  shows "load_line wide (entry k raw) c =
    (case set_config_value wide k raw ''file'' c of Inl e \<Rightarrow> Inl (AtKey k e) | Inr c' \<Rightarrow> Inr c')"
proof -
  obtain d k' where k: "k = d # k'" "\<not> is_space d" "d \<noteq> CHR ''#''"
    using assms(1) by (cases k) (auto simp: key_text_def)
  have t: "trim_space (entry k raw) = entry k raw"
    by (rule trim_space_ident) (use assms(2) k in \<open>auto simp: entry_def raw_text_def\<close>)
  have tk: "trim_space k = k"
    by (rule trim_space_ident) (use assms(1) in \<open>auto simp: key_text_def list_all_iff\<close>)
  have cut: "cut_char CHR ''='' (entry k raw) = Some (k, raw)"
    using assms(1) cut_char_append [of "CHR ''=''" k raw]
    by (auto simp: entry_def key_text_def list_all_iff)
  have "entry k raw \<noteq> []" "\<not> has_prefix (entry k raw) ''#''" using k by (simp_all add: entry_def)
  then show ?thesis by (simp add: load_line_def t tk cut del: has_prefix.simps split: sum.split)
qed
lemma setting_keys [simp]:
  "setting_key ''LLM_PORT'' = ''PORT''"
  "setting_key ''LLM_CTX_SIZE'' = ''CTX_SIZE''"
  "setting_key ''LLM_MAX_RESTARTS'' = ''MAX_RESTARTS''"
  "setting_key ''LLM_KEEP_ALIVE'' = ''KEEP_ALIVE''"
  "setting_key ''LLM_HEALTH_TIMEOUT'' = ''HEALTH_TIMEOUT''"
  "setting_key ''LLM_MODEL_DIR'' = ''MODEL_DIR''"
  "setting_key ''LLM_CACHE_DIR'' = ''CACHE_DIR''"
  "setting_key ''LLM_LOG_DIR'' = ''LOG_DIR''"
  "setting_key ''LLM_RAM_BUDGET'' = ''RAM_BUDGET''"
  "setting_key ''LLM_RAM_LIMIT_PERCENT'' = ''RAM_LIMIT_PERCENT''"
  "setting_key ''LLM_VRAM_HEADROOM'' = ''VRAM_HEADROOM''"
  "setting_key ''LLM_RAM_HEADROOM'' = ''RAM_HEADROOM''"
  "setting_key ''LLM_CGROUP_HEADROOM_MB'' = ''CGROUP_HEADROOM_MB''"
  "setting_key ''LLM_KV_PLACEMENT'' = ''KV_PLACEMENT''"
  "setting_key ''LLM_KV_QUALITY'' = ''KV_QUALITY''"
  "setting_key ''LLM_SWA_FULL'' = ''SWA_FULL''"
  "setting_key ''LLM_ASSUME_YES'' = ''ASSUME_YES''"
  "setting_key ''LLM_ALLOW_LIVE_MEMORY_PROBE'' = ''ALLOW_LIVE_MEMORY_PROBE''"
  "setting_key ''LLM_BACKEND'' = ''BACKEND''"
  "setting_key ''LLAMA_SERVER'' = ''LLAMA_SERVER''"
  "setting_key ''LLM_APP_HOME'' = ''APP_HOME''"
  "setting_key ''LLM_TUNE_ROUNDS'' = ''TUNE_ROUNDS''"
  "setting_key ''LLM_VISION'' = ''VISION''"
  "setting_key ''LLM_PARALLEL'' = ''PARALLEL''"
  "setting_key ''LLM_HOST'' = ''HOST''"
  "setting_key ''LLM_SPEC'' = ''SPEC''"
  "setting_key ''LLM_SUPPORT_EXPERT'' = ''SUPPORT_EXPERT''"
  "setting_key ''LLM_SUPPORT_ONLINE'' = ''SUPPORT_ONLINE''"
  "setting_key ''LLM_SUPPORT_MODEL'' = ''SUPPORT_MODEL''"
  by code_simp+

lemma assign_settings [simp]:
  "assign_setting ''PORT'' v c =
     Some (checked (parse_port v) (\<lambda>n. c\<lparr>cf_port := n\<rparr>))"
  "assign_setting ''CTX_SIZE'' v c =
     Some (checked (normalize_ctx_value v) (\<lambda>n. c\<lparr>cf_ctx := n\<rparr>))"
  "assign_setting ''MAX_RESTARTS'' v c =
     Some (checked (parse_non_negative_int v) (\<lambda>n. c\<lparr>cf_max_restarts := n\<rparr>))"
  "assign_setting ''KEEP_ALIVE'' v c =
     Some (checked (parse_non_negative_int v) (\<lambda>n. c\<lparr>cf_keep_alive := n\<rparr>))"
  "assign_setting ''HEALTH_TIMEOUT'' v c =
     Some (checked (parse_non_negative_int v) (\<lambda>n. c\<lparr>cf_health_timeout := n\<rparr>))"
  "assign_setting ''MODEL_DIR'' v c =
     Some (Inr (c\<lparr>cf_model_dir := v\<rparr>))"
  "assign_setting ''CACHE_DIR'' v c =
     Some (Inr (c\<lparr>cf_cache_dir := v\<rparr>))"
  "assign_setting ''LOG_DIR'' v c =
     Some (Inr (c\<lparr>cf_log_dir := v\<rparr>))"
  "assign_setting ''RAM_BUDGET'' v c =
     Some (checked (parse_budget_mb_strict v) (\<lambda>_. c\<lparr>cf_ram_budget := v\<rparr>))"
  "assign_setting ''RAM_LIMIT_PERCENT'' v c =
     Some (checked (parse_ram_limit_percent v) (\<lambda>n. c\<lparr>cf_ram_limit_percent := n\<rparr>))"
  "assign_setting ''VRAM_HEADROOM'' v c =
     Some (checked (parse_budget_mb_strict v) (\<lambda>_. c\<lparr>cf_vram_headroom := v\<rparr>))"
  "assign_setting ''RAM_HEADROOM'' v c =
     Some (checked (parse_budget_mb_strict v) (\<lambda>_. c\<lparr>cf_ram_headroom := v\<rparr>))"
  "assign_setting ''CGROUP_HEADROOM_MB'' v c =
     Some (checked (parse_non_negative_int v) (\<lambda>n. c\<lparr>cf_cgroup_headroom_mb := n\<rparr>))"
  "assign_setting ''KV_PLACEMENT'' v c =
     Some (Inr (c\<lparr>cf_kv_placement := v\<rparr>))"
  "assign_setting ''KV_QUALITY'' v c =
     Some (Inr (c\<lparr>cf_kv_quality := v\<rparr>))"
  "assign_setting ''SWA_FULL'' v c =
     Some (Inr (c\<lparr>cf_swa_full := parse_bool v\<rparr>))"
  "assign_setting ''ASSUME_YES'' v c =
     Some (Inr (c\<lparr>cf_assume_yes := parse_bool v\<rparr>))"
  "assign_setting ''ALLOW_LIVE_MEMORY_PROBE'' v c =
     Some (Inr (c\<lparr>cf_allow_live_memory_probe := parse_bool v\<rparr>))"
  "assign_setting ''BACKEND'' v c =
     Some (Inr (c\<lparr>cf_backend := v\<rparr>))"
  "assign_setting ''LLAMA_SERVER'' v c =
     Some (Inr (c\<lparr>cf_llama_server := v\<rparr>))"
  "assign_setting ''APP_HOME'' v c =
     Some (Inr (c\<lparr>cf_app_home := v\<rparr>))"
  "assign_setting ''TUNE_ROUNDS'' v c =
     Some (checked (parse_non_negative_int v) (\<lambda>n. c\<lparr>cf_tune_rounds := n\<rparr>))"
  "assign_setting ''VISION'' v c =
     Some (Inr (c\<lparr>cf_vision := parse_bool v\<rparr>))"
  "assign_setting ''PARALLEL'' v c =
     Some (checked (parse_non_negative_int v) (\<lambda>n. c\<lparr>cf_parallel := n\<rparr>))"
  "assign_setting ''HOST'' v c =
     Some (Inr (c\<lparr>cf_host := v\<rparr>))"
  "assign_setting ''SPEC'' v c =
     Some (Inr (c\<lparr>cf_spec := v\<rparr>))"
  "assign_setting ''SUPPORT_EXPERT'' v c =
     Some (checked (normalize_support_expert v) (\<lambda>n. c\<lparr>cf_support_expert := n\<rparr>))"
  "assign_setting ''SUPPORT_ONLINE'' v c =
     Some (Inr (c\<lparr>cf_support_online := parse_bool v\<rparr>))"
  "assign_setting ''SUPPORT_MODEL'' v c =
     Some (Inr (c\<lparr>cf_support_model := v\<rparr>))"
  by (simp_all add: assign_setting_def)

section \<open>The file as a whole\<close>

lemma sources_marked [simp]:
  "cf_sources (mark_source k s c) \<noteq> None" "\<exists>m. cf_sources (mark_source k s c) = Some m"
  by (simp_all add: mark_source_def)

lemma with_sources_some [simp]: "cf_sources c \<noteq> None \<Longrightarrow> with_sources c = c"
  by (auto simp: with_sources_def)

lemma load_text_entry:
  assumes "key_text k" "list_all plain_char s" "cf_sources c \<noteq> None"
  shows "load_line wide (entry k (go_quote s)) c =
    (case assign_setting (setting_key k) s c of
       None \<Rightarrow> Inr c | Some (Inl e) \<Rightarrow> Inl (AtKey k e) | Some (Inr c') \<Rightarrow> Inr (mark_source (setting_key k) ''file'' c'))"
  using assms by (simp add: load_entry set_config_value_def Let_def split: option.splits sum.splits)

lemma load_bare_entry:
  assumes "key_text k" "bare_text s" "cf_sources c \<noteq> None"
  shows "load_line wide (entry k s) c =
    (case assign_setting (setting_key k) s c of
       None \<Rightarrow> Inr c | Some (Inl e) \<Rightarrow> Inl (AtKey k e) | Some (Inr c') \<Rightarrow> Inr (mark_source (setting_key k) ''file'' c'))"
proof -
  have "raw_text s" using assms(2) last_in_set [of s] by (auto simp: bare_text_def raw_text_def list_all_iff)
  then show ?thesis using assms by (simp add: load_entry set_config_value_def Let_def split: option.splits sum.splits)
qed

lemma key_texts [simp]:
  "key_text ''LLM_PORT''" "key_text ''LLM_CTX_SIZE''" "key_text ''LLM_MAX_RESTARTS''"
  "key_text ''LLM_KEEP_ALIVE''" "key_text ''LLM_HEALTH_TIMEOUT''" "key_text ''LLM_MODEL_DIR''"
  "key_text ''LLM_CACHE_DIR''" "key_text ''LLM_LOG_DIR''" "key_text ''LLM_RAM_BUDGET''"
  "key_text ''LLM_RAM_LIMIT_PERCENT''" "key_text ''LLM_VRAM_HEADROOM''" "key_text ''LLM_RAM_HEADROOM''"
  "key_text ''LLM_CGROUP_HEADROOM_MB''" "key_text ''LLM_KV_PLACEMENT''" "key_text ''LLM_KV_QUALITY''"
  "key_text ''LLM_SWA_FULL''" "key_text ''LLM_ASSUME_YES''" "key_text ''LLM_ALLOW_LIVE_MEMORY_PROBE''"
  "key_text ''LLM_BACKEND''" "key_text ''LLAMA_SERVER''" "key_text ''LLM_APP_HOME''"
  "key_text ''LLM_TUNE_ROUNDS''" "key_text ''LLM_VISION''" "key_text ''LLM_PARALLEL''"
  "key_text ''LLM_HOST''" "key_text ''LLM_SPEC''" "key_text ''LLM_SUPPORT_EXPERT''"
  "key_text ''LLM_SUPPORT_ONLINE''" "key_text ''LLM_SUPPORT_MODEL''"
  by code_simp+

lemma parse_port_itoa: "1 \<le> n \<Longrightarrow> n \<le> 65535 \<Longrightarrow> parse_port (itoa n) = Inr n"
  by (simp add: parse_port_def parse_between_def bare_trim atoi_itoa min_int_def max_int_def)

lemma parse_count_itoa: "0 \<le> n \<Longrightarrow> n \<le> max_int \<Longrightarrow> parse_non_negative_int (itoa n) = Inr n"
  by (simp add: parse_non_negative_int_def parse_between_def bare_trim atoi_itoa min_int_def)

lemma parse_percent_itoa: "1 \<le> n \<Longrightarrow> n \<le> 100 \<Longrightarrow> parse_ram_limit_percent (itoa n) = Inr n"
  by (simp add: parse_ram_limit_percent_def parse_between_def bare_trim atoi_itoa min_int_def max_int_def)

lemma normalize_ctx_idem:
  assumes "normalize_ctx_value s = Inr v"
  shows "normalize_ctx_value v = Inr v" "list_all plain_char v"
proof -
  consider "v = ''fit''" | "v = ''max''" | n where "v = itoa n" "0 < n" "n \<le> max_int"
    using assms by (auto simp: normalize_ctx_value_def Let_def atoi_def split: if_splits option.splits)
  then have "normalize_ctx_value v = Inr v \<and> list_all plain_char v"
  proof cases
    case (3 n)
    have q: "trim_chars quotes (itoa n) = itoa n"
      by (rule trim_chars_none) (use bare_text_itoa [of n] in \<open>auto simp: bare_text_def list_all_iff\<close>)
    obtain d ds where d: "itoa n = d # ds" "is_digit d"
      using 3 set_itoa_chars [of "hd (itoa n)" n] digits_of_nat_digits [of "nat n"]
      by (cases "itoa n") (auto simp: itoa_def)
    have "to_lower (itoa n) \<noteq> []" "hd (to_lower (itoa n)) = d"
      using d by (auto simp: to_lower_def to_lower_char_def is_digit_def)
    then have "to_lower (itoa n) \<notin> {[], ''fit'', ''auto'', ''max'', ''native''}"
      using d(2) by (auto simp: is_digit_def)
    then show ?thesis using 3 bare_text_itoa [of n]
      by (auto simp: normalize_ctx_value_def q bare_trim atoi_itoa min_int_def Let_def bare_text_def list_all_iff)
  next
    case 1
    have "normalize_ctx_value ''fit'' = Inr ''fit'' \<and> list_all plain_char ''fit''" by code_simp
    with 1 show ?thesis by simp
  next
    case 2
    have "normalize_ctx_value ''max'' = Inr ''max'' \<and> list_all plain_char ''max''" by code_simp
    with 2 show ?thesis by simp
  qed
  then show "normalize_ctx_value v = Inr v" "list_all plain_char v" by auto
qed

lemma normalize_support_idem:
  assumes "normalize_support_expert s = Inr v"
  shows "normalize_support_expert v = Inr v" "list_all plain_char v"
proof -
  have "v = ''off'' \<or> v = ''auto'' \<or> v = ''on''"
    using assms by (auto simp: normalize_support_expert_def Let_def split: if_splits)
  moreover have "\<forall>v \<in> {''off'', ''auto'', ''on''}. normalize_support_expert v = Inr v \<and> list_all plain_char v"
    by code_simp
  ultimately show "normalize_support_expert v = Inr v" "list_all plain_char v" by auto
qed

section \<open>Saving and loading\<close>

text \<open>
  Values a file can carry: printable ASCII that fits a line of the scanner, and Go integers.
\<close>

definition short_text :: "string \<Rightarrow> bool" where
  "short_text s \<longleftrightarrow> list_all plain_char s \<and> length s \<le> 30000"

definition go_int :: "int \<Rightarrow> bool" where
  "go_int n \<longleftrightarrow> min_int \<le> n \<and> n \<le> max_int"

definition storable :: "app_config \<Rightarrow> bool" where
  "storable c \<longleftrightarrow>
     list_all short_text
       [cf_model_dir c, cf_cache_dir c, cf_log_dir c, cf_ram_budget c, cf_vram_headroom c, cf_ram_headroom c
        , cf_kv_placement c, cf_kv_quality c, cf_backend c, cf_llama_server c, cf_app_home c, cf_host c
        , cf_spec c, cf_support_model c] \<and>
     list_all go_int
       [cf_port c, cf_max_restarts c, cf_keep_alive c, cf_health_timeout c, cf_ram_limit_percent c
        , cf_cgroup_headroom_mb c, cf_tune_rounds c, cf_parallel c]"

lemma length_digits_of_nat:
  "n < 10 ^ Suc k \<Longrightarrow> length (digits_of_nat n) \<le> Suc k"
proof (induction k arbitrary: n)
  case 0
  then show ?case by (subst digits_of_nat.simps) simp
next
  case (Suc k)
  then have "length (digits_of_nat (n div 10)) \<le> Suc k" by (simp add: less_mult_imp_div_less mult.commute)
  then show ?case by (subst digits_of_nat.simps) simp
qed

lemma length_itoa:
  assumes "go_int n"
  shows "length (itoa n) \<le> 20"
proof -
  have "length (digits_of_nat (nat \<bar>n\<bar>)) \<le> Suc 18"
    by (rule length_digits_of_nat) (use assms in \<open>auto simp: go_int_def min_int_def max_int_def nat_less_iff\<close>)
  then show ?thesis by (auto simp: itoa_def)
qed

definition line_ok :: "string \<Rightarrow> bool" where
  "line_ok l \<longleftrightarrow> newline_char \<notin> set l \<and> length l < max_line \<and> drop_cr l = l"

lemma line_ok_entry:
  assumes "key_text k" "raw_text raw" "newline_char \<notin> set raw" "length raw \<le> 60002"
  shows "line_ok (entry k raw)"
proof -
  have "newline_char \<notin> set k"
    using assms(1) by (auto simp: key_text_def list_all_iff is_space_def newline_char_def)
  moreover have "last (entry k raw) \<noteq> CHR 0x0D" using assms(2) by (auto simp: entry_def raw_text_def is_space_def)
  ultimately show ?thesis
    using assms by (auto simp: line_ok_def entry_def key_text_def drop_cr_def max_line_def newline_char_def)
qed

lemma plain_no_newline: "list_all plain_char s \<Longrightarrow> newline_char \<notin> set s"
  by (auto simp: list_all_iff plain_char_def newline_char_def)

lemma line_ok_bare:
  assumes "key_text k" "bare_text s" "length s \<le> 100"
  shows "line_ok (entry k s)"
proof -
  have "raw_text s" using assms(2) last_in_set [of s] by (auto simp: bare_text_def raw_text_def list_all_iff)
  moreover have "newline_char \<notin> set s"
    using assms(2) by (intro plain_no_newline) (auto simp: bare_text_def list_all_iff)
  ultimately show ?thesis using assms by (intro line_ok_entry) auto
qed

lemma line_ok_quoted:
  assumes "key_text k" "short_text s"
  shows "line_ok (entry k (go_quote s))"
proof -
  have s: "list_all plain_char s" "length s \<le> 30000" using assms(2) by (auto simp: short_text_def)
  have q: "length (quote_char c) \<le> 2 \<and> newline_char \<notin> set (quote_char c)" if "c \<in> set s" for c
  proof -
    have p: "32 \<le> (of_char c :: nat)" "of_char c < (127 :: nat)"
      using s(1) that by (auto simp: list_all_iff plain_char_def)
    then have "c \<noteq> newline_char" by (auto simp: newline_char_def)
    with p show ?thesis by (simp add: quote_char_def Let_def newline_char_def)
  qed
  have "length (concat (map quote_char t)) \<le> 2 * length t" if "set t \<subseteq> set s" for t
    using that
  proof (induction t)
    case (Cons c t)
    then show ?case using q [of c] by fastforce
  qed simp
  from this [of s] have "length (go_quote s) \<le> 60002" using s(2) by (simp add: go_quote_def dquote_def)
  moreover have "newline_char \<notin> set (go_quote s)"
    using q by (auto simp: go_quote_def dquote_def newline_char_def)
  ultimately show ?thesis using assms(1) by (intro line_ok_entry) auto
qed

lemma line_ok_bool: "key_text k \<Longrightarrow> line_ok (entry k (format_bool b))"
  by (rule line_ok_bare) (simp_all, simp add: format_bool_def)

lemma line_ok_int: "key_text k \<Longrightarrow> go_int n \<Longrightarrow> line_ok (entry k (itoa n))"
  using length_itoa [of n] by (intro line_ok_bare) auto

lemma comment_lines:
  "line_ok ''# ggrun configuration''"
  "line_ok ''# Precedence: CLI flag > env var > this file > built-in default''"
  "load_line wide ''# ggrun configuration'' c = Inr c"
  "load_line wide ''# Precedence: CLI flag > env var > this file > built-in default'' c = Inr c"
proof -
  show "line_ok ''# ggrun configuration''"
    "line_ok ''# Precedence: CLI flag > env var > this file > built-in default''"
    by (simp_all add: line_ok_def newline_char_def max_line_def drop_cr_def)
  have t: "trim_space ''# ggrun configuration'' = ''# ggrun configuration''"
    "trim_space ''# Precedence: CLI flag > env var > this file > built-in default'' =
      ''# Precedence: CLI flag > env var > this file > built-in default''" by code_simp+
  show "load_line wide ''# ggrun configuration'' c = Inr c"
    "load_line wide ''# Precedence: CLI flag > env var > this file > built-in default'' c = Inr c"
    by (simp_all add: load_line_def t)
qed

lemma load_lines_append:
  "load_lines wide (xs @ ys) c = (case load_lines wide xs c of Inl e \<Rightarrow> Inl e | Inr c' \<Rightarrow> load_lines wide ys c')"
  by (induction xs arbitrary: c) (auto split: sum.split)

lemma load_saved_text:
  assumes "list_all line_ok (config_lines c)"
  shows "load_file wide (Some (config_text c)) d = load_lines wide (config_lines c) d"
proof -
  let ?ls = "config_lines c"
  have ne: "?ls \<noteq> []" by (simp add: config_lines_def)
  have sp: "split_char newline_char (config_text c) = ?ls @ [[]]"
    unfolding config_text_def
    by (rule split_saved [OF ne]) (use assms in \<open>auto simp: list_all_iff line_ok_def\<close>)
  have tw: "takeWhile (\<lambda>l. length l < max_line) (?ls @ [[]]) = ?ls @ [[]]"
    using assms by (simp add: takeWhile_eq_all_conv list_all_iff line_ok_def max_line_def)
  have dc: "map drop_cr (?ls @ [[]]) = ?ls @ [[]]"
    using assms by (auto simp: map_idI list_all_iff line_ok_def drop_cr_def)
  have "scan_lines (config_text c) = (?ls @ [[]], True)"
    using assms by (simp only: scan_lines_def sp Let_def tw dc) (simp add: list_all_iff line_ok_def max_line_def)
  moreover have "load_lines wide [[]] e = Inr e" for e
    by (simp add: load_line_def trim_space_def trim_left_def trim_right_def)
  ultimately show ?thesis by (simp add: load_file_def load_lines_append split: sum.split)
qed

lemma config_lines_ok:
  assumes "storable c" "normalize_ctx_value (cf_ctx c) = Inr ctx" "normalize_support_expert (cf_support_expert c) = Inr (cf_support_expert c)"
    "length (ctx_value (Some c)) \<le> 30000"
  shows "list_all line_ok (config_lines c)"
proof -
  have "short_text (ctx_value (Some c))"
    using assms(4) normalize_ctx_idem(2) [OF assms(2)] by (simp add: ctx_value_def assms(2) short_text_def)
  moreover have "short_text (cf_support_expert c)"
  proof -
    have "cf_support_expert c \<in> {''off'', ''auto'', ''on''}"
      using assms(3) by (auto simp: normalize_support_expert_def Let_def split: if_splits)
    moreover have "short_text ''off'' \<and> short_text ''auto'' \<and> short_text ''on''"
      by (simp add: short_text_def plain_char_def)
    ultimately show ?thesis by auto
  qed
  ultimately show ?thesis
    using assms(1) unfolding config_lines_def storable_def
    by (simp add: comment_lines line_ok_bool line_ok_int line_ok_quoted)
qed

lemma first_error_budgets:
  "first_error (map f xs) = None \<longleftrightarrow> (\<forall>x \<in> set xs. \<exists>v. f x = Inr v)"
  by (induction xs) (auto split: sum.splits elim: first_error.elims)

lemma checked_Inr [simp]: "checked (Inr v) store = Inr (store v)"
  by (simp add: checked_def)

definition valid_config :: "app_config \<Rightarrow> bool" where
  "valid_config c \<longleftrightarrow>
     1 \<le> cf_port c \<and> cf_port c \<le> 65535 \<and> 1 \<le> cf_ram_limit_percent c \<and> cf_ram_limit_percent c \<le> 100 \<and>
     normalize_ctx_value (cf_ctx c) = Inr (cf_ctx c) \<and>
     normalize_support_expert (cf_support_expert c) = Inr (cf_support_expert c) \<and>
     list_all (\<lambda>s. \<exists>v. parse_budget_mb_strict s = Inr v) [cf_ram_budget c, cf_vram_headroom c, cf_ram_headroom c] \<and>
     list_all (\<lambda>n. 0 \<le> n)
       [cf_cgroup_headroom_mb c, cf_max_restarts c, cf_keep_alive c, cf_health_timeout c, cf_tune_rounds c, cf_parallel c]"

definition all_from_file :: "app_config \<Rightarrow> app_config \<Rightarrow> app_config" where
  "all_from_file c d =
     c\<lparr>cf_sources := Some (\<lambda>k. if k \<in> set default_keys then ''file''
        else (case cf_sources d of None \<Rightarrow> default_sources | Some m \<Rightarrow> m) k)\<rparr>"

text \<open>One setting of \<open>c\<close> put into \<open>e\<close>, as a line of the file does it.\<close>

definition take_setting :: "string \<Rightarrow> app_config \<Rightarrow> app_config \<Rightarrow> app_config" where
  "take_setting key c e =
     (if key = ''PORT'' then e\<lparr>cf_port := cf_port c\<rparr>
      else if key = ''CTX_SIZE'' then e\<lparr>cf_ctx := cf_ctx c\<rparr>
      else if key = ''MAX_RESTARTS'' then e\<lparr>cf_max_restarts := cf_max_restarts c\<rparr>
      else if key = ''KEEP_ALIVE'' then e\<lparr>cf_keep_alive := cf_keep_alive c\<rparr>
      else if key = ''HEALTH_TIMEOUT'' then e\<lparr>cf_health_timeout := cf_health_timeout c\<rparr>
      else if key = ''MODEL_DIR'' then e\<lparr>cf_model_dir := cf_model_dir c\<rparr>
      else if key = ''CACHE_DIR'' then e\<lparr>cf_cache_dir := cf_cache_dir c\<rparr>
      else if key = ''LOG_DIR'' then e\<lparr>cf_log_dir := cf_log_dir c\<rparr>
      else if key = ''RAM_BUDGET'' then e\<lparr>cf_ram_budget := cf_ram_budget c\<rparr>
      else if key = ''RAM_LIMIT_PERCENT'' then e\<lparr>cf_ram_limit_percent := cf_ram_limit_percent c\<rparr>
      else if key = ''VRAM_HEADROOM'' then e\<lparr>cf_vram_headroom := cf_vram_headroom c\<rparr>
      else if key = ''RAM_HEADROOM'' then e\<lparr>cf_ram_headroom := cf_ram_headroom c\<rparr>
      else if key = ''CGROUP_HEADROOM_MB'' then e\<lparr>cf_cgroup_headroom_mb := cf_cgroup_headroom_mb c\<rparr>
      else if key = ''KV_PLACEMENT'' then e\<lparr>cf_kv_placement := cf_kv_placement c\<rparr>
      else if key = ''KV_QUALITY'' then e\<lparr>cf_kv_quality := cf_kv_quality c\<rparr>
      else if key = ''SWA_FULL'' then e\<lparr>cf_swa_full := cf_swa_full c\<rparr>
      else if key = ''ASSUME_YES'' then e\<lparr>cf_assume_yes := cf_assume_yes c\<rparr>
      else if key = ''ALLOW_LIVE_MEMORY_PROBE'' then e\<lparr>cf_allow_live_memory_probe := cf_allow_live_memory_probe c\<rparr>
      else if key = ''BACKEND'' then e\<lparr>cf_backend := cf_backend c\<rparr>
      else if key = ''LLAMA_SERVER'' then e\<lparr>cf_llama_server := cf_llama_server c\<rparr>
      else if key = ''APP_HOME'' then e\<lparr>cf_app_home := cf_app_home c\<rparr>
      else if key = ''TUNE_ROUNDS'' then e\<lparr>cf_tune_rounds := cf_tune_rounds c\<rparr>
      else if key = ''VISION'' then e\<lparr>cf_vision := cf_vision c\<rparr>
      else if key = ''PARALLEL'' then e\<lparr>cf_parallel := cf_parallel c\<rparr>
      else if key = ''HOST'' then e\<lparr>cf_host := cf_host c\<rparr>
      else if key = ''SPEC'' then e\<lparr>cf_spec := cf_spec c\<rparr>
      else if key = ''SUPPORT_EXPERT'' then e\<lparr>cf_support_expert := cf_support_expert c\<rparr>
      else if key = ''SUPPORT_ONLINE'' then e\<lparr>cf_support_online := cf_support_online c\<rparr>
      else if key = ''SUPPORT_MODEL'' then e\<lparr>cf_support_model := cf_support_model c\<rparr>
      else e)"

lemma take_setting_keys [simp]:
  "take_setting ''PORT'' c e = e\<lparr>cf_port := cf_port c\<rparr>"
  "take_setting ''CTX_SIZE'' c e = e\<lparr>cf_ctx := cf_ctx c\<rparr>"
  "take_setting ''MAX_RESTARTS'' c e = e\<lparr>cf_max_restarts := cf_max_restarts c\<rparr>"
  "take_setting ''KEEP_ALIVE'' c e = e\<lparr>cf_keep_alive := cf_keep_alive c\<rparr>"
  "take_setting ''HEALTH_TIMEOUT'' c e = e\<lparr>cf_health_timeout := cf_health_timeout c\<rparr>"
  "take_setting ''MODEL_DIR'' c e = e\<lparr>cf_model_dir := cf_model_dir c\<rparr>"
  "take_setting ''CACHE_DIR'' c e = e\<lparr>cf_cache_dir := cf_cache_dir c\<rparr>"
  "take_setting ''LOG_DIR'' c e = e\<lparr>cf_log_dir := cf_log_dir c\<rparr>"
  "take_setting ''RAM_BUDGET'' c e = e\<lparr>cf_ram_budget := cf_ram_budget c\<rparr>"
  "take_setting ''RAM_LIMIT_PERCENT'' c e = e\<lparr>cf_ram_limit_percent := cf_ram_limit_percent c\<rparr>"
  "take_setting ''VRAM_HEADROOM'' c e = e\<lparr>cf_vram_headroom := cf_vram_headroom c\<rparr>"
  "take_setting ''RAM_HEADROOM'' c e = e\<lparr>cf_ram_headroom := cf_ram_headroom c\<rparr>"
  "take_setting ''CGROUP_HEADROOM_MB'' c e = e\<lparr>cf_cgroup_headroom_mb := cf_cgroup_headroom_mb c\<rparr>"
  "take_setting ''KV_PLACEMENT'' c e = e\<lparr>cf_kv_placement := cf_kv_placement c\<rparr>"
  "take_setting ''KV_QUALITY'' c e = e\<lparr>cf_kv_quality := cf_kv_quality c\<rparr>"
  "take_setting ''SWA_FULL'' c e = e\<lparr>cf_swa_full := cf_swa_full c\<rparr>"
  "take_setting ''ASSUME_YES'' c e = e\<lparr>cf_assume_yes := cf_assume_yes c\<rparr>"
  "take_setting ''ALLOW_LIVE_MEMORY_PROBE'' c e = e\<lparr>cf_allow_live_memory_probe := cf_allow_live_memory_probe c\<rparr>"
  "take_setting ''BACKEND'' c e = e\<lparr>cf_backend := cf_backend c\<rparr>"
  "take_setting ''LLAMA_SERVER'' c e = e\<lparr>cf_llama_server := cf_llama_server c\<rparr>"
  "take_setting ''APP_HOME'' c e = e\<lparr>cf_app_home := cf_app_home c\<rparr>"
  "take_setting ''TUNE_ROUNDS'' c e = e\<lparr>cf_tune_rounds := cf_tune_rounds c\<rparr>"
  "take_setting ''VISION'' c e = e\<lparr>cf_vision := cf_vision c\<rparr>"
  "take_setting ''PARALLEL'' c e = e\<lparr>cf_parallel := cf_parallel c\<rparr>"
  "take_setting ''HOST'' c e = e\<lparr>cf_host := cf_host c\<rparr>"
  "take_setting ''SPEC'' c e = e\<lparr>cf_spec := cf_spec c\<rparr>"
  "take_setting ''SUPPORT_EXPERT'' c e = e\<lparr>cf_support_expert := cf_support_expert c\<rparr>"
  "take_setting ''SUPPORT_ONLINE'' c e = e\<lparr>cf_support_online := cf_support_online c\<rparr>"
  "take_setting ''SUPPORT_MODEL'' c e = e\<lparr>cf_support_model := cf_support_model c\<rparr>"
  by (simp_all add: take_setting_def)

lemma take_setting_fields [simp]:
  "cf_port (take_setting k c e) = (if k = ''PORT'' then cf_port c else cf_port e)"
  "cf_ctx (take_setting k c e) = (if k = ''CTX_SIZE'' then cf_ctx c else cf_ctx e)"
  "cf_max_restarts (take_setting k c e) = (if k = ''MAX_RESTARTS'' then cf_max_restarts c else cf_max_restarts e)"
  "cf_keep_alive (take_setting k c e) = (if k = ''KEEP_ALIVE'' then cf_keep_alive c else cf_keep_alive e)"
  "cf_health_timeout (take_setting k c e) = (if k = ''HEALTH_TIMEOUT'' then cf_health_timeout c else cf_health_timeout e)"
  "cf_model_dir (take_setting k c e) = (if k = ''MODEL_DIR'' then cf_model_dir c else cf_model_dir e)"
  "cf_cache_dir (take_setting k c e) = (if k = ''CACHE_DIR'' then cf_cache_dir c else cf_cache_dir e)"
  "cf_log_dir (take_setting k c e) = (if k = ''LOG_DIR'' then cf_log_dir c else cf_log_dir e)"
  "cf_ram_budget (take_setting k c e) = (if k = ''RAM_BUDGET'' then cf_ram_budget c else cf_ram_budget e)"
  "cf_ram_limit_percent (take_setting k c e) = (if k = ''RAM_LIMIT_PERCENT'' then cf_ram_limit_percent c else cf_ram_limit_percent e)"
  "cf_vram_headroom (take_setting k c e) = (if k = ''VRAM_HEADROOM'' then cf_vram_headroom c else cf_vram_headroom e)"
  "cf_ram_headroom (take_setting k c e) = (if k = ''RAM_HEADROOM'' then cf_ram_headroom c else cf_ram_headroom e)"
  "cf_cgroup_headroom_mb (take_setting k c e) = (if k = ''CGROUP_HEADROOM_MB'' then cf_cgroup_headroom_mb c else cf_cgroup_headroom_mb e)"
  "cf_kv_placement (take_setting k c e) = (if k = ''KV_PLACEMENT'' then cf_kv_placement c else cf_kv_placement e)"
  "cf_kv_quality (take_setting k c e) = (if k = ''KV_QUALITY'' then cf_kv_quality c else cf_kv_quality e)"
  "cf_swa_full (take_setting k c e) = (if k = ''SWA_FULL'' then cf_swa_full c else cf_swa_full e)"
  "cf_assume_yes (take_setting k c e) = (if k = ''ASSUME_YES'' then cf_assume_yes c else cf_assume_yes e)"
  "cf_allow_live_memory_probe (take_setting k c e) = (if k = ''ALLOW_LIVE_MEMORY_PROBE'' then cf_allow_live_memory_probe c else cf_allow_live_memory_probe e)"
  "cf_backend (take_setting k c e) = (if k = ''BACKEND'' then cf_backend c else cf_backend e)"
  "cf_llama_server (take_setting k c e) = (if k = ''LLAMA_SERVER'' then cf_llama_server c else cf_llama_server e)"
  "cf_app_home (take_setting k c e) = (if k = ''APP_HOME'' then cf_app_home c else cf_app_home e)"
  "cf_tune_rounds (take_setting k c e) = (if k = ''TUNE_ROUNDS'' then cf_tune_rounds c else cf_tune_rounds e)"
  "cf_vision (take_setting k c e) = (if k = ''VISION'' then cf_vision c else cf_vision e)"
  "cf_parallel (take_setting k c e) = (if k = ''PARALLEL'' then cf_parallel c else cf_parallel e)"
  "cf_host (take_setting k c e) = (if k = ''HOST'' then cf_host c else cf_host e)"
  "cf_spec (take_setting k c e) = (if k = ''SPEC'' then cf_spec c else cf_spec e)"
  "cf_support_expert (take_setting k c e) = (if k = ''SUPPORT_EXPERT'' then cf_support_expert c else cf_support_expert e)"
  "cf_support_online (take_setting k c e) = (if k = ''SUPPORT_ONLINE'' then cf_support_online c else cf_support_online e)"
  "cf_support_model (take_setting k c e) = (if k = ''SUPPORT_MODEL'' then cf_support_model c else cf_support_model e)"
  "cf_sources (take_setting k c e) = cf_sources e"
  subgoal by (simp add: take_setting_def if_distrib [of cf_port])
  subgoal by (simp add: take_setting_def if_distrib [of cf_ctx])
  subgoal by (simp add: take_setting_def if_distrib [of cf_max_restarts])
  subgoal by (simp add: take_setting_def if_distrib [of cf_keep_alive])
  subgoal by (simp add: take_setting_def if_distrib [of cf_health_timeout])
  subgoal by (simp add: take_setting_def if_distrib [of cf_model_dir])
  subgoal by (simp add: take_setting_def if_distrib [of cf_cache_dir])
  subgoal by (simp add: take_setting_def if_distrib [of cf_log_dir])
  subgoal by (simp add: take_setting_def if_distrib [of cf_ram_budget])
  subgoal by (simp add: take_setting_def if_distrib [of cf_ram_limit_percent])
  subgoal by (simp add: take_setting_def if_distrib [of cf_vram_headroom])
  subgoal by (simp add: take_setting_def if_distrib [of cf_ram_headroom])
  subgoal by (simp add: take_setting_def if_distrib [of cf_cgroup_headroom_mb])
  subgoal by (simp add: take_setting_def if_distrib [of cf_kv_placement])
  subgoal by (simp add: take_setting_def if_distrib [of cf_kv_quality])
  subgoal by (simp add: take_setting_def if_distrib [of cf_swa_full])
  subgoal by (simp add: take_setting_def if_distrib [of cf_assume_yes])
  subgoal by (simp add: take_setting_def if_distrib [of cf_allow_live_memory_probe])
  subgoal by (simp add: take_setting_def if_distrib [of cf_backend])
  subgoal by (simp add: take_setting_def if_distrib [of cf_llama_server])
  subgoal by (simp add: take_setting_def if_distrib [of cf_app_home])
  subgoal by (simp add: take_setting_def if_distrib [of cf_tune_rounds])
  subgoal by (simp add: take_setting_def if_distrib [of cf_vision])
  subgoal by (simp add: take_setting_def if_distrib [of cf_parallel])
  subgoal by (simp add: take_setting_def if_distrib [of cf_host])
  subgoal by (simp add: take_setting_def if_distrib [of cf_spec])
  subgoal by (simp add: take_setting_def if_distrib [of cf_support_expert])
  subgoal by (simp add: take_setting_def if_distrib [of cf_support_online])
  subgoal by (simp add: take_setting_def if_distrib [of cf_support_model])
  subgoal by (simp add: take_setting_def if_distrib [of cf_sources])
  done

definition file_step :: "app_config \<Rightarrow> string \<Rightarrow> app_config \<Rightarrow> app_config" where
  "file_step c k e = mark_source k ''file'' (take_setting k c e)"

lemma load_lines_steps:
  assumes "list_all2 (\<lambda>l k. \<forall>e. cf_sources e \<noteq> None \<longrightarrow> load_line wide l e = Inr (file_step c k e)) ls ks"
    "cf_sources d \<noteq> None"
  shows "load_lines wide ls d = Inr (foldl (\<lambda>e k. file_step c k e) d ks)"
  using assms
proof (induction ls ks arbitrary: d rule: list_all2_induct)
  case (Cons l ls k ks)
  then show ?case by (simp add: file_step_def)
qed simp

lemma foldl_field:
  assumes "\<And>k e. get (step k e) = (if k = key then v else get e)"
  shows "get (foldl (\<lambda>e k. step k e) d ks) = (if key \<in> set ks then v else get d)"
  by (induction ks arbitrary: d) (auto simp: assms)

lemma foldl_sources:
  "cf_sources d = Some m \<Longrightarrow>
    cf_sources (foldl (\<lambda>e k. file_step c k e) d ks) = Some (\<lambda>k. if k \<in> set ks then ''file'' else m k)"
proof (induction ks arbitrary: d m)
  case (Cons k ks)
  have "cf_sources (file_step c k d) = Some (m(k := ''file''))"
    using Cons.prems by (simp add: file_step_def mark_source_def)
  from Cons.IH [OF this] show ?case by auto
qed simp

lemma step_fields [simp]:
  "cf_port (file_step c k e) = (if k = ''PORT'' then cf_port c else cf_port e)"
  "cf_ctx (file_step c k e) = (if k = ''CTX_SIZE'' then cf_ctx c else cf_ctx e)"
  "cf_max_restarts (file_step c k e) = (if k = ''MAX_RESTARTS'' then cf_max_restarts c else cf_max_restarts e)"
  "cf_keep_alive (file_step c k e) = (if k = ''KEEP_ALIVE'' then cf_keep_alive c else cf_keep_alive e)"
  "cf_health_timeout (file_step c k e) = (if k = ''HEALTH_TIMEOUT'' then cf_health_timeout c else cf_health_timeout e)"
  "cf_model_dir (file_step c k e) = (if k = ''MODEL_DIR'' then cf_model_dir c else cf_model_dir e)"
  "cf_cache_dir (file_step c k e) = (if k = ''CACHE_DIR'' then cf_cache_dir c else cf_cache_dir e)"
  "cf_log_dir (file_step c k e) = (if k = ''LOG_DIR'' then cf_log_dir c else cf_log_dir e)"
  "cf_ram_budget (file_step c k e) = (if k = ''RAM_BUDGET'' then cf_ram_budget c else cf_ram_budget e)"
  "cf_ram_limit_percent (file_step c k e) = (if k = ''RAM_LIMIT_PERCENT'' then cf_ram_limit_percent c else cf_ram_limit_percent e)"
  "cf_vram_headroom (file_step c k e) = (if k = ''VRAM_HEADROOM'' then cf_vram_headroom c else cf_vram_headroom e)"
  "cf_ram_headroom (file_step c k e) = (if k = ''RAM_HEADROOM'' then cf_ram_headroom c else cf_ram_headroom e)"
  "cf_cgroup_headroom_mb (file_step c k e) = (if k = ''CGROUP_HEADROOM_MB'' then cf_cgroup_headroom_mb c else cf_cgroup_headroom_mb e)"
  "cf_kv_placement (file_step c k e) = (if k = ''KV_PLACEMENT'' then cf_kv_placement c else cf_kv_placement e)"
  "cf_kv_quality (file_step c k e) = (if k = ''KV_QUALITY'' then cf_kv_quality c else cf_kv_quality e)"
  "cf_swa_full (file_step c k e) = (if k = ''SWA_FULL'' then cf_swa_full c else cf_swa_full e)"
  "cf_assume_yes (file_step c k e) = (if k = ''ASSUME_YES'' then cf_assume_yes c else cf_assume_yes e)"
  "cf_allow_live_memory_probe (file_step c k e) = (if k = ''ALLOW_LIVE_MEMORY_PROBE'' then cf_allow_live_memory_probe c else cf_allow_live_memory_probe e)"
  "cf_backend (file_step c k e) = (if k = ''BACKEND'' then cf_backend c else cf_backend e)"
  "cf_llama_server (file_step c k e) = (if k = ''LLAMA_SERVER'' then cf_llama_server c else cf_llama_server e)"
  "cf_app_home (file_step c k e) = (if k = ''APP_HOME'' then cf_app_home c else cf_app_home e)"
  "cf_tune_rounds (file_step c k e) = (if k = ''TUNE_ROUNDS'' then cf_tune_rounds c else cf_tune_rounds e)"
  "cf_vision (file_step c k e) = (if k = ''VISION'' then cf_vision c else cf_vision e)"
  "cf_parallel (file_step c k e) = (if k = ''PARALLEL'' then cf_parallel c else cf_parallel e)"
  "cf_host (file_step c k e) = (if k = ''HOST'' then cf_host c else cf_host e)"
  "cf_spec (file_step c k e) = (if k = ''SPEC'' then cf_spec c else cf_spec e)"
  "cf_support_expert (file_step c k e) = (if k = ''SUPPORT_EXPERT'' then cf_support_expert c else cf_support_expert e)"
  "cf_support_online (file_step c k e) = (if k = ''SUPPORT_ONLINE'' then cf_support_online c else cf_support_online e)"
  "cf_support_model (file_step c k e) = (if k = ''SUPPORT_MODEL'' then cf_support_model c else cf_support_model e)"
  by (simp_all add: file_step_def mark_source_def)

lemma steps_fields:
  "cf_port (foldl (\<lambda>e k. file_step c k e) d default_keys) = cf_port c"
  "cf_ctx (foldl (\<lambda>e k. file_step c k e) d default_keys) = cf_ctx c"
  "cf_max_restarts (foldl (\<lambda>e k. file_step c k e) d default_keys) = cf_max_restarts c"
  "cf_keep_alive (foldl (\<lambda>e k. file_step c k e) d default_keys) = cf_keep_alive c"
  "cf_health_timeout (foldl (\<lambda>e k. file_step c k e) d default_keys) = cf_health_timeout c"
  "cf_model_dir (foldl (\<lambda>e k. file_step c k e) d default_keys) = cf_model_dir c"
  "cf_cache_dir (foldl (\<lambda>e k. file_step c k e) d default_keys) = cf_cache_dir c"
  "cf_log_dir (foldl (\<lambda>e k. file_step c k e) d default_keys) = cf_log_dir c"
  "cf_ram_budget (foldl (\<lambda>e k. file_step c k e) d default_keys) = cf_ram_budget c"
  "cf_ram_limit_percent (foldl (\<lambda>e k. file_step c k e) d default_keys) = cf_ram_limit_percent c"
  "cf_vram_headroom (foldl (\<lambda>e k. file_step c k e) d default_keys) = cf_vram_headroom c"
  "cf_ram_headroom (foldl (\<lambda>e k. file_step c k e) d default_keys) = cf_ram_headroom c"
  "cf_cgroup_headroom_mb (foldl (\<lambda>e k. file_step c k e) d default_keys) = cf_cgroup_headroom_mb c"
  "cf_kv_placement (foldl (\<lambda>e k. file_step c k e) d default_keys) = cf_kv_placement c"
  "cf_kv_quality (foldl (\<lambda>e k. file_step c k e) d default_keys) = cf_kv_quality c"
  "cf_swa_full (foldl (\<lambda>e k. file_step c k e) d default_keys) = cf_swa_full c"
  "cf_assume_yes (foldl (\<lambda>e k. file_step c k e) d default_keys) = cf_assume_yes c"
  "cf_allow_live_memory_probe (foldl (\<lambda>e k. file_step c k e) d default_keys) = cf_allow_live_memory_probe c"
  "cf_backend (foldl (\<lambda>e k. file_step c k e) d default_keys) = cf_backend c"
  "cf_llama_server (foldl (\<lambda>e k. file_step c k e) d default_keys) = cf_llama_server c"
  "cf_app_home (foldl (\<lambda>e k. file_step c k e) d default_keys) = cf_app_home c"
  "cf_tune_rounds (foldl (\<lambda>e k. file_step c k e) d default_keys) = cf_tune_rounds c"
  "cf_vision (foldl (\<lambda>e k. file_step c k e) d default_keys) = cf_vision c"
  "cf_parallel (foldl (\<lambda>e k. file_step c k e) d default_keys) = cf_parallel c"
  "cf_host (foldl (\<lambda>e k. file_step c k e) d default_keys) = cf_host c"
  "cf_spec (foldl (\<lambda>e k. file_step c k e) d default_keys) = cf_spec c"
  "cf_support_expert (foldl (\<lambda>e k. file_step c k e) d default_keys) = cf_support_expert c"
  "cf_support_online (foldl (\<lambda>e k. file_step c k e) d default_keys) = cf_support_online c"
  "cf_support_model (foldl (\<lambda>e k. file_step c k e) d default_keys) = cf_support_model c"
  subgoal by (subst foldl_field [of cf_port _ "''PORT''"]) (simp_all add: default_keys_def)
  subgoal by (subst foldl_field [of cf_ctx _ "''CTX_SIZE''"]) (simp_all add: default_keys_def)
  subgoal by (subst foldl_field [of cf_max_restarts _ "''MAX_RESTARTS''"]) (simp_all add: default_keys_def)
  subgoal by (subst foldl_field [of cf_keep_alive _ "''KEEP_ALIVE''"]) (simp_all add: default_keys_def)
  subgoal by (subst foldl_field [of cf_health_timeout _ "''HEALTH_TIMEOUT''"]) (simp_all add: default_keys_def)
  subgoal by (subst foldl_field [of cf_model_dir _ "''MODEL_DIR''"]) (simp_all add: default_keys_def)
  subgoal by (subst foldl_field [of cf_cache_dir _ "''CACHE_DIR''"]) (simp_all add: default_keys_def)
  subgoal by (subst foldl_field [of cf_log_dir _ "''LOG_DIR''"]) (simp_all add: default_keys_def)
  subgoal by (subst foldl_field [of cf_ram_budget _ "''RAM_BUDGET''"]) (simp_all add: default_keys_def)
  subgoal by (subst foldl_field [of cf_ram_limit_percent _ "''RAM_LIMIT_PERCENT''"]) (simp_all add: default_keys_def)
  subgoal by (subst foldl_field [of cf_vram_headroom _ "''VRAM_HEADROOM''"]) (simp_all add: default_keys_def)
  subgoal by (subst foldl_field [of cf_ram_headroom _ "''RAM_HEADROOM''"]) (simp_all add: default_keys_def)
  subgoal by (subst foldl_field [of cf_cgroup_headroom_mb _ "''CGROUP_HEADROOM_MB''"]) (simp_all add: default_keys_def)
  subgoal by (subst foldl_field [of cf_kv_placement _ "''KV_PLACEMENT''"]) (simp_all add: default_keys_def)
  subgoal by (subst foldl_field [of cf_kv_quality _ "''KV_QUALITY''"]) (simp_all add: default_keys_def)
  subgoal by (subst foldl_field [of cf_swa_full _ "''SWA_FULL''"]) (simp_all add: default_keys_def)
  subgoal by (subst foldl_field [of cf_assume_yes _ "''ASSUME_YES''"]) (simp_all add: default_keys_def)
  subgoal by (subst foldl_field [of cf_allow_live_memory_probe _ "''ALLOW_LIVE_MEMORY_PROBE''"]) (simp_all add: default_keys_def)
  subgoal by (subst foldl_field [of cf_backend _ "''BACKEND''"]) (simp_all add: default_keys_def)
  subgoal by (subst foldl_field [of cf_llama_server _ "''LLAMA_SERVER''"]) (simp_all add: default_keys_def)
  subgoal by (subst foldl_field [of cf_app_home _ "''APP_HOME''"]) (simp_all add: default_keys_def)
  subgoal by (subst foldl_field [of cf_tune_rounds _ "''TUNE_ROUNDS''"]) (simp_all add: default_keys_def)
  subgoal by (subst foldl_field [of cf_vision _ "''VISION''"]) (simp_all add: default_keys_def)
  subgoal by (subst foldl_field [of cf_parallel _ "''PARALLEL''"]) (simp_all add: default_keys_def)
  subgoal by (subst foldl_field [of cf_host _ "''HOST''"]) (simp_all add: default_keys_def)
  subgoal by (subst foldl_field [of cf_spec _ "''SPEC''"]) (simp_all add: default_keys_def)
  subgoal by (subst foldl_field [of cf_support_expert _ "''SUPPORT_EXPERT''"]) (simp_all add: default_keys_def)
  subgoal by (subst foldl_field [of cf_support_online _ "''SUPPORT_ONLINE''"]) (simp_all add: default_keys_def)
  subgoal by (subst foldl_field [of cf_support_model _ "''SUPPORT_MODEL''"]) (simp_all add: default_keys_def)
  done

lemma load_lines_saved:
  assumes "storable c" "valid_config c" "cf_sources d \<noteq> None"
  shows "load_lines wide (config_lines c) d = Inr (all_from_file c d)"
proof -
  have nums: "0 \<le> n \<Longrightarrow> go_int n \<Longrightarrow> parse_non_negative_int (itoa n) = Inr n" for n
    by (rule parse_count_itoa) (auto simp: go_int_def)
  have cv: "ctx_value (Some c) = cf_ctx c" using assms(2) by (simp add: ctx_value_def valid_config_def)
  have ctx: "normalize_ctx_value (cf_ctx c) = Inr (cf_ctx c)" "list_all plain_char (cf_ctx c)"
    using assms(2) normalize_ctx_idem(2) by (auto simp: valid_config_def)
  have sup: "normalize_support_expert (cf_support_expert c) = Inr (cf_support_expert c)"
      "list_all plain_char (cf_support_expert c)"
    using assms(2) normalize_support_idem(2) by (auto simp: valid_config_def)
  obtain b1 b2 b3 where budgets: "parse_budget_mb_strict (cf_ram_budget c) = Inr b1"
      "parse_budget_mb_strict (cf_vram_headroom c) = Inr b2" "parse_budget_mb_strict (cf_ram_headroom c) = Inr b3"
    using assms(2) by (auto simp: valid_config_def)
  have plain: "list_all plain_char (cf_model_dir c)"
      "list_all plain_char (cf_cache_dir c)"
      "list_all plain_char (cf_log_dir c)"
      "list_all plain_char (cf_ram_budget c)"
      "list_all plain_char (cf_vram_headroom c)"
      "list_all plain_char (cf_ram_headroom c)"
      "list_all plain_char (cf_kv_placement c)"
      "list_all plain_char (cf_kv_quality c)"
      "list_all plain_char (cf_backend c)"
      "list_all plain_char (cf_llama_server c)"
      "list_all plain_char (cf_app_home c)"
      "list_all plain_char (cf_host c)"
      "list_all plain_char (cf_spec c)"
      "list_all plain_char (cf_support_model c)"
    using assms(1) by (simp_all add: storable_def short_text_def)
  have ints: "parse_non_negative_int (itoa (cf_max_restarts c)) = Inr (cf_max_restarts c)"
      "parse_non_negative_int (itoa (cf_keep_alive c)) = Inr (cf_keep_alive c)"
      "parse_non_negative_int (itoa (cf_health_timeout c)) = Inr (cf_health_timeout c)"
      "parse_non_negative_int (itoa (cf_cgroup_headroom_mb c)) = Inr (cf_cgroup_headroom_mb c)"
      "parse_non_negative_int (itoa (cf_tune_rounds c)) = Inr (cf_tune_rounds c)"
      "parse_non_negative_int (itoa (cf_parallel c)) = Inr (cf_parallel c)"
    using assms(1,2) by (simp_all add: storable_def valid_config_def nums)

  have port: "parse_port (itoa (cf_port c)) = Inr (cf_port c)"
      "parse_ram_limit_percent (itoa (cf_ram_limit_percent c)) = Inr (cf_ram_limit_percent c)"
    using assms(2) by (simp_all add: valid_config_def parse_port_itoa parse_percent_itoa)
  have step: "list_all2 (\<lambda>l k. \<forall>e. cf_sources e \<noteq> None \<longrightarrow> load_line wide l e = Inr (file_step c k e))
      (drop 2 (config_lines c)) default_keys"
    unfolding config_lines_def default_keys_def
    by (simp add: load_text_entry load_bare_entry cv ctx sup budgets plain ints port file_step_def)
  have lines: "load_lines wide (config_lines c) d = load_lines wide (drop 2 (config_lines c)) d"
    by (simp add: config_lines_def comment_lines del: load_lines.simps(2)) (simp add: load_lines.simps comment_lines)
  obtain m where m: "cf_sources d = Some m" using assms(3) by auto
  have "foldl (\<lambda>e k. file_step c k e) d default_keys = all_from_file c d"
    by (rule app_config.equality) (simp_all add: all_from_file_def steps_fields m foldl_sources [OF m] cong del: if_weak_cong)
  with load_lines_steps [OF step assms(3)] show ?thesis by (simp add: lines)
qed

lemma assign_known: "assign_setting key v c = None \<longleftrightarrow> key \<notin> set default_keys"
  by (simp add: assign_setting_def default_keys_def)

lemma checked_cases: "checked r store = Inr c \<longleftrightarrow> (\<exists>v. r = Inr v \<and> c = store v)"
  by (auto simp: checked_def split: sum.splits)

lemma assign_sources: "assign_setting key v c = Some (Inr c') \<Longrightarrow> cf_sources c' = cf_sources c"
  by (auto simp: assign_setting_def checked_cases split: if_splits)

lemma normalize_ctx_length:
  assumes "normalize_ctx_value s = Inr v"
  shows "length v \<le> 20"
proof -
  consider "v = ''fit''" | "v = ''max''" | n where "v = itoa n" "go_int n"
    using assms
    by (auto simp: normalize_ctx_value_def Let_def atoi_def go_int_def split: if_splits option.splits)
  then show ?thesis by cases (auto dest: length_itoa)
qed

lemma parse_between_range:
  "parse_between e low high s = Inr n \<Longrightarrow> low \<le> n \<and> (\<forall>h. high = Some h \<longrightarrow> n \<le> h)"
  by (auto simp: parse_between_def split: option.splits if_splits)

lemma valid_free_updates [simp]:
  "valid_config (c\<lparr>cf_model_dir := v_model_dir\<rparr>) = valid_config c"
  "valid_config (c\<lparr>cf_cache_dir := v_cache_dir\<rparr>) = valid_config c"
  "valid_config (c\<lparr>cf_log_dir := v_log_dir\<rparr>) = valid_config c"
  "valid_config (c\<lparr>cf_kv_placement := v_kv_placement\<rparr>) = valid_config c"
  "valid_config (c\<lparr>cf_kv_quality := v_kv_quality\<rparr>) = valid_config c"
  "valid_config (c\<lparr>cf_swa_full := v_swa_full\<rparr>) = valid_config c"
  "valid_config (c\<lparr>cf_assume_yes := v_assume_yes\<rparr>) = valid_config c"
  "valid_config (c\<lparr>cf_allow_live_memory_probe := v_allow_live_memory_probe\<rparr>) = valid_config c"
  "valid_config (c\<lparr>cf_backend := v_backend\<rparr>) = valid_config c"
  "valid_config (c\<lparr>cf_llama_server := v_llama_server\<rparr>) = valid_config c"
  "valid_config (c\<lparr>cf_app_home := v_app_home\<rparr>) = valid_config c"
  "valid_config (c\<lparr>cf_vision := v_vision\<rparr>) = valid_config c"
  "valid_config (c\<lparr>cf_host := v_host\<rparr>) = valid_config c"
  "valid_config (c\<lparr>cf_spec := v_spec\<rparr>) = valid_config c"
  "valid_config (c\<lparr>cf_support_online := v_support_online\<rparr>) = valid_config c"
  "valid_config (c\<lparr>cf_support_model := v_support_model\<rparr>) = valid_config c"
  by (simp_all add: valid_config_def)

lemma valid_updates:
  assumes "valid_config c"
  shows "parse_port v = Inr n \<Longrightarrow> valid_config (c\<lparr>cf_port := n\<rparr>)"
    "normalize_ctx_value v = Inr w \<Longrightarrow> valid_config (c\<lparr>cf_ctx := w\<rparr>)"
    "parse_non_negative_int v = Inr n \<Longrightarrow> valid_config (c\<lparr>cf_max_restarts := n\<rparr>)"
    "parse_non_negative_int v = Inr n \<Longrightarrow> valid_config (c\<lparr>cf_keep_alive := n\<rparr>)"
    "parse_non_negative_int v = Inr n \<Longrightarrow> valid_config (c\<lparr>cf_health_timeout := n\<rparr>)"
    "parse_budget_mb_strict v = Inr n \<Longrightarrow> valid_config (c\<lparr>cf_ram_budget := v\<rparr>)"
    "parse_ram_limit_percent v = Inr n \<Longrightarrow> valid_config (c\<lparr>cf_ram_limit_percent := n\<rparr>)"
    "parse_budget_mb_strict v = Inr n \<Longrightarrow> valid_config (c\<lparr>cf_vram_headroom := v\<rparr>)"
    "parse_budget_mb_strict v = Inr n \<Longrightarrow> valid_config (c\<lparr>cf_ram_headroom := v\<rparr>)"
    "parse_non_negative_int v = Inr n \<Longrightarrow> valid_config (c\<lparr>cf_cgroup_headroom_mb := n\<rparr>)"
    "parse_non_negative_int v = Inr n \<Longrightarrow> valid_config (c\<lparr>cf_tune_rounds := n\<rparr>)"
    "parse_non_negative_int v = Inr n \<Longrightarrow> valid_config (c\<lparr>cf_parallel := n\<rparr>)"
    "normalize_support_expert v = Inr w \<Longrightarrow> valid_config (c\<lparr>cf_support_expert := w\<rparr>)"
  using assms
  by (auto simp: valid_config_def parse_port_def parse_ram_limit_percent_def parse_non_negative_int_def
      normalize_ctx_idem(1) normalize_support_idem(1) dest: parse_between_range)

lemma assign_valid:
  assumes "assign_setting key v c = Some (Inr c')" "valid_config c"
  shows "valid_config c'"
  using assms(1) valid_updates [OF assms(2)] assms(2) unfolding assign_setting_def
  by (auto simp: checked_cases split: if_splits)

lemma valid_sources [simp]: "valid_config (c\<lparr>cf_sources := m\<rparr>) = valid_config c"
  by (simp add: valid_config_def)

lemma set_config_valid:
  "set_config_value wide k raw src c = Inr c' \<Longrightarrow> valid_config c \<Longrightarrow> valid_config c'"
  by (auto simp: set_config_value_def Let_def with_sources_def mark_source_def
      dest!: assign_valid split: option.splits sum.splits)

lemma load_line_valid: "load_line wide l c = Inr c' \<Longrightarrow> valid_config c \<Longrightarrow> valid_config c'"
  by (auto simp: load_line_def Let_def split: if_splits option.splits sum.splits dest: set_config_valid)

lemma load_lines_valid: "load_lines wide ls c = Inr c' \<Longrightarrow> valid_config c \<Longrightarrow> valid_config c'"
  by (induction ls arbitrary: c) (auto split: sum.splits dest: load_line_valid)

lemma load_file_valid: "load_file wide content c = Inr c' \<Longrightarrow> valid_config c \<Longrightarrow> valid_config c'"
  by (auto simp: load_file_def split: option.splits prod.splits sum.splits if_splits dest: load_lines_valid)

lemma apply_env_valid: "apply_env_snapshot wide snap c = Inr c' \<Longrightarrow> valid_config c \<Longrightarrow> valid_config c'"
proof (induction snap arbitrary: c)
  case (Cons p snap)
  then show ?case using set_config_valid by (cases p) (auto split: sum.splits)
qed simp

lemma default_valid: "valid_config (default_config home)"
proof -
  have "normalize_ctx_value ''fit'' = Inr ''fit''" "normalize_support_expert ''auto'' = Inr ''auto''"
    "parse_budget_mb_strict [] = Inr 0" by code_simp+
  then show ?thesis by (simp add: valid_config_def default_config_def)
qed

lemma save_valid:
  assumes "valid_config c"
  shows "save_config c = Inr (c, config_text c)"
proof -
  have "first_error (map parse_budget_mb_strict [cf_ram_budget c, cf_vram_headroom c, cf_ram_headroom c]) = None"
    using assms unfolding first_error_budgets by (auto simp: valid_config_def)
  moreover have "first_error (map (\<lambda>n. bad_if (n < 0))
      [cf_cgroup_headroom_mb c, cf_max_restarts c, cf_keep_alive c, cf_health_timeout c, cf_tune_rounds c, cf_parallel c]) = None"
    using assms unfolding first_error_budgets by (auto simp: valid_config_def bad_if_def)
  ultimately show ?thesis using assms
    by (simp add: save_config_def valid_config_def parse_port_itoa parse_percent_itoa del: list.map)
qed

lemma load_persisted_valid:
  "load_persisted wide home io path fs = (Inr c, fs') \<Longrightarrow> valid_config c"
  by (auto simp: load_persisted_def default_valid split: prod.splits option.splits dest: load_file_valid)

section \<open>Provenance\<close>

lemma set_config_sources:
  assumes "set_config_value wide k raw src c = Inr c'" "cf_sources c = Some m"
  shows "cf_sources c' = Some (if setting_key k \<in> set default_keys then m(setting_key k := src) else m)"
  using assms assign_known [of "setting_key k" "unquote_config_value wide raw" c]
  by (auto simp: set_config_value_def Let_def mark_source_def dest: assign_sources split: option.splits sum.splits)

text \<open>The setting a line of the file assigns.\<close>

definition line_key :: "string \<Rightarrow> string option" where
  "line_key text =
     (let line = trim_space text in
      if line = [] \<or> has_prefix line ''#'' then None
      else case cut_char CHR ''='' line of
             None \<Rightarrow> None
           | Some (k, raw) \<Rightarrow>
               (let key = setting_key (trim_space k) in if key \<in> set default_keys then Some key else None))"

definition file_keys :: "string option option \<Rightarrow> string set" where
  "file_keys content =
     (case content of Some (Some text) \<Rightarrow> {k. Some k \<in> line_key ` set (fst (scan_lines text))} | _ \<Rightarrow> {})"

definition env_set_keys :: "(string \<Rightarrow> string) \<Rightarrow> string set" where
  "env_set_keys env = {k \<in> set default_keys. env (env_name k) \<noteq> []}"

lemma load_line_sources:
  assumes "load_line wide l c = Inr c'" "cf_sources c = Some m"
  shows "cf_sources c' = Some (\<lambda>k. if line_key l = Some k then ''file'' else m k)"
proof (cases "trim_space l = [] \<or> has_prefix (trim_space l) ''#'' \<or> cut_char CHR ''='' (trim_space l) = None")
  case True
  then have "c' = c" "line_key l = None" using assms(1) by (auto simp: load_line_def line_key_def Let_def split: if_splits)
  then show ?thesis using assms(2) by simp
next
  case False
  then obtain k raw where k: "cut_char CHR ''='' (trim_space l) = Some (k, raw)" by auto
  with False assms(1) have s: "set_config_value wide (trim_space k) raw ''file'' c = Inr c'"
    by (auto simp: load_line_def split: sum.splits)
  show ?thesis using False k set_config_sources [OF s assms(2)]
    by (auto simp: line_key_def Let_def)
qed

lemma load_lines_sources:
  assumes "load_lines wide ls c = Inr c'" "cf_sources c = Some m"
  shows "cf_sources c' = Some (\<lambda>k. if Some k \<in> line_key ` set ls then ''file'' else m k)"
  using assms
proof (induction ls arbitrary: c m)
  case (Cons l ls)
  then obtain c1 where 1: "load_line wide l c = Inr c1" "load_lines wide ls c1 = Inr c'"
    by (auto split: sum.splits)
  from Cons.IH [OF 1(2) load_line_sources [OF 1(1) Cons.prems(2)]] show ?case by auto
qed simp

lemma load_file_sources:
  assumes "load_file wide content c = Inr c'" "cf_sources c = Some m"
  shows "cf_sources c' = Some (\<lambda>k. if k \<in> file_keys (Some content) then ''file'' else m k)"
  using assms load_lines_sources
  by (fastforce simp: load_file_def file_keys_def split: option.splits prod.splits sum.splits if_splits)

lemma apply_env_sources:
  assumes "apply_env_snapshot wide snap c = Inr c'" "cf_sources c = Some m"
  shows "cf_sources c' =
    Some (\<lambda>k. if k \<in> set default_keys \<and> k \<in> setting_key ` fst ` set snap then ''env'' else m k)"
  using assms
proof (induction snap arbitrary: c m)
  case (Cons p snap)
  obtain key v where p: "p = (key, v)" by fastforce
  with Cons.prems(1) obtain c1 where 1: "set_config_value wide key v ''env'' c = Inr c1"
      "apply_env_snapshot wide snap c1 = Inr c'"
    by (auto split: sum.splits)
  from Cons.IH [OF 1(2) set_config_sources [OF 1(1) Cons.prems(2)]] show ?case by (auto simp: p)
qed simp

lemma setting_key_env: "k \<in> set default_keys \<Longrightarrow> setting_key (env_name k) = k"
proof -
  have "list_all (\<lambda>k. setting_key (env_name k) = k) default_keys" by code_simp
  then show "k \<in> set default_keys \<Longrightarrow> ?thesis" by (auto simp: list_all_iff)
qed

lemma snapshot_keys: "k \<in> set default_keys \<and> k \<in> setting_key ` fst ` set (snapshot_env env) \<longleftrightarrow> k \<in> env_set_keys env"
proof -
  have "snapshot_env env =
      map (\<lambda>k. (env_name k, env (env_name k))) (filter (\<lambda>k. env (env_name k) \<noteq> []) default_keys)"
    by (simp add: snapshot_env_def env_keys_def filter_map comp_def)
  then have "fst ` set (snapshot_env env) = env_name ` {k \<in> set default_keys. env (env_name k) \<noteq> []}"
    by (simp add: image_image)
  then have "setting_key ` fst ` set (snapshot_env env) =
      (\<lambda>k. setting_key (env_name k)) ` {k \<in> set default_keys. env (env_name k) \<noteq> []}"
    by (simp add: image_image)
  also have "\<dots> = {k \<in> set default_keys. env (env_name k) \<noteq> []}"
    using setting_key_env by (auto simp: image_iff)
  finally show ?thesis by (auto simp: env_set_keys_def)
qed

section \<open>Properties\<close>

text \<open>
  C27: A configuration that can be stored survives saving and loading: the text that Save writes, loaded
  over any configuration, yields every setting of the normalised configuration that was saved, each
  marked as coming from the file.
\<close>

theorem settings_save_load_roundtrip:
  assumes "storable c" "save_config c = Inr (c', text)" "cf_sources d \<noteq> None"
  shows "load_file wide (Some text) d = Inr (all_from_file c' d)"
proof -
  obtain p where p: "parse_port (itoa (cf_port c)) = Inr p"
    using assms(2) by (cases "parse_port (itoa (cf_port c))") (simp_all add: save_config_def)
  obtain ctx where ctx: "normalize_ctx_value (cf_ctx c) = Inr ctx"
    using assms(2) by (cases "normalize_ctx_value (cf_ctx c)") (simp_all add: save_config_def p)
  let ?budgets = "first_error (map parse_budget_mb_strict [cf_ram_budget c, cf_vram_headroom c, cf_ram_headroom c])"
  let ?counts = "first_error (map (\<lambda>n. bad_if (n < 0))
    [cf_cgroup_headroom_mb c, cf_max_restarts c, cf_keep_alive c, cf_health_timeout c, cf_tune_rounds c, cf_parallel c])"
  have budgets: "?budgets = None"
    using assms(2) by (cases ?budgets) (simp_all add: save_config_def p ctx del: list.map)
  have counts: "?counts = None"
    using assms(2) by (cases ?counts) (simp_all add: save_config_def p ctx budgets del: list.map)
  obtain r where r: "parse_ram_limit_percent (itoa (cf_ram_limit_percent c)) = Inr r"
    using assms(2)
    by (cases "parse_ram_limit_percent (itoa (cf_ram_limit_percent c))")
      (simp_all add: save_config_def p ctx budgets counts del: list.map)
  obtain mode where mode: "normalize_support_expert (cf_support_expert c) = Inr mode"
    using assms(2)
    by (cases "normalize_support_expert (cf_support_expert c)")
      (simp_all add: save_config_def p ctx budgets counts r del: list.map)
  have c': "c' = c\<lparr>cf_ctx := ctx, cf_support_expert := mode\<rparr>" and written: "text = config_text c'"
    using assms(2) by (simp_all add: save_config_def p ctx budgets counts r mode Let_def del: list.map) auto
  have "1 \<le> cf_port c \<and> cf_port c \<le> 65535"
    using p by (simp add: parse_port_def parse_between_def bare_trim atoi_def split: if_splits)
  moreover have "1 \<le> cf_ram_limit_percent c \<and> cf_ram_limit_percent c \<le> 100"
    using r by (simp add: parse_ram_limit_percent_def parse_between_def bare_trim atoi_def split: if_splits)
  moreover have "list_all (\<lambda>s. \<exists>v. parse_budget_mb_strict s = Inr v) [cf_ram_budget c, cf_vram_headroom c, cf_ram_headroom c]"
    using budgets unfolding first_error_budgets by simp
  moreover have "list_all (\<lambda>n. 0 \<le> n)
      [cf_cgroup_headroom_mb c, cf_max_restarts c, cf_keep_alive c, cf_health_timeout c, cf_tune_rounds c, cf_parallel c]"
    using counts unfolding first_error_budgets by (simp add: bad_if_def split: if_splits)
  ultimately have v: "valid_config c'"
    using normalize_ctx_idem(1) [OF ctx] normalize_support_idem(1) [OF mode] by (simp add: c' valid_config_def)
  have st: "storable c'" using assms(1) by (simp add: c' storable_def)
  have "list_all line_ok (config_lines c')"
    by (rule config_lines_ok [OF st, of ctx])
      (use v normalize_ctx_length [OF ctx] in \<open>auto simp: valid_config_def ctx_value_def c'\<close>)
  then show ?thesis using load_lines_saved [OF st v assms(3)] by (simp add: written load_saved_text)
qed

text \<open>
  C28: A configuration that loads is one that saves: whatever the files and the environment hold, when
  Load succeeds every value is within its bounds, and Save writes it without changing a setting.
\<close>

theorem loaded_settings_save:
  assumes "load_config wide env home io path fs = (Inr c, fs')"
  shows "save_config c = Inr (c, config_text c)"
proof -
  obtain c0 where "load_persisted wide home io path fs = (Inr c0, fs')"
      "apply_env_snapshot wide (snapshot_env env) c0 = Inr c"
    using assms by (auto simp: load_config_def split: prod.splits sum.splits)
  then show ?thesis by (metis load_persisted_valid apply_env_valid save_valid)
qed

text \<open>
  C29: The provenance of a loaded configuration is right for every setting: it is the environment exactly
  for the variables that are set, otherwise the file when a line of it (after migration) assigns the
  setting, otherwise the default.
\<close>

theorem settings_provenance:
  assumes "load_config wide env home io path fs = (Inr c, fs')"
  shows "cf_sources c =
    Some (\<lambda>k. if k \<in> env_set_keys env then ''env''
      else if k \<in> file_keys (fs' path) then ''file'' else default_sources k)"
proof -
  obtain c0 where 0: "load_persisted wide home io path fs = (Inr c0, fs')"
      "apply_env_snapshot wide (snapshot_env env) c0 = Inr c"
    using assms by (auto simp: load_config_def split: prod.splits sum.splits)
  have d: "cf_sources (default_config home) = Some default_sources" by (simp add: default_config_def)
  have "cf_sources c0 = Some (\<lambda>k. if k \<in> file_keys (fs' path) then ''file'' else default_sources k)"
    using 0(1) load_file_sources [OF _ d]
    by (auto simp: load_persisted_def d file_keys_def split: prod.splits option.splits)
  from apply_env_sources [OF 0(2) this] show ?thesis by (simp add: snapshot_keys)
qed

section \<open>Witnesses\<close>

text \<open>A machine without files whose environment sets the port.\<close>

definition port_env :: "string \<Rightarrow> string" where
  "port_env k = (if k = ''LLM_PORT'' then ''9000'' else [])"

definition no_io :: migration_io where
  "no_io = \<lparr>mi_rename = False, mi_write = False, mi_backup = None\<rparr>"

lemma load_port_env:
  "load_config (\<lambda>_. None) port_env ''/h'' no_io ''/h/config'' (\<lambda>_. None) =
    (Inr (mark_source ''PORT'' ''env'' ((default_config ''/h'')\<lparr>cf_port := 9000\<rparr>)), \<lambda>_. None)"
proof -
  have s: "snapshot_env port_env = [(''LLM_PORT'', ''9000'')]" by code_simp
  have v: "unquote_config_value (\<lambda>_. None) ''9000'' = ''9000''" "parse_port ''9000'' = Inr 9000" by code_simp+
  have "load_persisted (\<lambda>_. None) ''/h'' no_io ''/h/config'' (\<lambda>_. None) = (Inr (default_config ''/h''), \<lambda>_. None)"
    by (simp add: load_persisted_def migrate_legacy_config_def)
  moreover have "cf_sources (default_config ''/h'') \<noteq> None" by (simp add: default_config_def)
  ultimately show ?thesis by (simp add: load_config_def s set_config_value_def v)
qed

theorem settings_provenance_witness:
  "(if ''PORT'' \<in> env_set_keys port_env then ''env'' else []) = ''env'' \<and>
   cf_sources (mark_source ''PORT'' ''env'' ((default_config ''/h'')\<lparr>cf_port := 9000\<rparr>)) =
    Some (\<lambda>k. if k \<in> env_set_keys port_env then ''env'' else if k \<in> file_keys None then ''file'' else default_sources k)"
  using settings_provenance [OF load_port_env]
  by (simp add: env_set_keys_def default_keys_def env_name_def port_env_def)

theorem loaded_settings_save_witness:
  "\<exists>c. cf_port c = 9000 \<and> save_config c = Inr (c, config_text c)"
  using loaded_settings_save [OF load_port_env]
  by (intro exI [of _ "mark_source ''PORT'' ''env'' ((default_config ''/h'')\<lparr>cf_port := 9000\<rparr>)"])
    (simp add: mark_source_def)

theorem settings_save_load_roundtrip_witness:
  "let c = (default_config ''/h'')\<lparr>cf_host := [CHR 0x22, CHR ''a'', CHR 0x5C], cf_ctx := '' Native''\<rparr> in
   load_file (\<lambda>_. None) (Some (config_text (c\<lparr>cf_ctx := ''max''\<rparr>))) (default_config ''/other'') =
     Inr (all_from_file (c\<lparr>cf_ctx := ''max''\<rparr>) (default_config ''/other''))"
proof -
  let ?c = "(default_config ''/h'')\<lparr>cf_host := [CHR 0x22, CHR ''a'', CHR 0x5C], cf_ctx := '' Native''\<rparr>"
  have j: "path_join [''/h'', ''ai_models''] = ''/h/ai_models''"
    "path_join [''/h'', ''.cache'', ''ggrun''] = ''/h/.cache/ggrun''" by code_simp+
  have n: "normalize_ctx_value '' Native'' = Inr ''max''" "normalize_support_expert ''auto'' = Inr ''auto''"
    "parse_budget_mb_strict [] = Inr 0" by code_simp+
  have st: "storable ?c"
    by (simp add: storable_def default_config_def j short_text_def plain_char_def go_int_def min_int_def max_int_def)
  have "save_config ?c = Inr (?c\<lparr>cf_ctx := ''max''\<rparr>, config_text (?c\<lparr>cf_ctx := ''max''\<rparr>))"
    by (simp add: save_config_def default_config_def n bad_if_def Let_def parse_port_itoa parse_percent_itoa)
  moreover have "cf_sources (default_config ''/other'') \<noteq> None" by (simp add: default_config_def)
  ultimately show ?thesis unfolding Let_def by (rule settings_save_load_roundtrip [OF st])
qed

end
