(* ===== verification/ResourceLedger.thy ===== *)
theory ResourceLedger
  imports MoeBuilder
begin

text \<open>
  The resource ledger of a resolved launch (\<^verbatim>\<open>go/pkg/placement/optimizer.go\<close>): what every device and
  the host are charged, from a measured allocation when one matches the strategy and from shares of the
  model otherwise.

  What the probe and allocation files hold is an argument (\<open>ledger_evidence\<close>), and so is the identity of
  a strategy. A Go map from device to megabytes whose missing entries read as 0 is a function; where
  presence matters it is an association list. Shares are \<^verbatim>\<open>float64\<close>, rounded by \<open>f64\<close> at every operation.
\<close>

section \<open>Data\<close>

record device_account =
  da_gpu :: int
  da_role :: string
  da_free_mb :: int
  da_model_mb :: int
  da_context_mb :: int
  da_graph_mb :: int
  da_runtime_mb :: int
  da_required_mb :: int
  da_slack_mb :: int
  da_active :: bool
  da_evidence :: string
  da_bandwidth :: int

record host_account =
  ha_free_mb :: int
  ha_model_mb :: int
  ha_context_mb :: int
  ha_runtime_mb :: int
  ha_required_mb :: int
  ha_slack_mb :: int
  ha_reclaimable_mb :: int
  ha_evidence :: string

record resource_ledger =
  rl_devices :: "device_account list"
  rl_host :: host_account
  rl_exact :: bool
  rl_evidence :: string
  rl_fits :: bool
  rl_needs_admission :: bool
  rl_missing :: "int list"

record measured_allocation =
  al_evidence :: string
  al_identity :: string
  al_context_total_mb :: int
  al_context_by_gpu :: "int \<Rightarrow> int"
  al_context_host_mb :: int
  al_model_by_gpu :: "int \<Rightarrow> int"
  al_model_host_mb :: int
  al_unaccounted_by_gpu :: "int \<Rightarrow> int"
  al_unaccounted_host_mb :: int

record ledger_probe =
  lp_compute_mb :: int
  lp_compute_by_gpu :: "(int \<times> int) list"
  lp_growth_by_gpu :: "int \<Rightarrow> int"

record ledger_evidence =
  lv_allocation :: "measured_allocation option"
  lv_overhead_by_gpu :: "int \<Rightarrow> int"
  lv_probe :: "ledger_probe option"
  lv_host_overhead :: "int option"

record ledger_options =
  lgo_gpus :: "int list"
  lgo_host :: host_options
  lgo_lookup :: lookup_options

section \<open>Who uses a device\<close>

definition has_expert_layers :: "built_strategy \<Rightarrow> int \<Rightarrow> bool" where
  "has_expert_layers s gpu \<longleftrightarrow> list_ex (\<lambda>e. le_gpu e = gpu \<and> le_expert_layers e > 0) (bs_vram_ledger s)"

definition strategy_uses_gpu_at :: "built_strategy \<Rightarrow> nat \<Rightarrow> int \<Rightarrow> bool" where
  "strategy_uses_gpu_at s ordinal gpu \<longleftrightarrow>
     (if gpu < 0 then False
      else if has_expert_layers s gpu then True
      else case s_type s of
          CPUOnly \<Rightarrow> False
        | SingleGPU \<Rightarrow> la_main_gpu s = gpu
        | _ \<Rightarrow> if ordinal < length (pl_tensor_split s) then pl_tensor_split s ! ordinal > 0 else True)"

definition strategy_gpu_role_at :: "built_strategy \<Rightarrow> nat \<Rightarrow> int \<Rightarrow> string" where
  "strategy_gpu_role_at s ordinal gpu =
     (if \<not> strategy_uses_gpu_at s ordinal gpu then
        (if has_expert_layers s gpu then ''experts'' else ''unused'')
      else if s_type s = SingleGPU then ''model''
      else if list_ex (\<lambda>e. le_gpu e = gpu \<and> le_expert_only e) (bs_vram_ledger s) then ''experts''
      else if la_main_gpu s = gpu then ''main/layers''
      else ''layers'')"

definition effective_memory_bandwidth :: "gpu \<Rightarrow> int" where
  "effective_memory_bandwidth g = (if mem_bandwidth_mbps g > 0 then mem_bandwidth_mbps g else bandwidth_mbps g)"

section \<open>Shares\<close>

definition normalized_strategy_split :: "built_strategy \<Rightarrow> nat \<Rightarrow> rat list" where
  "normalized_strategy_split s n =
     (let out = map (\<lambda>i. if i < length (pl_tensor_split s) \<and> pl_tensor_split s ! i > 0 then pl_tensor_split s ! i else 0) [0..<n];
          total = foldl (\<lambda>acc v. f64 (acc + v)) 0 out
      in if total \<le> 0 then replicate n (f64 (1 / of_nat n)) else map (\<lambda>x. f64 (x / total)) out)"

definition share_mbs :: "int \<Rightarrow> rat list \<Rightarrow> int list" where
  "share_mbs total_mb shares = map (\<lambda>f. \<lceil>f64 (of_int total_mb * f)\<rceil>) shares"

definition total_size_of :: "model_profile \<Rightarrow> int" where
  "total_size_of m = (if m_total_size_mb m \<le> 0 then go_div (m_size_bytes m + 1048575) 1048576 else m_total_size_mb m)"

definition layer_split_mode :: "built_strategy \<Rightarrow> bool" where
  "layer_split_mode s \<longleftrightarrow> pl_split_mode s = [] \<or> equal_fold (pl_split_mode s) ''layer''"

definition add_expert_shares :: "gpu list \<Rightarrow> int \<Rightarrow> ledger_entry list \<Rightarrow> int list \<Rightarrow> int list" where
  "add_expert_shares gpus per_layer entries out =
     foldl (\<lambda>out e. case gpu_ordinal gpus (le_gpu e) of
         Some i \<Rightarrow> if le_expert_layers e > 0 then out[i := out ! i + le_expert_layers e * per_layer] else out
       | None \<Rightarrow> out) out entries"

definition estimated_model_shares ::
  "(rat \<Rightarrow> rat) \<Rightarrow> model_profile option \<Rightarrow> built_strategy \<Rightarrow> gpu list \<Rightarrow> int \<Rightarrow> int list" where
  "estimated_model_shares f32 mo s gpus total_mb =
     (let n = length gpus; zero = replicate n 0; shares = normalized_strategy_split s n; sh = kv_shape_for_strategy s False;
          ik = (case mo of
                  Some m \<Rightarrow>
                    if s_type s = MultiGPUDense \<and> m_byte_weighted_layer_split m \<and> layer_split_mode s \<and> ik_layer_sizes mo sh \<noteq> None
                    then (let (devices, output_dev) = backend_layer_device_assignments f32 mo sh shares
                          in Some (map bytes_to_mib_ceil (ik_device_weight_bytes m sh devices output_dev n True)))
                    else None
                | None \<Rightarrow> None)
      in if n = 0 \<or> s_type s = CPUOnly \<or> s_type s = DenseCPUOffload then zero
         else if s_type s = SingleGPU then
           (case gpu_ordinal gpus (la_main_gpu s) of Some i \<Rightarrow> zero[i := total_mb] | None \<Rightarrow> zero)
         else case ik of
             Some out \<Rightarrow> out
           | None \<Rightarrow>
               (case mo of
                  Some m \<Rightarrow>
                    if s_type s = MoEOffload \<and> m_expert_bytes m > 0 then
                      let non_expert = max 0 (bytes_to_mib_ceil (m_non_expert_bytes m - m_token_embd_bytes m));
                          moe_layers = max 1 (m_num_layers m - max 0 (m_leading_dense m));
                          per_layer = ceil_div_int (bytes_to_mib_ceil (m_expert_bytes m - m_shexp_bytes m)) moe_layers
                      in add_expert_shares gpus per_layer (bs_vram_ledger s) (share_mbs non_expert shares)
                    else share_mbs total_mb shares
                | None \<Rightarrow> share_mbs total_mb shares))"

definition estimated_context_shares :: "built_strategy \<Rightarrow> gpu list \<Rightarrow> int \<Rightarrow> int list" where
  "estimated_context_shares s gpus total_mb =
     (let n = length gpus; zero = replicate n 0 in
      if n = 0 \<or> total_mb \<le> 0 \<or> s_kv_placement s = ''cpu'' \<or> s_type s = CPUOnly then zero
      else if s_type s = SingleGPU then
        (case gpu_ordinal gpus (la_main_gpu s) of Some i \<Rightarrow> zero[i := total_mb] | None \<Rightarrow> zero)
      else share_mbs total_mb (normalized_strategy_split s n))"

definition estimated_model_context_shares ::
  "(rat \<Rightarrow> rat) \<Rightarrow> model_profile option \<Rightarrow> built_strategy \<Rightarrow> gpu list \<Rightarrow> int \<Rightarrow> int list" where
  "estimated_model_context_shares f32 mo s gpus total_mb =
     (let out = estimated_context_shares s gpus total_mb in
      if total_mb \<le> 0 \<or> s_kv_placement s = ''cpu'' \<or> s_type s = CPUOnly \<or> s_type s = SingleGPU \<or> \<not> layer_split_mode s
      then out
      else
        let sh = kv_shape_for_strategy s False; split = normalized_strategy_split s (length gpus) in
        case kv_layer_device_fractions mo sh (fst (backend_layer_device_assignments f32 mo sh split)) split of
          None \<Rightarrow> out
        | Some fractions \<Rightarrow> share_mbs total_mb fractions)"

definition compute_kv_total_mb_for_strategy :: "model_profile \<Rightarrow> built_strategy \<Rightarrow> int" where
  "compute_kv_total_mb_for_strategy m s =
     (let (exact, ok) = kv_layer_total_mb (Some m) (kv_shape_for_strategy s False) in
      if \<not> ok then compute_kv_total_mb m (s_context_size s) (s_kv_type s) (hs_swa_full s)
      else case measured_kv_total_mb m (s_context_size s) (s_kv_type s) (hs_swa_full s) of
          Some measured \<Rightarrow> if measured > exact then measured else exact
        | None \<Rightarrow> exact)"

section \<open>A measured allocation\<close>

definition allocation_distribution_compatible :: "int list \<Rightarrow> (int \<Rightarrow> int) \<Rightarrow> gpu list \<Rightarrow> bool" where
  "allocation_distribution_compatible expected actual gpus =
     (let expected_total = sum_list (map (max 0) expected);
          actual_total = sum_list (map (\<lambda>g. max 0 (actual (g_index g))) gpus)
      in if expected_total \<le> 0 then actual_total \<le> 64
         else if actual_total \<le> 0 then False
         else
           let tolerance = max 128 (go_div actual_total 4)
           in list_all (\<lambda>i. \<bar>actual (g_index (gpus ! i)) - go_div (expected ! i * actual_total) expected_total\<bar> \<le> tolerance)
                [0..<length gpus])"

definition measured_allocation_matches_strategy ::
  "(rat \<Rightarrow> rat) \<Rightarrow> (built_strategy \<Rightarrow> string) \<Rightarrow> measured_allocation \<Rightarrow> model_profile \<Rightarrow> built_strategy \<Rightarrow> gpu list \<Rightarrow> bool" where
  "measured_allocation_matches_strategy f32 identity al m s gpus =
     (if al_identity al \<noteq> [] then al_identity al = identity s
      else if \<not> allocation_distribution_compatible (estimated_model_shares f32 (Some m) s gpus (total_size_of m))
                 (al_model_by_gpu al) gpus then False
      else
        let total = (if s_kv_placement s \<noteq> ''cpu'' then
                       (if al_context_total_mb al \<le> 0 then compute_kv_total_mb_for_strategy m s else al_context_total_mb al)
                     else 0)
        in allocation_distribution_compatible (estimated_model_context_shares f32 (Some m) s gpus total)
             (al_context_by_gpu al) gpus)"

section \<open>Building the ledger\<close>

definition estimate_evidence :: string where "estimate_evidence = ''gguf-and-probe-estimate''"

definition empty_host :: host_account where
  "empty_host =
     \<lparr>ha_free_mb = 0, ha_model_mb = 0, ha_context_mb = 0, ha_runtime_mb = 0, ha_required_mb = 0, ha_slack_mb = 0,
      ha_reclaimable_mb = 0, ha_evidence = []\<rparr>"

definition refused_ledger :: "string \<Rightarrow> resource_ledger" where
  "refused_ledger why =
     \<lparr>rl_devices = [], rl_host = empty_host, rl_exact = False, rl_evidence = why, rl_fits = False,
      rl_needs_admission = False, rl_missing = []\<rparr>"

definition initial_account :: "built_strategy \<Rightarrow> gpu \<Rightarrow> device_account" where
  "initial_account s g =
     (let free = (case map_of (s_plan_free_vram s) (g_index g) of
                    Some planned \<Rightarrow> if planned \<ge> 0 then planned else vram_free_mb g
                  | None \<Rightarrow> vram_free_mb g)
      in \<lparr>da_gpu = g_index g, da_role = [], da_free_mb = free, da_model_mb = 0, da_context_mb = 0, da_graph_mb = 0,
          da_runtime_mb = 0, da_required_mb = 0, da_slack_mb = free, da_active = False, da_evidence = estimate_evidence,
          da_bandwidth = effective_memory_bandwidth g\<rparr>)"

definition measured_required :: "measured_allocation \<Rightarrow> gpu \<Rightarrow> int" where
  "measured_required al g =
     al_model_by_gpu al (g_index g) + al_context_by_gpu al (g_index g) + al_unaccounted_by_gpu al (g_index g)"

definition measured_account :: "measured_allocation \<Rightarrow> built_strategy \<Rightarrow> nat \<Rightarrow> gpu \<Rightarrow> device_account \<Rightarrow> device_account" where
  "measured_account al s i g d =
     (let required = measured_required al g in
      d\<lparr>da_model_mb := al_model_by_gpu al (g_index g), da_context_mb := al_context_by_gpu al (g_index g),
        da_graph_mb := al_unaccounted_by_gpu al (g_index g), da_required_mb := required,
        da_slack_mb := da_free_mb d - required, da_active := (strategy_uses_gpu_at s i (g_index g) \<or> required > 0),
        da_role := strategy_gpu_role_at s i (g_index g), da_evidence := al_evidence al\<rparr>)"

text \<open>The loop over the measured rows: the rows written, whether all still fit, and whether no row was missing.\<close>

fun measured_rows ::
  "measured_allocation \<Rightarrow> built_strategy \<Rightarrow> (nat \<times> gpu) list \<Rightarrow> device_account list \<Rightarrow> bool \<Rightarrow> device_account list \<times> bool \<times> bool" where
  "measured_rows al s [] ds fits = (ds, fits, True)"
| "measured_rows al s ((i, g) # rest) ds fits =
     (if strategy_uses_gpu_at s i (g_index g) \<and> measured_required al g \<le> 0 then (ds, fits, False)
      else
        let d = measured_account al s i g (ds ! i)
        in measured_rows al s rest (ds[i := d]) (fits \<and> \<not> da_slack_mb d < 0))"

definition measured_host :: "measured_allocation \<Rightarrow> capabilities \<Rightarrow> built_strategy \<Rightarrow> host_account" where
  "measured_host al caps s =
     (let free = ram_free_mb (c_ram caps);
          required = al_model_host_mb al + al_context_host_mb al + al_unaccounted_host_mb al
      in \<lparr>ha_free_mb = free, ha_model_mb = al_model_host_mb al, ha_context_mb = al_context_host_mb al,
          ha_runtime_mb = al_unaccounted_host_mb al, ha_required_mb = required, ha_slack_mb = free - required,
          ha_reclaimable_mb = hs_reclaimable_weights_mb s, ha_evidence = al_evidence al\<rparr>)"

text \<open>The compute buffer of a device, when something prices it.\<close>

definition ledger_compute ::
  "ledger_evidence \<Rightarrow> ledger_options \<Rightarrow> model_profile \<Rightarrow> built_strategy \<Rightarrow> nat \<Rightarrow> gpu \<Rightarrow> int option \<times> int" where
  "ledger_compute ev opts m s i g =
     (let probed = (case lv_probe ev of
             None \<Rightarrow> (None, 0)
           | Some p \<Rightarrow>
               (case map_of (lp_compute_by_gpu p) (g_index g) of
                  Some mb \<Rightarrow> if mb \<ge> 0 then (Some mb, mb) else (None, mb)
                | None \<Rightarrow>
                    if lp_compute_by_gpu p = [] \<and> lp_compute_mb p > 0 then (Some (lp_compute_mb p), lp_compute_mb p)
                    else (None, 0)))
      in if fst probed = None \<and> strategy_uses_gpu_at s i (g_index g) \<and> \<not> ho_require_measured (lgo_host opts) then
           let cold = first_launch_compute_buf_mb_at_context (Some m) (pl_ubatch_size s) (max 1 (s_parallel s)) (s_context_size s)
           in (if cold > 0 then Some cold else None, cold)
         else probed)"

definition estimated_account ::
  "ledger_evidence \<Rightarrow> ledger_options \<Rightarrow> model_profile \<Rightarrow> built_strategy \<Rightarrow> int list \<Rightarrow> int list \<Rightarrow> nat \<Rightarrow> gpu
     \<Rightarrow> device_account \<Rightarrow> device_account" where
  "estimated_account ev opts m s model_shares context_shares i g d =
     (let (known, compute) = ledger_compute ev opts m s i g;
          runtime = (case lv_probe ev of None \<Rightarrow> 0 | Some p \<Rightarrow> lp_growth_by_gpu p (g_index g));
          graph = lv_overhead_by_gpu ev (g_index g) + compute;
          required = model_shares ! i + context_shares ! i + graph + runtime;
          uses = strategy_uses_gpu_at s i (g_index g)
      in d\<lparr>da_evidence := (if known = None \<and> uses then ''missing-compute-measurement'' else da_evidence d),
           da_model_mb := model_shares ! i, da_context_mb := context_shares ! i, da_graph_mb := graph,
           da_runtime_mb := runtime, da_required_mb := required, da_slack_mb := da_free_mb d - required,
           da_active := (uses \<or> required > 0), da_role := strategy_gpu_role_at s i (g_index g)\<rparr>)"

definition estimated_host ::
  "ledger_evidence \<Rightarrow> ledger_options \<Rightarrow> capabilities \<Rightarrow> model_profile \<Rightarrow> built_strategy \<Rightarrow> int \<Rightarrow> host_account" where
  "estimated_host ev opts caps m s total_mb =
     (let required =
            (if lk_host_footprint_mb s > 0 then lk_host_footprint_mb s
             else planned_ram_runtime_overhead_mb (lv_host_overhead ev) (Some caps) m (pl_ubatch_size s) total_mb (lgo_host opts) +
                  (if s_type s = CPUOnly \<or> s_type s = DenseCPUOffload then total_mb else 0) +
                  (if la_lookup_policy s = ResidentTier then la_lookup_mb s else 0));
          free = ram_free_mb (c_ram caps)
      in \<lparr>ha_free_mb = free, ha_model_mb = 0, ha_context_mb = 0, ha_runtime_mb = required, ha_required_mb = required,
          ha_slack_mb = free - required, ha_reclaimable_mb = hs_reclaimable_weights_mb s, ha_evidence = estimate_evidence\<rparr>)"

definition host_allows :: "built_strategy \<Rightarrow> host_account \<Rightarrow> bool" where
  "host_allows s h \<longleftrightarrow> \<not> (ha_slack_mb h < 0 \<and> \<not> s_mmap_required s)"

definition missing_compute ::
  "ledger_evidence \<Rightarrow> ledger_options \<Rightarrow> model_profile \<Rightarrow> built_strategy \<Rightarrow> gpu list \<Rightarrow> int list" where
  "missing_compute ev opts m s gpus =
     map (\<lambda>i. g_index (gpus ! i))
       (filter (\<lambda>i. fst (ledger_compute ev opts m s i (gpus ! i)) = None \<and> strategy_uses_gpu_at s i (g_index (gpus ! i)))
         [0..<length gpus])"

definition exact_ledger ::
  "measured_allocation \<Rightarrow> capabilities \<Rightarrow> built_strategy \<Rightarrow> device_account list \<Rightarrow> bool \<Rightarrow> resource_ledger" where
  "exact_ledger al caps s ds fits =
     (let h = measured_host al caps s
      in \<lparr>rl_devices = ds, rl_host = h, rl_exact = True, rl_evidence = al_evidence al, rl_fits = (fits \<and> host_allows s h),
          rl_needs_admission = False, rl_missing = []\<rparr>)"

definition estimated_ledger ::
  "(rat \<Rightarrow> rat) \<Rightarrow> ledger_evidence \<Rightarrow> ledger_options \<Rightarrow> capabilities \<Rightarrow> model_profile \<Rightarrow> built_strategy
     \<Rightarrow> device_account list \<Rightarrow> bool \<Rightarrow> resource_ledger" where
  "estimated_ledger f32 ev opts caps m s ds fits =
     (let gpus = c_gpus caps;
          total_mb = total_size_of m;
          kv = (if hs_context_allocation_mb s > 0 then hs_context_allocation_mb s else compute_kv_total_mb_for_strategy m s);
          models = estimated_model_shares f32 (Some m) s gpus total_mb;
          contexts = estimated_model_context_shares f32 (Some m) s gpus kv;
          ds' = map (\<lambda>i. estimated_account ev opts m s models contexts i (gpus ! i) (ds ! i)) [0..<length gpus];
          h = estimated_host ev opts caps m s total_mb;
          fits' = (fits \<and> list_all (\<lambda>d. \<not> da_slack_mb d < 0) ds' \<and> host_allows s h);
          missing = missing_compute ev opts m s gpus
      in \<lparr>rl_devices = ds', rl_host = h, rl_exact = False,
          rl_evidence = (if missing = [] then estimate_evidence else ''incomplete-compute-evidence''),
          rl_fits = (fits' \<and> missing = []), rl_needs_admission = (fits' \<and> missing \<noteq> []), rl_missing = missing\<rparr>)"

definition usable_allocation ::
  "(rat \<Rightarrow> rat) \<Rightarrow> (built_strategy \<Rightarrow> string) \<Rightarrow> ledger_evidence \<Rightarrow> model_profile \<Rightarrow> built_strategy \<Rightarrow> gpu list
     \<Rightarrow> measured_allocation option" where
  "usable_allocation f32 identity ev m s gpus =
     (case lv_allocation ev of
        None \<Rightarrow> None
      | Some al \<Rightarrow>
          if observed_allocation_evidence (al_evidence al) \<and> measured_allocation_matches_strategy f32 identity al m s gpus
          then Some al else None)"

definition resolved_ledger ::
  "(rat \<Rightarrow> rat) \<Rightarrow> (built_strategy \<Rightarrow> string) \<Rightarrow> ledger_evidence \<Rightarrow> ledger_options \<Rightarrow> capabilities \<Rightarrow> model_profile
     \<Rightarrow> built_strategy \<Rightarrow> resource_ledger" where
  "resolved_ledger f32 identity ev opts caps m s =
     (let gpus = c_gpus caps;
          ds0 = map (initial_account s) gpus
      in case usable_allocation f32 identity ev m s gpus of
           None \<Rightarrow> estimated_ledger f32 ev opts caps m s ds0 True
         | Some al \<Rightarrow>
             let (ds, fits, all_rows) = measured_rows al s (zip [0..<length gpus] gpus) ds0 True
             in if all_rows then exact_ledger al caps s ds fits
                else estimated_ledger f32 ev opts caps m s ds fits)"

definition ledger_accounting :: "model_profile \<Rightarrow> built_strategy \<Rightarrow> ledger_options \<Rightarrow> model_profile \<times> ledger_options" where
  "ledger_accounting m s opts =
     (let (mo, lo) = strategy_accounting (Some m) (Some (lookup_strategy.truncate s)) (lgo_lookup opts)
      in (case mo of Some m1 \<Rightarrow> m1 | None \<Rightarrow> m, opts\<lparr>lgo_lookup := lo\<rparr>))"

definition build_resource_ledger ::
  "(rat \<Rightarrow> rat) \<Rightarrow> (built_strategy \<Rightarrow> string) \<Rightarrow> ledger_evidence \<Rightarrow> capabilities option \<Rightarrow> model_profile option
     \<Rightarrow> built_strategy option \<Rightarrow> ledger_options \<Rightarrow> resource_ledger" where
  "build_resource_ledger f32 identity ev co mo so opts =
     (case (co, mo, so) of
        (Some caps0, Some m, Some s) \<Rightarrow>
          (case restrict_gpus co (lgo_gpus opts) of
             Inr (Some caps) \<Rightarrow>
               resolved_ledger f32 identity ev (snd (ledger_accounting m s opts)) caps (fst (ledger_accounting m s opts)) s
           | _ \<Rightarrow> refused_ledger ''invalid-device-set'')
      | _ \<Rightarrow> refused_ledger ''incomplete-input'')"

section \<open>The accounts\<close>

definition balanced :: "device_account \<Rightarrow> bool" where
  "balanced d \<longleftrightarrow>
     da_required_mb d = da_model_mb d + da_context_mb d + da_graph_mb d + da_runtime_mb d \<and>
     da_slack_mb d = da_free_mb d - da_required_mb d"

lemma balanced_initial [simp]: "balanced (initial_account s g)" "da_runtime_mb (initial_account s g) = 0"
  by (simp_all add: balanced_def initial_account_def Let_def)

lemma balanced_measured [simp]:
  "da_runtime_mb d = 0 \<Longrightarrow> balanced (measured_account al s i g d)"
  "da_runtime_mb (measured_account al s i g d) = da_runtime_mb d"
  "da_gpu (measured_account al s i g d) = da_gpu d" "da_free_mb (measured_account al s i g d) = da_free_mb d"
  by (simp_all add: balanced_def measured_account_def measured_required_def Let_def)

lemma balanced_estimated [simp]:
  "balanced (estimated_account ev opts m s ms cs i g d)"
  "da_gpu (estimated_account ev opts m s ms cs i g d) = da_gpu d"
  "da_free_mb (estimated_account ev opts m s ms cs i g d) = da_free_mb d"
  by (simp_all add: balanced_def estimated_account_def Let_def split_beta)

lemma list_all_update: "list_all P xs \<Longrightarrow> (i < length xs \<Longrightarrow> P x) \<Longrightarrow> list_all P (xs[i := x])"
  by (cases "i < length xs") (auto simp: list_all_iff list_update_beyond dest!: subsetD [OF set_update_subset_insert])

lemma measured_rows_length [simp]: "length (fst (measured_rows al s igs ds fits)) = length ds"
  by (induction al s igs ds fits rule: measured_rows.induct) (simp_all add: Let_def)

lemma measured_rows_map:
  assumes "\<And>i g d. get (measured_account al s i g d) = get d"
  shows "map get (fst (measured_rows al s igs ds fits)) = map get ds"
proof (induction igs arbitrary: ds fits)
  case (Cons ig igs)
  obtain i g where ig: "ig = (i, g)" by fastforce
  have "map get (ds[i := measured_account al s i g (ds ! i)]) = map get ds"
    by (cases "i < length ds") (simp_all add: map_update assms list_update_same_conv list_update_beyond not_less)
  then show ?case using Cons by (simp add: ig Let_def)
qed simp

lemma measured_rows_all:
  assumes "\<And>i g d. P d \<Longrightarrow> P (measured_account al s i g d)" "list_all P ds"
  shows "list_all P (fst (measured_rows al s igs ds fits))"
  using assms(2)
proof (induction igs arbitrary: ds fits)
  case (Cons ig igs)
  obtain i g where ig: "ig = (i, g)" by fastforce
  have "list_all P (ds[i := measured_account al s i g (ds ! i)])"
    using Cons.prems assms(1) by (intro list_all_update) (auto simp: list_all_length)
  then show ?case using Cons by (simp add: ig Let_def)
qed simp

lemma zip_from_Cons: "zip [k..<k + length (g # gs)] (g # gs) = (k, g) # zip [Suc k..<Suc k + length gs] gs"
proof -
  have "[k..<k + length (g # gs)] = k # [Suc k..<Suc k + length gs]"
    by (subst upt_conv_Cons) (simp_all del: upt_Suc)
  then show ?thesis by (simp del: upt_Suc)
qed

lemma interval_head:
  "(\<forall>i. k \<le> i \<and> i < k + length (g # gs) \<longrightarrow> P i) \<longleftrightarrow> P k \<and> (\<forall>i. Suc k \<le> i \<and> i < Suc k + length gs \<longrightarrow> P i)"
  (is "?all \<longleftrightarrow> _")
proof
  assume ?all
  then show "P k \<and> (\<forall>i. Suc k \<le> i \<and> i < Suc k + length gs \<longrightarrow> P i)" by simp
next
  assume tail: "P k \<and> (\<forall>i. Suc k \<le> i \<and> i < Suc k + length gs \<longrightarrow> P i)"
  show ?all
  proof (intro allI impI)
    fix i assume "k \<le> i \<and> i < k + length (g # gs)"
    with tail show "P i" by (cases "i = k") simp_all
  qed
qed

lemma measured_rows_before:
  "j < k \<Longrightarrow> fst (measured_rows al s (zip [k..<k + length gs] gs) ds fits) ! j = ds ! j"
proof (induction gs arbitrary: k ds fits)
  case (Cons g gs)
  have z: "zip [k..<k + length (g # gs)] (g # gs) = (k, g) # zip [Suc k..<Suc k + length gs] gs"
    by (rule zip_from_Cons)
  from Cons.prems Cons.IH [of "Suc k"] show ?case unfolding z by (simp add: Let_def del: upt_Suc)
qed simp

lemma measured_rows_fit:
  assumes "measured_rows al s (zip [k..<k + length gs] gs) ds fits = (ds', fits', True)" "k + length gs \<le> length ds"
  shows "fits' \<longleftrightarrow> fits \<and> (\<forall>i. k \<le> i \<and> i < k + length gs \<longrightarrow> da_slack_mb (ds' ! i) \<ge> 0)"
  using assms
proof (induction gs arbitrary: k ds fits)
  case (Cons g gs)
  have z: "zip [k..<k + length (g # gs)] (g # gs) = (k, g) # zip [Suc k..<Suc k + length gs] gs"
    by (rule zip_from_Cons)
  let ?d = "measured_account al s k g (ds ! k)"
  have r: "measured_rows al s (zip [Suc k..<Suc k + length gs] gs) (ds[k := ?d]) (fits \<and> \<not> da_slack_mb ?d < 0) = (ds', fits', True)"
    using Cons.prems(1) unfolding z by (simp add: Let_def del: upt_Suc split: if_splits)
  have "fits' \<longleftrightarrow> (fits \<and> \<not> da_slack_mb ?d < 0) \<and>
      (\<forall>i. Suc k \<le> i \<and> i < Suc k + length gs \<longrightarrow> da_slack_mb (ds' ! i) \<ge> 0)"
    by (rule Cons.IH [OF r]) (use Cons.prems(2) in simp)
  moreover have "ds' ! k = ?d"
    using measured_rows_before [of k "Suc k" al s gs "ds[k := ?d]" "fits \<and> \<not> da_slack_mb ?d < 0"] r Cons.prems(2) by simp
  ultimately show ?case unfolding interval_head by (simp add: not_less conj_assoc)
qed simp

section \<open>The verdict\<close>

text \<open>
  The measured rows were abandoned because an active device has none, after one of them had already
  exceeded its device.
\<close>

definition abandoned_overrun ::
  "(rat \<Rightarrow> rat) \<Rightarrow> (built_strategy \<Rightarrow> string) \<Rightarrow> ledger_evidence \<Rightarrow> model_profile \<Rightarrow> built_strategy \<Rightarrow> gpu list \<Rightarrow> bool" where
  "abandoned_overrun f32 identity ev m s gpus \<longleftrightarrow>
     (case usable_allocation f32 identity ev m s gpus of
        None \<Rightarrow> False
      | Some al \<Rightarrow>
          let (ds, fits, all_rows) = measured_rows al s (zip [0..<length gpus] gpus) (map (initial_account s) gpus) True
          in \<not> all_rows \<and> \<not> fits)"

text \<open>
  The ledger's verdict. Every account balances, and the ledger fits exactly when no device and (without
  required mmap) not the host is overcommitted, no compute buffer is missing, and the measured rows were not
  abandoned after an overrun. The last condition is no property of the accounts: a launch whose every
  account fits can be refused for a reading that the ledger no longer contains.
\<close>

theorem ledger_verdict:
  assumes "restrict_gpus (Some caps0) (lgo_gpus opts) = Inr (Some caps)"
    and ledger: "L = build_resource_ledger f32 identity ev (Some caps0) (Some m) (Some s) opts"
  shows "list_all balanced (rl_devices L) \<and> map da_gpu (rl_devices L) = map g_index (c_gpus caps) \<and>
    (rl_fits L \<longleftrightarrow>
      list_all (\<lambda>d. da_slack_mb d \<ge> 0) (rl_devices L) \<and> host_allows s (rl_host L) \<and> rl_missing L = [] \<and>
      \<not> abandoned_overrun f32 identity ev (fst (ledger_accounting m s opts)) s (c_gpus caps))"
proof -
  let ?gpus = "c_gpus caps"
  let ?ds0 = "map (initial_account s) ?gpus"
  define m1 where "m1 = fst (ledger_accounting m s opts)"
  define opts1 where "opts1 = snd (ledger_accounting m s opts)"
  have L: "L = resolved_ledger f32 identity ev opts1 caps m1 s"
    using assms(1) by (simp add: ledger build_resource_ledger_def m1_def opts1_def)
  have est: "list_all balanced (rl_devices E) \<and> map da_gpu (rl_devices E) = map g_index ?gpus \<and>
      (rl_fits E \<longleftrightarrow> list_all (\<lambda>d. da_slack_mb d \<ge> 0) (rl_devices E) \<and> host_allows s (rl_host E) \<and> rl_missing E = [] \<and> fits)"
    if E: "E = estimated_ledger f32 ev opts1 caps m1 s ds fits" and g: "map da_gpu ds = map g_index ?gpus" for E ds fits
  proof -
    have "length ds = length ?gpus" using arg_cong [OF g, of length] by simp
    then have "map (\<lambda>i. da_gpu (ds ! i)) [0..<length ?gpus] = map da_gpu ds"
      by (metis map_nth map_map comp_apply map_cong length_map)
    then show ?thesis using g
      by (auto simp: E estimated_ledger_def Let_def list_all_iff not_less comp_def)
  qed
  have g0: "map da_gpu ?ds0 = map g_index ?gpus" by (simp add: initial_account_def Let_def)
  show ?thesis
  proof (cases "usable_allocation f32 identity ev m1 s ?gpus")
    case None
    then show ?thesis using est [OF _ g0, of L True] by (simp add: L resolved_ledger_def abandoned_overrun_def flip: m1_def)
  next
    case (Some al)
    obtain ds fits all_rows where r: "measured_rows al s (zip [0..<length ?gpus] ?gpus) ?ds0 True = (ds, fits, all_rows)"
      by (cases "measured_rows al s (zip [0..<length ?gpus] ?gpus) ?ds0 True")
    have ds: "ds = fst (measured_rows al s (zip [0..<length ?gpus] ?gpus) ?ds0 True)" by (simp add: r)
    have g: "map da_gpu ds = map g_index ?gpus"
      unfolding ds by (subst measured_rows_map) (simp_all add: initial_account_def Let_def)
    show ?thesis
    proof (cases all_rows)
      case False
      then show ?thesis using est [OF _ g, of L fits] by (simp add: L resolved_ledger_def Some r abandoned_overrun_def flip: m1_def)
    next
      case True
      have "list_all (\<lambda>d. da_runtime_mb d = 0 \<and> balanced d) ds"
        unfolding ds by (rule measured_rows_all) (auto simp: list_all_iff)
      then have b: "list_all balanced ds" by (auto simp: list_all_iff)
      have len: "length ds = length ?gpus" by (simp add: ds)
      have "fits \<longleftrightarrow> (\<forall>i. i < length ?gpus \<longrightarrow> da_slack_mb (ds ! i) \<ge> 0)"
        using measured_rows_fit [of al s 0 ?gpus ?ds0 True ds fits] r True by simp
      then have f: "fits \<longleftrightarrow> list_all (\<lambda>d. da_slack_mb d \<ge> 0) ds" by (simp add: list_all_length len)
      show ?thesis using b g f True by (simp add: L resolved_ledger_def Some r abandoned_overrun_def exact_ledger_def Let_def flip: m1_def)
    qed
  qed
qed

section \<open>Witnesses\<close>

text \<open>
  Two devices, and an allocation measured when the first one held the whole model: its row exceeds the free
  memory and the second device has no row. The estimate that replaces the rows fits on every account, and
  the ledger is refused all the same.
\<close>

definition demo_allocation :: measured_allocation where
  "demo_allocation =
     \<lparr>al_evidence = ''live-allocated'', al_identity = ''p'', al_context_total_mb = 0, al_context_by_gpu = (\<lambda>_. 0), al_context_host_mb = 0,
      al_model_by_gpu = (\<lambda>g. if g = 0 then 400 else 0), al_model_host_mb = 0, al_unaccounted_by_gpu = (\<lambda>_. 0),
      al_unaccounted_host_mb = 0\<rparr>"

definition demo_ledger_evidence :: ledger_evidence where
  "demo_ledger_evidence =
     \<lparr>lv_allocation = Some demo_allocation, lv_overhead_by_gpu = (\<lambda>_. 20),
      lv_probe = Some \<lparr>lp_compute_mb = 0, lp_compute_by_gpu = [(0, 10), (1, 10)], lp_growth_by_gpu = (\<lambda>_. 0)\<rparr>, lv_host_overhead = Some 10\<rparr>"

definition demo_ledger_options :: ledger_options where
  "demo_ledger_options = \<lparr>lgo_gpus = [], lgo_host = demo_host_options, lgo_lookup = bo_lookup demo_build_options\<rparr>"

definition demo_dense :: built_strategy where
  "demo_dense = demo_built\<lparr>s_type := MultiGPUDense, s_plan_free_vram := [], pl_tensor_split := [1 / 2, 1 / 2], pl_ubatch_size := 512\<rparr>"

definition demo_ledger :: resource_ledger where
  "demo_ledger = build_resource_ledger id (\<lambda>_. ''p'') demo_ledger_evidence (Some ((demo_host [] 200)\<lparr>c_gpus := demo_gpus\<rparr>))
     (Some (empty_profile\<lparr>m_total_size_mb := 100\<rparr>)) (Some demo_dense) demo_ledger_options"

theorem ledger_verdict_witness:
  "list_all balanced (rl_devices demo_ledger) \<and> list_all (\<lambda>d. da_slack_mb d \<ge> 0) (rl_devices demo_ledger) \<and> \<not> rl_fits demo_ledger \<and>
   abandoned_overrun id (\<lambda>_. ''p'') demo_ledger_evidence
     (fst (ledger_accounting (empty_profile\<lparr>m_total_size_mb := 100\<rparr>) demo_dense demo_ledger_options)) demo_dense demo_gpus"
proof -
  let ?caps = "(demo_host [] 200)\<lparr>c_gpus := demo_gpus\<rparr>"
  have "restrict_gpus (Some ?caps) (lgo_gpus demo_ledger_options) = Inr (Some ?caps)"
    by (simp add: restrict_gpus_def demo_ledger_options_def)
  note ledger_verdict [OF this demo_ledger_def]
  moreover have "list_all (\<lambda>d. da_slack_mb d \<ge> 0) (rl_devices demo_ledger) \<and> host_allows demo_dense (rl_host demo_ledger) \<and>
      rl_missing demo_ledger = [] \<and> \<not> rl_fits demo_ledger" by code_simp
  ultimately show ?thesis by simp
qed

end
