(* ===== verification/Spec2Isabelle.thy ===== *)
theory Spec2Isabelle
  imports Scheduler Profiles GgufHeader LoadMode OverrideTensor ContextSearch PlacementCache LayerSplit IkLayerSplit Recovery Daemon TunePlan StrategyArgs SparseLookup ArchProbe Backends HostMemory AutoContext Builders Verified Settings ResourceLedger HostExec
begin

text \<open>
  A verification development for ggrun, a launcher that decides how a language model is placed on the
  devices and the host memory of one machine, starts an inference server with that placement, recovers
  it when it crashes, and schedules the requests of coding agents against it. The Go sources are under
  \<^verbatim>\<open>src/go\<close>; paths below are relative to \<^verbatim>\<open>src/go/pkg\<close>.

  How the parts interact. \<^verbatim>\<open>detect\<close> yields the machine, \<^verbatim>\<open>gguf\<close> the model.
  \<^verbatim>\<open>placement.Compute\<close> normalises the cache type, searches or accepts a context size, chooses
  a kind of placement and calls one builder; the result is a strategy, which \<^verbatim>\<open>Strategy.Args\<close>
  turns into a command line and the caches write to disk. \<^verbatim>\<open>tune\<close> proposes changes of that
  command line, \<^verbatim>\<open>recovery\<close> derates it after a failed allocation, \<^verbatim>\<open>controller\<close> and the
  verified configurations remember what has served, \<^verbatim>\<open>daemon\<close> runs it over HTTP,
  \<^verbatim>\<open>claudeauto\<close> admits requests to it and \<^verbatim>\<open>backends\<close> chooses the server binary.

  Shared theories.
  \<^item> \<^verbatim>\<open>Prelude\<close>: Go integers (division, wrap-around), the parts of \<^verbatim>\<open>strings\<close> and
    \<^verbatim>\<open>strconv\<close> the program uses, list lemmas. \<^verbatim>\<open>GoText\<close>: \<^verbatim>\<open>%q\<close> and
    \<^verbatim>\<open>strconv.Unquote\<close>. \<^verbatim>\<open>Paths\<close>: the lexical part of \<^verbatim>\<open>path/filepath\<close>.
    \<^verbatim>\<open>GoFloat\<close>: the rounding of a \<^verbatim>\<open>float64\<close> operation (nearest, ties to even) and
    its laws: monotone, exact on short significands, never up to one for a fraction.
  \<^item> \<^verbatim>\<open>BestScan\<close>: the loop that keeps the first best element of a slice. Its locale
    \<^verbatim>\<open>scan_order\<close> is the contract of the comparison; it is interpreted on the waiters of the
    scheduler, on the plans of the lookup tier and on the age of helper scripts.

  The model and the machine.
  \<^item> \<^verbatim>\<open>GgufHeader\<close> (\<^verbatim>\<open>gguf/gguf.go\<close>): reading a header; the template written in
    any well-formed header is the one read back. \<^verbatim>\<open>ModelInfo\<close> (same file): the metadata record,
    the check of the helper's output, the choice of the helper.
  \<^item> \<^verbatim>\<open>Machine\<close> (\<^verbatim>\<open>detect/detect.go\<close>, \<^verbatim>\<open>placement/placement.go\<close>): the
    inventory, headroom, limits, device orders, seats of companion helpers, which never overcommit a
    device. \<^verbatim>\<open>ModelProfile\<close>: the model as placement sees it.

  Planning (\<^verbatim>\<open>placement\<close>).
  \<^item> \<^verbatim>\<open>KvTypes\<close> (\<^verbatim>\<open>placement.go\<close>, \<^verbatim>\<open>kvgeometry.go\<close>) and
    \<^verbatim>\<open>KvLayers\<close> (\<^verbatim>\<open>kvlayers.go\<close>): types and sizes of the KV cache, per block and
    per device.
  \<^item> \<^verbatim>\<open>ContextSearch\<close> (\<^verbatim>\<open>Compute\<close>,
    \<^verbatim>\<open>computeAutomaticContextStrategy\<close>): the candidates and the bisection of an automatic
    context. The result is itself a planned size, its boundary is a failed one, and under the locale
    \<^verbatim>\<open>monotone_admission\<close> (interpreted on the KV budget) it is the largest.
  \<^item> \<^verbatim>\<open>AutoContext\<close>: the window sizes that seed the search; the window is the greatest that
    fits, and what it holds stays resident.
  \<^item> \<^verbatim>\<open>HostMemory\<close> (\<^verbatim>\<open>placement.go\<close>, \<^verbatim>\<open>promptcache.go\<close>): loader
    pageability, checkpoints, host footprint, prompt cache, the choice of the kind of placement and the
    memory guard. \<^verbatim>\<open>SparseLookup\<close> (\<^verbatim>\<open>sparselookup.go\<close>): who may hold the lookup
    tables of a model, and the choice among the plans.
  \<^item> \<^verbatim>\<open>LayerSplit\<close> and \<^verbatim>\<open>IkLayerSplit\<close> (\<^verbatim>\<open>iklayersplit.go\<close>): from
    shares to layers, in llama.cpp's and in the byte-weighted way, and the search for shares that fit.
    Each layer has one owner, decided in the rounded arithmetic of the code.
  \<^item> \<^verbatim>\<open>MoeBuilder\<close> (\<^verbatim>\<open>buildMoEOffload\<close>) and \<^verbatim>\<open>Builders\<close> (the other
    builders and the micro-batch ladders): the complete builders. Every device of an accepted expert
    layout stays within its memory, its host bound says when an accepted plan overshoots and by how much, and
    the ladder's rung is within its tolerance of the cheapest. \<^verbatim>\<open>HostExec\<close>
    (\<^verbatim>\<open>hostexec.go\<close>): the price of running experts on the host. \<^verbatim>\<open>ResourceLedger\<close>
    (\<^verbatim>\<open>optimizer.go\<close>): what each device and the host are charged, and exactly when the ledger fits.
  \<^item> \<^verbatim>\<open>OverrideTensor\<close>: the \<^verbatim>\<open>-ot\<close> string, its parser, and the derating after a
    failed allocation. \<^verbatim>\<open>StrategyArgs\<close> (with \<^verbatim>\<open>draft.go\<close>): the command line, read
    back by the cache and kept by the tuner.
  \<^item> \<^verbatim>\<open>PlacementCache\<close> (\<^verbatim>\<open>cache.go\<close>): the file of a placement; what is written is
    read back, and a stale entry is refused.
  \<^item> \<^verbatim>\<open>Verified\<close> (\<^verbatim>\<open>verified.go\<close>): the record of a launch that served. The
    direct start from it emits the same command line; a theorem shows which measurements it loses. The
    lookup tier that \<^verbatim>\<open>computeResolvedStrategy\<close> adds to the result afterwards is
    \<^verbatim>\<open>apply_sparse_lookup_tier\<close> in \<^verbatim>\<open>SparseLookup\<close>; it is not part of that theorem.

  Running.
  \<^item> \<^verbatim>\<open>LoadMode\<close> (\<^verbatim>\<open>server/load_mode.go\<close>): translation of the loading options.
  \<^item> \<^verbatim>\<open>Recovery\<close> (\<^verbatim>\<open>recovery/recovery.go\<close>): the restart loop returns after at most
    \<^verbatim>\<open>5 + 3 * MaxRestarts\<close> attempts when the fallback is another binary, and a plan is persisted only under the arguments it belongs
    to, after they have served; the theorem names the one case in which the code persists an older plan.
  \<^item> \<^verbatim>\<open>Daemon\<close> (\<^verbatim>\<open>daemon/daemon.go\<close>): handlers of the control endpoint; without
    the token nothing changes, errors keep the configuration.
  \<^item> \<^verbatim>\<open>Scheduler\<close> (\<^verbatim>\<open>claudeauto/scheduler.go\<close>): admission; the slots are never
    exceeded, no admissible waiter is left while one is free, and the choice is by lane, share and age.
    The step relation \<^verbatim>\<open>sched_step\<close> interleaves the critical sections.
  \<^item> \<^verbatim>\<open>Profiles\<close> (\<^verbatim>\<open>controller/profile.go\<close>): a profile becomes active only through
    every verification stage, and the last good one survives unless its record cannot be read. The locale \<^verbatim>\<open>promotion_chain\<close>
    holds the argument for any transition relation and is interpreted on the code's.
  \<^item> \<^verbatim>\<open>TuneFlags\<close>, \<^verbatim>\<open>TunePlan\<close> (\<^verbatim>\<open>tune/engine.go\<close>): overrides under
    protection and the experiments of the tuner, which stay within bounds.
  \<^item> \<^verbatim>\<open>ArchProbe\<close> and \<^verbatim>\<open>Backends\<close> (\<^verbatim>\<open>backends/archsupport.go\<close>,
    \<^verbatim>\<open>backends.go\<close>, \<^verbatim>\<open>archconstraints.go\<close>): the three-valued answer whether a
    binary knows an architecture, the registry (the locale \<^verbatim>\<open>keyed_store\<close> is its contract,
    interpreted on the manifest) and the routing to a backend.
  \<^item> \<^verbatim>\<open>Settings\<close> (\<^verbatim>\<open>config/config.go\<close>): the settings file and the environment. What is
    saved is read back, what loads can be saved, and every setting is attributed to where it came from.

  Conventions. A Go string is a list of bytes and case mapping is that of ASCII. A Go integer is an
  \<^typ>\<open>int\<close>; where the code guards against overflow the model keeps the guard, and where a sum may
  wrap it is written with \<^verbatim>\<open>wrap64\<close>. A \<^verbatim>\<open>float64\<close> is a rational; the shares of
  devices, which decide by strict comparisons, are rounded by \<^verbatim>\<open>f64\<close> at every operation, and other
  estimates are exact. The
  \<^verbatim>\<open>float32\<close> rounding of the byte-weighted walk, the logarithms of two cost formulas and
  \<^verbatim>\<open>%g\<close> of a fraction are parameters. \<^verbatim>\<open>ParseFloat\<close> reads plain decimals. A Go map is an
  association list or a function. Errors are values of an error datatype.
  What the program learns from outside is an argument: file contents and outcomes of file operations,
  decoded JSON, measured buffers, what each poll of a started server sees, the clock, hashes.
  Log and trace output is left out.

  Loops. Every definition is total. The bisection, the removal of a device from a tensor split, the
  walks over grids and the reader of literals end by measures. The recovery loop takes the number of
  attempts as fuel, with a theorem that the bound above suffices. The bounds of the source (24 objects
  of an architecture probe, 512 directories, a discovery budget of 400) are constants of the model.

  Not modelled. The command line front end (\<^verbatim>\<open>src/go/cmd/ggrun\<close>) sequences these packages around
  subprocesses, prompts and log parsers; its calibration and preflight launch servers to measure them.
  The terminal interface, self update, downloads, hardware probing, benchmarks and the HTTP proxy are
  input and output. The recommendation, the optimizer's cost search and draft selection rank by
  floating-point estimates with transcendental functions. The manifest lists each with its files.
\<close>

end
